(* ===== verification/Prelude.thy ===== *)
theory Prelude
  imports Complex_Main "HOL-Library.AList" "HOL-Library.List_Lexorder" "HOL-Library.Char_ord"
begin

text \<open>
  Shared vocabulary of the development: Python exceptions as values, results as sums, the
  insertion-ordered Python dictionary as an association list (\<^theory_text>\<open>AList.update\<close>
  overwrites in place or appends, as \<open>d[k] = v\<close> does), JSON values, and the generic facts on
  lists and dictionaries every component uses.
\<close>

named_theorems result_simps \<open>evaluation of results\<close>
named_theorems dict_simps \<open>lookups in ordered dictionaries\<close>

section \<open>Exceptions and results\<close>

text \<open>
  One constructor per exception class the modelled code raises; the argument is the message.
  \<open>ChannelDecoherentError\<close> and \<open>PermissionDenied\<close> are subclasses of \<open>RuntimeError\<close>;
  \<open>OtherError\<close> stands for the other subclasses of \<open>Exception\<close>.
\<close>

datatype py_exc =
    ValueError string
  | KeyError string
  | TypeError string
  | RuntimeError string
  | FileNotFoundError string
  | ChannelDecoherentError string
  | PermissionDenied string
  | OverflowError string
  | IndexError string
  | OtherError string

type_synonym 'a result = "py_exc + 'a"

fun is_runtime_error :: "py_exc \<Rightarrow> bool" where
  "is_runtime_error (RuntimeError _) = True"
| "is_runtime_error (ChannelDecoherentError _) = True"
| "is_runtime_error (PermissionDenied _) = True"
| "is_runtime_error _ = False"

fun exc_text :: "py_exc \<Rightarrow> string" where
  "exc_text (ValueError m) = m"
| "exc_text (KeyError m) = m"
| "exc_text (TypeError m) = m"
| "exc_text (RuntimeError m) = m"
| "exc_text (FileNotFoundError m) = m"
| "exc_text (ChannelDecoherentError m) = m"
| "exc_text (PermissionDenied m) = m"
| "exc_text (OverflowError m) = m"
| "exc_text (IndexError m) = m"
| "exc_text (OtherError m) = m"

fun rbind :: "'a result \<Rightarrow> ('a \<Rightarrow> 'b result) \<Rightarrow> 'b result" where
  "rbind (Inl e) f = Inl e"
| "rbind (Inr x) f = f x"

definition raise_if :: "bool \<Rightarrow> py_exc \<Rightarrow> unit result" where
  "raise_if b e = (if b then Inl e else Inr ())"

fun rmap_list :: "('a \<Rightarrow> 'b result) \<Rightarrow> 'a list \<Rightarrow> 'b list result" where
  "rmap_list f [] = Inr []"
| "rmap_list f (x # xs) = rbind (f x) (\<lambda>y. rbind (rmap_list f xs) (\<lambda>ys. Inr (y # ys)))"

fun of_option :: "py_exc \<Rightarrow> 'a option \<Rightarrow> 'a result" where
  "of_option e None = Inl e"
| "of_option e (Some x) = Inr x"

declare raise_if_def [result_simps]

lemma rbind_Inr_iff: "rbind m f = Inr y \<longleftrightarrow> (\<exists>x. m = Inr x \<and> f x = Inr y)"
  by (cases m) auto

lemma rbind_Inl_iff: "rbind m f = Inl e \<longleftrightarrow> m = Inl e \<or> (\<exists>x. m = Inr x \<and> f x = Inl e)"
  by (cases m) auto

lemma raise_if_Inr_iff [simp]: "raise_if b e = Inr u \<longleftrightarrow> \<not> b"
  by (simp add: raise_if_def)

lemma raise_if_Inl_iff [simp]: "raise_if b e = Inl e' \<longleftrightarrow> b \<and> e' = e"
  by (auto simp: raise_if_def)

lemma of_option_Inr_iff [simp]: "of_option e m = Inr x \<longleftrightarrow> m = Some x"
  by (cases m) auto

lemma of_option_Inl_iff [simp]: "of_option e m = Inl e' \<longleftrightarrow> m = None \<and> e' = e"
  by (cases m) auto

lemma rmap_list_Inr_length: "rmap_list f xs = Inr ys \<Longrightarrow> length ys = length xs"
  by (induction xs arbitrary: ys) (auto simp: rbind_Inr_iff)

lemma rmap_list_Inr_nth:
  "rmap_list f xs = Inr ys \<Longrightarrow> i < length xs \<Longrightarrow> f (xs ! i) = Inr (ys ! i)"
  by (induction xs arbitrary: ys i) (auto simp: rbind_Inr_iff nth_Cons split: nat.splits)

section \<open>Stateful operations\<close>

text \<open>
  A method that reads and writes shared state and may raise: effects made before the exception
  stay, so the state is returned in both cases.
\<close>

type_synonym ('s, 'a) op = "'s \<Rightarrow> 'a result \<times> 's"

definition ret :: "'a \<Rightarrow> ('s, 'a) op" where
  "ret x s = (Inr x, s)"

definition raise_exc :: "py_exc \<Rightarrow> ('s, 'a) op" where
  "raise_exc e s = (Inl e, s)"

definition lift :: "'a result \<Rightarrow> ('s, 'a) op" where
  "lift r s = (r, s)"

definition obind :: "('s, 'a) op \<Rightarrow> ('a \<Rightarrow> ('s, 'b) op) \<Rightarrow> ('s, 'b) op" where
  "obind m f s = (case m s of (Inl e, s') \<Rightarrow> (Inl e, s') | (Inr x, s') \<Rightarrow> f x s')"

definition get_state :: "('s, 's) op" where
  "get_state s = (Inr s, s)"

definition modify :: "('s \<Rightarrow> 's) \<Rightarrow> ('s, unit) op" where
  "modify f s = (Inr (), f s)"

fun omap_list :: "('a \<Rightarrow> ('s, 'b) op) \<Rightarrow> 'a list \<Rightarrow> ('s, 'b list) op" where
  "omap_list f [] = ret []"
| "omap_list f (x # xs) = obind (f x) (\<lambda>y. obind (omap_list f xs) (\<lambda>ys. ret (y # ys)))"

named_theorems op_simps \<open>evaluation of stateful operations\<close>

lemma obind_Inr_iff:
  "obind m f s = (Inr y, s'') \<longleftrightarrow> (\<exists>x s'. m s = (Inr x, s') \<and> f x s' = (Inr y, s''))"
  by (auto simp: obind_def split: prod.splits sum.splits)

lemma obind_Inl_iff:
  "obind m f s = (Inl e, s'') \<longleftrightarrow>
   m s = (Inl e, s'') \<or> (\<exists>x s'. m s = (Inr x, s') \<and> f x s' = (Inl e, s''))"
  by (auto simp: obind_def split: prod.splits sum.splits)

lemma obind_ok [op_simps]: "m s = (Inr x, s') \<Longrightarrow> obind m f s = f x s'"
  by (simp add: obind_def)

lemma obind_raise [op_simps]: "m s = (Inl e, s') \<Longrightarrow> obind m f s = (Inl e, s')"
  by (simp add: obind_def)

lemma ret_simps [simp]: "ret x s = (Inr y, s') \<longleftrightarrow> y = x \<and> s' = s" "ret x s \<noteq> (Inl e, s')"
  by (auto simp: ret_def)

lemma raise_exc_simps [simp]:
  "raise_exc e s = (Inl e', s') \<longleftrightarrow> e' = e \<and> s' = s" "raise_exc e s \<noteq> (Inr y, s')"
  by (auto simp: raise_exc_def)

lemma lift_simps [simp]: "lift r s = (r', s') \<longleftrightarrow> r = r' \<and> s' = s"
  by (auto simp: lift_def)

lemma guard_Inr_iff:
  "(if b then raise_exc e else m) s = (Inr x, s') \<longleftrightarrow> \<not> b \<and> m s = (Inr x, s')"
  by simp

lemma guard_if: "(if b then raise_exc e else m) s = (if b then (Inl e, s) else m s)"
  by (simp add: raise_exc_def)

lemma get_state_simps [simp]:
  "get_state s = (Inr y, s') \<longleftrightarrow> y = s \<and> s' = s" "get_state s \<noteq> (Inl e, s')"
  by (auto simp: get_state_def)

lemma modify_simps [simp]:
  "modify f s = (Inr u, s') \<longleftrightarrow> s' = f s" "modify f s \<noteq> (Inl e, s')"
  by (auto simp: modify_def)

text \<open>
  Preservation of a predicate on the state by an operation, whether it returns or raises: the
  rule an invariant proof applies operation by operation.
\<close>

definition preserves :: "('s \<Rightarrow> bool) \<Rightarrow> ('s, 'a) op \<Rightarrow> bool" where
  "preserves I m \<longleftrightarrow> (\<forall>s. I s \<longrightarrow> I (snd (m s)))"

lemma preservesD: "preserves I m \<Longrightarrow> I s \<Longrightarrow> m s = (r, s') \<Longrightarrow> I s'"
  by (force simp: preserves_def)

lemma preserves_ret [intro!, simp]: "preserves I (ret x)"
  by (simp add: preserves_def ret_def)

lemma preserves_raise [intro!, simp]: "preserves I (raise_exc e)"
  by (simp add: preserves_def raise_exc_def)

lemma preserves_lift [intro!, simp]: "preserves I (lift r)"
  by (simp add: preserves_def lift_def)

lemma preserves_get_state [intro!, simp]: "preserves I get_state"
  by (simp add: preserves_def get_state_def)

lemma preserves_modify [intro]: "(\<And>s. I s \<Longrightarrow> I (f s)) \<Longrightarrow> preserves I (modify f)"
  by (simp add: preserves_def modify_def)

lemma preserves_obind [intro]:
  "preserves I m \<Longrightarrow> (\<And>x. preserves I (f x)) \<Longrightarrow> preserves I (obind m f)"
  by (force simp: preserves_def obind_def split: prod.splits sum.splits)

lemma preserves_omap_list [intro]:
  "(\<And>x. preserves I (f x)) \<Longrightarrow> preserves I (omap_list f xs)"
  by (induction xs) auto

section \<open>Insertion-ordered dictionaries\<close>

type_synonym ('k, 'v) dict = "('k \<times> 'v) list"

abbreviation dget :: "('k, 'v) dict \<Rightarrow> 'k \<Rightarrow> 'v option" where
  "dget d k \<equiv> map_of d k"

abbreviation dset :: "'k \<Rightarrow> 'v \<Rightarrow> ('k, 'v) dict \<Rightarrow> ('k, 'v) dict" where
  "dset k v d \<equiv> AList.update k v d"

abbreviation dpop :: "'k \<Rightarrow> ('k, 'v) dict \<Rightarrow> ('k, 'v) dict" where
  "dpop k d \<equiv> AList.delete k d"

abbreviation dhas :: "('k, 'v) dict \<Rightarrow> 'k \<Rightarrow> bool" where
  "dhas d k \<equiv> map_of d k \<noteq> None"

text \<open>\<open>{**a, **b}\<close>: the entries of \<open>b\<close> written over \<open>a\<close> in order.\<close>

fun dmerge :: "('k, 'v) dict \<Rightarrow> ('k, 'v) dict \<Rightarrow> ('k, 'v) dict" where
  "dmerge a [] = a"
| "dmerge a ((k, v) # b) = dmerge (dset k v a) b"

definition keys_distinct :: "('k, 'v) dict \<Rightarrow> bool" where
  "keys_distinct d \<longleftrightarrow> distinct (map fst d)"

lemma dget_dset [dict_simps]: "dget (dset k v d) k' = (if k' = k then Some v else dget d k')"
  by (simp add: update_conv)

lemma dget_dpop [dict_simps]: "dget (dpop k d) k' = (if k' = k then None else dget d k')"
  by (simp add: delete_conv)

lemma in_set_dset: "(k', v') \<in> set (dset k v d) \<Longrightarrow> (k' = k \<and> v' = v) \<or> (k', v') \<in> set d"
  by (induction d) (auto split: if_splits)

lemma keys_distinct_dset [simp]: "keys_distinct d \<Longrightarrow> keys_distinct (dset k v d)"
  by (simp add: keys_distinct_def distinct_update)

lemma keys_distinct_dpop [simp]: "keys_distinct d \<Longrightarrow> keys_distinct (dpop k d)"
  by (simp add: keys_distinct_def distinct_delete)

lemma keys_distinct_Nil [simp]: "keys_distinct []"
  by (simp add: keys_distinct_def)

lemma dget_dmerge [dict_simps]:
  "keys_distinct b \<Longrightarrow>
   dget (dmerge a b) k = (case dget b k of None \<Rightarrow> dget a k | Some v \<Rightarrow> Some v)"
  by (induction a b rule: dmerge.induct)
    (auto simp: dict_simps keys_distinct_def map_of_eq_None_iff[symmetric] split: option.splits
      dest: map_of_SomeD intro: rev_image_eqI)

lemma keys_distinct_dmerge [simp]: "keys_distinct a \<Longrightarrow> keys_distinct (dmerge a b)"
  by (induction a b rule: dmerge.induct) auto

section \<open>JSON values\<close>

text \<open>
  What \<open>json.loads\<close> and \<open>model_dump(mode="json")\<close> produce. An object keeps the order of its
  keys. Numbers without a fraction or exponent are Python ints, the others floats.
\<close>

datatype json =
    JNull
  | JBool bool
  | JInt int
  | JFloat real
  | JStr string
  | JList "json list"
  | JObj "(string \<times> json) list"

fun jget :: "json \<Rightarrow> string \<Rightarrow> json option" where
  "jget (JObj d) k = dget d k"
| "jget _ k = None"

text \<open>Python truthiness of a JSON value (\<open>bool(x)\<close>).\<close>

fun truthy :: "json \<Rightarrow> bool" where
  "truthy JNull = False"
| "truthy (JBool b) = b"
| "truthy (JInt n) = (n \<noteq> 0)"
| "truthy (JFloat x) = (x \<noteq> 0)"
| "truthy (JStr s) = (s \<noteq> [])"
| "truthy (JList xs) = (xs \<noteq> [])"
| "truthy (JObj d) = (d \<noteq> [])"

fun is_dict :: "json \<Rightarrow> bool" where
  "is_dict (JObj _) = True"
| "is_dict _ = False"

fun opt_str :: "string option \<Rightarrow> json" where
  "opt_str None = JNull"
| "opt_str (Some s) = JStr s"

section \<open>Lists, strings\<close>

text \<open>\<open>next((x for x in xs if p(x)), None)\<close>.\<close>

fun first_where :: "('a \<Rightarrow> bool) \<Rightarrow> 'a list \<Rightarrow> 'a option" where
  "first_where p [] = None"
| "first_where p (x # xs) = (if p x then Some x else first_where p xs)"

lemma first_where_Some: "first_where p xs = Some x \<Longrightarrow> x \<in> set xs \<and> p x"
  by (induction xs) (auto split: if_splits)

lemma first_where_None [simp]: "first_where p xs = None \<longleftrightarrow> (\<forall>x \<in> set xs. \<not> p x)"
  by (induction xs) auto

text \<open>\<open>max(xs, key=f)\<close>: the first element with the greatest key.\<close>

fun max_by :: "('a \<Rightarrow> 'b::linorder) \<Rightarrow> 'a \<Rightarrow> 'a list \<Rightarrow> 'a" where
  "max_by f m [] = m"
| "max_by f m (x # xs) = max_by f (if f m < f x then x else m) xs"

lemma max_by_in: "max_by f m xs \<in> set (m # xs)"
  by (induction f m xs rule: max_by.induct) (auto split: if_splits)

lemma max_by_ge_init: "f m \<le> f (max_by f m xs)"
proof (induction f m xs rule: max_by.induct)
  case (2 f m x xs)
  then show ?case by (auto split: if_splits intro: order_trans less_imp_le)
qed simp

lemma max_by_ge: "y \<in> set (m # xs) \<Longrightarrow> f y \<le> f (max_by f m xs)"
proof (induction f m xs rule: max_by.induct)
  case (2 f m x xs)
  show ?case
  proof (cases "y \<in> set xs")
    case True
    with 2 show ?thesis by simp
  next
    case False
    with "2.prems" have "f y \<le> f (if f m < f x then x else m)" by auto
    also have "\<dots> \<le> f (max_by f (if f m < f x then x else m) xs)" by (rule max_by_ge_init)
    finally show ?thesis by simp
  qed
qed simp

text \<open>\<open>a or b\<close> on an optional string: the second when the first is missing or empty.\<close>

fun str_or :: "string option \<Rightarrow> string \<Rightarrow> string" where
  "str_or None d = d"
| "str_or (Some s) d = (if s = [] then d else s)"

text \<open>\<open>s.startswith(p)\<close>, \<open>s.endswith(p)\<close>, \<open>sep.join(xs)\<close>.\<close>

definition startswith :: "string \<Rightarrow> string \<Rightarrow> bool" where
  "startswith s p \<longleftrightarrow> take (length p) s = p"

definition endswith :: "string \<Rightarrow> string \<Rightarrow> bool" where
  "endswith s p \<longleftrightarrow> length p \<le> length s \<and> drop (length s - length p) s = p"

fun join :: "string \<Rightarrow> string list \<Rightarrow> string" where
  "join sep [] = []"
| "join sep [x] = x"
| "join sep (x # y # xs) = x @ sep @ join sep (y # xs)"

lemma join_Cons: "join sep (x # xs) = x @ (if xs = [] then [] else sep @ join sep xs)"
  by (cases xs) auto

lemma join_inj:
  "join [c] xs = join [c] ys \<Longrightarrow> \<forall>x \<in> set xs \<union> set ys. x \<noteq> [] \<and> c \<notin> set x \<Longrightarrow> xs = ys"
proof (induction xs arbitrary: ys)
  case Nil
  then show ?case by (cases ys) (auto simp: join_Cons split: if_splits)
next
  case (Cons x xs)
  then obtain y ys' where ys: "ys = y # ys'" by (cases ys) (auto simp: join_Cons)
  have tw: "takeWhile (\<lambda>d. d \<noteq> c) (join [c] (z # zs)) = z" if "c \<notin> set z" for z zs
    using that by (auto simp: join_Cons takeWhile_append)
  have "takeWhile (\<lambda>d. d \<noteq> c) (join [c] (x # xs)) = takeWhile (\<lambda>d. d \<noteq> c) (join [c] (y # ys'))"
    using Cons.prems(1) ys by simp
  then have xy: "x = y" using Cons.prems(2) ys by (simp add: tw)
  with Cons.prems ys have rest: "(if xs = [] then [] else c # join [c] xs) =
      (if ys' = [] then [] else c # join [c] ys')"
    by (simp only: join_Cons same_append_eq append_Cons append_Nil)
  show ?case
  proof (cases "xs = [] \<or> ys' = []")
    case True
    with rest xy ys show ?thesis by (auto split: if_splits)
  next
    case False
    with rest have "join [c] xs = join [c] ys'" by simp
    with Cons.IH Cons.prems(2) ys xy show ?thesis by simp
  qed
qed

lemma startswith_append [simp]: "startswith (p @ s) p"
  by (simp add: startswith_def)

lemma startswith_iff: "startswith s p \<longleftrightarrow> (\<exists>t. s = p @ t)"
  by (metis append_take_drop_id startswith_append startswith_def)

text \<open>Decimal text of an integer, as \<open>str(n)\<close> prints it.\<close>

definition digit_char :: "nat \<Rightarrow> char" where
  "digit_char d = (char_of :: nat \<Rightarrow> char) (48 + d)"

fun nat_text :: "nat \<Rightarrow> string" where
  "nat_text n = (if n < 10 then [digit_char n] else nat_text (n div 10) @ [digit_char (n mod 10)])"

declare nat_text.simps [simp del]

definition int_text :: "int \<Rightarrow> string" where
  "int_text n = (if n < 0 then CHR ''-'' # nat_text (nat (- n)) else nat_text (nat n))"

lemma digit_char_inj: "d < 10 \<Longrightarrow> e < 10 \<Longrightarrow> digit_char d = digit_char e \<longleftrightarrow> d = e"
  by (auto simp: digit_char_def char_of_eq_iff take_bit_nat_eq_self)

text \<open>\<open>int(x)\<close> on a JSON value: floats are truncated, text is parsed, anything else is a \<open>TypeError\<close>.\<close>

definition is_space :: "char \<Rightarrow> bool" where
  "is_space c \<longleftrightarrow> (of_char c :: nat) \<in> {9, 10, 11, 12, 13, 32}"

definition strip_text :: "string \<Rightarrow> string" where
  "strip_text s = rev (dropWhile is_space (rev (dropWhile is_space s)))"

definition digit_value :: "char \<Rightarrow> nat option" where
  "digit_value c =
     (let n = of_char c :: nat in if 48 \<le> n \<and> n \<le> 57 then Some (n - 48) else None)"

text \<open>Digits with single underscores between them.\<close>

fun parse_digits :: "int \<Rightarrow> string \<Rightarrow> int option" where
  "parse_digits acc [] = Some acc"
| "parse_digits acc (c # cs) =
     (if c = CHR ''_''
      then (case cs of [] \<Rightarrow> None
            | d # ds \<Rightarrow> (case digit_value d of None \<Rightarrow> None
                      | Some v \<Rightarrow> parse_digits (10 * acc + int v) ds))
      else (case digit_value c of None \<Rightarrow> None | Some v \<Rightarrow> parse_digits (10 * acc + int v) cs))"

definition parse_nat :: "string \<Rightarrow> int option" where
  "parse_nat s = (case s of [] \<Rightarrow> None | c # _ \<Rightarrow> if c = CHR ''_'' then None else parse_digits 0 s)"

definition parse_int :: "string \<Rightarrow> int option" where
  "parse_int s =
     (case strip_text s of
        [] \<Rightarrow> None
      | c # cs \<Rightarrow> if c = CHR ''-'' then map_option uminus (parse_nat cs)
                  else if c = CHR ''+'' then parse_nat cs
                  else parse_nat (c # cs))"

fun py_int :: "json \<Rightarrow> int result" where
  "py_int (JInt n) = Inr n"
| "py_int (JBool b) = Inr (if b then 1 else 0)"
| "py_int (JFloat x) = Inr (if x < 0 then \<lceil>x\<rceil> else \<lfloor>x\<rfloor>)"
| "py_int (JStr s) =
     (case parse_int s of Some n \<Rightarrow> Inr n
      | None \<Rightarrow> Inl (ValueError ''invalid literal for int() with base 10''))"
| "py_int _ = Inl (TypeError ''int() argument must be a string, a bytes-like object or a real number'')"

text \<open>\<open>d.get(k, default)\<close> on a JSON object.\<close>

definition dget_or :: "(string, json) dict \<Rightarrow> string \<Rightarrow> json \<Rightarrow> json" where
  "dget_or d k v = (case dget d k of None \<Rightarrow> v | Some x \<Rightarrow> x)"

section \<open>SQLite\<close>

text \<open>
  Binding a Python int to a statement: SQLite integers have 64 bits. \<open>LIMIT n\<close> keeps the first
  \<open>n\<close> rows, a negative limit keeps all of them.
\<close>

definition sql_int :: "int \<Rightarrow> int result" where
  "sql_int n =
     (if - (2 ^ 63) \<le> n \<and> n < 2 ^ 63 then Inr n
      else Inl (OverflowError ''Python int too large to convert to SQLite INTEGER''))"

definition sql_limit :: "int \<Rightarrow> 'a list \<Rightarrow> 'a list" where
  "sql_limit n xs = (if n < 0 then xs else take (nat n) xs)"

definition fits_sql :: "int \<Rightarrow> bool" where
  "fits_sql n \<longleftrightarrow> - (2 ^ 63) \<le> n \<and> n < 2 ^ 63"

lemma sql_int_Inr_iff [simp]: "sql_int n = Inr m \<longleftrightarrow> fits_sql n \<and> m = n"
  by (auto simp: sql_int_def fits_sql_def)

lemma set_sql_limit: "set (sql_limit n xs) \<subseteq> set xs"
  by (auto simp: sql_limit_def dest: in_set_takeD)

end
