(* ===== verification/PyFloat.thy ===== *)
theory PyFloat
  imports Prelude
begin

text \<open>
  Python floats. A float is the real number it denotes; every arithmetic operation is the exact
  operation followed by \<open>fl\<close>, the rounding of IEEE 754 binary64 (to nearest, ties to even, 53
  significant bits, gradual underflow at \<open>2 ^ -1074\<close>). Infinities, NaN and the sign of zero are
  not represented: a result beyond the largest finite double keeps its rounded real value, and
  \<open>is_finite\<close> (\<open>math.isfinite\<close>) is false for it. Decimal literals of the source are
  rounded too (\<open>lit\<close>).
\<close>

named_theorems float_simps \<open>exactness and order facts of rounding\<close>

section \<open>Rounding to nearest, ties to even\<close>

definition rne :: "real \<Rightarrow> int" where
  "rne y = (let f = \<lfloor>y\<rfloor>; d = y - of_int f in
     if d < 1/2 then f else if d > 1/2 then f + 1 else if even f then f else f + 1)"

lemma rne_of_int [simp]: "rne (of_int n) = n"
  by (simp add: rne_def Let_def)

lemma rne_bounds: "\<lfloor>y\<rfloor> \<le> rne y \<and> rne y \<le> \<lfloor>y\<rfloor> + 1"
  by (simp add: rne_def Let_def)

lemma rne_err: "\<bar>of_int (rne y) - y\<bar> \<le> 1/2"
proof -
  define f where "f = \<lfloor>y\<rfloor>"
  have "of_int f \<le> y" "y < of_int f + 1" unfolding f_def by linarith+
  then show ?thesis unfolding rne_def Let_def f_def [symmetric] by (simp add: abs_if; linarith)
qed

lemma rne_mono: "x \<le> y \<Longrightarrow> rne x \<le> rne y"
proof -
  assume le: "x \<le> y"
  then have "\<lfloor>x\<rfloor> \<le> \<lfloor>y\<rfloor>" by (rule floor_mono)
  then consider "\<lfloor>x\<rfloor> = \<lfloor>y\<rfloor>" | "\<lfloor>x\<rfloor> + 1 \<le> \<lfloor>y\<rfloor>" by linarith
  then show ?thesis
  proof cases
    case 1
    with le show ?thesis by (auto simp: rne_def Let_def)
  next
    case 2
    then show ?thesis using rne_bounds [of x] rne_bounds [of y] by linarith
  qed
qed

lemma rne_minus: "rne (- y) = - rne y"
proof (cases "y = of_int \<lfloor>y\<rfloor>")
  case True
  then obtain n where "y = of_int n" by blast
  moreover have "rne (- of_int n) = - n" using rne_of_int [of "- n"] by simp
  ultimately show ?thesis by simp
next
  case False
  then have "of_int \<lfloor>y\<rfloor> < y" "y < of_int \<lfloor>y\<rfloor> + 1" by linarith+
  then have "\<lfloor>- y\<rfloor> = - \<lfloor>y\<rfloor> - 1" by linarith
  then show ?thesis by (auto simp: rne_def Let_def)
qed

section \<open>Binary64\<close>

definition fexp :: "real \<Rightarrow> int" where
  "fexp x = max (\<lfloor>log 2 \<bar>x\<bar>\<rfloor> - 52) (- 1074)"

definition fl :: "real \<Rightarrow> real" where
  "fl x = of_int (rne (x * 2 powr (- of_int (fexp x)))) * 2 powr of_int (fexp x)"

definition is_finite :: "real \<Rightarrow> bool" where
  "is_finite x \<longleftrightarrow> \<bar>x\<bar> < 2 ^ 1024"

definition lit :: "real \<Rightarrow> real" where
  "lit x = fl x"

definition fadd :: "real \<Rightarrow> real \<Rightarrow> real" where "fadd a b = fl (a + b)"
definition fsub :: "real \<Rightarrow> real \<Rightarrow> real" where "fsub a b = fl (a - b)"
definition fmul :: "real \<Rightarrow> real \<Rightarrow> real" where "fmul a b = fl (a * b)"
definition fdiv :: "real \<Rightarrow> real \<Rightarrow> real" where "fdiv a b = fl (a / b)"
definition fsqrt :: "real \<Rightarrow> real" where "fsqrt a = fl (sqrt a)"

text \<open>\<open>sum(xs)\<close> and \<open>acc += x\<close> loops add from the left, rounding at each step.\<close>

definition fsum :: "real list \<Rightarrow> real" where
  "fsum xs = foldl fadd 0 xs"

text \<open>A double: an integer below \<open>2 ^ 53\<close> in size (inclusive) scaled by a power of two.\<close>

definition is_double :: "real \<Rightarrow> bool" where
  "is_double x \<longleftrightarrow> (\<exists>m e. x = of_int m * 2 powr of_int e \<and> \<bar>m\<bar> \<le> 2 ^ 53 \<and> - 1074 \<le> e)"

section \<open>Laws of rounding\<close>

lemma fexp_minus [simp]: "fexp (- x) = fexp x"
  by (simp add: fexp_def)

lemma fl_minus [simp]: "fl (- x) = - fl x"
proof -
  have "- x * 2 powr (- of_int (fexp x)) = - (x * 2 powr (- of_int (fexp x)))" by simp
  then show ?thesis unfolding fl_def by (simp only: fexp_minus rne_minus of_int_minus mult_minus_left)
qed

lemma powr_int_pow: "(2::real) powr of_int (int n) = 2 ^ n"
  by (simp add: powr_realpow)

lemma scaled_int:
  assumes "e \<le> (e'::int)"
  shows "\<exists>k::int. (2::real) powr of_int e' * 2 powr (- of_int e) = of_int k"
proof -
  have "(2::real) powr of_int e' * 2 powr (- of_int e) = 2 powr of_int (e' - e)"
    by (simp add: powr_add [symmetric])
  also have "\<dots> = 2 ^ nat (e' - e)" using assms powr_int_pow [of "nat (e' - e)"] by simp
  finally show ?thesis by (metis of_int_numeral of_int_power)
qed

lemma fl_scaled:
  assumes "fexp (of_int m * 2 powr of_int e) \<le> e"
  shows "fl (of_int m * 2 powr of_int e) = of_int m * 2 powr of_int e"
proof -
  let ?x = "of_int m * 2 powr of_int e :: real" and ?f = "fexp (of_int m * 2 powr of_int e)"
  obtain k :: int where k: "(2::real) powr of_int e * 2 powr (- of_int ?f) = of_int k"
    using scaled_int [OF assms] by blast
  then have x: "?x * 2 powr (- of_int ?f) = of_int (m * k)" by (simp add: mult.assoc)
  have "of_int (m * k) * 2 powr of_int ?f = ?x * (2 powr (- of_int ?f) * 2 powr of_int ?f)"
    by (simp only: x [symmetric] mult.assoc)
  also have "\<dots> = ?x" by (simp add: powr_add [symmetric])
  finally show ?thesis unfolding fl_def x rne_of_int .
qed

lemma fexp_le:
  assumes "\<bar>x\<bar> < 2 powr of_int (e + 53)" "- 1074 \<le> e" "x \<noteq> 0"
  shows "fexp x \<le> e"
proof -
  have "log 2 \<bar>x\<bar> < of_int (e + 53)" using assms(1,3) by (simp add: log_less_iff)
  then have "\<lfloor>log 2 \<bar>x\<bar>\<rfloor> < e + 53" by linarith
  with assms(2) show ?thesis by (simp add: fexp_def)
qed

lemma fl_0 [simp]: "fl 0 = 0"
  by (simp add: fl_def rne_def)

lemma fl_double [float_simps]:
  assumes "is_double x"
  shows "fl x = x"
proof (cases "x = 0")
  case True
  then show ?thesis by simp
next
  case False
  obtain m e where x: "x = of_int m * 2 powr of_int e" "\<bar>m\<bar> \<le> 2 ^ 53" "- 1074 \<le> e"
    using assms is_double_def by blast
  have lim: "\<bar>x\<bar> = of_int \<bar>m\<bar> * 2 powr of_int e" using x by (simp add: abs_mult)
  consider "\<bar>m\<bar> < 2 ^ 53" | "\<bar>m\<bar> = 2 ^ 53" using x by linarith
  then show ?thesis
  proof cases
    case 1
    then have "real_of_int \<bar>m\<bar> < of_int (2 ^ 53)" by (simp only: of_int_less_iff)
    then have "of_int \<bar>m\<bar> < (2::real) ^ 53" by simp
    then have "\<bar>x\<bar> < 2 ^ 53 * 2 powr of_int e" unfolding lim by simp
    also have "\<dots> = 2 powr of_int (e + 53)" by (simp add: powr_add)
    finally have "fexp x \<le> e" using x False by (intro fexp_le)
    then show ?thesis using fl_scaled x by simp
  next
    case 2
    define s :: int where "s = sgn m"
    have m: "m = s * 2 ^ 53" using 2 by (auto simp: s_def abs_if sgn_if split: if_splits)
    have s: "\<bar>s\<bar> = 1" using 2 by (auto simp: s_def abs_if sgn_if)
    have x': "x = of_int s * 2 powr of_int (e + 53)" using x m by (simp add: powr_add)
    have "\<bar>x\<bar> = of_int \<bar>s\<bar> * 2 powr of_int (e + 53)" using x' by (simp add: abs_mult)
    also have "\<dots> < 2 powr of_int ((e + 53) + 53)" using s by simp
    finally have "fexp x \<le> e + 53" using x False by (intro fexp_le) auto
    then have "fexp (of_int s * 2 powr of_int (e + 53)) \<le> e + 53" unfolding x' .
    then show ?thesis unfolding x' by (rule fl_scaled)
  qed
qed

lemma fl_nonneg_step:
  assumes "0 < x" "x \<le> y"
  shows "fl x \<le> fl y"
proof (cases "fexp x = fexp y")
  case True
  have "x * 2 powr (- of_int (fexp y)) \<le> y * 2 powr (- of_int (fexp y))"
    using assms by simp
  then have "rne (x * 2 powr (- of_int (fexp y))) \<le> rne (y * 2 powr (- of_int (fexp y)))"
    by (rule rne_mono)
  then show ?thesis unfolding fl_def True by simp
next
  case False
  let ?ex = "fexp x" and ?ey = "fexp y"
  have lg: "log 2 \<bar>x\<bar> \<le> log 2 \<bar>y\<bar>" using assms by simp
  then have "\<lfloor>log 2 \<bar>x\<bar>\<rfloor> \<le> \<lfloor>log 2 \<bar>y\<bar>\<rfloor>" by (rule floor_mono)
  then have "?ex \<le> ?ey" by (simp add: fexp_def)
  with False have lt: "?ex + 1 \<le> ?ey" by simp
  moreover have "- 1074 \<le> ?ex" by (simp add: fexp_def)
  ultimately have ey: "?ey = \<lfloor>log 2 \<bar>y\<bar>\<rfloor> - 52" by (simp add: fexp_def)
  have "log 2 \<bar>x\<bar> < of_int (?ex + 53)"
    unfolding fexp_def max_def by (auto; linarith)
  then have "x < 2 powr of_int (?ex + 53)" using assms by (simp add: log_less_iff)
  then have "x * 2 powr (- of_int ?ex) < 2 powr of_int (?ex + 53) * 2 powr (- of_int ?ex)"
    by simp
  also have "\<dots> = 2 powr 53" by (simp add: powr_add [symmetric])
  also have "\<dots> = of_int (2 ^ 53)" by simp
  finally have "rne (x * 2 powr (- of_int ?ex)) \<le> 2 ^ 53"
    using rne_mono [of _ "of_int (2 ^ 53)"] by (metis less_imp_le rne_of_int)
  then have "real_of_int (rne (x * 2 powr (- of_int ?ex))) \<le> of_int (2 ^ 53)"
    by (simp only: of_int_le_iff)
  then have "of_int (rne (x * 2 powr (- of_int ?ex))) \<le> (2::real) ^ 53" by simp
  then have "fl x \<le> 2 ^ 53 * 2 powr of_int ?ex" unfolding fl_def by simp
  also have "\<dots> = 2 powr of_int (?ex + 53)" by (simp add: powr_add)
  also have "\<dots> \<le> 2 powr of_int (?ey + 52)" using lt by simp
  also have "\<dots> = 2 ^ 52 * 2 powr of_int ?ey" by (simp add: powr_add)
  also have "\<dots> \<le> fl y"
  proof -
    have "of_int (?ey + 52) \<le> log 2 \<bar>y\<bar>" unfolding ey by linarith
    then have "2 powr of_int (?ey + 52) \<le> y" using assms by (simp add: le_log_iff)
    then have "2 powr of_int (?ey + 52) * 2 powr (- of_int ?ey) \<le> y * 2 powr (- of_int ?ey)"
      by simp
    moreover have "2 powr of_int (?ey + 52) * 2 powr (- of_int ?ey) = (of_int (2 ^ 52) :: real)"
      by (simp add: powr_add [symmetric])
    ultimately have "2 ^ 52 \<le> rne (y * 2 powr (- of_int ?ey))"
      using rne_mono by (metis rne_of_int)
    then have "of_int (2 ^ 52) \<le> real_of_int (rne (y * 2 powr (- of_int ?ey)))"
      by (simp only: of_int_le_iff)
    then have "(2::real) ^ 52 \<le> of_int (rne (y * 2 powr (- of_int ?ey)))" by simp
    then show ?thesis unfolding fl_def by simp
  qed
  finally show ?thesis .
qed

lemma fl_nonneg: "0 \<le> x \<Longrightarrow> 0 \<le> fl x"
proof -
  assume "0 \<le> x"
  then have "0 \<le> x * 2 powr (- of_int (fexp x))" by simp
  then have "rne 0 \<le> rne (x * 2 powr (- of_int (fexp x)))" by (rule rne_mono)
  then show ?thesis unfolding fl_def using rne_of_int [of 0] by simp
qed

lemma fl_mono: "x \<le> y \<Longrightarrow> fl x \<le> fl y"
proof -
  assume le: "x \<le> y"
  consider "0 < x" | "x \<le> 0" "0 \<le> y" | "y < 0" using le by linarith
  then show ?thesis
  proof cases
    case 1
    then show ?thesis using le by (rule fl_nonneg_step)
  next
    case 2
    then have "0 \<le> fl (- x)" "0 \<le> fl y" by (auto intro: fl_nonneg simp del: fl_minus)
    then show ?thesis by simp
  next
    case 3
    then have "fl (- y) \<le> fl (- x)" using le by (intro fl_nonneg_step) auto
    then show ?thesis by simp
  qed
qed

lemma fl_le: "x \<le> y \<Longrightarrow> is_double y \<Longrightarrow> fl x \<le> y"
  using fl_mono fl_double by metis

lemma fl_ge: "x \<le> y \<Longrightarrow> is_double x \<Longrightarrow> x \<le> fl y"
  using fl_mono fl_double by metis

lemma is_double_int: "\<bar>n\<bar> \<le> 2 ^ 53 \<Longrightarrow> is_double (of_int n)"
  unfolding is_double_def by (intro exI [of _ n] exI [of _ "0::int"]) auto

lemma is_double_dyadic:
  assumes "\<bar>m\<bar> \<le> 2 ^ 53" "k \<le> 1074"
  shows "is_double (of_int m / 2 ^ k)"
proof -
  have "real_of_int m / 2 ^ k = of_int m * 2 powr of_int (- int k)"
    by (simp add: powr_minus powr_realpow divide_inverse)
  then show ?thesis using assms unfolding is_double_def
    by (intro exI [of _ m] exI [of _ "- int k"]) auto
qed

lemma is_double_consts [simp]:
  "is_double 0" "is_double 1" "is_double (-1)" "is_double 2"
  using is_double_int [of 0] is_double_int [of 1] is_double_int [of "-1"] is_double_int [of 2]
  by auto

lemma is_double_nat: "n \<le> 2 ^ 53 \<Longrightarrow> is_double (real n)"
  using is_double_int [of "int n"] by simp

lemma fl_1 [simp]: "fl 1 = 1" by (simp add: fl_double)

lemma fl_unit: "0 \<le> x \<Longrightarrow> x \<le> 1 \<Longrightarrow> 0 \<le> fl x \<and> fl x \<le> 1"
  by (auto intro: fl_nonneg fl_le)

lemma is_double_fl: "is_double (fl x)"
proof -
  let ?m = "rne (x * 2 powr (- of_int (fexp x)))"
  have "\<bar>?m\<bar> \<le> 2 ^ 53"
  proof (cases "x = 0")
    case True
    then show ?thesis using rne_of_int [of 0] by simp
  next
    case False
    have "log 2 \<bar>x\<bar> < of_int (fexp x + 53)" unfolding fexp_def max_def by (auto; linarith)
    then have "\<bar>x\<bar> < 2 powr of_int (fexp x + 53)" using False by (simp add: log_less_iff)
    then have "\<bar>x\<bar> * 2 powr (- of_int (fexp x)) < 2 powr of_int (fexp x + 53) * 2 powr (- of_int (fexp x))"
      by simp
    also have "\<dots> = of_int (2 ^ 53)" by (simp add: powr_add [symmetric])
    finally have b: "\<bar>x * 2 powr (- of_int (fexp x))\<bar> < of_int (2 ^ 53)" by (simp add: abs_mult)
    then have "x * 2 powr (- of_int (fexp x)) \<le> of_int (2 ^ 53)"
      "of_int (- (2 ^ 53)) \<le> x * 2 powr (- of_int (fexp x))" by linarith+
    then have "?m \<le> 2 ^ 53" "- (2 ^ 53) \<le> ?m" using rne_mono by (metis rne_of_int)+
    then show ?thesis by linarith
  qed
  then show ?thesis unfolding is_double_def fl_def
    by (intro exI [of _ ?m] exI [of _ "fexp x"]) (auto simp: fexp_def)
qed

lemma fl_idem [simp]: "fl (fl x) = fl x"
  by (simp add: fl_double is_double_fl)

lemma lit_mono: "x \<le> y \<Longrightarrow> lit x \<le> lit y"
  by (simp add: lit_def fl_mono)

lemma lit_double [float_simps]: "is_double x \<Longrightarrow> lit x = x"
  by (simp add: lit_def fl_double)

lemma is_double_lit [simp]: "is_double (lit x)"
  by (simp add: lit_def is_double_fl)

lemma lit_simps [simp]: "lit 0 = 0" "lit 1 = 1" by (simp_all add: lit_def)

lemma lit_unit: "0 \<le> x \<Longrightarrow> x \<le> 1 \<Longrightarrow> 0 \<le> lit x \<and> lit x \<le> 1"
  unfolding lit_def by (rule fl_unit)

section \<open>Clamping\<close>

text \<open>\<open>max(0.0, min(1.0, x))\<close>.\<close>

definition clamp01 :: "real \<Rightarrow> real" where
  "clamp01 x = max 0 (min 1 x)"

lemma clamp01_range: "0 \<le> clamp01 x \<and> clamp01 x \<le> 1"
  by (simp add: clamp01_def)

lemma clamp01_id: "0 \<le> x \<Longrightarrow> x \<le> 1 \<Longrightarrow> clamp01 x = x"
  by (simp add: clamp01_def)

lemma clamp01_mono: "x \<le> y \<Longrightarrow> clamp01 x \<le> clamp01 y"
  by (auto simp: clamp01_def)

section \<open>Decimal text\<close>

text \<open>
  \<open>f"{x:.3f}"\<close> and its kin: the exact value times a power of ten, rounded to nearest with ties
  to even, printed with the decimal point; a negative value keeps its sign even where it rounds
  to zero.
\<close>

definition pad_left :: "nat \<Rightarrow> string \<Rightarrow> string" where
  "pad_left n s = replicate (n - length s) (CHR ''0'') @ s"

definition fmt_fixed :: "nat \<Rightarrow> real \<Rightarrow> string" where
  "fmt_fixed d x =
     (let n = nat (rne (\<bar>x\<bar> * 10 ^ d))
      in (if x < 0 then ''-'' else '''') @ nat_text (n div 10 ^ d) @
         (if d = 0 then '''' else ''.'' @ pad_left d (nat_text (n mod 10 ^ d))))"

text \<open>\<open>round(x, d)\<close>.\<close>

definition py_round :: "real \<Rightarrow> nat \<Rightarrow> real" where
  "py_round x d = fl (of_int (rne (x * 10 ^ d)) / 10 ^ d)"

lemma py_round_unit:
  assumes "0 \<le> x" "x \<le> 1"
  shows "0 \<le> py_round x d \<and> py_round x d \<le> 1"
proof -
  have "0 \<le> rne (x * 10 ^ d)" using rne_mono [of 0 "x * 10 ^ d"] assms rne_of_int [of 0] by simp
  moreover have "rne (x * 10 ^ d) \<le> 10 ^ d"
    using rne_mono [of "x * 10 ^ d" "of_int (10 ^ d)"] assms
    unfolding rne_of_int by (simp add: mult_le_cancel_right1)
  ultimately have "0 \<le> real_of_int (rne (x * 10 ^ d)) / 10 ^ d"
    "real_of_int (rne (x * 10 ^ d)) / 10 ^ d \<le> 1"
    by (auto simp: divide_le_eq)
  then show ?thesis unfolding py_round_def by (rule fl_unit)
qed

section \<open>Text to float\<close>

text \<open>
  \<open>float(x)\<close> on a JSON value. Text is a decimal numeral with optional sign, fraction and exponent;
  the spellings of infinity and of not-a-number are outside the reals of the model.
\<close>

definition parse_digits_opt :: "string \<Rightarrow> int option" where
  "parse_digits_opt s = (if s = [] then Some 0 else parse_nat s)"

definition parse_decimal :: "string \<Rightarrow> real option" where
  "parse_decimal s =
     (let m = takeWhile (\<lambda>c. c \<noteq> CHR ''e'' \<and> c \<noteq> CHR ''E'') s;
          e = drop (length m) s;
          ip = takeWhile (\<lambda>c. c \<noteq> CHR ''.'') m;
          fp = drop (Suc (length ip)) m;
          k = length (filter (\<lambda>c. c \<noteq> CHR ''_'') fp)
      in if ip = [] \<and> fp = [] then None
         else case parse_digits_opt ip of None \<Rightarrow> None | Some a \<Rightarrow>
              (case parse_digits_opt fp of None \<Rightarrow> None | Some b \<Rightarrow>
              (case (if e = [] then Some 0 else parse_int (tl e)) of None \<Rightarrow> None | Some x \<Rightarrow>
                 Some ((of_int a + of_int b / 10 ^ k) * (if 0 \<le> x then 10 ^ nat x else 1 / 10 ^ nat (- x))))))"

definition parse_float :: "string \<Rightarrow> real option" where
  "parse_float s =
     (case strip_text s of
        [] \<Rightarrow> None
      | c # cs \<Rightarrow> if c = CHR ''-'' then map_option (\<lambda>x. fl (- x)) (parse_decimal cs)
                  else if c = CHR ''+'' then map_option fl (parse_decimal cs)
                  else map_option fl (parse_decimal (c # cs)))"

fun py_float :: "json \<Rightarrow> real result" where
  "py_float (JInt n) = Inr (fl (of_int n))"
| "py_float (JBool b) = Inr (if b then 1 else 0)"
| "py_float (JFloat x) = Inr x"
| "py_float (JStr s) =
     (case parse_float s of Some x \<Rightarrow> Inr x
      | None \<Rightarrow> Inl (ValueError ''could not convert string to float''))"
| "py_float _ = Inl (TypeError ''float() argument must be a string or a real number'')"

end
