(* ===== verification/Aspects.thy ===== *)
theory Aspects
  imports PyFloat "HOL-Library.Multiset"
begin

text \<open>
  Aspects and the aspect registry: \<open>AspectID\<close>, \<open>RegisteredAspect\<close> and the module state of
  \<open>vermyth/schema/_legacy.py\<close>, the \<open>AspectRegistry\<close> of \<open>vermyth/registry.py\<close> and
  \<open>canonical_aspect_key\<close> of \<open>vermyth/engine/keys.py\<close>. A \<open>frozenset[Aspect]\<close> is the
  list of its elements in iteration order; nothing below may depend on that order, and
  \<open>canonical_key_perm\<close> shows that the table key does not.
\<close>

named_theorems registry_simps \<open>effect of registry operations\<close>

section \<open>Canonical and registered aspects\<close>

datatype aspect_id = VOID | FORM | MOTION | MIND | DECAY | LIGHT

definition all_aspect_ids :: "aspect_id list" where
  "all_aspect_ids = [VOID, FORM, MOTION, MIND, DECAY, LIGHT]"

fun id_name :: "aspect_id \<Rightarrow> string" where
  "id_name VOID = ''VOID''"
| "id_name FORM = ''FORM''"
| "id_name MOTION = ''MOTION''"
| "id_name MIND = ''MIND''"
| "id_name DECAY = ''DECAY''"
| "id_name LIGHT = ''LIGHT''"

fun id_polarity :: "aspect_id \<Rightarrow> int" where
  "id_polarity VOID = -1"
| "id_polarity FORM = 1"
| "id_polarity MOTION = 1"
| "id_polarity MIND = 1"
| "id_polarity DECAY = -1"
| "id_polarity LIGHT = 1"

fun id_entropy :: "aspect_id \<Rightarrow> real" where
  "id_entropy VOID = lit 0.95"
| "id_entropy FORM = lit 0.15"
| "id_entropy MOTION = lit 0.55"
| "id_entropy MIND = lit 0.35"
| "id_entropy DECAY = lit 0.85"
| "id_entropy LIGHT = lit 0.05"

record registered_aspect =
  ra_name :: string
  ra_polarity :: int
  ra_entropy :: real
  ra_symbol :: string

datatype aspect = Canonical aspect_id | Registered registered_aspect

fun aspect_name :: "aspect \<Rightarrow> string" where
  "aspect_name (Canonical a) = id_name a"
| "aspect_name (Registered r) = ra_name r"

fun aspect_polarity :: "aspect \<Rightarrow> int" where
  "aspect_polarity (Canonical a) = id_polarity a"
| "aspect_polarity (Registered r) = ra_polarity r"

fun aspect_entropy :: "aspect \<Rightarrow> real" where
  "aspect_entropy (Canonical a) = id_entropy a"
| "aspect_entropy (Registered r) = ra_entropy r"

text \<open>\<open>==\<close>: enum members by identity, registered aspects by name, never across the two.\<close>

fun aspect_eq :: "aspect \<Rightarrow> aspect \<Rightarrow> bool" where
  "aspect_eq (Canonical a) (Canonical b) = (a = b)"
| "aspect_eq (Registered r) (Registered s) = (ra_name r = ra_name s)"
| "aspect_eq _ _ = False"

definition aspect_in :: "aspect \<Rightarrow> aspect list \<Rightarrow> bool" where
  "aspect_in a A = list_ex (aspect_eq a) A"

text \<open>The field constraints and the validator of the \<open>RegisteredAspect\<close> model.\<close>

definition is_upper :: "char \<Rightarrow> bool" where
  "is_upper c \<longleftrightarrow> CHR ''A'' \<le> c \<and> c \<le> CHR ''Z''"

definition is_digit :: "char \<Rightarrow> bool" where
  "is_digit c \<longleftrightarrow> CHR ''0'' \<le> c \<and> c \<le> CHR ''9''"

definition name_pattern :: "string \<Rightarrow> bool" where
  "name_pattern s \<longleftrightarrow>
     (case s of [] \<Rightarrow> False
      | c # cs \<Rightarrow> is_upper c \<and> list_all (\<lambda>d. is_upper d \<or> is_digit d \<or> d = CHR ''_'') cs)"

definition mk_registered_aspect ::
  "string \<Rightarrow> int \<Rightarrow> real \<Rightarrow> string \<Rightarrow> registered_aspect result" where
  "mk_registered_aspect name polarity entropy symbol =
     (if length name < 1 \<or> 30 < length name \<or> \<not> name_pattern name
      then Inl (ValueError ''name'')
      else if polarity \<noteq> -1 \<and> polarity \<noteq> 1
      then Inl (ValueError ''polarity must be -1 or 1'')
      else if entropy < 0 \<or> 1 < entropy then Inl (ValueError ''entropy_coefficient'')
      else if length symbol \<noteq> 1 then Inl (ValueError ''symbol'')
      else Inr \<lparr>ra_name = name, ra_polarity = polarity, ra_entropy = entropy,
                 ra_symbol = symbol\<rparr>)"

section \<open>The registry\<close>

text \<open>
  The module globals \<open>_REGISTERED_ASPECTS\<close> and \<open>_BASIS_VERSION\<close>, and the name index of the
  \<open>AspectRegistry\<close> singleton.
\<close>

record registry =
  registered :: "registered_aspect list"
  basis_version :: nat
  by_name :: "(string, aspect) dict"

definition canonical_by_name :: "(string, aspect) dict" where
  "canonical_by_name = map (\<lambda>a. (id_name a, Canonical a)) all_aspect_ids"

definition registry_init :: "registered_aspect list \<Rightarrow> nat \<Rightarrow> registry" where
  "registry_init rs v =
     \<lparr>registered = rs, basis_version = v,
      by_name = foldl (\<lambda>d r. dset (ra_name r) (Registered r) d) canonical_by_name rs\<rparr>"

definition empty_registry :: registry where
  "empty_registry = registry_init [] 0"

definition full_aspect_order :: "registry \<Rightarrow> aspect list" where
  "full_aspect_order R = map Canonical all_aspect_ids @ map Registered (registered R)"

definition dimensionality :: "registry \<Rightarrow> nat" where
  "dimensionality R = length (full_aspect_order R)"

definition set_basis_version :: "int \<Rightarrow> registry \<Rightarrow> registry" where
  "set_basis_version v R = R\<lparr>basis_version := nat (max 0 v)\<rparr>"

definition register_aspect :: "registered_aspect \<Rightarrow> registry \<Rightarrow> registry result" where
  "register_aspect a R =
     (if ra_name a \<in> set (map id_name all_aspect_ids)
      then Inl (ValueError (''Aspect '' @ ra_name a @ '' conflicts with canonical AspectID''))
      else if list_ex (\<lambda>b. ra_name b = ra_name a) (registered R)
      then Inl (ValueError (''Aspect '' @ ra_name a @ '' already exists''))
      else Inr (R\<lparr>registered := registered R @ [a], basis_version := basis_version R + 1\<rparr>))"

definition registry_register :: "registered_aspect \<Rightarrow> registry \<Rightarrow> registry result" where
  "registry_register a R =
     rbind (register_aspect a R) (\<lambda>R'.
       Inr (R'\<lparr>by_name := dset (ra_name a) (Registered a) (by_name R')\<rparr>))"

definition resolve :: "registry \<Rightarrow> string \<Rightarrow> aspect result" where
  "resolve R name = of_option (KeyError name) (dget (by_name R) name)"

definition is_registered :: "registry \<Rightarrow> string \<Rightarrow> bool" where
  "is_registered R name =
     (case dget (by_name R) name of Some (Registered _) \<Rightarrow> True | _ \<Rightarrow> False)"

section \<open>The canonical key of a set of aspects\<close>

fun index_of :: "aspect \<Rightarrow> aspect list \<Rightarrow> nat option" where
  "index_of a [] = None"
| "index_of a (b # bs) = (if aspect_eq a b then Some 0 else map_option Suc (index_of a bs))"

definition order_index :: "registry \<Rightarrow> aspect \<Rightarrow> nat" where
  "order_index R a = (case index_of a (full_aspect_order R) of Some i \<Rightarrow> i | None \<Rightarrow> 10 ^ 9)"

definition canonical_aspect_key :: "registry \<Rightarrow> aspect list \<Rightarrow> string" where
  "canonical_aspect_key R A = join ''+'' (map aspect_name (sort_key (order_index R) A))"

section \<open>Well-formed registries\<close>

text \<open>
  The registered names are distinct and none is canonical, and the name index agrees with the
  full order: it finds exactly the aspects of the order, by name.
\<close>

definition registry_ok :: "registry \<Rightarrow> bool" where
  "registry_ok R \<longleftrightarrow>
     distinct (map aspect_name (full_aspect_order R)) \<and>
     (\<forall>n a. dget (by_name R) n = Some a \<longleftrightarrow> a \<in> set (full_aspect_order R) \<and> aspect_name a = n)"

lemma id_name_inj: "id_name a = id_name b \<Longrightarrow> a = b"
  by (cases a; cases b) auto

lemma set_all_aspect_ids [simp]: "set all_aspect_ids = UNIV"
  by (auto simp: all_aspect_ids_def intro: aspect_id.exhaust)

lemma distinct_all_aspect_ids [simp]: "distinct (map id_name all_aspect_ids)"
  by (simp add: all_aspect_ids_def)

lemma full_order_append:
  "full_aspect_order (R\<lparr>registered := registered R @ [a], basis_version := v, by_name := d\<rparr>) =
   full_aspect_order R @ [Registered a]"
  by (simp add: full_aspect_order_def)

lemma dimensionality_ge_6: "6 \<le> dimensionality R"
  by (simp add: dimensionality_def full_aspect_order_def all_aspect_ids_def)

lemma dimensionality_eq: "dimensionality R = 6 + length (registered R)"
  by (simp add: dimensionality_def full_aspect_order_def all_aspect_ids_def)

lemma registry_ok_empty: "registry_ok empty_registry"
proof -
  have *: "dget canonical_by_name n = Some a \<longleftrightarrow>
      a \<in> set (map Canonical all_aspect_ids) \<and> aspect_name a = n" for n a
  proof -
    have "distinct (map fst canonical_by_name)"
      by (simp add: canonical_by_name_def comp_def)
    then show ?thesis
      by (auto simp: map_of_eq_Some_iff canonical_by_name_def)
  qed
  then show ?thesis
    unfolding registry_ok_def empty_registry_def registry_init_def full_aspect_order_def
    by (simp add: comp_def)
qed

lemma aspect_eq_name:
  "a \<in> set (full_aspect_order R) \<Longrightarrow> b \<in> set (full_aspect_order R) \<Longrightarrow> registry_ok R \<Longrightarrow>
   aspect_eq a b \<longleftrightarrow> a = b"
proof -
  assume a: "a \<in> set (full_aspect_order R)" and b: "b \<in> set (full_aspect_order R)"
    and ok: "registry_ok R"
  have inj: "inj_on aspect_name (set (full_aspect_order R))"
    using ok by (simp add: registry_ok_def distinct_map)
  have "aspect_eq a b \<Longrightarrow> aspect_name a = aspect_name b"
    by (cases a; cases b) auto
  moreover have "aspect_eq a a" by (cases a) auto
  ultimately show ?thesis using inj a b by (auto dest: inj_onD)
qed

lemma registry_registerD:
  assumes "registry_register a R = Inr R'"
  shows "R' = R\<lparr>registered := registered R @ [a], basis_version := basis_version R + 1,
             by_name := dset (ra_name a) (Registered a) (by_name R)\<rparr>"
    and "ra_name a \<notin> range id_name"
    and "ra_name a \<notin> ra_name ` set (registered R)"
  using assms
  by (auto simp: registry_register_def register_aspect_def rbind_Inr_iff list_ex_iff
      split: if_splits)

lemma registry_register_ok:
  assumes "registry_register a R = Inr R'" "registry_ok R"
  shows "registry_ok R'"
proof -
  note D = registry_registerD [OF assms(1)]
  have ord: "full_aspect_order R' = full_aspect_order R @ [Registered a]"
    using D(1) full_order_append by simp
  have fresh: "ra_name a \<notin> aspect_name ` set (full_aspect_order R)"
    using D(2,3) by (auto simp: full_aspect_order_def image_iff)
  have bn: "dget (by_name R') n = (if n = ra_name a then Some (Registered a) else dget (by_name R) n)"
    for n using D(1) by (simp add: dict_simps)
  show ?thesis
    using assms(2) fresh unfolding registry_ok_def ord bn
    by (auto simp: image_iff)
qed

lemma registry_register_basis:
  "registry_register a R = Inr R' \<Longrightarrow>
   basis_version R' = basis_version R + 1 \<and> dimensionality R' = dimensionality R + 1"
  by (drule registry_registerD(1)) (simp add: dimensionality_eq)

section \<open>The key does not depend on iteration order, nor on later registrations\<close>

lemma index_of_append:
  "index_of a (xs @ ys) =
   (case index_of a xs of Some i \<Rightarrow> Some i
    | None \<Rightarrow> map_option ((+) (length xs)) (index_of a ys))"
proof (induction xs)
  case Nil
  then show ?case by (cases "index_of a ys") auto
next
  case (Cons x xs)
  then show ?case by (cases "index_of a ys"; cases "index_of a xs") auto
qed

lemma index_of_lt: "index_of a xs = Some i \<Longrightarrow> i < length xs \<and> aspect_eq a (xs ! i)"
  by (induction xs arbitrary: i) (auto split: if_splits)

lemma aspect_eq_refl [simp]: "aspect_eq a a"
  by (cases a) auto

lemma index_of_mem: "a \<in> set xs \<Longrightarrow> \<exists>i. index_of a xs = Some i"
  by (induction xs) auto

lemma order_index_register:
  assumes "registry_register r R = Inr R'" "a \<in> set (full_aspect_order R)"
  shows "order_index R' a = order_index R a"
proof -
  have "full_aspect_order R' = full_aspect_order R @ [Registered r]"
    using registry_registerD(1) [OF assms(1)] full_order_append by simp
  then show ?thesis
    using index_of_mem [OF assms(2)] by (auto simp: order_index_def index_of_append)
qed

lemma order_index_inj:
  assumes "registry_ok R"
  shows "inj_on (order_index R) (set (full_aspect_order R))"
proof (rule inj_onI)
  fix a b assume a: "a \<in> set (full_aspect_order R)" and b: "b \<in> set (full_aspect_order R)"
    and eq: "order_index R a = order_index R b"
  obtain i where i: "index_of a (full_aspect_order R) = Some i" using index_of_mem [OF a] by blast
  obtain j where j: "index_of b (full_aspect_order R) = Some j" using index_of_mem [OF b] by blast
  have "i = j" using eq i j by (simp add: order_index_def)
  moreover have "a = full_aspect_order R ! i"
    using index_of_lt [OF i] aspect_eq_name [OF a _ assms] by (metis nth_mem)
  moreover have "b = full_aspect_order R ! j"
    using index_of_lt [OF j] aspect_eq_name [OF b _ assms] by (metis nth_mem)
  ultimately show "a = b" by simp
qed

lemma insort_key_agree:
  "(\<And>b. b \<in> set (a # xs) \<Longrightarrow> f b = g b) \<Longrightarrow> insort_key f a xs = insort_key g a xs"
  by (induction xs) auto

lemma sort_key_agree:
  "(\<And>b. b \<in> set xs \<Longrightarrow> f b = g b) \<Longrightarrow> sort_key f xs = sort_key g xs"
proof (induction xs)
  case (Cons a xs)
  then have IH: "sort_key f xs = sort_key g xs" by simp
  have "insort_key f a (sort_key g xs) = insort_key g a (sort_key g xs)"
    by (rule insort_key_agree) (use Cons.prems in auto)
  with IH show ?case by simp
qed simp

lemma sort_key_perm_inj:
  assumes "inj_on f (set xs)" "distinct xs" "distinct ys" "set xs = set ys"
  shows "sort_key f xs = sort_key f ys"
proof -
  have m: "mset xs = mset (sort_key f ys)" using assms(2-4) by (simp add: set_eq_iff_mset_eq_distinct)
  show ?thesis by (rule sort_key_inj_key_eq [OF m assms(1)]) simp
qed

lemma key_perm:
  assumes "registry_ok R" "set A \<subseteq> set (full_aspect_order R)"
    and "distinct A" "distinct B" "set A = set B"
  shows "canonical_aspect_key R A = canonical_aspect_key R B"
proof -
  have "inj_on (order_index R) (set A)"
    using order_index_inj [OF assms(1)] assms(2) by (rule inj_on_subset)
  then show ?thesis
    unfolding canonical_aspect_key_def using sort_key_perm_inj assms(3-5) by metis
qed

definition names_plain :: "registry \<Rightarrow> bool" where
  "names_plain R \<longleftrightarrow> (\<forall>r \<in> set (registered R). name_pattern (ra_name r))"

lemma pattern_plain: "name_pattern s \<Longrightarrow> s \<noteq> [] \<and> CHR ''+'' \<notin> set s"
  by (cases s)
    (auto simp: name_pattern_def list_all_iff is_upper_def is_digit_def less_eq_char_def)

lemma known_name_plain:
  assumes "names_plain R" "a \<in> set (full_aspect_order R)"
  shows "aspect_name a \<noteq> [] \<and> CHR ''+'' \<notin> set (aspect_name a)"
proof (cases a)
  case (Canonical i)
  then show ?thesis by (cases i) auto
next
  case (Registered r)
  then show ?thesis using assms pattern_plain by (auto simp: full_aspect_order_def names_plain_def)
qed

lemma key_sets:
  assumes "registry_ok R" "names_plain R"
    and "set A \<subseteq> set (full_aspect_order R)" "set B \<subseteq> set (full_aspect_order R)"
    and "canonical_aspect_key R A = canonical_aspect_key R B"
  shows "set A = set B"
proof -
  let ?n = "\<lambda>X. map aspect_name (sort_key (order_index R) X)"
  have "?n A = ?n B"
    by (rule join_inj [where c = "CHR ''+''"])
      (use assms known_name_plain [OF assms(2)] in \<open>auto simp: canonical_aspect_key_def\<close>)
  then have "set (?n A) = set (?n B)" by simp
  then have "aspect_name ` set A = aspect_name ` set B" by simp
  moreover have "inj_on aspect_name (set (full_aspect_order R))"
    using assms(1) by (simp add: registry_ok_def distinct_map)
  ultimately show ?thesis using assms(3,4) by (meson inj_on_image_eq_iff)
qed

text \<open>
  The composition-table key is faithful: two sets of known aspects have the same key exactly
  when they are the same set, in whatever order the frozensets are iterated. So a table row stands
  for one aspect set, and every aspect set finds its own row.
\<close>

theorem canonical_key_faithful:
  assumes "registry_ok R" "names_plain R"
    and "set A \<subseteq> set (full_aspect_order R)" "set B \<subseteq> set (full_aspect_order R)"
    and "distinct A" "distinct B"
  shows "canonical_aspect_key R A = canonical_aspect_key R B \<longleftrightarrow> set A = set B"
  using key_sets [OF assms(1-4)] key_perm [OF assms(1,3,5,6)] by blast

lemma canonical_key_faithful_witness:
  "canonical_aspect_key empty_registry [Canonical MIND, Canonical VOID] \<noteq>
   canonical_aspect_key empty_registry [Canonical VOID]"
  by (subst canonical_key_faithful [OF registry_ok_empty])
    (auto simp: full_aspect_order_def empty_registry_def registry_init_def names_plain_def)

text \<open>
  Registering a further aspect appends it to the order and leaves the keys of all sets of
  already known aspects unchanged, so the memoised keys and the table entries stay valid.
\<close>

theorem canonical_key_register:
  assumes "registry_register r R = Inr R'" "set A \<subseteq> set (full_aspect_order R)"
  shows "canonical_aspect_key R' A = canonical_aspect_key R A"
proof -
  have eq: "order_index R' a = order_index R a" if "a \<in> set A" for a
    using order_index_register [OF assms(1)] assms(2) that by blast
  have "sort_key (order_index R') A = sort_key (order_index R) A"
    using eq by (rule sort_key_agree)
  then show ?thesis by (simp add: canonical_aspect_key_def)
qed

definition sample_aspect :: registered_aspect where
  "sample_aspect = \<lparr>ra_name = ''FLUX'', ra_polarity = 1, ra_entropy = 0, ra_symbol = ''f''\<rparr>"

lemma sample_registers: "\<exists>R. registry_register sample_aspect empty_registry = Inr R"
  by (simp add: registry_register_def register_aspect_def sample_aspect_def empty_registry_def
      registry_init_def all_aspect_ids_def)

lemma canonical_key_register_witness:
  "\<exists>R. registry_register sample_aspect empty_registry = Inr R \<and>
     canonical_aspect_key R [Canonical MIND, Canonical VOID] =
     canonical_aspect_key empty_registry [Canonical MIND, Canonical VOID]"
proof -
  obtain R where R: "registry_register sample_aspect empty_registry = Inr R"
    using sample_registers by blast
  have "set [Canonical MIND, Canonical VOID] \<subseteq> set (full_aspect_order empty_registry)"
    by (auto simp: full_aspect_order_def)
  then show ?thesis using R canonical_key_register [OF R] by blast
qed

end
