(* ===== verification/Vectors.thy ===== *)
theory Vectors
  imports Aspects
begin

text \<open>
  \<open>SemanticVector\<close>, \<open>DivergenceThresholds\<close> and \<open>DivergenceReport.classify\<close> of
  \<open>vermyth/schema/_legacy.py\<close>: construction, basis versions, cosine similarity in binary64
  arithmetic, and the three-way drift classification.
\<close>

section \<open>Semantic vectors\<close>

record svec =
  comps :: "real list"
  basis :: "nat option"

definition mk_svec :: "real list \<Rightarrow> nat option \<Rightarrow> svec result" where
  "mk_svec cs b =
     (if length cs < 6 then Inl (ValueError ''components must contain at least six floats'')
      else Inr \<lparr>comps = cs, basis = b\<rparr>)"

definition svec_ok :: "svec \<Rightarrow> bool" where
  "svec_ok v \<longleftrightarrow> 6 \<le> length (comps v) \<and> list_all is_double (comps v)"

text \<open>\<open>v.components[i] if i < len(v.components) else 0.0\<close>\<close>

definition comp_at :: "real list \<Rightarrow> nat \<Rightarrow> real" where
  "comp_at cs i = (if i < length cs then cs ! i else 0)"

definition from_aspects :: "registry \<Rightarrow> aspect list \<Rightarrow> svec" where
  "from_aspects R A =
     \<lparr>comps = map (\<lambda>a. if aspect_in a A
                        then fmul (aspect_entropy a) (if aspect_polarity a = 1 then 1 else -1)
                        else 0) (full_aspect_order R),
      basis = Some (basis_version R)\<rparr>"

definition normalized_basis_version :: "svec \<Rightarrow> nat" where
  "normalized_basis_version v = (case basis v of None \<Rightarrow> 0 | Some b \<Rightarrow> b)"

definition upsample_to :: "svec \<Rightarrow> int \<Rightarrow> nat option \<Rightarrow> svec" where
  "upsample_to v target_version target_dim =
     \<lparr>comps = comps v @
        (case target_dim of
           Some d \<Rightarrow> replicate (d - length (comps v)) 0
         | None \<Rightarrow> []),
      basis = Some (nat (max 0 target_version))\<rparr>"

definition l2_norm :: "svec \<Rightarrow> real" where
  "l2_norm v =
     (let s = foldl (\<lambda>s c. fadd s (fmul c c)) 0 (comps v); n = fsqrt s
      in if \<not> is_finite n then 0 else n)"

definition dot_loop :: "real list \<Rightarrow> real list \<Rightarrow> real" where
  "dot_loop xs ys =
     foldl (\<lambda>dot i. fadd dot (fmul (comp_at xs i) (comp_at ys i))) 0
       [0 ..< max (length xs) (length ys)]"

definition cosine_core :: "svec \<Rightarrow> svec \<Rightarrow> real" where
  "cosine_core v w =
     (let na = l2_norm v; nb = l2_norm w
      in if na = 0 \<or> nb = 0 then 0
         else let dot = dot_loop (comps v) (comps w); denom = fmul na nb
              in if denom = 0 \<or> \<not> is_finite dot \<or> \<not> is_finite denom then 0
                 else let sim = fdiv dot denom
                      in if \<not> is_finite sim then 0
                         else if sim > 1 then 1 else if sim < -1 then -1 else sim)"

definition cosine_similarity :: "svec \<Rightarrow> svec \<Rightarrow> real result" where
  "cosine_similarity v w =
     (if normalized_basis_version v \<noteq> normalized_basis_version w
      then Inl (ValueError (''incompatible basis versions: left=v'' @
             nat_text (normalized_basis_version v) @ '' right=v'' @
             nat_text (normalized_basis_version w) @ ''; upsample explicitly first''))
      else Inr (cosine_core v w))"

definition distance :: "svec \<Rightarrow> svec \<Rightarrow> real result" where
  "distance v w = rbind (cosine_similarity v w) (\<lambda>c. Inr (fsub 1 c))"

section \<open>Divergence\<close>

datatype divergence_status = STABLE | DRIFTING | DIVERGED

fun divergence_status_value :: "divergence_status \<Rightarrow> string" where
  "divergence_status_value STABLE = ''STABLE''"
| "divergence_status_value DRIFTING = ''DRIFTING''"
| "divergence_status_value DIVERGED = ''DIVERGED''"

record divergence_thresholds =
  l2_stable_max :: real
  l2_diverged_min :: real
  cosine_stable_max :: real
  cosine_diverged_min :: real

definition mk_divergence_thresholds ::
  "real \<Rightarrow> real \<Rightarrow> real \<Rightarrow> real \<Rightarrow> divergence_thresholds result" where
  "mk_divergence_thresholds l2s l2d cs cd =
     (if l2s < 0 \<or> l2d < 0 \<or> cs < 0 \<or> 2 < cs \<or> cd < 0 \<or> 2 < cd
      then Inl (ValueError ''out of range'')
      else if \<not> l2s < l2d
      then Inl (ValueError ''l2_stable_max must be less than l2_diverged_min'')
      else if \<not> cs < cd
      then Inl (ValueError ''cosine_stable_max must be less than cosine_diverged_min'')
      else Inr \<lparr>l2_stable_max = l2s, l2_diverged_min = l2d, cosine_stable_max = cs,
                 cosine_diverged_min = cd\<rparr>)"

definition default_divergence_thresholds :: divergence_thresholds where
  "default_divergence_thresholds =
     \<lparr>l2_stable_max = lit 0.30, l2_diverged_min = lit 0.70,
      cosine_stable_max = lit 0.20, cosine_diverged_min = lit 0.50\<rparr>"

definition thresholds_ok :: "divergence_thresholds \<Rightarrow> bool" where
  "thresholds_ok t \<longleftrightarrow>
     0 \<le> l2_stable_max t \<and> l2_stable_max t < l2_diverged_min t \<and>
     0 \<le> cosine_stable_max t \<and> cosine_stable_max t < cosine_diverged_min t \<and>
     cosine_diverged_min t \<le> 2"

record divergence_report =
  dr_cast_id :: string
  dr_parent_cast_id :: string
  dr_l2_magnitude :: real
  dr_cosine_distance :: real
  dr_status :: divergence_status
  dr_computed_at :: int
  dr_basis_note :: "string option"

definition l2_diff :: "real list \<Rightarrow> real list \<Rightarrow> real" where
  "l2_diff pc cc =
     fsqrt (foldl (\<lambda>s i. let d = fsub (comp_at cc i) (comp_at pc i) in fadd s (fmul d d)) 0
              [0 ..< max (length pc) (length cc)])"

definition band :: "real \<Rightarrow> real \<Rightarrow> real \<Rightarrow> divergence_status" where
  "band stable_max diverged_min x =
     (if x < stable_max then STABLE else if diverged_min \<le> x then DIVERGED else DRIFTING)"

fun status_rank :: "divergence_status \<Rightarrow> nat" where
  "status_rank STABLE = 0"
| "status_rank DRIFTING = 1"
| "status_rank DIVERGED = 2"

definition worst_status :: "divergence_status \<Rightarrow> divergence_status \<Rightarrow> divergence_status" where
  "worst_status a b = max_by status_rank a [b]"

text \<open>The two vectors in a common basis, and the note when they had to be upsampled.\<close>

definition align_basis :: "svec \<Rightarrow> svec \<Rightarrow> svec \<times> svec \<times> string option" where
  "align_basis p c =
     (let pb = normalized_basis_version p; cb = normalized_basis_version c
      in if pb \<noteq> cb
         then let tb = max pb cb; td = max (length (comps p)) (length (comps c))
              in (upsample_to p (int tb) (Some td), upsample_to c (int tb) (Some td),
                  Some (''basis v'' @ nat_text pb @ '' vs v'' @ nat_text cb @
                        '' (upsampled to v'' @ nat_text tb @ '')''))
         else (p, c, None))"

definition classify ::
  "string \<Rightarrow> string \<Rightarrow> svec \<Rightarrow> svec \<Rightarrow> divergence_thresholds \<Rightarrow> int \<Rightarrow> divergence_report result" where
  "classify cast_id parent_cast_id parent_vector child_vector t now =
     (case align_basis parent_vector child_vector of (p, c, note) \<Rightarrow>
       let l2 = l2_diff (comps p) (comps c)
       in rbind (distance p c) (\<lambda>d0.
            let d = (if d0 < 0 then 0 else if d0 > 2 then 2 else d0);
                l2_status = band (l2_stable_max t) (l2_diverged_min t) l2;
                cos_status = band (cosine_stable_max t) (cosine_diverged_min t) d
            in Inr \<lparr>dr_cast_id = cast_id, dr_parent_cast_id = parent_cast_id,
                     dr_l2_magnitude = l2, dr_cosine_distance = d,
                     dr_status = worst_status l2_status cos_status,
                     dr_computed_at = now, dr_basis_note = note\<rparr>))"

section \<open>Cosine similarity\<close>

lemma cosine_core_range: "-1 \<le> cosine_core v w \<and> cosine_core v w \<le> 1"
  by (auto simp: cosine_core_def Let_def)

lemma cosine_range: "cosine_similarity v w = Inr c \<Longrightarrow> -1 \<le> c \<and> c \<le> 1"
  using cosine_core_range by (auto simp: cosine_similarity_def split: if_splits)

lemma fmul_comm: "fmul a b = fmul b a"
  by (simp add: fmul_def mult.commute)

lemma dot_loop_comm: "dot_loop xs ys = dot_loop ys xs"
  unfolding dot_loop_def by (simp add: fmul_comm max.commute)

lemma cosine_core_comm: "cosine_core v w = cosine_core w v"
  unfolding cosine_core_def Let_def
    dot_loop_comm [of "comps v" "comps w"] fmul_comm [of "l2_norm v" "l2_norm w"]
  by (simp add: disj_commute)

lemma normalized_basis_upsample [simp]:
  "normalized_basis_version (upsample_to v t d) = nat (max 0 t)"
  by (simp add: normalized_basis_version_def upsample_to_def)

lemma fadd_0 [simp]: "fadd x 0 = fl x" "fmul 0 x = 0" "fmul x 0 = 0"
  by (simp_all add: fadd_def fmul_def)

lemma is_double_fadd [simp]: "is_double (fadd a b)"
  by (simp add: fadd_def is_double_fl)

lemma foldl_fadd_double:
  "is_double s \<Longrightarrow> is_double (foldl (\<lambda>s x. fadd s (f x)) s xs)"
  by (induction xs arbitrary: s) auto

lemma foldl_fadd_zeros:
  "is_double s \<Longrightarrow> (\<And>x. x \<in> set xs \<Longrightarrow> f x = 0) \<Longrightarrow> foldl (\<lambda>s x. fadd s (f x)) s xs = s"
  by (induction xs arbitrary: s) (auto simp: fl_double)

lemma comp_at_pad [simp]: "comp_at (xs @ replicate n 0) i = comp_at xs i"
  by (auto simp: comp_at_def nth_append)

lemma l2_norm_pad: "l2_norm \<lparr>comps = cs @ replicate n 0, basis = b\<rparr> = l2_norm \<lparr>comps = cs, basis = b'\<rparr>"
proof -
  have "foldl (\<lambda>s c. fadd s (fmul c c)) (foldl (\<lambda>s c. fadd s (fmul c c)) 0 cs) (replicate n 0) =
        foldl (\<lambda>s c. fadd s (fmul c c)) 0 cs"
    by (rule foldl_fadd_zeros [OF foldl_fadd_double]) auto
  then show ?thesis by (simp add: l2_norm_def)
qed

lemma l2_norm_upsample: "l2_norm (upsample_to v t (Some d)) = l2_norm v"
  by (cases v) (simp add: upsample_to_def l2_norm_pad [where b' = "basis v"])

lemma comps_upsample [simp]:
  "comps (upsample_to v t (Some d)) = comps v @ replicate (d - length (comps v)) 0"
  by (simp add: upsample_to_def)

lemma foldl_upt_extend:
  assumes "m \<le> n" "\<And>i. m \<le> i \<Longrightarrow> i < n \<Longrightarrow> f i = 0"
  shows "foldl (\<lambda>s i. fadd s (f i)) 0 [0..<n] = foldl (\<lambda>s i. fadd s (f i)) 0 [0..<m]"
proof -
  have "[0..<n] = [0..<m] @ [m..<n]" using assms(1) upt_add_eq_append [of 0 m "n - m"] by simp
  then show ?thesis
    using assms(2) foldl_fadd_zeros [of "foldl (\<lambda>s i. fadd s (f i)) 0 [0..<m]" "[m..<n]" f]
    by (simp add: foldl_fadd_double)
qed

lemma dot_loop_pad:
  assumes "length xs + k = length ys + j"
  shows "dot_loop (xs @ replicate k 0) (ys @ replicate j 0) = dot_loop xs ys"
proof -
  have "max (length xs) (length ys) \<le> length xs + k" using assms by simp
  then show ?thesis
    unfolding dot_loop_def
    by (simp add: assms [symmetric])
      (rule foldl_upt_extend, auto simp: comp_at_def)
qed

lemma upsampled_cosine:
  assumes "length (comps v) \<le> d" "length (comps w) \<le> d"
  shows "cosine_similarity (upsample_to v t (Some d)) (upsample_to w t (Some d)) =
         Inr (cosine_core v w)"
proof -
  have "dot_loop (comps v @ replicate (d - length (comps v)) 0)
                 (comps w @ replicate (d - length (comps w)) 0) = dot_loop (comps v) (comps w)"
    by (rule dot_loop_pad) (use assms in auto)
  then have "cosine_core (upsample_to v t (Some d)) (upsample_to w t (Some d)) = cosine_core v w"
    by (simp add: cosine_core_def l2_norm_upsample Let_def)
  then show ?thesis by (simp add: cosine_similarity_def)
qed

text \<open>
  Bringing two vectors of different bases to a common one never changes what the vectors say:
  after \<open>upsample_to\<close> the comparison is defined, and its value is the one computed on the
  original components.
\<close>

theorem cosine_upsample:
  assumes "length (comps v) \<le> d" "length (comps w) \<le> d"
  shows "cosine_similarity (upsample_to v t (Some d)) (upsample_to w t (Some d)) =
         Inr (cosine_core v w)"
  using assms by (rule upsampled_cosine)

lemma cosine_upsample_witness:
  "cosine_similarity (upsample_to \<lparr>comps = [1,0,0,0,0,0], basis = Some 0\<rparr> 1 (Some 7))
     (upsample_to \<lparr>comps = [0,0,0,0,0,1,1], basis = Some 1\<rparr> 1 (Some 7)) =
   Inr (cosine_core \<lparr>comps = [1,0,0,0,0,0], basis = Some 0\<rparr>
          \<lparr>comps = [0,0,0,0,0,1,1], basis = Some 1\<rparr>)"
  by (rule cosine_upsample) simp_all

text \<open>
  Cosine similarity is bounded and symmetric: whenever it is defined its value lies in
  [-1, 1], and swapping the vectors gives the same value, or fails with them as well.
\<close>

theorem cosine_bounded_symmetric:
  "(case cosine_similarity v w of
      Inr c \<Rightarrow> -1 \<le> c \<and> c \<le> 1 \<and> cosine_similarity w v = Inr c
    | Inl e \<Rightarrow> (\<exists>m. e = ValueError m) \<and> (\<exists>m. cosine_similarity w v = Inl (ValueError m)))"
  using cosine_core_range [of v w] cosine_core_comm [of v w]
  by (auto simp: cosine_similarity_def)

section \<open>Classification\<close>

lemma align_basis_cosine:
  "align_basis p c = (p', c', n) \<Longrightarrow> cosine_similarity p' c' = Inr (cosine_core p c)"
  unfolding align_basis_def Let_def
  by (auto simp: upsampled_cosine split: if_splits) (simp add: cosine_similarity_def)

lemma distance_range:
  "-1 \<le> c \<Longrightarrow> c \<le> 1 \<Longrightarrow> 0 \<le> fsub 1 c \<and> fsub 1 c \<le> 2"
  unfolding fsub_def by (auto intro: fl_nonneg fl_le)

lemma worst_status_rank:
  "status_rank (worst_status a b) = max (status_rank a) (status_rank b)"
  by (cases a; cases b) (simp_all add: worst_status_def)

lemma status_rank_inj: "status_rank a = status_rank b \<Longrightarrow> a = b"
  by (cases a; cases b) auto

lemma band_rank:
  assumes "s < d"
  shows "status_rank (band s d x) = (if x < s then 0 else if x < d then 1 else 2)"
  using assms by (auto simp: band_def)

text \<open>
  Classification always returns a report, whatever the basis versions and lengths of the two
  vectors: the distance is in [0, 2] and the status is the worse of the two bands, so STABLE needs
  both measures below their stable limit and DIVERGED needs one of them at or above its limit.
\<close>

theorem classify_total:
  assumes "thresholds_ok t"
  shows "\<exists>r. classify cid pid p c t now = Inr r \<and>
     0 \<le> dr_cosine_distance r \<and> dr_cosine_distance r \<le> 2 \<and>
     dr_cosine_distance r = fsub 1 (cosine_core p c) \<and>
     (dr_status r = STABLE \<longleftrightarrow>
        dr_l2_magnitude r < l2_stable_max t \<and> dr_cosine_distance r < cosine_stable_max t) \<and>
     (dr_status r = DIVERGED \<longleftrightarrow>
        l2_diverged_min t \<le> dr_l2_magnitude r \<or> cosine_diverged_min t \<le> dr_cosine_distance r)"
proof -
  obtain p' c' n where al: "align_basis p c = (p', c', n)" by (metis prod_cases3)
  let ?d = "fsub 1 (cosine_core p c)"
  have d: "0 \<le> ?d" "?d \<le> 2" using distance_range cosine_core_range by blast+
  have dist: "distance p' c' = Inr ?d" by (simp add: distance_def align_basis_cosine [OF al])
  let ?a = "band (l2_stable_max t) (l2_diverged_min t) (l2_diff (comps p') (comps c'))"
  let ?b = "band (cosine_stable_max t) (cosine_diverged_min t) ?d"
  have st: "worst_status ?a ?b = STABLE \<longleftrightarrow> ?a = STABLE \<and> ?b = STABLE"
    "worst_status ?a ?b = DIVERGED \<longleftrightarrow> ?a = DIVERGED \<or> ?b = DIVERGED"
    by (cases ?a; cases ?b; simp add: worst_status_def)+
  show ?thesis
    using d st assms
    by (simp add: classify_def al dist Let_def) (auto simp: band_def thresholds_ok_def)
qed

lemma classify_total_witness:
  "\<exists>r. classify ''c'' ''p'' \<lparr>comps = [1,0,0,0,0,0], basis = Some 0\<rparr>
         \<lparr>comps = [0,0,0,0,0,1,1], basis = Some 1\<rparr>
         \<lparr>l2_stable_max = 0, l2_diverged_min = 1, cosine_stable_max = 0,
          cosine_diverged_min = 1\<rparr> 0 = Inr r"
  using classify_total [of "\<lparr>l2_stable_max = 0, l2_diverged_min = 1, cosine_stable_max = 0,
      cosine_diverged_min = 1\<rparr>" "''c''" "''p''" "\<lparr>comps = [1,0,0,0,0,0], basis = Some 0\<rparr>"
      "\<lparr>comps = [0,0,0,0,0,1,1], basis = Some 1\<rparr>" 0]
  by (auto simp: thresholds_ok_def)

lemma mk_divergence_thresholds_ok:
  "mk_divergence_thresholds a b c d = Inr t \<Longrightarrow> thresholds_ok t"
  by (auto simp: mk_divergence_thresholds_def thresholds_ok_def split: if_splits)

end
