(* ===== verification/Digest.thy ===== *)
theory Digest
  imports Vectors "HOL-Library.Word"
begin

text \<open>
  The parts of \<open>hashlib\<close>, \<open>hmac\<close>, \<open>base64\<close> and \<open>binascii\<close> the source uses: SHA-256, HMAC-SHA-256,
  hexadecimal digests, and base64 with validating decoding. Bytes are \<open>8 word\<close>; a string is
  encoded by the code of each of its characters.
\<close>

unbundle bit_operations_syntax

type_synonym bytes = "8 word list"

definition byte_of_char :: "char \<Rightarrow> 8 word" where
  "byte_of_char c = word_of_nat (of_char c)"

definition char_of_byte :: "8 word \<Rightarrow> char" where
  "char_of_byte b = char_of (unat b)"

definition encode_str :: "string \<Rightarrow> bytes" where
  "encode_str s = map byte_of_char s"

definition decode_str :: "bytes \<Rightarrow> string" where
  "decode_str bs = map char_of_byte bs"

lemma char_of_byte_of_char [simp]: "char_of_byte (byte_of_char c) = c"
proof -
  have "(of_char c :: nat) < 256" by simp
  then show ?thesis by (simp add: char_of_byte_def byte_of_char_def unat_of_nat)
qed

lemma decode_encode_str [simp]: "decode_str (encode_str s) = s"
  by (simp add: decode_str_def encode_str_def comp_def)

lemma encode_str_inj: "encode_str s = encode_str t \<longleftrightarrow> s = t"
  by (metis decode_encode_str)

section \<open>SHA-256\<close>

text \<open>The round constants and the initial state, in decimal.\<close>

definition sha_k :: "32 word list" where
  "sha_k =
    [1116352408, 1899447441, 3049323471, 3921009573, 961987163, 1508970993,
     2453635748, 2870763221, 3624381080, 310598401, 607225278, 1426881987,
     1925078388, 2162078206, 2614888103, 3248222580, 3835390401, 4022224774,
     264347078, 604807628, 770255983, 1249150122, 1555081692, 1996064986,
     2554220882, 2821834349, 2952996808, 3210313671, 3336571891, 3584528711,
     113926993, 338241895, 666307205, 773529912, 1294757372, 1396182291,
     1695183700, 1986661051, 2177026350, 2456956037, 2730485921, 2820302411,
     3259730800, 3345764771, 3516065817, 3600352804, 4094571909, 275423344,
     430227734, 506948616, 659060556, 883997877, 958139571, 1322822218,
     1537002063, 1747873779, 1955562222, 2024104815, 2227730452, 2361852424,
     2428436474, 2756734187, 3204031479, 3329325298]"

definition sha_h0 :: "32 word list" where
  "sha_h0 =
    [1779033703, 3144134277, 1013904242, 2773480762,
     1359893119, 2600822924, 528734635, 1541459225]"

text \<open>Big-endian words and length fields.\<close>

fun be_bytes :: "nat \<Rightarrow> nat \<Rightarrow> bytes" where
  "be_bytes 0 n = []"
| "be_bytes (Suc k) n = be_bytes k (n div 256) @ [word_of_nat (n mod 256)]"

definition be_nat :: "bytes \<Rightarrow> nat" where
  "be_nat bs = foldl (\<lambda>n b. n * 256 + unat b) 0 bs"

definition sha_pad :: "bytes \<Rightarrow> bytes" where
  "sha_pad m =
     m @ [0x80] @ replicate ((119 - length m mod 64) mod 64) 0 @ be_bytes 8 (8 * length m)"

fun chunks :: "nat \<Rightarrow> nat \<Rightarrow> 'a list \<Rightarrow> 'a list list" where
  "chunks 0 k xs = []"
| "chunks (Suc n) k xs = take k xs # chunks n k (drop k xs)"

definition rotr32 :: "nat \<Rightarrow> 32 word \<Rightarrow> 32 word" where
  "rotr32 n x = (drop_bit n x) OR (push_bit (32 - n) x)"

definition sha_word :: "bytes \<Rightarrow> 32 word" where
  "sha_word bs = word_of_nat (be_nat bs)"

text \<open>The message schedule, newest word first.\<close>

fun sha_extend :: "nat \<Rightarrow> 32 word list \<Rightarrow> 32 word list" where
  "sha_extend 0 w = w"
| "sha_extend (Suc n) w =
     (let w15 = w ! 14; w2 = w ! 1;
          s0 = rotr32 7 w15 XOR rotr32 18 w15 XOR drop_bit 3 w15;
          s1 = rotr32 17 w2 XOR rotr32 19 w2 XOR drop_bit 10 w2
      in sha_extend n ((w ! 15 + s0 + w ! 6 + s1) # w))"

definition sha_schedule :: "bytes \<Rightarrow> 32 word list" where
  "sha_schedule block = rev (sha_extend 48 (rev (map sha_word (chunks 16 4 block))))"

fun sha_round :: "32 word list \<Rightarrow> 32 word \<times> 32 word \<Rightarrow> 32 word list" where
  "sha_round [a, b, c, d, e, f, g, h] (k, w) =
     (let s1 = rotr32 6 e XOR rotr32 11 e XOR rotr32 25 e;
          ch = (e AND f) XOR (NOT e AND g);
          t1 = h + s1 + ch + k + w;
          s0 = rotr32 2 a XOR rotr32 13 a XOR rotr32 22 a;
          maj = (a AND b) XOR (a AND c) XOR (b AND c);
          t2 = s0 + maj
      in [t1 + t2, a, b, c, d + t1, e, f, g])"
| "sha_round st _ = st"

definition sha_block :: "32 word list \<Rightarrow> bytes \<Rightarrow> 32 word list" where
  "sha_block h block = map2 (+) h (foldl sha_round h (zip sha_k (sha_schedule block)))"

definition sha256 :: "bytes \<Rightarrow> bytes" where
  "sha256 m =
     (let p = sha_pad m
      in concat (map (\<lambda>w. be_bytes 4 (unat w))
           (foldl sha_block sha_h0 (chunks (length p div 64) 64 p))))"

definition hex_digit :: "nat \<Rightarrow> char" where
  "hex_digit d = (if d < 10 then char_of (48 + d) else char_of (87 + d))"

definition hex_text :: "bytes \<Rightarrow> string" where
  "hex_text bs = concat (map (\<lambda>b. [hex_digit (unat b div 16), hex_digit (unat b mod 16)]) bs)"

definition sha256_hex :: "bytes \<Rightarrow> string" where
  "sha256_hex data = hex_text (sha256 data)"

lemma length_be_bytes [simp]: "length (be_bytes k n) = k"
  by (induction k arbitrary: n) auto

lemma be_nat_be_bytes: "n < 256 ^ k \<Longrightarrow> be_nat (be_bytes k n) = n"
proof (induction k arbitrary: n)
  case 0
  then show ?case by (simp add: be_nat_def)
next
  case (Suc k)
  have "n div 256 < 256 ^ k" using Suc.prems by (simp add: less_mult_imp_div_less mult.commute)
  then have "be_nat (be_bytes k (n div 256)) = n div 256" by (rule Suc.IH)
  moreover have "unat (word_of_nat (n mod 256) :: 8 word) = n mod 256"
    by (simp add: unat_of_nat)
  ultimately show ?case by (simp add: be_nat_def)
qed

lemma length_sha_round: "length st = 8 \<Longrightarrow> length (sha_round st kw) = 8"
  by (induction st kw rule: sha_round.induct) (auto simp: Let_def)

lemma length_foldl_sha_round: "length st = 8 \<Longrightarrow> length (foldl sha_round st kws) = 8"
  by (induction kws arbitrary: st) (auto simp: length_sha_round)

lemma length_foldl_sha_block: "length h = 8 \<Longrightarrow> length (foldl sha_block h bs) = 8"
  by (induction bs arbitrary: h) (auto simp: sha_block_def length_foldl_sha_round)

lemma length_sha256 [simp]: "length (sha256 m) = 32"
proof -
  have "length (foldl sha_block sha_h0 bs) = 8" for bs
    by (rule length_foldl_sha_block) (simp add: sha_h0_def)
  then show ?thesis
    by (simp add: sha256_def Let_def length_concat comp_def sum_list_triv)
qed

lemma length_hex_text [simp]: "length (hex_text bs) = 2 * length bs"
  by (simp add: hex_text_def length_concat comp_def sum_list_triv)

lemma length_sha256_hex [simp]: "length (sha256_hex m) = 64"
  by (simp add: sha256_hex_def)

section \<open>HMAC-SHA-256\<close>

definition hmac_key :: "bytes \<Rightarrow> bytes" where
  "hmac_key key =
     (let k = (if 64 < length key then sha256 key else key) in k @ replicate (64 - length k) 0)"

definition hmac_sha256 :: "bytes \<Rightarrow> bytes \<Rightarrow> bytes" where
  "hmac_sha256 key m =
     (let k = hmac_key key
      in sha256 (map (\<lambda>b. b XOR 0x5c) k @ sha256 (map (\<lambda>b. b XOR 0x36) k @ m)))"

lemma length_hmac [simp]: "length (hmac_sha256 k m) = 32"
  by (simp add: hmac_sha256_def Let_def)

section \<open>Base64\<close>

definition b64_char :: "nat \<Rightarrow> char" where
  "b64_char d =
     (if d < 26 then char_of (65 + d) else if d < 52 then char_of (71 + d)
      else if d < 62 then char_of (d - 4) else if d = 62 then CHR ''+'' else CHR ''/'')"

definition b64_value :: "char \<Rightarrow> nat option" where
  "b64_value c =
     (let n = of_char c :: nat
      in if 65 \<le> n \<and> n \<le> 90 then Some (n - 65) else if 97 \<le> n \<and> n \<le> 122 then Some (n - 71)
         else if 48 \<le> n \<and> n \<le> 57 then Some (n + 4) else if c = CHR ''+'' then Some 62
         else if c = CHR ''/'' then Some 63 else None)"

fun b64encode :: "bytes \<Rightarrow> string" where
  "b64encode [] = []"
| "b64encode [a] =
     [b64_char (unat a div 4), b64_char (unat a mod 4 * 16), CHR ''='', CHR ''='']"
| "b64encode [a, b] =
     [b64_char (unat a div 4), b64_char (unat a mod 4 * 16 + unat b div 16),
      b64_char (unat b mod 16 * 4), CHR ''='']"
| "b64encode (a # b # c # bs) =
     [b64_char (unat a div 4), b64_char (unat a mod 4 * 16 + unat b div 16),
      b64_char (unat b mod 16 * 4 + unat c div 64), b64_char (unat c mod 64)] @ b64encode bs"

definition byte_of_nat :: "nat \<Rightarrow> 8 word" where
  "byte_of_nat n = word_of_nat n"

text \<open>
  \<open>base64.b64decode(s, validate=True)\<close>: groups of four alphabet characters, the last one padded;
  anything else is an error. (The unused low bits of a padded group are ignored.)
\<close>

fun b64decode :: "string \<Rightarrow> bytes option" where
  "b64decode [] = Some []"
| "b64decode [c1, c2, c3, c4] =
     (case (b64_value c1, b64_value c2) of
        (Some w, Some x) \<Rightarrow>
          if c3 = CHR ''='' \<and> c4 = CHR ''='' then Some [byte_of_nat (w * 4 + x div 16)]
          else (case b64_value c3 of
             Some y \<Rightarrow>
               if c4 = CHR ''=''
               then Some [byte_of_nat (w * 4 + x div 16), byte_of_nat (x mod 16 * 16 + y div 4)]
               else (case b64_value c4 of
                  Some z \<Rightarrow> Some [byte_of_nat (w * 4 + x div 16),
                                 byte_of_nat (x mod 16 * 16 + y div 4), byte_of_nat (y mod 4 * 64 + z)]
                | None \<Rightarrow> None)
           | None \<Rightarrow> None)
      | _ \<Rightarrow> None)"
| "b64decode (c1 # c2 # c3 # c4 # cs) =
     (case (b64_value c1, b64_value c2, b64_value c3, b64_value c4) of
        (Some w, Some x, Some y, Some z) \<Rightarrow>
          map_option (\<lambda>bs. [byte_of_nat (w * 4 + x div 16), byte_of_nat (x mod 16 * 16 + y div 4),
                             byte_of_nat (y mod 4 * 64 + z)] @ bs) (b64decode cs)
      | _ \<Rightarrow> None)"
| "b64decode _ = None"

lemma of_char_small: "n < 256 \<Longrightarrow> of_char (char_of (n::nat) :: char) = n"
  by (simp add: take_bit_nat_eq_self)

lemma b64_codes:
  "d < 26 \<Longrightarrow> of_char (b64_char d) = 65 + d"
  "26 \<le> d \<Longrightarrow> d < 52 \<Longrightarrow> of_char (b64_char d) = 71 + d"
  "52 \<le> d \<Longrightarrow> d < 62 \<Longrightarrow> of_char (b64_char d) = d - 4"
  "of_char (b64_char 62) = (43::nat)" "of_char (b64_char 63) = (47::nat)"
  by (simp_all add: b64_char_def of_char_small del: of_char_of)

lemma b64_cases:
  assumes "d < (64::nat)"
  obtains "d < 26" | "26 \<le> d" "d < 52" | "52 \<le> d" "d < 62" | "d = 62" | "d = 63"
  using assms by linarith

lemma b64_value_char: "d < 64 \<Longrightarrow> b64_value (b64_char d) = Some d"
  by (erule b64_cases) (auto simp: b64_value_def Let_def b64_codes, simp_all add: b64_char_def)

lemma b64_char_not_pad:
  assumes "d < 64" shows "b64_char d \<noteq> CHR ''=''"
proof
  assume "b64_char d = CHR ''=''"
  then have "of_char (b64_char d) = (61::nat)" by simp
  with assms show False by (elim b64_cases) (simp_all add: b64_codes)
qed

lemma byte_lt: "unat (b :: 8 word) < 256"
  using unsigned_less [of b] by simp

lemma b64_group_values:
  fixes a b c :: "8 word"
  shows "b64_value (b64_char (unat a div 4)) = Some (unat a div 4)"
    and "b64_value (b64_char (unat a mod 4 * 16 + unat b div 16)) = Some (unat a mod 4 * 16 + unat b div 16)"
    and "b64_value (b64_char (unat a mod 4 * 16)) = Some (unat a mod 4 * 16)"
    and "b64_value (b64_char (unat b mod 16 * 4 + unat c div 64)) = Some (unat b mod 16 * 4 + unat c div 64)"
    and "b64_value (b64_char (unat b mod 16 * 4)) = Some (unat b mod 16 * 4)"
    and "b64_value (b64_char (unat c mod 64)) = Some (unat c mod 64)"
    and "b64_char (unat b mod 16 * 4) \<noteq> CHR ''=''"
    and "b64_char (unat b mod 16 * 4 + unat c div 64) \<noteq> CHR ''=''"
    and "b64_char (unat c mod 64) \<noteq> CHR ''=''"
  by (rule b64_value_char b64_char_not_pad, use byte_lt [of a] byte_lt [of b] byte_lt [of c] in linarith)+

lemma byte_of_unat [simp]: "byte_of_nat (unat b) = b"
  by (simp add: byte_of_nat_def)

lemma b64_split:
  fixes b c :: nat
  shows "b < 256 \<Longrightarrow> (k * 16 + b div 16) div 16 = k" "b < 256 \<Longrightarrow> (k * 16 + b div 16) mod 16 = b div 16"
    and "c < 256 \<Longrightarrow> (k * 4 + c div 64) div 4 = k" "c < 256 \<Longrightarrow> (k * 4 + c div 64) mod 4 = c div 64"
  by (simp_all add: div_mult_self4 less_mult_imp_div_less div_add1_eq mod_simps)

lemma b64_recombine:
  fixes a b c :: nat
  assumes "b < 256" "c < 256"
  shows "a div 4 * 4 + (a mod 4 * 16 + b div 16) div 16 = a"
    and "a div 4 * 4 + a mod 4 * 16 div 16 = a"
    and "(a mod 4 * 16 + b div 16) mod 16 * 16 + (b mod 16 * 4 + c div 64) div 4 = b"
    and "(a mod 4 * 16 + b div 16) mod 16 * 16 + b mod 16 * 4 div 4 = b"
    and "(b mod 16 * 4 + c div 64) mod 4 * 64 + c mod 64 = c"
  using assms by (simp_all add: b64_split)

lemma b64_group_bytes:
  fixes a b c :: "8 word"
  shows "byte_of_nat (unat a div 4 * 4 + (unat a mod 4 * 16 + unat b div 16) div 16) = a"
    and "byte_of_nat (unat a div 4 * 4 + unat a mod 4 * 16 div 16) = a"
    and "byte_of_nat ((unat a mod 4 * 16 + unat b div 16) mod 16 * 16 +
           (unat b mod 16 * 4 + unat c div 64) div 4) = b"
    and "byte_of_nat ((unat a mod 4 * 16 + unat b div 16) mod 16 * 16 + unat b mod 16 * 4 div 4) = b"
    and "byte_of_nat ((unat b mod 16 * 4 + unat c div 64) mod 4 * 64 + unat c mod 64) = c"
  by (simp_all only: b64_recombine [OF byte_lt byte_lt] byte_of_unat)

lemma b64encode_Nil_iff [simp]: "b64encode bs = [] \<longleftrightarrow> bs = []"
  by (cases bs rule: b64encode.cases) auto

lemma b64decode_group:
  "b64_value c1 = Some w \<Longrightarrow> b64_value c2 = Some x \<Longrightarrow> b64_value c3 = Some y \<Longrightarrow>
   b64_value c4 = Some z \<Longrightarrow> c3 \<noteq> CHR ''='' \<Longrightarrow> c4 \<noteq> CHR ''='' \<Longrightarrow>
   b64decode (c1 # c2 # c3 # c4 # cs) =
     map_option (\<lambda>bs. [byte_of_nat (w * 4 + x div 16), byte_of_nat (x mod 16 * 16 + y div 4),
                        byte_of_nat (y mod 4 * 64 + z)] @ bs) (b64decode cs)"
  by (cases cs) (auto simp: map_option_case split: option.split)

text \<open>Decoding inverts encoding, for every byte string.\<close>

lemma b64_roundtrip: "b64decode (b64encode bs) = Some bs"
proof (induction bs rule: b64encode.induct)
  case (2 a)
  show ?case
    by (simp only: b64encode.simps b64decode.simps b64_group_values b64_group_bytes
        prod.case option.case simp_thms if_True)
next
  case (3 a b)
  show ?case
    by (simp only: b64encode.simps b64decode.simps b64_group_values b64_group_bytes
        prod.case option.case simp_thms if_True if_False)
next
  case (4 a b c bs)
  show ?case
    by (simp only: b64encode.simps append.simps 4 option.map
        b64decode_group [OF b64_group_values(1,2,4,6,8,9)] b64_group_bytes)
qed simp

lemma length_b64encode: "length (b64encode bs) = 4 * ((length bs + 2) div 3)"
proof (induction bs rule: b64encode.induct)
  case (4 a b c bs)
  have "(length (a # b # c # bs) + 2) div 3 = Suc ((length bs + 2) div 3)" by simp
  with 4 show ?case by (simp only: b64encode.simps) simp
qed auto

end
