(* ===== verification/JsonText.thy ===== *)
theory JsonText
  imports Digest
begin

text \<open>
  Canonical JSON text: \<open>json.dumps(obj, sort_keys=True, separators=(",", ":"),
  ensure_ascii=False)\<close>, with \<open>float.__repr__\<close> (the shortest decimal that reads back as the same
  double) and the \<open>hmac.compare_digest\<close> comparison.
\<close>

section \<open>Float text\<close>

definition dec_exp :: "real \<Rightarrow> int" where
  "dec_exp x = \<lfloor>log 10 \<bar>x\<bar>\<rfloor>"

definition sig_digits :: "nat \<Rightarrow> real \<Rightarrow> int" where
  "sig_digits n x = rne (\<bar>x\<bar> * 10 powr of_int (int n - 1 - dec_exp x))"

definition sig_value :: "nat \<Rightarrow> real \<Rightarrow> real" where
  "sig_value n x = of_int (sig_digits n x) * 10 powr of_int (dec_exp x - int n + 1)"

definition shortest_len :: "real \<Rightarrow> nat" where
  "shortest_len x =
     (case first_where (\<lambda>n. fl (sig_value n x) = \<bar>x\<bar>) [1 ..< 17] of Some n \<Rightarrow> n | None \<Rightarrow> 17)"

definition strip_zeros :: "string \<Rightarrow> string" where
  "strip_zeros s = rev (dropWhile ((=) CHR ''0'') (rev s))"

definition exp_text :: "int \<Rightarrow> string" where
  "exp_text e = (if e < 0 then ''e-'' else ''e+'') @ pad_left 2 (nat_text (nat \<bar>e\<bar>))"

definition layout_digits :: "string \<Rightarrow> int \<Rightarrow> string" where
  "layout_digits ds decpt =
     (if -4 < decpt \<and> decpt \<le> 16
      then if decpt \<le> 0 then ''0.'' @ replicate (nat (- decpt)) (CHR ''0'') @ ds
           else if int (length ds) \<le> decpt
           then ds @ replicate (nat decpt - length ds) (CHR ''0'') @ ''.0''
           else take (nat decpt) ds @ ''.'' @ drop (nat decpt) ds
      else take 1 ds @ (if length ds = 1 then '''' else ''.'' @ drop 1 ds) @ exp_text (decpt - 1))"

definition float_repr :: "real \<Rightarrow> string" where
  "float_repr x =
     (if x = 0 then ''0.0''
      else let n = shortest_len x; ds = nat_text (nat (sig_digits n x));
               decpt = dec_exp x - int n + 1 + int (length ds)
           in (if x < 0 then ''-'' else '''') @ layout_digits (strip_zeros ds) decpt)"

section \<open>JSON text\<close>

definition json_escape :: "char \<Rightarrow> string" where
  "json_escape c =
     (if c = CHR 0x22 then [CHR 0x5C, CHR 0x22]
      else if c = CHR 0x5C then [CHR 0x5C, CHR 0x5C]
      else if c = CHR 0x0A then [CHR 0x5C, CHR ''n'']
      else if c = CHR 0x0D then [CHR 0x5C, CHR ''r'']
      else if c = CHR 0x09 then [CHR 0x5C, CHR ''t'']
      else if c = CHR 0x08 then [CHR 0x5C, CHR ''b'']
      else if c = CHR 0x0C then [CHR 0x5C, CHR ''f'']
      else if (of_char c :: nat) < 32
      then [CHR 0x5C, CHR ''u'', CHR ''0'', CHR ''0'', hex_digit (of_char c div 16), hex_digit (of_char c mod 16)]
      else [c])"

definition json_string :: "string \<Rightarrow> string" where
  "json_string s = CHR 0x22 # concat (map json_escape s) @ [CHR 0x22]"

definition sort_items :: "(string \<times> 'a) list \<Rightarrow> (string \<times> 'a) list" where
  "sort_items d = sort_key fst d"

lemma set_sort_items [simp]: "set (sort_items d) = set d"
  by (simp add: sort_items_def)

fun json_dumps :: "json \<Rightarrow> string" where
  "json_dumps JNull = ''null''"
| "json_dumps (JBool b) = (if b then ''true'' else ''false'')"
| "json_dumps (JInt n) = int_text n"
| "json_dumps (JFloat x) = float_repr x"
| "json_dumps (JStr s) = json_string s"
| "json_dumps (JList xs) = ''['' @ join '','' (map json_dumps xs) @ '']''"
| "json_dumps (JObj d) =
     ''{'' @ join '','' (map (\<lambda>(k, t). json_string k @ '':'' @ t)
                    (sort_items (map (\<lambda>(k, v). (k, json_dumps v)) d))) @ ''}''"

definition canonical_json_bytes :: "json \<Rightarrow> bytes" where
  "canonical_json_bytes obj = encode_str (json_dumps obj)"

section \<open>Digest comparison\<close>

text \<open>On strings \<open>hmac.compare_digest\<close> accepts ASCII only.\<close>

definition is_ascii :: "string \<Rightarrow> bool" where
  "is_ascii s \<longleftrightarrow> list_all (\<lambda>c. (of_char c :: nat) < 128) s"

definition compare_digest :: "string \<Rightarrow> string \<Rightarrow> bool result" where
  "compare_digest a b =
     (if is_ascii a \<and> is_ascii b then Inr (a = b)
      else Inl (TypeError ''comparing strings with non-ASCII characters is not supported''))"

lemma hex_digit_ascii: "d < 16 \<Longrightarrow> (of_char (hex_digit d) :: nat) < 128"
  by (auto simp: hex_digit_def take_bit_nat_eq_self)

lemma is_ascii_hex_text [simp]: "is_ascii (hex_text bs)"
proof -
  have "unat (b :: 8 word) div 16 < 16" for b using byte_lt [of b] by simp
  then show ?thesis
    by (auto simp: is_ascii_def hex_text_def list_all_iff intro!: hex_digit_ascii)
qed

lemma sort_items_perm:
  assumes "distinct (map fst d)" "distinct (map fst e)" "set d = set e"
  shows "sort_items d = sort_items e"
proof -
  have "inj_on fst (set d)" using assms(1) by (simp add: distinct_map)
  moreover have "distinct d" "distinct e" using assms(1,2) by (auto simp: distinct_map)
  ultimately show ?thesis unfolding sort_items_def using sort_key_perm_inj assms(3) by metis
qed

text \<open>
  The canonical text of an object does not depend on the order in which its keys were
  inserted, so the payload hash of a packet is a function of the payload's content.
\<close>

theorem canonical_json_key_order:
  assumes "keys_distinct d" "keys_distinct e" "set d = set e"
  shows "canonical_json_bytes (JObj d) = canonical_json_bytes (JObj e)"
proof -
  let ?f = "\<lambda>(k, v). (k, json_dumps v)"
  have fst: "map fst (map ?f d) = map fst d" for d by (induction d) auto
  have "sort_items (map ?f d) = sort_items (map ?f e)"
    by (rule sort_items_perm) (use assms in \<open>simp_all only: fst keys_distinct_def set_map\<close>)
  then show ?thesis by (simp add: canonical_json_bytes_def)
qed

lemma canonical_json_key_order_witness:
  "canonical_json_bytes (JObj [(''b'', JInt 1), (''a'', JNull)]) =
   canonical_json_bytes (JObj [(''a'', JNull), (''b'', JInt 1)])"
  by (rule canonical_json_key_order) (auto simp: keys_distinct_def)

section \<open>Reading the text back\<close>

text \<open>
  The reader of one escaped character; it inverts the writer, so a JSON string literal at the front
  of a text and an integer before a comma are determined by the text.
\<close>

definition hex_value :: "char \<Rightarrow> nat" where
  "hex_value c = (let n = of_char c in if n < 58 then n - 48 else n - 87)"

definition json_unescape :: "string \<Rightarrow> (char \<times> string) option" where
  "json_unescape s =
     (case s of [] \<Rightarrow> None
      | c # cs \<Rightarrow> if c \<noteq> CHR 0x5C then Some (c, cs)
        else (case cs of [] \<Rightarrow> None
          | e # es \<Rightarrow> if e = CHR ''u'' then (case es of _ # _ # h # l # rest \<Rightarrow>
                  Some (char_of (16 * hex_value h + hex_value l), rest) | _ \<Rightarrow> None)
             else if e = CHR ''n'' then Some (CHR 0x0A, es)
             else if e = CHR ''r'' then Some (CHR 0x0D, es)
             else if e = CHR ''t'' then Some (CHR 0x09, es)
             else if e = CHR ''b'' then Some (CHR 0x08, es)
             else if e = CHR ''f'' then Some (CHR 0x0C, es)
             else Some (e, es)))"

lemma hex_value_digit: "d < 16 \<Longrightarrow> hex_value (hex_digit d) = d"
  by (auto simp: hex_value_def hex_digit_def take_bit_nat_eq_self)

lemma json_unescape_special:
  "json_unescape (CHR 0x5C # CHR ''n'' # r) = Some (CHR 0x0A, r)"
  "json_unescape (CHR 0x5C # CHR ''r'' # r) = Some (CHR 0x0D, r)"
  "json_unescape (CHR 0x5C # CHR ''t'' # r) = Some (CHR 0x09, r)"
  "json_unescape (CHR 0x5C # CHR ''b'' # r) = Some (CHR 0x08, r)"
  "json_unescape (CHR 0x5C # CHR ''f'' # r) = Some (CHR 0x0C, r)"
  "json_unescape (CHR 0x5C # CHR 0x22 # r) = Some (CHR 0x22, r)"
  "json_unescape (CHR 0x5C # CHR 0x5C # r) = Some (CHR 0x5C, r)"
  "json_unescape (CHR 0x5C # CHR ''u'' # x # y # h # l # r) =
   Some (char_of (16 * hex_value h + hex_value l), r)"
  by (simp_all add: json_unescape_def)

lemma json_unescape_plain: "c \<noteq> CHR 0x5C \<Longrightarrow> json_unescape (c # r) = Some (c, r)"
  by (simp add: json_unescape_def)

lemma hex_value_parts:
  assumes "n < 32" shows "16 * hex_value (hex_digit (n div 16)) + hex_value (hex_digit (n mod 16)) = n"
proof -
  have "n div 16 < 16" "n mod 16 < 16" using assms by auto
  then show ?thesis by (simp only: hex_value_digit mult_div_mod_eq)
qed

lemma json_unescape_escape: "json_unescape (json_escape c @ r) = Some (c, r)"
proof (cases "c \<in> {CHR 0x22, CHR 0x5C, CHR 0x0A, CHR 0x0D, CHR 0x09, CHR 0x08, CHR 0x0C}")
  case True
  then show ?thesis
    by (elim insertE emptyE)
      (simp_all only: json_escape_def json_unescape_special append_Cons append_Nil char.inject
        if_True if_False simp_thms)
next
  case False
  then have neq: "c \<noteq> CHR 0x22" "c \<noteq> CHR 0x5C" "c \<noteq> CHR 0x0A" "c \<noteq> CHR 0x0D" "c \<noteq> CHR 0x09"
    "c \<noteq> CHR 0x08" "c \<noteq> CHR 0x0C" by blast+
  show ?thesis
  proof (cases "(of_char c :: nat) < 32")
    case True
    then show ?thesis
      by (simp only: json_escape_def neq if_False if_True append_Cons append_Nil
          json_unescape_special hex_value_parts char_of_char)
  next
    case False
    then show ?thesis
      by (simp only: json_escape_def neq if_False append_Cons append_Nil json_unescape_plain
          not_False_eq_True)
  qed
qed

lemma json_escape_prefix:
  "json_escape c @ r = json_escape d @ r' \<Longrightarrow> c = d \<and> r = r'"
  by (metis json_unescape_escape option.inject prod.inject)

lemma nat_text_nonempty [simp]: "nat_text n \<noteq> []"
  by (subst nat_text.simps) auto

lemma digit_char_code: "d < 10 \<Longrightarrow> (of_char (digit_char d) :: nat) = 48 + d"
  by (simp add: digit_char_def take_bit_nat_eq_self)

lemma nat_text_digits: "c \<in> set (nat_text n) \<Longrightarrow> (of_char c :: nat) \<in> {48..57}"
proof (induction n rule: nat_text.induct)
  case (1 n)
  have "(of_char (digit_char (n mod 10)) :: nat) \<in> {48..57}"
    using digit_char_code [of "n mod 10"] by auto
  then show ?case
    using "1.prems" "1.IH" digit_char_code [of n]
    by (auto simp: nat_text.simps [of n] split: if_splits)
qed

lemma int_text_chars: "c \<in> set (int_text n) \<Longrightarrow> c = CHR ''-'' \<or> (of_char c :: nat) \<in> {48..57}"
  by (auto simp: int_text_def dest: nat_text_digits split: if_splits)

lemma nat_text_inj: "nat_text m = nat_text n \<Longrightarrow> m = n"
proof (induction m arbitrary: n rule: nat_text.induct)
  case (1 m)
  have len: "length (nat_text k) = 1 \<longleftrightarrow> k < 10" for k
    by (subst nat_text.simps) auto
  show ?case
  proof (cases "m < 10")
    case True
    then have "n < 10" using "1.prems" len by metis
    with True "1.prems" show ?thesis
      by (simp add: nat_text.simps [of m] nat_text.simps [of n] digit_char_inj)
  next
    case False
    then have "\<not> n < 10" using "1.prems" len by metis
    with False "1.prems" have "nat_text (m div 10) = nat_text (n div 10)" "m mod 10 = n mod 10"
      by (simp_all add: nat_text.simps [of m] nat_text.simps [of n] digit_char_inj)
    with "1.IH" False show ?thesis by (metis div_mult_mod_eq)
  qed
qed

lemma int_text_inj: "int_text m = int_text n \<longleftrightarrow> m = n"
proof -
  have "CHR ''-'' \<notin> set (nat_text k)" for k
    using nat_text_digits [of "CHR ''-''" k] by auto
  then have neq: "CHR ''-'' # xs \<noteq> nat_text k" for k xs by (metis list.set_intros(1))
  then show ?thesis
    by (auto simp: int_text_def dest: nat_text_inj split: if_splits) (metis neq)+
qed

lemma int_text_no_comma: "CHR '','' \<notin> set (int_text n)"
  using int_text_chars [of "CHR '',''" n] by auto

lemma int_text_comma_inject:
  assumes "int_text m @ CHR '','' # r = int_text n @ CHR '','' # r'"
  shows "m = n \<and> r = r'"
proof -
  have "takeWhile (\<lambda>c. c \<noteq> CHR '','') (int_text k @ CHR '','' # q) = int_text k" for k q
    using int_text_no_comma by (subst takeWhile_append2) auto
  then have "int_text m = int_text n" using assms by metis
  with assms show ?thesis by (simp add: int_text_inj)
qed
lemma json_escape_not_quote: "json_escape c @ r \<noteq> CHR 0x22 # r'"
  by (simp add: json_escape_def)

lemma escaped_inject:
  "concat (map json_escape s) @ CHR 0x22 # r = concat (map json_escape t) @ CHR 0x22 # r'
   \<Longrightarrow> s = t \<and> r = r'"
proof (induction s arbitrary: t)
  case Nil
  show ?case
  proof (cases t)
    case (Cons d t')
    with Nil.prems have "json_escape d @ (concat (map json_escape t') @ CHR 0x22 # r') = CHR 0x22 # r"
      by simp
    then show ?thesis using json_escape_not_quote by blast
  qed (use Nil.prems in simp)
next
  case (Cons c s)
  show ?case
  proof (cases t)
    case Nil
    with Cons.prems have "json_escape c @ (concat (map json_escape s) @ CHR 0x22 # r) = CHR 0x22 # r'"
      by simp
    then show ?thesis using json_escape_not_quote by blast
  next
    case (Cons d t')
    with Cons.prems have
      "json_escape c @ (concat (map json_escape s) @ CHR 0x22 # r) =
       json_escape d @ (concat (map json_escape t') @ CHR 0x22 # r')" by simp
    from json_escape_prefix [OF this] Cons Cons.IH show ?thesis by blast
  qed
qed

lemma json_string_inject: "json_string s @ r = json_string t @ r' \<Longrightarrow> s = t \<and> r = r'"
  using escaped_inject [of s r t r'] by (simp add: json_string_def)

section \<open>\<open>str(x)\<close> on JSON values\<close>

definition repr_char :: "char \<Rightarrow> char \<Rightarrow> string" where
  "repr_char q c =
     (if c = q \<or> c = CHR 0x5C then [CHR 0x5C, c]
      else if c = CHR 0x0A then [CHR 0x5C, CHR ''n'']
      else if c = CHR 0x0D then [CHR 0x5C, CHR ''r'']
      else if c = CHR 0x09 then [CHR 0x5C, CHR ''t'']
      else if (of_char c :: nat) < 32 \<or> c = CHR 0x7F
      then [CHR 0x5C, CHR ''x'', hex_digit (of_char c div 16), hex_digit (of_char c mod 16)]
      else [c])"

definition repr_str :: "string \<Rightarrow> string" where
  "repr_str s =
     (let q = (if CHR 0x27 \<in> set s \<and> CHR 0x22 \<notin> set s then CHR 0x22 else CHR 0x27)
      in q # concat (map (repr_char q) s) @ [q])"

fun py_repr :: "json \<Rightarrow> string" where
  "py_repr JNull = ''None''"
| "py_repr (JBool b) = (if b then ''True'' else ''False'')"
| "py_repr (JInt n) = int_text n"
| "py_repr (JFloat x) = float_repr x"
| "py_repr (JStr s) = repr_str s"
| "py_repr (JList xs) = ''['' @ join '', '' (map py_repr xs) @ '']''"
| "py_repr (JObj d) =
     ''{'' @ join '', '' (map (\<lambda>(k, v). repr_str k @ '': '' @ py_repr v) d) @ ''}''"

definition py_str :: "json \<Rightarrow> string" where
  "py_str v = (case v of JStr s \<Rightarrow> s | _ \<Rightarrow> py_repr v)"

end
