(* ===== verification/SessionCodec.thy ===== *)
theory SessionCodec
  imports JsonText
begin

text \<open>
  The session codec of \<open>src/vermyth/protocol/session_codec.py\<close> and the session types of
  \<open>src/vermyth/schema/_legacy.py\<close>: packets and responses with their payload hashes and proofs
  under the two schemes, and the signature of federation gossip. A proof scheme is an interface
  with two providers, the plain digest and HMAC-SHA-256 in base64.
\<close>

section \<open>Session types\<close>

datatype session_transport = JSONRPC | BINARY

datatype proof_scheme = HASH | SIGNED

datatype session_status = OPEN | CLOSED | REVOKED

record peer_identity =
  pi_peer_id :: string
  pi_key_id :: string
  pi_scheme :: proof_scheme
  pi_public_material_ref :: "string option"

record capabilities =
  cap_codec_version :: int
  cap_aspect_dimensionality :: int
  cap_proof_scheme :: proof_scheme
  cap_supports_binary :: bool
  cap_supports_replay_guard :: bool
  cap_allowed_tools :: "string list option"
  cap_max_packet_bytes :: "int option"

record session_record =
  sr_session_id :: string
  sr_opened_at :: int
  sr_closed_at :: "int option"
  sr_status :: session_status
  sr_transport :: session_transport
  sr_local :: peer_identity
  sr_remote :: peer_identity
  sr_capabilities :: capabilities
  sr_last_sequence :: int
  sr_anchor_cast_id :: "string option"
  sr_channel_branch_id :: "string option"

record packet =
  pk_session_id :: string
  pk_sequence :: int
  pk_packet_type :: string
  pk_payload_hash :: string
  pk_payload :: "(string, json) dict"
  pk_proof :: string

record response =
  rs_session_id :: string
  rs_sequence :: int
  rs_payload_hash :: string
  rs_accepted :: bool
  rs_proof :: string

record session_keys =
  sk_key_id :: string
  sk_secret :: bytes

text \<open>The declared constraints of the pydantic models.\<close>

definition len_between :: "nat \<Rightarrow> nat \<Rightarrow> string \<Rightarrow> bool" where
  "len_between lo hi s \<longleftrightarrow> lo \<le> length s \<and> length s \<le> hi"

definition mk_peer_identity :: "string \<Rightarrow> string \<Rightarrow> proof_scheme \<Rightarrow> peer_identity result" where
  "mk_peer_identity peer_id key_id scheme =
     (if len_between 1 200 peer_id \<and> len_between 1 200 key_id
      then Inr \<lparr>pi_peer_id = peer_id, pi_key_id = key_id, pi_scheme = scheme,
                pi_public_material_ref = None\<rparr>
      else Inl (ValueError ''PeerIdentity''))"

definition mk_capabilities ::
  "int \<Rightarrow> int \<Rightarrow> string \<Rightarrow> bool \<Rightarrow> bool \<Rightarrow> int option \<Rightarrow> capabilities result" where
  "mk_capabilities codec dimension scheme binary guard max_bytes =
     (if 1 \<le> codec \<and> 6 \<le> dimension \<and> (scheme = ''HASH'' \<or> scheme = ''SIGNED'')
         \<and> (case max_bytes of None \<Rightarrow> True | Some n \<Rightarrow> 1 \<le> n)
      then Inr \<lparr>cap_codec_version = codec, cap_aspect_dimensionality = dimension,
                cap_proof_scheme = (if scheme = ''HASH'' then HASH else SIGNED),
                cap_supports_binary = binary, cap_supports_replay_guard = guard,
                cap_allowed_tools = None, cap_max_packet_bytes = max_bytes\<rparr>
      else Inl (ValueError ''NegotiatedCapabilities''))"

definition packet_ok :: "packet \<Rightarrow> bool" where
  "packet_ok p \<longleftrightarrow>
     1 \<le> pk_sequence p \<and> len_between 1 50 (pk_packet_type p)
     \<and> length (pk_payload_hash p) = 64 \<and> len_between 1 2048 (pk_proof p)"

definition validate_packet :: "packet \<Rightarrow> packet result" where
  "validate_packet p = (if packet_ok p then Inr p else Inl (ValueError ''CanonicalPacketV2''))"

definition response_ok :: "response \<Rightarrow> bool" where
  "response_ok r \<longleftrightarrow>
     1 \<le> rs_sequence r \<and> length (rs_payload_hash r) = 64 \<and> len_between 1 2048 (rs_proof r)"

definition validate_response :: "response \<Rightarrow> response result" where
  "validate_response r = (if response_ok r then Inr r else Inl (ValueError ''CanonicalResponseV2''))"

section \<open>Signatures\<close>

definition sign_hmac_sha256 :: "bytes \<Rightarrow> bytes \<Rightarrow> string" where
  "sign_hmac_sha256 secret message = b64encode (hmac_sha256 secret message)"

definition verify_hmac_sha256 :: "bytes \<Rightarrow> bytes \<Rightarrow> string \<Rightarrow> bool" where
  "verify_hmac_sha256 secret message signature_b64 =
     (case b64decode signature_b64 of
        None \<Rightarrow> False
      | Some sig \<Rightarrow> sig = hmac_sha256 secret message)"

text \<open>
  What the codec needs of a proof scheme: a proof decodes to a tag, verification accepts exactly
  the proofs whose tag is the message's, and the made proof is one of them.
\<close>

locale proof_provider =
  fixes make :: "'k \<Rightarrow> bytes \<Rightarrow> string"
    and verify :: "'k \<Rightarrow> bytes \<Rightarrow> string \<Rightarrow> bool"
    and tag :: "'k \<Rightarrow> bytes \<Rightarrow> 't"
    and decode :: "string \<Rightarrow> 't option"
  assumes verify_iff: "verify k m p \<longleftrightarrow> decode p = Some (tag k m)"
    and decode_make: "decode (make k m) = Some (tag k m)"
begin

lemma verify_make: "verify k m (make k m)"
  by (simp add: verify_iff decode_make)

lemma same_proof_same_tag: "verify k m p \<Longrightarrow> verify k' m' p \<Longrightarrow> tag k m = tag k' m'"
  by (simp add: verify_iff)

lemma verify_foreign: "tag k m \<noteq> tag k' m' \<Longrightarrow> \<not> verify k m (make k' m')"
  by (simp add: verify_iff decode_make)

end

definition verify_digest :: "unit \<Rightarrow> bytes \<Rightarrow> string \<Rightarrow> bool" where
  "verify_digest k m p \<longleftrightarrow> p = sha256_hex m"

interpretation hash_proof: proof_provider "\<lambda>_. sha256_hex" verify_digest "\<lambda>_. sha256_hex" Some
  by unfold_locales (auto simp: verify_digest_def)

interpretation signed_proof:
  proof_provider sign_hmac_sha256 verify_hmac_sha256 hmac_sha256 b64decode
  by unfold_locales
    (auto simp: verify_hmac_sha256_def sign_hmac_sha256_def b64_roundtrip split: option.splits)

section \<open>Packets and responses\<close>

definition make_packet_payload_hash :: "(string, json) dict \<Rightarrow> string" where
  "make_packet_payload_hash payload = sha256_hex (canonical_json_bytes (JObj payload))"

definition packet_proof_input :: "string \<Rightarrow> int \<Rightarrow> string \<Rightarrow> string \<Rightarrow> bytes" where
  "packet_proof_input session_id sequence packet_type payload_hash =
     canonical_json_bytes (JObj
       [(''session_id'', JStr session_id), (''sequence'', JInt sequence),
        (''packet_type'', JStr packet_type), (''payload_hash'', JStr payload_hash)])"

definition make_packet_proof ::
  "string \<Rightarrow> int \<Rightarrow> string \<Rightarrow> string \<Rightarrow> proof_scheme \<Rightarrow> session_keys option \<Rightarrow> string result" where
  "make_packet_proof session_id sequence packet_type payload_hash scheme keys =
     (let proof_input = packet_proof_input session_id sequence packet_type payload_hash in
      if scheme = HASH then Inr (sha256_hex proof_input)
      else (case keys of
              None \<Rightarrow> Inl (ValueError ''SIGNED proof requires SessionKeys'')
            | Some k \<Rightarrow> Inr (sign_hmac_sha256 (sk_secret k) proof_input)))"

definition verify_packet_proof :: "packet \<Rightarrow> proof_scheme \<Rightarrow> session_keys option \<Rightarrow> bool" where
  "verify_packet_proof packet scheme keys =
     (if pk_payload_hash packet \<noteq> sha256_hex (canonical_json_bytes (JObj (pk_payload packet)))
      then False
      else let proof_input = packet_proof_input (pk_session_id packet) (pk_sequence packet)
                               (pk_packet_type packet) (pk_payload_hash packet) in
           if scheme = HASH then pk_proof packet = sha256_hex proof_input
           else (case keys of None \<Rightarrow> False
                 | Some k \<Rightarrow> verify_hmac_sha256 (sk_secret k) proof_input (pk_proof packet)))"

definition encode_packet ::
  "string \<Rightarrow> int \<Rightarrow> string \<Rightarrow> (string, json) dict \<Rightarrow> capabilities \<Rightarrow> session_keys option \<Rightarrow> packet result"
where
  "encode_packet session_id sequence packet_type payload caps keys =
     (let payload_hash = make_packet_payload_hash payload in
      rbind (make_packet_proof session_id sequence packet_type payload_hash
               (cap_proof_scheme caps) keys) (\<lambda>proof.
      validate_packet \<lparr>pk_session_id = session_id, pk_sequence = sequence,
        pk_packet_type = packet_type, pk_payload_hash = payload_hash, pk_payload = payload,
        pk_proof = proof\<rparr>))"

definition response_proof_input :: "string \<Rightarrow> int \<Rightarrow> string \<Rightarrow> bool \<Rightarrow> bytes" where
  "response_proof_input session_id sequence payload_hash accepted =
     canonical_json_bytes (JObj
       [(''session_id'', JStr session_id), (''sequence'', JInt sequence),
        (''payload_hash'', JStr payload_hash), (''accepted'', JBool accepted)])"

definition encode_response ::
  "string \<Rightarrow> int \<Rightarrow> string \<Rightarrow> bool \<Rightarrow> capabilities \<Rightarrow> session_keys option \<Rightarrow> response result"
where
  "encode_response session_id sequence payload_hash accepted caps keys =
     (let proof_input = response_proof_input session_id sequence payload_hash accepted in
      rbind (if cap_proof_scheme caps = HASH then Inr (sha256_hex proof_input)
             else (case keys of
                     None \<Rightarrow> Inl (ValueError ''SIGNED response requires SessionKeys'')
                   | Some k \<Rightarrow> Inr (sign_hmac_sha256 (sk_secret k) proof_input))) (\<lambda>proof.
      validate_response \<lparr>rs_session_id = session_id, rs_sequence = sequence,
        rs_payload_hash = payload_hash, rs_accepted = accepted, rs_proof = proof\<rparr>))"

definition verify_response :: "response \<Rightarrow> bool \<Rightarrow> proof_scheme \<Rightarrow> session_keys option \<Rightarrow> bool" where
  "verify_response response accepted scheme keys =
     (let proof_input = response_proof_input (rs_session_id response) (rs_sequence response)
                          (rs_payload_hash response) accepted in
      if scheme = HASH then rs_proof response = sha256_hex proof_input
      else (case keys of None \<Rightarrow> False
            | Some k \<Rightarrow> verify_hmac_sha256 (sk_secret k) proof_input (rs_proof response)))"

section \<open>Gossip\<close>

record gossip_payload =
  gp_peer_id :: string
  gp_key_id :: string
  gp_seeds :: "(string, json) dict list"
  gp_crystallized :: "(string, json) dict list"
  gp_emergent_aspects :: "(string, json) dict list"
  gp_proof :: string

definition gossip_body ::
  "string \<Rightarrow> string \<Rightarrow> (string, json) dict list \<Rightarrow> (string, json) dict list \<Rightarrow> json" where
  "gossip_body peer_id key_id seeds crystallized =
     JObj [(''peer_id'', JStr peer_id), (''key_id'', JStr key_id),
           (''seeds'', JList (map JObj seeds)), (''crystallized'', JList (map JObj crystallized))]"

text \<open>
  \<open>env\<close> is the environment variable \<open>VERMYTH_FEDERATION_SECRET\<close>; the secret read from it is empty
  when it is unset.
\<close>

definition federation_secret :: "string option \<Rightarrow> bytes" where
  "federation_secret env = encode_str (str_or env [])"

definition sign_gossip_payload ::
  "string option \<Rightarrow> string \<Rightarrow> string \<Rightarrow> (string, json) dict list \<Rightarrow> (string, json) dict list
     \<Rightarrow> bytes option \<Rightarrow> string result" where
  "sign_gossip_payload env peer_id key_id seeds crystallized secret =
     (let s = (case secret of Some x \<Rightarrow> x | None \<Rightarrow> federation_secret env) in
      if s = [] then Inl (ValueError ''VERMYTH_FEDERATION_SECRET not set'')
      else Inr (hex_text (hmac_sha256 s
                 (canonical_json_bytes (gossip_body peer_id key_id seeds crystallized)))))"

definition verify_gossip_payload :: "string option \<Rightarrow> gossip_payload \<Rightarrow> bool result" where
  "verify_gossip_payload env payload =
     (let s = federation_secret env in
      if s = [] then Inr False
      else compare_digest
             (hex_text (hmac_sha256 s (canonical_json_bytes
                (gossip_body (gp_peer_id payload) (gp_key_id payload) (gp_seeds payload)
                   (gp_crystallized payload)))))
             (gp_proof payload))"

section \<open>Text of the signed fields\<close>

text \<open>
  The canonical text lists the four signed fields in the order of their names, so it determines
  each of them.
\<close>

lemma field_text_inject:
  assumes "a @ json_string ty @ b @ json_string ph @ c @ int_text seq @ CHR '','' # d @ json_string sid @ e =
           a @ json_string ty' @ b @ json_string ph' @ c @ int_text seq' @ CHR '','' # d @ json_string sid' @ e"
  shows "sid = sid' \<and> seq = seq' \<and> ty = ty' \<and> ph = ph'"
proof -
  from assms have ty: "ty = ty'" and
    2: "json_string ph @ c @ int_text seq @ CHR '','' # d @ json_string sid @ e =
        json_string ph' @ c @ int_text seq' @ CHR '','' # d @ json_string sid' @ e"
    by (auto dest: json_string_inject)
  from 2 have ph: "ph = ph'" and
    3: "int_text seq @ CHR '','' # (d @ json_string sid @ e) =
        int_text seq' @ CHR '','' # (d @ json_string sid' @ e)"
    by (auto dest: json_string_inject)
  from int_text_comma_inject [OF 3] have "seq = seq'" "json_string sid @ e = json_string sid' @ e"
    by auto
  with ty ph json_string_inject [of sid e sid' e] show ?thesis by simp
qed

lemma packet_proof_input_text:
  "packet_proof_input sid seq ty ph = encode_str
     ((''{'' @ json_string ''packet_type'' @ '':'') @ json_string ty @
      ('','' @ json_string ''payload_hash'' @ '':'') @ json_string ph @
      ('','' @ json_string ''sequence'' @ '':'') @ int_text seq @ CHR '','' #
      (json_string ''session_id'' @ '':'') @ json_string sid @ ''}'')"
  by (simp add: packet_proof_input_def canonical_json_bytes_def sort_items_def)

lemma packet_proof_input_inj:
  "packet_proof_input sid seq ty ph = packet_proof_input sid' seq' ty' ph' \<Longrightarrow>
   sid = sid' \<and> seq = seq' \<and> ty = ty' \<and> ph = ph'"
  unfolding packet_proof_input_text encode_str_inj by (rule field_text_inject)

section \<open>Properties of the codec\<close>

text \<open>Verification through the interface of its scheme.\<close>

lemma verify_packet_hash:
  "verify_packet_proof p HASH keys \<longleftrightarrow>
   pk_payload_hash p = make_packet_payload_hash (pk_payload p)
   \<and> verify_digest () (packet_proof_input (pk_session_id p) (pk_sequence p) (pk_packet_type p)
        (pk_payload_hash p)) (pk_proof p)"
  by (auto simp: verify_packet_proof_def make_packet_payload_hash_def verify_digest_def Let_def)

lemma verify_packet_signed:
  "verify_packet_proof p SIGNED keys \<longleftrightarrow>
   (\<exists>k. keys = Some k \<and> pk_payload_hash p = make_packet_payload_hash (pk_payload p)
   \<and> verify_hmac_sha256 (sk_secret k) (packet_proof_input (pk_session_id p) (pk_sequence p)
        (pk_packet_type p) (pk_payload_hash p)) (pk_proof p))"
  by (auto simp: verify_packet_proof_def make_packet_payload_hash_def Let_def split: option.splits)

lemma encode_packet_Inr:
  "encode_packet sid seq ty payload caps keys = Inr p \<Longrightarrow>
   packet_ok p \<and> pk_session_id p = sid \<and> pk_sequence p = seq \<and> pk_packet_type p = ty
   \<and> pk_payload p = payload \<and> pk_payload_hash p = make_packet_payload_hash payload
   \<and> verify_packet_proof p (cap_proof_scheme caps) keys"
  by (cases "cap_proof_scheme caps")
    (auto simp: encode_packet_def Let_def rbind_Inr_iff make_packet_proof_def verify_packet_hash
      verify_packet_signed verify_digest_def validate_packet_def signed_proof.verify_make
      split: if_splits option.splits)

text \<open>
  A packet the codec encodes is verified by the receiver under the same capabilities and keys,
  in both proof schemes, and carries the fields it was made from.
\<close>

theorem packet_roundtrip:
  assumes "encode_packet sid seq ty payload caps keys = Inr p"
  shows "verify_packet_proof p (cap_proof_scheme caps) keys \<and> packet_ok p
         \<and> pk_session_id p = sid \<and> pk_sequence p = seq \<and> pk_packet_type p = ty
         \<and> pk_payload p = payload"
  using encode_packet_Inr [OF assms] by simp

lemma length_b64encode_hmac [simp]: "length (b64encode (hmac_sha256 k m)) = 44"
  by (simp add: length_b64encode)

definition sample_caps :: "proof_scheme \<Rightarrow> capabilities" where
  "sample_caps scheme =
     \<lparr>cap_codec_version = 2, cap_aspect_dimensionality = 6, cap_proof_scheme = scheme,
      cap_supports_binary = True, cap_supports_replay_guard = True, cap_allowed_tools = None,
      cap_max_packet_bytes = None\<rparr>"

definition sample_keys :: session_keys where
  "sample_keys = \<lparr>sk_key_id = ''k1'', sk_secret = [1, 2, 3]\<rparr>"

lemma encode_sample:
  "1 \<le> seq \<Longrightarrow> scheme = SIGNED \<longrightarrow> keys \<noteq> None \<Longrightarrow>
   \<exists>p. encode_packet sid seq ''cast'' payload (sample_caps scheme) keys = Inr p"
  by (cases scheme)
    (auto simp: encode_packet_def make_packet_proof_def sample_caps_def validate_packet_def
      packet_ok_def len_between_def make_packet_payload_hash_def sign_hmac_sha256_def Let_def)

lemma packet_roundtrip_witness:
  "\<exists>p. verify_packet_proof p SIGNED (Some sample_keys) \<and> pk_sequence p = 1"
proof -
  obtain p where "encode_packet ''s1'' 1 ''cast'' [] (sample_caps SIGNED) (Some sample_keys) = Inr p"
    using encode_sample [of 1 SIGNED "Some sample_keys" "''s1''" "[]"] by auto
  from packet_roundtrip [OF this] show ?thesis by (auto simp: sample_caps_def)
qed

definition packet_input :: "packet \<Rightarrow> bytes" where
  "packet_input p =
     packet_proof_input (pk_session_id p) (pk_sequence p) (pk_packet_type p) (pk_payload_hash p)"

lemma packet_input_inj:
  "packet_input p = packet_input q \<Longrightarrow>
   pk_session_id p = pk_session_id q \<and> pk_sequence p = pk_sequence q
   \<and> pk_packet_type p = pk_packet_type q \<and> pk_payload_hash p = pk_payload_hash q"
  unfolding packet_input_def by (rule packet_proof_input_inj)

lemma verify_packet_hash_tag:
  "verify_packet_proof p HASH keys \<Longrightarrow> verify_digest () (packet_input p) (pk_proof p)"
  unfolding verify_packet_hash packet_input_def by (elim conjE)

lemma verify_packet_signed_tag:
  "verify_packet_proof p SIGNED keys \<Longrightarrow>
   \<exists>k. keys = Some k \<and> verify_hmac_sha256 (sk_secret k) (packet_input p) (pk_proof p)"
  unfolding verify_packet_signed packet_input_def by blast

text \<open>
  C5. One proof is good for one packet: if two verified packets carry the same proof under the
  same scheme and keys, they agree in session, sequence number, type and payload hash, or the two
  signed texts are a collision of the scheme's digest.
\<close>

theorem proof_binds_header:
  assumes "verify_packet_proof p scheme keys" "verify_packet_proof q scheme keys"
    and "pk_proof p = pk_proof q"
  shows "(pk_session_id p = pk_session_id q \<and> pk_sequence p = pk_sequence q
          \<and> pk_packet_type p = pk_packet_type q \<and> pk_payload_hash p = pk_payload_hash q)
         \<or> (packet_input p \<noteq> packet_input q
            \<and> (case scheme of
                 HASH \<Rightarrow> sha256_hex (packet_input p) = sha256_hex (packet_input q)
               | SIGNED \<Rightarrow> \<exists>k. keys = Some k \<and>
                   hmac_sha256 (sk_secret k) (packet_input p) = hmac_sha256 (sk_secret k) (packet_input q)))"
proof (cases "packet_input p = packet_input q")
  case True
  then show ?thesis using packet_input_inj by blast
next
  case False
  show ?thesis
  proof (cases scheme)
    case HASH
    note v = assms(1,2) [unfolded HASH, THEN verify_packet_hash_tag]
    from hash_proof.same_proof_same_tag [OF v(1) [unfolded assms(3)] v(2)] False HASH
    show ?thesis by (simp only: proof_scheme.case) blast
  next
    case SIGNED
    note v = assms(1,2) [unfolded SIGNED, THEN verify_packet_signed_tag]
    from v obtain k where k: "keys = Some k"
      and p: "verify_hmac_sha256 (sk_secret k) (packet_input p) (pk_proof p)"
      and q: "verify_hmac_sha256 (sk_secret k) (packet_input q) (pk_proof q)"
      by (metis option.inject)
    from signed_proof.same_proof_same_tag [OF p [unfolded assms(3)] q] False SIGNED k
    show ?thesis by (simp only: proof_scheme.case) blast
  qed
qed

lemma proof_binds_header_witness:
  "\<exists>p. pk_session_id p = ''s1'' \<and> verify_packet_proof p HASH None
     \<and> (\<forall>q. verify_packet_proof q HASH None \<and> pk_proof q = pk_proof p \<longrightarrow>
          pk_session_id q = ''s1'' \<or> sha256_hex (packet_input q) = sha256_hex (packet_input p))"
proof -
  obtain p where "encode_packet ''s1'' 1 ''cast'' [] (sample_caps HASH) None = Inr p"
    using encode_sample [of 1 HASH None "''s1''" "[]"] by auto
  from encode_packet_Inr [OF this]
  have p: "verify_packet_proof p HASH None" "pk_session_id p = ''s1''" by (simp_all add: sample_caps_def)
  have "pk_session_id q = ''s1'' \<or> sha256_hex (packet_input q) = sha256_hex (packet_input p)"
    if "verify_packet_proof q HASH None" "pk_proof q = pk_proof p" for q
    using proof_binds_header [OF that(1) p(1) that(2)] p(2) by auto
  with p show ?thesis by blast
qed

lemma payload_hash_binds:
  "verify_packet_proof p scheme keys \<Longrightarrow>
   pk_payload_hash p = sha256_hex (canonical_json_bytes (JObj (pk_payload p)))"
  by (auto simp: verify_packet_proof_def split: if_splits)

text \<open>
  A gossip bundle signed with the federation secret is verified by every peer that holds the
  secret, whatever list of emergent aspects travels with it: that list is not part of the signed
  body.
\<close>

theorem gossip_roundtrip:
  assumes "sign_gossip_payload env (gp_peer_id g) (gp_key_id g) (gp_seeds g) (gp_crystallized g) None
           = Inr (gp_proof g)"
  shows "verify_gossip_payload env (g\<lparr>gp_emergent_aspects := anything\<rparr>) = Inr True"
  using assms by (auto simp: sign_gossip_payload_def verify_gossip_payload_def compare_digest_def
      Let_def split: if_splits dest!: arg_cong [where f = is_ascii])

lemma gossip_roundtrip_witness:
  "\<exists>proof. verify_gossip_payload (Some ''secret'')
     \<lparr>gp_peer_id = ''peer'', gp_key_id = ''k'', gp_seeds = [], gp_crystallized = [],
      gp_emergent_aspects = [[(''proposed_name'', JStr ''FORGED'')]], gp_proof = proof\<rparr> = Inr True"
proof -
  define pr where "pr = hex_text (hmac_sha256 (encode_str ''secret'')
    (canonical_json_bytes (gossip_body ''peer'' ''k'' [] [])))"
  let ?g = "\<lparr>gp_peer_id = ''peer'', gp_key_id = ''k'', gp_seeds = [], gp_crystallized = [],
      gp_emergent_aspects = [], gp_proof = pr\<rparr>"
  have "sign_gossip_payload (Some ''secret'') ''peer'' ''k'' [] [] None = Inr pr"
    by (simp add: sign_gossip_payload_def pr_def federation_secret_def encode_str_def)
  with gossip_roundtrip [of "Some ''secret''" ?g "[[(''proposed_name'', JStr ''FORGED'')]]"]
  show ?thesis by auto
qed

end
