(* ===== verification/Sessions.thy ===== *)
theory Sessions
  imports SessionCodec
begin

text \<open>
  The session repository (\<open>src/vermyth/grimoire/repositories/sessions.py\<close>) and the session tools
  over it (\<open>src/vermyth/mcp/tools/session.py\<close>): opening, applying packets behind the replay guard,
  checkpoints, rewind, replay and fork. The three tables are dictionaries keyed by their primary
  keys; the creation time of a packet or response row is never read and is left out. The cast tools
  a packet dispatches to are a parameter over a state \<open>'w\<close> of their own.
\<close>

section \<open>State\<close>

record 'w session_state =
  ss_sessions :: "(string, session_record) dict"
  ss_packets :: "(string \<times> int, packet) dict"
  ss_responses :: "(string \<times> int, response) dict"
  ss_keys :: "(string, session_keys) dict"
  ss_world :: 'w

type_synonym ('w, 'a) session_op = "('w session_state, 'a) op"

definition run_result :: "('s \<Rightarrow> 'a result) \<Rightarrow> ('s, 'a) op" where
  "run_result f s = (f s, s)"

lemma run_result_simps [simp]: "run_result f s = (r, s') \<longleftrightarrow> r = f s \<and> s' = s"
  by (auto simp: run_result_def)

definition on_world :: "('w, 'a) op \<Rightarrow> ('w, 'a) session_op" where
  "on_world m s = (case m (ss_world s) of (r, w) \<Rightarrow> (r, s\<lparr>ss_world := w\<rparr>))"

section \<open>Repository\<close>

definition write_session :: "session_record \<Rightarrow> ('w, unit) session_op" where
  "write_session session =
     obind (lift (sql_int (sr_last_sequence session))) (\<lambda>_.
     modify (\<lambda>s. s\<lparr>ss_sessions := dset (sr_session_id session) session (ss_sessions s)\<rparr>))"

definition read_session :: "string \<Rightarrow> ('w, session_record) session_op" where
  "read_session session_id =
     run_result (\<lambda>s. of_option (KeyError session_id) (dget (ss_sessions s) session_id))"

definition close_session :: "int \<Rightarrow> string \<Rightarrow> ('w, session_record) session_op" where
  "close_session now session_id =
     obind (read_session session_id) (\<lambda>s.
     let closed = s\<lparr>sr_closed_at := Some now, sr_status := CLOSED\<rparr> in
     obind (write_session closed) (\<lambda>_. ret closed))"

definition advance_session_sequence :: "string \<Rightarrow> int \<Rightarrow> ('w, session_record) session_op" where
  "advance_session_sequence session_id new_sequence =
     obind (read_session session_id) (\<lambda>s.
     if new_sequence \<le> sr_last_sequence s
     then raise_exc (ValueError ''new_sequence must be greater than last_sequence'')
     else let advanced = s\<lparr>sr_last_sequence := new_sequence\<rparr> in
          obind (write_session advanced) (\<lambda>_. ret advanced))"

text \<open>
  A plain INSERT: a second row with the same primary key, or one whose session does not exist
  (foreign keys are on), is an \<open>IntegrityError\<close>, reported as a \<open>ValueError\<close>.
\<close>

definition write_session_packet :: "packet \<Rightarrow> ('w, unit) session_op" where
  "write_session_packet packet =
     obind (lift (sql_int (pk_sequence packet))) (\<lambda>_.
     obind get_state (\<lambda>s.
     if dhas (ss_packets s) (pk_session_id packet, pk_sequence packet)
     then raise_exc (ValueError ''UNIQUE constraint failed: session_packets.session_id, session_packets.sequence'')
     else if \<not> dhas (ss_sessions s) (pk_session_id packet)
     then raise_exc (ValueError ''FOREIGN KEY constraint failed'')
     else modify (\<lambda>s. s\<lparr>ss_packets :=
            dset (pk_session_id packet, pk_sequence packet) packet (ss_packets s)\<rparr>)))"

definition write_session_response :: "response \<Rightarrow> ('w, unit) session_op" where
  "write_session_response response =
     obind (lift (sql_int (rs_sequence response))) (\<lambda>_.
     obind get_state (\<lambda>s.
     if dhas (ss_responses s) (rs_session_id response, rs_sequence response)
     then raise_exc (ValueError ''UNIQUE constraint failed: session_responses.session_id, session_responses.sequence'')
     else if \<not> dhas (ss_sessions s) (rs_session_id response)
     then raise_exc (ValueError ''FOREIGN KEY constraint failed'')
     else modify (\<lambda>s. s\<lparr>ss_responses :=
            dset (rs_session_id response, rs_sequence response) response (ss_responses s)\<rparr>)))"

definition query_session_packets :: "string \<Rightarrow> int \<Rightarrow> ('w, packet list) session_op" where
  "query_session_packets session_id limit =
     run_result (\<lambda>s. rbind (sql_int limit) (\<lambda>n. rmap_list validate_packet
       (sql_limit n (sort_key pk_sequence
          (map snd (filter (\<lambda>((sid, _), _). sid = session_id) (ss_packets s)))))))"

definition query_session_responses :: "string \<Rightarrow> int \<Rightarrow> ('w, response list) session_op" where
  "query_session_responses session_id limit =
     run_result (\<lambda>s. rbind (sql_int limit) (\<lambda>n. rmap_list validate_response
       (sql_limit n (sort_key rs_sequence
          (map snd (filter (\<lambda>((sid, _), _). sid = session_id) (ss_responses s)))))))"

section \<open>Dispatch of packet payloads\<close>

text \<open>The cast tools, with the arguments the handlers give them.\<close>

record 'w cast_tools =
  ct_cast :: "json \<Rightarrow> json \<Rightarrow> json \<Rightarrow> json \<Rightarrow> bool \<Rightarrow> bool \<Rightarrow> ('w, json) op"
  ct_fluid_cast :: "json \<Rightarrow> json \<Rightarrow> json \<Rightarrow> json \<Rightarrow> ('w, json) op"
  ct_geometric_cast :: "json \<Rightarrow> int \<Rightarrow> json \<Rightarrow> bool \<Rightarrow> ('w, json) op"

definition binary_cast :: "'w cast_tools \<Rightarrow> (string, json) dict \<Rightarrow> ('w, json) op" where
  "binary_cast t payload =
     ct_cast t (dget_or payload ''aspects'' (JList [])) (dget_or payload ''intent'' (JObj []))
       (dget_or payload ''parent_cast_id'' JNull) (dget_or payload ''branch_id'' JNull)
       (truthy (dget_or payload ''chained'' (JBool False)))
       (truthy (dget_or payload ''force'' (JBool False)))"

definition binary_fluid_cast :: "'w cast_tools \<Rightarrow> (string, json) dict \<Rightarrow> ('w, json) op" where
  "binary_fluid_cast t payload =
     ct_fluid_cast t (dget_or payload ''vector'' (JList [])) (dget_or payload ''intent'' (JObj []))
       (dget_or payload ''parent_cast_id'' JNull) (dget_or payload ''branch_id'' JNull)"

definition binary_geometric_cast :: "'w cast_tools \<Rightarrow> (string, json) dict \<Rightarrow> ('w, json) op" where
  "binary_geometric_cast t payload =
     obind (lift (py_int (dget_or payload ''version'' (JInt 1)))) (\<lambda>version.
     ct_geometric_cast t (dget_or payload ''payload'' (JList [])) version
       (dget_or payload ''branch_id'' JNull) (truthy (dget_or payload ''force'' (JBool False))))"

definition binary_dispatch ::
  "'w cast_tools \<Rightarrow> (string, (string, json) dict \<Rightarrow> ('w, json) op) dict" where
  "binary_dispatch t =
     [(''cast'', binary_cast t), (''fluid_cast'', binary_fluid_cast t),
      (''geometric_cast'', binary_geometric_cast t)]"

section \<open>Session tools\<close>

definition transport_of :: "string \<Rightarrow> session_transport result" where
  "transport_of t =
     (if t = ''JSONRPC'' then Inr JSONRPC else if t = ''BINARY'' then Inr BINARY
      else Inl (KeyError t))"

text \<open>
  \<open>new_id\<close> and \<open>now\<close> are the fresh ULID and the time of the record; the operation returns the
  session it wrote.
\<close>

definition session_open ::
  "string \<Rightarrow> int \<Rightarrow> string \<Rightarrow> string \<Rightarrow> string \<Rightarrow> string \<Rightarrow> string \<Rightarrow> int \<Rightarrow> string \<Rightarrow> int \<Rightarrow>
   int option \<Rightarrow> string option \<Rightarrow> string option \<Rightarrow> bytes option \<Rightarrow> ('w, string \<times> capabilities) session_op"
where
  "session_open new_id now transport local_peer_id local_key_id remote_peer_id remote_key_id
     codec_version proof_scheme aspect_dimensionality max_packet_bytes channel_branch_id
     anchor_cast_id signing_secret =
     obind (lift (mk_capabilities codec_version aspect_dimensionality proof_scheme
                    (transport = ''BINARY'') True max_packet_bytes)) (\<lambda>caps.
     obind (lift (mk_peer_identity local_peer_id local_key_id (cap_proof_scheme caps))) (\<lambda>local.
     obind (lift (mk_peer_identity remote_peer_id remote_key_id (cap_proof_scheme caps))) (\<lambda>remote.
     obind (lift (transport_of transport)) (\<lambda>tr.
     let record = \<lparr>sr_session_id = new_id, sr_opened_at = now, sr_closed_at = None, sr_status = OPEN,
                    sr_transport = tr, sr_local = local, sr_remote = remote, sr_capabilities = caps,
                    sr_last_sequence = 0, sr_anchor_cast_id = anchor_cast_id,
                    sr_channel_branch_id = channel_branch_id\<rparr> in
     obind (write_session record) (\<lambda>_.
     obind (case signing_secret of
              None \<Rightarrow> ret ()
            | Some sec \<Rightarrow> modify (\<lambda>s. s\<lparr>ss_keys :=
                dset new_id \<lparr>sk_key_id = local_key_id, sk_secret = sec\<rparr> (ss_keys s)\<rparr>)) (\<lambda>_.
     ret (new_id, caps)))))))"

text \<open>The lines that read the key cache, only under the SIGNED scheme.\<close>

definition keys_for :: "'w session_state \<Rightarrow> session_record \<Rightarrow> string \<Rightarrow> session_keys option" where
  "keys_for s session session_id =
     (if cap_proof_scheme (sr_capabilities session) = SIGNED
      then dget (ss_keys s) session_id else None)"

definition session_keys_for :: "session_record \<Rightarrow> string \<Rightarrow> ('w, session_keys option) session_op" where
  "session_keys_for session session_id = run_result (\<lambda>s. Inr (keys_for s session session_id))"

lemma keys_for_update [simp]:
  "keys_for (s\<lparr>ss_sessions := a\<rparr>) = keys_for s" "keys_for (s\<lparr>ss_packets := b\<rparr>) = keys_for s"
  "keys_for (s\<lparr>ss_responses := c\<rparr>) = keys_for s" "keys_for (s\<lparr>ss_world := w\<rparr>) = keys_for s"
  by (auto simp: keys_for_def fun_eq_iff)

definition session_apply_packet ::
  "'w cast_tools \<Rightarrow> packet \<Rightarrow> ('w, bool \<times> json \<times> response) session_op" where
  "session_apply_packet t packet_dict =
     obind (lift (validate_packet packet_dict)) (\<lambda>packet.
     obind (read_session (pk_session_id packet)) (\<lambda>session.
     if pk_sequence packet \<le> sr_last_sequence session
     then raise_exc (ValueError ''replay detected: sequence not increasing'')
     else
     obind (session_keys_for session (pk_session_id packet)) (\<lambda>keys.
     if \<not> verify_packet_proof packet (cap_proof_scheme (sr_capabilities session)) keys
     then raise_exc (ValueError ''invalid packet proof'')
     else
     obind (write_session_packet packet) (\<lambda>_.
     obind (advance_session_sequence (pk_session_id packet) (pk_sequence packet)) (\<lambda>_.
     obind (case dget (binary_dispatch t) (pk_packet_type packet) of
              None \<Rightarrow> ret (False, JObj [(''error'', JStr (''unknown packet_type: '' @ pk_packet_type packet))])
            | Some handler \<Rightarrow>
                obind (on_world (handler (pk_payload packet))) (\<lambda>res. ret (True, res)))
       (\<lambda>(accepted, result_payload).
     obind (session_keys_for session (pk_session_id packet)) (\<lambda>keys.
     obind (lift (encode_response (pk_session_id packet) (pk_sequence packet)
                    (pk_payload_hash packet) accepted (sr_capabilities session) keys)) (\<lambda>resp.
     obind (write_session_response resp) (\<lambda>_.
     ret (accepted, result_payload, resp))))))))))"

definition session_checkpoint :: "string \<Rightarrow> ('w, string \<times> int) session_op" where
  "session_checkpoint session_id =
     obind (read_session session_id) (\<lambda>session.
     ret (sr_session_id session, sr_last_sequence session))"

definition session_rewind_to :: "string \<Rightarrow> int \<Rightarrow> ('w, string \<times> int) session_op" where
  "session_rewind_to session_id sequence =
     obind (read_session session_id) (\<lambda>session.
     if sequence < 0 \<or> sr_last_sequence session < sequence
     then raise_exc (ValueError ''invalid rewind sequence'')
     else obind (write_session (session\<lparr>sr_last_sequence := sequence\<rparr>)) (\<lambda>_.
          ret (session_id, sequence)))"

fun apply_each ::
  "'w cast_tools \<Rightarrow> int \<Rightarrow> packet list \<Rightarrow> ('w, (bool \<times> json \<times> response) list) session_op" where
  "apply_each t sequence [] = ret []"
| "apply_each t sequence (packet # packets) =
     (if pk_sequence packet \<le> sequence then apply_each t sequence packets
      else obind (session_apply_packet t packet) (\<lambda>r.
           obind (apply_each t sequence packets) (\<lambda>rs. ret (r # rs))))"

definition session_replay_from ::
  "'w cast_tools \<Rightarrow> string \<Rightarrow> int \<Rightarrow> int
     \<Rightarrow> ('w, string \<times> nat \<times> (bool \<times> json \<times> response) list) session_op" where
  "session_replay_from t session_id sequence limit =
     obind (query_session_packets session_id limit) (\<lambda>packets.
     obind (apply_each t sequence packets) (\<lambda>out.
     ret (session_id, length out, out)))"

definition session_fork ::
  "string \<Rightarrow> int \<Rightarrow> string \<Rightarrow> int \<Rightarrow> string option \<Rightarrow> ('w, string \<times> int) session_op" where
  "session_fork new_id now session_id from_sequence new_transport =
     obind (read_session session_id) (\<lambda>base.
     if from_sequence < 0 \<or> sr_last_sequence base < from_sequence
     then raise_exc (ValueError ''invalid fork sequence'')
     else
     obind (lift (case new_transport of None \<Rightarrow> Inr (sr_transport base)
                  | Some tr \<Rightarrow> transport_of tr)) (\<lambda>tr.
     obind (write_session
       \<lparr>sr_session_id = new_id, sr_opened_at = now, sr_closed_at = None, sr_status = OPEN,
        sr_transport = tr, sr_local = sr_local base, sr_remote = sr_remote base,
        sr_capabilities = sr_capabilities base, sr_last_sequence = from_sequence,
        sr_anchor_cast_id = sr_anchor_cast_id base,
        sr_channel_branch_id = sr_channel_branch_id base\<rparr>) (\<lambda>_.
     ret (new_id, from_sequence))))"

definition session_encode_packet ::
  "string \<Rightarrow> int \<Rightarrow> string \<Rightarrow> (string, json) dict \<Rightarrow> ('w, packet) session_op" where
  "session_encode_packet session_id sequence packet_type payload =
     obind (read_session session_id) (\<lambda>session.
     obind (session_keys_for session session_id) (\<lambda>keys.
     lift (encode_packet session_id sequence packet_type payload (sr_capabilities session) keys)))"

section \<open>What each operation keeps\<close>

lemmas session_ops =
  write_session_def read_session_def close_session_def advance_session_sequence_def
  write_session_packet_def write_session_response_def session_keys_for_def
  query_session_packets_def query_session_responses_def

lemma preserves_run_result [intro!, simp]: "preserves I (run_result f)"
  by (simp add: preserves_def run_result_def)

lemma preserves_on_world:
  "(\<And>s w. I s \<Longrightarrow> I (s\<lparr>ss_world := w\<rparr>)) \<Longrightarrow> preserves I (on_world m)"
  by (auto simp: preserves_def on_world_def split: prod.splits)

text \<open>
  The predicates on the state kept by every session operation: those kept by the four writes to
  the tables, by a new key and by the cast tools.
\<close>

definition session_stable :: "('w session_state \<Rightarrow> bool) \<Rightarrow> bool" where
  "session_stable I \<longleftrightarrow>
     (\<forall>r. preserves I (write_session r)) \<and> (\<forall>p. packet_ok p \<longrightarrow> preserves I (write_session_packet p))
     \<and> (\<forall>r. response_ok r \<longrightarrow> preserves I (write_session_response r))
     \<and> (\<forall>k v s. I s \<longrightarrow> I (s\<lparr>ss_keys := dset k v (ss_keys s)\<rparr>))
     \<and> (\<forall>w s. I s \<longrightarrow> I (s\<lparr>ss_world := w\<rparr>))"

lemma preserves_advance:
  "session_stable I \<Longrightarrow> preserves I (advance_session_sequence sid n)"
  by (auto simp: advance_session_sequence_def read_session_def session_stable_def Let_def
      intro!: preserves_obind)

lemma preserves_lift_then:
  "(\<And>x. r = Inr x \<Longrightarrow> preserves I (f x)) \<Longrightarrow> preserves I (obind (lift r) f)"
  by (cases r) (auto simp: preserves_def obind_def lift_def)

lemma encode_response_ok: "encode_response sid seq h a caps keys = Inr r \<Longrightarrow> response_ok r"
  by (auto simp: encode_response_def validate_response_def rbind_Inr_iff Let_def split: if_splits)

lemma preserves_apply:
  assumes "session_stable I"
  shows "preserves I (session_apply_packet t p)"
proof -
  have h: "preserves I (on_world m)" for m :: "('a, json) op"
    using assms by (intro preserves_on_world) (auto simp: session_stable_def)
  have p: "validate_packet p = Inr q \<Longrightarrow> preserves I (write_session_packet q)" for q
    using assms by (auto simp: validate_packet_def session_stable_def split: if_splits)
  have r: "encode_response sid seq ph a caps keys = Inr q \<Longrightarrow> preserves I (write_session_response q)"
    for sid seq ph a caps keys q
    using assms by (auto simp: session_stable_def dest: encode_response_ok)
  show ?thesis
    unfolding session_apply_packet_def read_session_def session_keys_for_def
    using preserves_advance [OF assms]
    by (auto intro!: preserves_lift_then preserves_obind h split: option.splits elim!: p r)
qed

lemma preserves_apply_each: "session_stable I \<Longrightarrow> preserves I (apply_each t n ps)"
  by (induction ps) (auto intro!: preserves_obind preserves_apply)

lemma preserves_open:
  assumes "session_stable I"
  shows "preserves I (session_open i n tr a b c d e f g h j k l)"
proof -
  have "preserves I (modify (\<lambda>s. s\<lparr>ss_keys := dset x y (ss_keys s)\<rparr>))" for x y
    using assms by (intro preserves_modify) (auto simp: session_stable_def)
  then show ?thesis using assms
    by (auto simp: session_open_def Let_def session_stable_def intro!: preserves_obind split: option.splits)
qed

lemma preserves_session_ops:
  assumes "session_stable I"
  shows "preserves I (session_checkpoint sid)" "preserves I (session_rewind_to sid n)"
    "preserves I (session_replay_from t sid n m)" "preserves I (session_fork i now sid n tr)"
    "preserves I (session_encode_packet sid n ty pl)" "preserves I (close_session now sid)"
  using assms preserves_apply_each [OF assms]
  by (auto simp: session_checkpoint_def session_rewind_to_def session_replay_from_def
      session_fork_def session_encode_packet_def close_session_def read_session_def
      session_keys_for_def query_session_packets_def session_stable_def Let_def
      intro!: preserves_obind)

section \<open>Runs\<close>

inductive session_step :: "'w cast_tools \<Rightarrow> 'w session_state \<Rightarrow> 'w session_state \<Rightarrow> bool"
  for t :: "'w cast_tools" where
  step_open: "session_open i n tr a b c d e f g h j k l s = (r, s') \<Longrightarrow> session_step t s s'"
| step_apply: "session_apply_packet t p s = (r, s') \<Longrightarrow> session_step t s s'"
| step_checkpoint: "session_checkpoint sid s = (r, s') \<Longrightarrow> session_step t s s'"
| step_rewind: "session_rewind_to sid n s = (r, s') \<Longrightarrow> session_step t s s'"
| step_replay: "session_replay_from t sid n m s = (r, s') \<Longrightarrow> session_step t s s'"
| step_fork: "session_fork i now sid n tr s = (r, s') \<Longrightarrow> session_step t s s'"
| step_encode: "session_encode_packet sid n ty pl s = (r, s') \<Longrightarrow> session_step t s s'"
| step_close: "close_session now sid s = (r, s') \<Longrightarrow> session_step t s s'"

inductive session_run :: "'w cast_tools \<Rightarrow> 'w session_state \<Rightarrow> 'w session_state \<Rightarrow> bool"
  for t :: "'w cast_tools" where
  run_refl: "session_run t s s"
| run_step: "session_run t s s' \<Longrightarrow> session_step t s' s'' \<Longrightarrow> session_run t s s''"

inductive_cases session_step_E: "session_step t s s'"

lemma session_step_keeps:
  assumes "session_stable I" "session_step t s s'" "I s"
  shows "I s'"
  using assms(2)
proof cases
  case (step_open i n tr a b c d e f g h j k l r)
  then show ?thesis using preservesD [OF preserves_open [OF assms(1)] assms(3)] by blast
next
  case (step_apply p r)
  then show ?thesis using preservesD [OF preserves_apply [OF assms(1)] assms(3)] by blast
next
  case (step_checkpoint sid r)
  then show ?thesis using preservesD [OF preserves_session_ops(1) [OF assms(1)] assms(3)] by blast
next
  case (step_rewind sid n r)
  then show ?thesis using preservesD [OF preserves_session_ops(2) [OF assms(1)] assms(3)] by blast
next
  case (step_replay sid n m r)
  then show ?thesis using preservesD [OF preserves_session_ops(3) [OF assms(1)] assms(3)] by blast
next
  case (step_fork i now sid n tr r)
  then show ?thesis using preservesD [OF preserves_session_ops(4) [OF assms(1)] assms(3)] by blast
next
  case (step_encode sid n ty pl r)
  then show ?thesis using preservesD [OF preserves_session_ops(5) [OF assms(1)] assms(3)] by blast
next
  case (step_close now sid r)
  then show ?thesis using preservesD [OF preserves_session_ops(6) [OF assms(1)] assms(3)] by blast
qed

lemma session_run_keeps:
  "session_run t s s' \<Longrightarrow> session_stable I \<Longrightarrow> I s \<Longrightarrow> I s'"
  by (induction rule: session_run.induct) (auto intro: session_step_keeps)


section \<open>Operations on a successful path\<close>

lemma write_session_Inr [op_simps]:
  "fits_sql (sr_last_sequence r) \<Longrightarrow>
   write_session r s = (Inr (), s\<lparr>ss_sessions := dset (sr_session_id r) r (ss_sessions s)\<rparr>)"
  by (simp add: write_session_def obind_def lift_def modify_def sql_int_def fits_sql_def)

lemma read_session_eq [op_simps]:
  "read_session sid s = (of_option (KeyError sid) (dget (ss_sessions s) sid), s)"
  by (simp add: read_session_def run_result_def)

lemma session_keys_for_eq [op_simps]:
  "session_keys_for session sid s =
   (Inr (keys_for s session sid), s)"
  by (simp add: session_keys_for_def run_result_def)

lemma apply_stored_packet:
  assumes "dhas (ss_packets s) (pk_session_id p, pk_sequence p)"
  shows "\<exists>e. session_apply_packet t p s = (Inl e, s)"
  using assms
  by (auto simp: session_apply_packet_def obind_def lift_def validate_packet_def read_session_eq
      session_keys_for_eq write_session_packet_def get_state_def raise_exc_def
      split: option.splits sum.splits if_splits)

lemma stored_packet_stays: "session_stable (\<lambda>s. dget (ss_packets s) k = Some v)"
  unfolding session_stable_def preserves_def
  by (auto simp: write_session_def write_session_packet_def write_session_response_def obind_def
      lift_def modify_def get_state_def raise_exc_def dict_simps split: sum.splits prod.splits if_splits)

definition packets_inv :: "'w session_state \<Rightarrow> bool" where
  "packets_inv s \<longleftrightarrow>
     keys_distinct (ss_packets s)
     \<and> (\<forall>(k, p) \<in> set (ss_packets s). packet_ok p \<and> k = (pk_session_id p, pk_sequence p))
     \<and> keys_distinct (ss_sessions s) \<and> (\<forall>(k, r) \<in> set (ss_sessions s). k = sr_session_id r)
     \<and> (\<forall>(k, p) \<in> set (ss_packets s). dhas (ss_sessions s) (pk_session_id p))"

lemma write_session_state: "snd (write_session r s) = s \<or>
    snd (write_session r s) = s\<lparr>ss_sessions := dset (sr_session_id r) r (ss_sessions s)\<rparr>"
  by (simp add: write_session_def obind_def lift_def modify_def split: sum.split)

lemma write_packet_state: "snd (write_session_packet p s) = s \<or>
    dhas (ss_sessions s) (pk_session_id p) \<and> snd (write_session_packet p s) =
      s\<lparr>ss_packets := dset (pk_session_id p, pk_sequence p) p (ss_packets s)\<rparr>"
  by (simp add: write_session_packet_def obind_def lift_def modify_def get_state_def raise_exc_def
      split: sum.split)

lemma write_response_state: "\<exists>rs. snd (write_session_response r s) = s\<lparr>ss_responses := rs\<rparr>"
  by (cases s) (auto simp: write_session_response_def obind_def lift_def modify_def get_state_def
      raise_exc_def split: sum.split)

lemma packets_inv_write_session: "packets_inv s \<Longrightarrow> packets_inv (snd (write_session r s))"
  using write_session_state [of r s] 
  by (auto simp: packets_inv_def dict_simps dest!: in_set_dset)

lemma packets_inv_write_packet:
  "packet_ok p \<Longrightarrow> packets_inv s \<Longrightarrow> packets_inv (snd (write_session_packet p s))"
  using write_packet_state [of p s] by (auto simp: packets_inv_def dest!: in_set_dset)

lemma packets_inv_stable: "session_stable packets_inv"
proof -
  have "packets_inv (snd (write_session_response r s))" if "packets_inv s" for r s
    using that write_response_state [of r s] by (auto simp: packets_inv_def)
  moreover have "packets_inv (s\<lparr>ss_keys := ks\<rparr>)" "packets_inv (s\<lparr>ss_world := w\<rparr>)" if "packets_inv s" for s ks w
    using that by (simp_all add: packets_inv_def)
  ultimately show ?thesis unfolding session_stable_def preserves_def
    by (intro conjI allI impI) (simp_all only: packets_inv_write_session packets_inv_write_packet)
qed

lemma write_packet_new:
  "\<not> dhas (ss_packets s) (pk_session_id p, pk_sequence p) \<Longrightarrow> dhas (ss_sessions s) (pk_session_id p) \<Longrightarrow>
   fits_sql (pk_sequence p) \<Longrightarrow>
   write_session_packet p s =
     (Inr (), s\<lparr>ss_packets := dset (pk_session_id p, pk_sequence p) p (ss_packets s)\<rparr>)"
  by (simp add: write_session_packet_def obind_def lift_def modify_def get_state_def sql_int_def fits_sql_def)

lemma write_response_new:
  "\<not> dhas (ss_responses s) (rs_session_id r, rs_sequence r) \<Longrightarrow> dhas (ss_sessions s) (rs_session_id r) \<Longrightarrow>
   fits_sql (rs_sequence r) \<Longrightarrow>
   write_session_response r s =
     (Inr (), s\<lparr>ss_responses := dset (rs_session_id r, rs_sequence r) r (ss_responses s)\<rparr>)"
  by (simp add: write_session_response_def obind_def lift_def modify_def get_state_def sql_int_def fits_sql_def)

lemma advance_Inr:
  "dget (ss_sessions s) sid = Some r \<Longrightarrow> sr_last_sequence r < n \<Longrightarrow> fits_sql n \<Longrightarrow>
   advance_session_sequence sid n s =
     (Inr (r\<lparr>sr_last_sequence := n\<rparr>),
      s\<lparr>ss_sessions := dset (sr_session_id r) (r\<lparr>sr_last_sequence := n\<rparr>) (ss_sessions s)\<rparr>)"
  by (simp add: advance_session_sequence_def obind_def read_session_eq write_session_Inr ret_def Let_def)

lemma write_packet_Inr_iff:
  "write_session_packet p s = (Inr u, s') \<longleftrightarrow>
   \<not> dhas (ss_packets s) (pk_session_id p, pk_sequence p) \<and> dhas (ss_sessions s) (pk_session_id p)
   \<and> fits_sql (pk_sequence p)
   \<and> s' = s\<lparr>ss_packets := dset (pk_session_id p, pk_sequence p) p (ss_packets s)\<rparr>"
  by (simp add: write_session_packet_def obind_Inr_iff guard_Inr_iff) blast

lemma write_response_Inr_iff:
  "write_session_response r s = (Inr u, s') \<longleftrightarrow>
   \<not> dhas (ss_responses s) (rs_session_id r, rs_sequence r) \<and> dhas (ss_sessions s) (rs_session_id r)
   \<and> fits_sql (rs_sequence r)
   \<and> s' = s\<lparr>ss_responses := dset (rs_session_id r, rs_sequence r) r (ss_responses s)\<rparr>"
  by (simp add: write_session_response_def obind_Inr_iff guard_Inr_iff) blast

lemma advance_Inr_iff:
  "advance_session_sequence sid n s = (Inr x, s') \<longleftrightarrow>
   (\<exists>r. dget (ss_sessions s) sid = Some r \<and> sr_last_sequence r < n \<and> fits_sql n
    \<and> x = r\<lparr>sr_last_sequence := n\<rparr>
    \<and> s' = s\<lparr>ss_sessions := dset (sr_session_id r) (r\<lparr>sr_last_sequence := n\<rparr>) (ss_sessions s)\<rparr>)"
  by (auto simp: advance_session_sequence_def obind_Inr_iff guard_Inr_iff read_session_eq
      write_session_def Let_def not_le)

lemma on_world_Inr_iff:
  "on_world m s = (Inr x, s') \<longleftrightarrow> (\<exists>w. m (ss_world s) = (Inr x, w) \<and> s' = s\<lparr>ss_world := w\<rparr>)"
  by (auto simp: on_world_def split: prod.splits)

lemma validate_packet_Inr_iff: "validate_packet p = Inr q \<longleftrightarrow> packet_ok p \<and> q = p"
  by (auto simp: validate_packet_def)

lemma apply_packet_Inr:
  assumes "session_apply_packet t p s = (Inr (acc, res, resp), s')"
  shows "\<exists>session. dget (ss_sessions s) (pk_session_id p) = Some session \<and> packet_ok p
    \<and> sr_last_sequence session < pk_sequence p
    \<and> verify_packet_proof p (cap_proof_scheme (sr_capabilities session))
         (keys_for s session (pk_session_id p))
    \<and> \<not> dhas (ss_packets s) (pk_session_id p, pk_sequence p)
    \<and> ss_packets s' = dset (pk_session_id p, pk_sequence p) p (ss_packets s)
    \<and> ss_sessions s' = dset (sr_session_id session) (session\<lparr>sr_last_sequence := pk_sequence p\<rparr>) (ss_sessions s)
    \<and> ss_responses s' = dset (rs_session_id resp, rs_sequence resp) resp (ss_responses s)
    \<and> ss_keys s' = ss_keys s
    \<and> (case dget (binary_dispatch t) (pk_packet_type p) of
         None \<Rightarrow> \<not> acc \<and> ss_world s' = ss_world s
       | Some h \<Rightarrow> acc \<and> h (pk_payload p) (ss_world s) = (Inr res, ss_world s'))
    \<and> encode_response (pk_session_id p) (pk_sequence p) (pk_payload_hash p) acc (sr_capabilities session)
        (keys_for s session (pk_session_id p)) = Inr resp"
  using assms unfolding session_apply_packet_def
  apply (simp only: obind_Inr_iff guard_Inr_iff lift_simps validate_packet_Inr_iff read_session_eq
      session_keys_for_eq write_packet_Inr_iff write_response_Inr_iff advance_Inr_iff not_not
      prod.inject of_option_Inr_iff ret_simps split_paired_Ex prod.case)
  apply (cases "dget (binary_dispatch t) (pk_packet_type p)")
   apply (clarsimp simp: obind_Inr_iff on_world_Inr_iff not_le)
  apply (clarsimp simp: obind_Inr_iff on_world_Inr_iff not_le)
  done

section \<open>Properties of sessions\<close>

definition empty_sessions :: "'w \<Rightarrow> 'w session_state" where
  "empty_sessions w =
     \<lparr>ss_sessions = [], ss_packets = [], ss_responses = [], ss_keys = [], ss_world = w\<rparr>"

lemma packets_inv_empty: "packets_inv (empty_sessions w)"
  by (simp add: packets_inv_def empty_sessions_def)

lemma encode_response_verified:
  "encode_response sid seq h acc caps keys = Inr r \<Longrightarrow>
   verify_response r acc (cap_proof_scheme caps) keys"
  by (cases "cap_proof_scheme caps")
    (auto simp: encode_response_def verify_response_def validate_response_def rbind_Inr_iff Let_def
      signed_proof.verify_make split: option.splits if_splits)

lemma validated_packets: "rmap_list validate_packet ps = Inr qs \<Longrightarrow> qs = ps"
  by (induction ps arbitrary: qs) (auto simp: rbind_Inr_iff validate_packet_Inr_iff)

text \<open>
  C1. Replay guard. Once a packet has been applied, no packet with its session and sequence
  number is ever applied again: after any further run of the session operations, rewinds, forks
  and replays included, applying one raises and leaves the state as it was.
\<close>

theorem packet_applied_once:
  assumes "session_apply_packet t p s = (Inr out, s1)" and "session_run t s1 s2"
    and "pk_session_id q = pk_session_id p" "pk_sequence q = pk_sequence p"
  shows "\<exists>e. session_apply_packet t q s2 = (Inl e, s2)"
proof -
  obtain acc res resp where "out = (acc, res, resp)" by (cases out) auto
  with assms(1) have "dget (ss_packets s1) (pk_session_id p, pk_sequence p) = Some p"
    using apply_packet_Inr [of t p s acc res resp s1] by (auto simp: dict_simps)
  from session_run_keeps [OF assms(2) stored_packet_stays this]
  show ?thesis using assms(3,4) by (intro apply_stored_packet) auto
qed

text \<open>
  C2. A packet that is applied raises the session's sequence number to its own, strictly; it was
  valid and verified under the session's scheme, and its row was not there before. Nothing else
  of the sessions changes.
\<close>

theorem apply_advances:
  assumes "session_run t (empty_sessions w0) s" "session_apply_packet t p s = (Inr (acc, res, resp), s')"
  shows "\<exists>session. dget (ss_sessions s) (pk_session_id p) = Some session
    \<and> sr_last_sequence session < pk_sequence p
    \<and> verify_packet_proof p (cap_proof_scheme (sr_capabilities session))
        (keys_for s session (pk_session_id p))
    \<and> dget (ss_sessions s') (pk_session_id p) = Some (session\<lparr>sr_last_sequence := pk_sequence p\<rparr>)
    \<and> (\<forall>sid. sid \<noteq> pk_session_id p \<longrightarrow> dget (ss_sessions s') sid = dget (ss_sessions s) sid)
    \<and> dget (ss_packets s) (pk_session_id p, pk_sequence p) = None
    \<and> dget (ss_packets s') (pk_session_id p, pk_sequence p) = Some p
    \<and> (acc \<longleftrightarrow> pk_packet_type p \<in> {''cast'', ''fluid_cast'', ''geometric_cast''})
    \<and> verify_response resp acc (cap_proof_scheme (sr_capabilities session))
        (keys_for s session (pk_session_id p))"
proof -
  from apply_packet_Inr [OF assms(2)] obtain session where
    1: "dget (ss_sessions s) (pk_session_id p) = Some session" and
    2: "sr_last_sequence session < pk_sequence p"
       "verify_packet_proof p (cap_proof_scheme (sr_capabilities session))
          (keys_for s session (pk_session_id p))"
       "dget (ss_packets s) (pk_session_id p, pk_sequence p) = None" and
    3: "ss_packets s' = dset (pk_session_id p, pk_sequence p) p (ss_packets s)"
       "ss_sessions s' = dset (sr_session_id session) (session\<lparr>sr_last_sequence := pk_sequence p\<rparr>) (ss_sessions s)"
    and 4: "case dget (binary_dispatch t) (pk_packet_type p) of
         None \<Rightarrow> \<not> acc \<and> ss_world s' = ss_world s
       | Some h \<Rightarrow> acc \<and> h (pk_payload p) (ss_world s) = (Inr res, ss_world s')"
    and 5: "encode_response (pk_session_id p) (pk_sequence p) (pk_payload_hash p) acc (sr_capabilities session)
        (keys_for s session (pk_session_id p)) = Inr resp"
    by auto
  have "packets_inv s"
    using session_run_keeps [OF assms(1) packets_inv_stable packets_inv_empty] .
  with 1 have "sr_session_id session = pk_session_id p"
    by (auto simp: packets_inv_def dest!: map_of_SomeD)
  moreover have "acc \<longleftrightarrow> pk_packet_type p \<in> {''cast'', ''fluid_cast'', ''geometric_cast''}"
    using 4 by (auto simp: binary_dispatch_def split: if_splits)
  moreover have "verify_response resp acc (cap_proof_scheme (sr_capabilities session))
        (keys_for s session (pk_session_id p))"
    using encode_response_verified [OF 5] .
  ultimately show ?thesis using 1 2 3 by (auto simp: dict_simps)
qed

lemma apply_each_stored:
  "\<forall>p \<in> set ps. dhas (ss_packets s) (pk_session_id p, pk_sequence p) \<Longrightarrow>
   if \<exists>p \<in> set ps. n < pk_sequence p then \<exists>e. apply_each t n ps s = (Inl e, s)
   else apply_each t n ps s = (Inr [], s)"
proof (induction ps)
  case (Cons p ps)
  show ?case
  proof (cases "pk_sequence p \<le> n")
    case True
    then have "apply_each t n (p # ps) = apply_each t n ps"
      "(\<exists>q \<in> set (p # ps). n < pk_sequence q) = (\<exists>q \<in> set ps. n < pk_sequence q)"
      by auto
    with Cons show ?thesis by (simp only: list.set_intros simp_thms ball_simps) auto
  next
    case False
    obtain e where "session_apply_packet t p s = (Inl e, s)"
      using apply_stored_packet [of s p t] Cons.prems by auto
    with False show ?thesis by (auto simp: obind_def)
  qed
qed (simp add: ret_def)

text \<open>
  C4. Replaying a session's stored packets never applies one. In every reachable state
  \<open>session_replay_from\<close> changes nothing: it raises whenever a packet is to be replayed, and
  otherwise reports that it replayed none. A rewind before it does not help, since the packet rows
  it leaves behind still occupy their keys.
\<close>

theorem replay_never_applies:
  assumes "session_run t (empty_sessions w0) s"
  shows "snd (session_replay_from t sid n m s) = s
    \<and> (case fst (query_session_packets sid m s) of
         Inl e \<Rightarrow> fst (session_replay_from t sid n m s) = Inl e
       | Inr ps \<Rightarrow> if \<exists>p \<in> set ps. n < pk_sequence p
                   then \<exists>e. fst (session_replay_from t sid n m s) = Inl e
                   else fst (session_replay_from t sid n m s) = Inr (sid, 0, []))"
proof -
  have inv: "packets_inv s"
    using session_run_keeps [OF assms packets_inv_stable packets_inv_empty] .
  show ?thesis
  proof (cases "fst (query_session_packets sid m s)")
    case (Inl e)
    then have "query_session_packets sid m s = (Inl e, s)"
      by (simp add: query_session_packets_def run_result_def)
    then show ?thesis by (simp add: session_replay_from_def obind_def)
  next
    case (Inr ps)
    then have q: "query_session_packets sid m s = (Inr ps, s)"
      by (simp add: query_session_packets_def run_result_def)
    have "set ps \<subseteq> snd ` set (ss_packets s)"
      using Inr validated_packets set_sql_limit
      by (fastforce simp: query_session_packets_def run_result_def rbind_Inr_iff)
    then have "\<forall>p \<in> set ps. dhas (ss_packets s) (pk_session_id p, pk_sequence p)"
      using inv by (fastforce simp: packets_inv_def keys_distinct_def)
    from apply_each_stored [OF this, of n t] q show ?thesis
      by (auto simp: session_replay_from_def obind_def ret_def split: if_splits)
  qed
qed

lemma encode_packet_state:
  "session_encode_packet sid seq ty pl s = (Inr p, s') \<longleftrightarrow>
   s' = s \<and> (\<exists>session. dget (ss_sessions s) sid = Some session
     \<and> encode_packet sid seq ty pl (sr_capabilities session) (keys_for s session sid) = Inr p)"
  by (auto simp: session_encode_packet_def obind_Inr_iff read_session_eq session_keys_for_eq)

lemma encode_response_total:
  assumes "encode_packet sid seq ty pl caps keys = Inr p"
  shows "\<exists>r. encode_response sid seq (pk_payload_hash p) acc caps keys = Inr r
    \<and> rs_session_id r = sid \<and> rs_sequence r = seq"
  using encode_packet_Inr [OF assms] assms
  by (cases "cap_proof_scheme caps")
    (auto simp: encode_response_def encode_packet_def validate_response_def response_ok_def Let_def
      packet_ok_def len_between_def sign_hmac_sha256_def make_packet_proof_def split: option.splits)

lemma apply_encoded_packet:
  assumes "session_encode_packet sid seq ty pl s = (Inr p, s)"
    and "dget (ss_sessions s) sid = Some session" "sr_session_id session = sid"
    and "sr_last_sequence session < seq" "fits_sql seq"
    and "\<not> dhas (ss_packets s) (sid, seq)" "\<not> dhas (ss_responses s) (sid, seq)"
    and "dget (binary_dispatch t) ty = Some h" "h pl (ss_world s) = (Inr res, w)"
  shows "\<exists>resp. session_apply_packet t p s = (Inr (True, res, resp),
      s\<lparr>ss_sessions := dset sid (session\<lparr>sr_last_sequence := seq\<rparr>) (ss_sessions s),
        ss_packets := dset (sid, seq) p (ss_packets s),
        ss_responses := dset (sid, seq) resp (ss_responses s), ss_world := w\<rparr>)
    \<and> encode_response sid seq (pk_payload_hash p) True (sr_capabilities session) (keys_for s session sid) = Inr resp"
proof -
  from assms(1,2) have enc:
    "encode_packet sid seq ty pl (sr_capabilities session) (keys_for s session sid) = Inr p"
    by (auto simp: encode_packet_state)
  note p = encode_packet_Inr [OF enc]
  from encode_response_total [OF enc, of True] obtain r where
    r: "encode_response sid seq (pk_payload_hash p) True (sr_capabilities session) (keys_for s session sid) = Inr r"
    and rk: "rs_session_id r = sid" "rs_sequence r = seq" by blast
  let ?s1 = "s\<lparr>ss_packets := dset (sid, seq) p (ss_packets s)\<rparr>"
  let ?s2 = "?s1\<lparr>ss_sessions := dset sid (session\<lparr>sr_last_sequence := seq\<rparr>) (ss_sessions s)\<rparr>"
  let ?s3 = "?s2\<lparr>ss_world := w\<rparr>"
  have 1: "write_session_packet p s = (Inr (), ?s1)"
    using p assms(2,5,6) by (subst write_packet_new) auto
  have 2: "advance_session_sequence sid seq ?s1 = (Inr (session\<lparr>sr_last_sequence := seq\<rparr>), ?s2)"
    using assms(2-5) by (subst advance_Inr) auto
  have 3: "on_world (h pl) ?s2 = (Inr res, ?s3)"
    using assms(9) by (simp add: on_world_def)
  have 4: "write_session_response r ?s3 =
      (Inr (), ?s3\<lparr>ss_responses := dset (sid, seq) r (ss_responses s)\<rparr>)"
    using rk assms(2,5,7) by (subst write_response_new) (auto simp: dict_simps)
  have "session_apply_packet t p s =
      (Inr (True, res, r), ?s3\<lparr>ss_responses := dset (sid, seq) r (ss_responses s)\<rparr>)"
    using p assms(2,4,8) 1 2 3 4 r
    by (simp add: session_apply_packet_def obind_def lift_def ret_def guard_if read_session_eq
        session_keys_for_eq validate_packet_def)
  with r show ?thesis by auto
qed

text \<open>
  C3. What one peer encodes the session accepts: a packet made by \<open>session_encode_packet\<close> with a
  sequence number above the session's, for a tool that succeeds on its payload, is applied. The
  tool runs once on the payload, the sequence number becomes the packet's, and one packet row and one
  response row are added, the response being verifiable by the sender.
\<close>

theorem encoded_packet_accepted:
  assumes "session_encode_packet sid seq ty pl s = (Inr p, s)"
    and "dget (ss_sessions s) sid = Some session" "sr_session_id session = sid"
    and "sr_last_sequence session < seq" "fits_sql seq"
    and "\<not> dhas (ss_packets s) (sid, seq)" "\<not> dhas (ss_responses s) (sid, seq)"
    and "dget (binary_dispatch t) ty = Some h" "h pl (ss_world s) = (Inr res, w)"
  shows "\<exists>resp. session_apply_packet t p s = (Inr (True, res, resp),
      s\<lparr>ss_sessions := dset sid (session\<lparr>sr_last_sequence := seq\<rparr>) (ss_sessions s),
        ss_packets := dset (sid, seq) p (ss_packets s),
        ss_responses := dset (sid, seq) resp (ss_responses s), ss_world := w\<rparr>)
    \<and> verify_response resp True (cap_proof_scheme (sr_capabilities session)) (keys_for s session sid)"
  using apply_encoded_packet [OF assms] encode_response_verified by blast

section \<open>A sample run\<close>

definition sample_tools :: "unit cast_tools" where
  "sample_tools =
     \<lparr>ct_cast = \<lambda>_ _ _ _ _ _. ret (JStr ''cast''), ct_fluid_cast = \<lambda>_ _ _ _. ret JNull,
      ct_geometric_cast = \<lambda>_ _ _ _. ret JNull\<rparr>"

definition sample_record :: "int \<Rightarrow> session_record" where
  "sample_record n =
     \<lparr>sr_session_id = ''s1'', sr_opened_at = 0, sr_closed_at = None, sr_status = OPEN,
      sr_transport = JSONRPC,
      sr_local = \<lparr>pi_peer_id = ''a'', pi_key_id = ''k1'', pi_scheme = SIGNED, pi_public_material_ref = None\<rparr>,
      sr_remote = \<lparr>pi_peer_id = ''b'', pi_key_id = ''k2'', pi_scheme = SIGNED, pi_public_material_ref = None\<rparr>,
      sr_capabilities = (sample_caps SIGNED)\<lparr>cap_supports_binary := False\<rparr>,
      sr_last_sequence = n, sr_anchor_cast_id = None, sr_channel_branch_id = None\<rparr>"

definition sample_open :: "unit session_state" where
  "sample_open = (empty_sessions ())\<lparr>ss_sessions := [(''s1'', sample_record 0)],
     ss_keys := [(''s1'', sample_keys)]\<rparr>"

lemma sample_open_run: "session_run t (empty_sessions ()) sample_open"
proof -
  have "session_open ''s1'' 0 ''JSONRPC'' ''a'' ''k1'' ''b'' ''k2'' 2 ''SIGNED'' 6 None None None
          (Some [1, 2, 3]) (empty_sessions ()) =
        (Inr (''s1'', (sample_caps SIGNED)\<lparr>cap_supports_binary := False\<rparr>), sample_open)"
    by (simp add: session_open_def obind_def lift_def mk_capabilities_def mk_peer_identity_def
        len_between_def transport_of_def Let_def write_session_def sql_int_def modify_def ret_def
        sample_open_def sample_record_def sample_caps_def sample_keys_def empty_sessions_def)
  from step_open [OF this] show ?thesis using run_refl run_step by blast
qed

lemma sample_encode:
  "\<exists>p. session_encode_packet ''s1'' 1 ''cast'' [] sample_open = (Inr p, sample_open)"
proof -
  have "dget (ss_sessions sample_open) ''s1'' = Some (sample_record 0)"
    "keys_for sample_open (sample_record 0) ''s1'' = Some sample_keys"
    by (simp_all add: sample_open_def keys_for_def sample_record_def sample_caps_def)
  moreover have "\<exists>p. encode_packet ''s1'' 1 ''cast'' [] (sr_capabilities (sample_record 0)) (Some sample_keys) = Inr p"
    using encode_sample [of 1 SIGNED "Some sample_keys" "''s1''" "[]"]
    by (simp add: encode_packet_def sample_record_def sample_caps_def)
  ultimately show ?thesis by (auto simp: encode_packet_state)
qed

lemma sample_facts:
  "dget (ss_sessions sample_open) ''s1'' = Some (sample_record 0)"
  "sr_session_id (sample_record 0) = ''s1''" "sr_last_sequence (sample_record 0) < 1" "fits_sql 1"
  "\<not> dhas (ss_packets sample_open) (''s1'', 1)" "\<not> dhas (ss_responses sample_open) (''s1'', 1)"
  "dget (binary_dispatch sample_tools) ''cast'' = Some (binary_cast sample_tools)"
  "binary_cast sample_tools [] (ss_world sample_open) = (Inr (JStr ''cast''), ())"
  by (simp_all add: sample_open_def sample_record_def fits_sql_def binary_dispatch_def
      binary_cast_def sample_tools_def empty_sessions_def ret_def)

lemma sample_apply:
  "\<exists>p out s1. session_apply_packet sample_tools p sample_open = (Inr out, s1)
     \<and> pk_session_id p = ''s1'' \<and> pk_sequence p = 1 \<and> ss_packets s1 = [((''s1'', 1), p)]"
proof -
  obtain p where p: "session_encode_packet ''s1'' 1 ''cast'' [] sample_open = (Inr p, sample_open)"
    using sample_encode by blast
  have "pk_session_id p = ''s1'' \<and> pk_sequence p = 1"
    using p by (auto simp: encode_packet_state dest!: encode_packet_Inr)
  moreover have "ss_packets sample_open = []" by (simp add: sample_open_def empty_sessions_def)
  ultimately show ?thesis using apply_encoded_packet [OF p sample_facts] by fastforce
qed

lemma packet_applied_once_witness:
  "\<exists>p s1 e. session_apply_packet sample_tools p s1 = (Inl e, s1) \<and> pk_sequence p = 1"
proof -
  obtain p out s1 where "session_apply_packet sample_tools p sample_open = (Inr out, s1)" "pk_sequence p = 1"
    using sample_apply by blast
  then show ?thesis
    using packet_applied_once [of sample_tools p sample_open out s1 s1 p, OF _ run_refl refl refl] by blast
qed

lemma apply_advances_witness:
  "\<exists>p out s1. session_apply_packet sample_tools p sample_open = (Inr out, s1)
     \<and> dget (ss_sessions s1) ''s1'' = Some (sample_record 1)"
proof -
  obtain p acc res resp s1 where
    p: "session_apply_packet sample_tools p sample_open = (Inr (acc, res, resp), s1)"
    "pk_session_id p = ''s1''" "pk_sequence p = 1"
    using sample_apply by (metis prod_cases3)
  from apply_advances [OF sample_open_run p(1)] p(2,3) sample_facts(1)
  have "dget (ss_sessions s1) ''s1'' = Some (sample_record 1)" by (auto simp: sample_record_def)
  with p(1) show ?thesis by blast
qed

lemma replay_never_applies_witness:
  "\<exists>s e. ss_packets s \<noteq> [] \<and> session_replay_from sample_tools ''s1'' 0 100 s = (Inl e, s)"
proof -
  obtain p out s1 where p: "session_apply_packet sample_tools p sample_open = (Inr out, s1)"
    "pk_session_id p = ''s1''" "pk_sequence p = 1" "ss_packets s1 = [((''s1'', 1), p)]"
    using sample_apply by blast
  have run: "session_run sample_tools (empty_sessions ()) s1"
    using sample_open_run run_step step_apply [OF p(1)] by blast
  have "packet_ok p" using p(1) by (auto simp: session_apply_packet_def obind_Inr_iff validate_packet_Inr_iff)
  then have "fst (query_session_packets ''s1'' 100 s1) = Inr [p]"
    using p(4) by (simp add: query_session_packets_def run_result_def sql_int_def sql_limit_def validate_packet_def)
  with replay_never_applies [OF run, of "''s1''" 0 100] p(3)
  have "snd (session_replay_from sample_tools ''s1'' 0 100 s1) = s1"
    "\<exists>e. fst (session_replay_from sample_tools ''s1'' 0 100 s1) = Inl e" by auto
  then show ?thesis using p(4) by (metis list.distinct(1) prod.collapse)
qed

lemma encoded_packet_accepted_witness:
  "\<exists>p resp s1. session_apply_packet sample_tools p sample_open = (Inr (True, JStr ''cast'', resp), s1)"
proof -
  obtain p where p: "session_encode_packet ''s1'' 1 ''cast'' [] sample_open = (Inr p, sample_open)"
    using sample_encode by blast
  from encoded_packet_accepted [OF p sample_facts] show ?thesis by blast
qed

end
