(* ===== verification/Schema.thy ===== *)
theory Schema
  imports Sessions
begin

text \<open>
  The data model shared by the engine's operations, from \<open>src/vermyth/schema/_legacy.py\<close>: intents,
  sigils with their derived fields, resonance scores and verdicts, lineage, cast results and
  channels, with the declared constraints of each model as a checked constructor. A frozenset of
  aspects is a list without duplicates in iteration order. A sigil and a fluid sigil share their
  fields; the metadata of a fluid sigil is optional in the record.
\<close>

section \<open>Enumerations\<close>

datatype contradiction_severity = SEV_NONE | SEV_SOFT | SEV_HARD

datatype polarity = POSITIVE | NEGATIVE | NEUTRAL

datatype reversibility_class = REVERSIBLE | REV_PARTIAL | IRREVERSIBLE

datatype side_effect_tolerance = TOL_NONE | TOL_LOW | TOL_MEDIUM | TOL_HIGH

datatype projection_method = FULL | PARTIAL

datatype verdict_type = V_COHERENT | V_PARTIAL | V_INCOHERENT

datatype effect_class =
    ERASURE | MANIFESTATION | FORCE | COGNITION | DISSOLUTION | REVELATION | CONTAINMENT
  | NEGATION | CORRUPTION | ACCELERATION | BINDING | EMERGENCE

datatype channel_status = CH_COHERENT | CH_STRAINED | CH_DECOHERENT

fun verdict_type_name :: "verdict_type \<Rightarrow> string" where
  "verdict_type_name V_COHERENT = ''COHERENT''"
| "verdict_type_name V_PARTIAL = ''PARTIAL''"
| "verdict_type_name V_INCOHERENT = ''INCOHERENT''"

definition severity_members :: "(string, contradiction_severity) dict" where
  "severity_members = [(''NONE'', SEV_NONE), (''SOFT'', SEV_SOFT), (''HARD'', SEV_HARD)]"

definition effect_class_members :: "(string, effect_class) dict" where
  "effect_class_members =
     [(''ERASURE'', ERASURE), (''MANIFESTATION'', MANIFESTATION), (''FORCE'', FORCE),
      (''COGNITION'', COGNITION), (''DISSOLUTION'', DISSOLUTION), (''REVELATION'', REVELATION),
      (''CONTAINMENT'', CONTAINMENT), (''NEGATION'', NEGATION), (''CORRUPTION'', CORRUPTION),
      (''ACCELERATION'', ACCELERATION), (''BINDING'', BINDING), (''EMERGENCE'', EMERGENCE)]"

text \<open>\<open>Enum[name]\<close>: the member of that name, a \<open>KeyError\<close> when there is none.\<close>

definition enum_lookup :: "(string, 'e) dict \<Rightarrow> string \<Rightarrow> 'e result" where
  "enum_lookup members name = of_option (KeyError name) (dget members name)"

section \<open>Intent\<close>

record intent =
  in_objective :: string
  in_scope :: string
  in_reversibility :: reversibility_class
  in_side_effect_tolerance :: side_effect_tolerance

definition mk_intent ::
  "string \<Rightarrow> string \<Rightarrow> reversibility_class \<Rightarrow> side_effect_tolerance \<Rightarrow> intent result" where
  "mk_intent objective scop rv tol =
     (if length objective \<le> 500 \<and> length scop \<le> 200
      then Inr \<lparr>in_objective = objective, in_scope = scop, in_reversibility = rv,
                in_side_effect_tolerance = tol\<rparr>
      else Inl (ValueError ''Intent''))"

record intent_vector =
  iv_vector :: svec
  iv_projection_method :: projection_method
  iv_constraint_component :: svec
  iv_semantic_component :: "svec option"
  iv_confidence :: real

definition mk_intent_vector ::
  "svec \<Rightarrow> projection_method \<Rightarrow> svec \<Rightarrow> svec option \<Rightarrow> real \<Rightarrow> intent_vector result" where
  "mk_intent_vector v method constraint semantic confidence =
     (if \<not> (0 \<le> confidence \<and> confidence \<le> 1) then Inl (ValueError ''confidence'')
      else if method = FULL \<and> semantic = None
      then Inl (ValueError ''semantic_component is required when projection_method is FULL'')
      else if method = PARTIAL \<and> confidence > lit 0.65
      then Inl (ValueError ''confidence must be at most 0.65 when projection_method is PARTIAL'')
      else Inr \<lparr>iv_vector = v, iv_projection_method = method, iv_constraint_component = constraint,
                iv_semantic_component = semantic, iv_confidence = confidence\<rparr>)"

section \<open>Sigils\<close>

record fluid_meta =
  fm_source_vector :: svec
  fm_nearest_canonical :: string
  fm_interpolation_weights :: "(string, real) dict"

record sigil =
  sg_name :: string
  sg_aspects :: "aspect list"
  sg_effect_class :: effect_class
  sg_resonance_ceiling :: real
  sg_contradiction_severity :: contradiction_severity
  sg_semantic_fingerprint :: string
  sg_semantic_vector :: svec
  sg_polarity :: polarity
  sg_fluid :: "fluid_meta option"

definition semantic_fingerprint :: "aspect list \<Rightarrow> string" where
  "semantic_fingerprint aspects =
     sha256_hex (encode_str (join ''+'' (sort (map aspect_name aspects))))"

definition polarity_from_aspects :: "aspect list \<Rightarrow> polarity" where
  "polarity_from_aspects aspects =
     (let net = sum_list (map aspect_polarity aspects) in
      if net > 0 then POSITIVE else if net < 0 then NEGATIVE else NEUTRAL)"

text \<open>
  Building a \<open>Sigil\<close>: fingerprint, vector and polarity are derived from the aspects, then the
  declared constraints are checked.
\<close>

definition mk_sigil ::
  "registry \<Rightarrow> string \<Rightarrow> aspect list \<Rightarrow> effect_class \<Rightarrow> real \<Rightarrow> contradiction_severity \<Rightarrow> sigil result"
where
  "mk_sigil R name aspects ec rc severity =
     (if 1 \<le> length aspects \<and> length aspects \<le> 3 \<and> 0 \<le> rc \<and> rc \<le> 1
      then Inr \<lparr>sg_name = name, sg_aspects = aspects, sg_effect_class = ec,
                sg_resonance_ceiling = rc, sg_contradiction_severity = severity,
                sg_semantic_fingerprint = semantic_fingerprint aspects,
                sg_semantic_vector = from_aspects R aspects,
                sg_polarity = polarity_from_aspects aspects, sg_fluid = None\<rparr>
      else Inl (ValueError ''Sigil''))"

definition mk_fluid_sigil :: "sigil \<Rightarrow> sigil result" where
  "mk_fluid_sigil s =
     (if 1 \<le> length (sg_aspects s) \<and> 0 \<le> sg_resonance_ceiling s \<and> sg_resonance_ceiling s \<le> 1
      then Inr s else Inl (ValueError ''FluidSigil''))"

section \<open>Resonance and verdicts\<close>

record resonance_score =
  rsc_raw :: real
  rsc_adjusted :: real
  rsc_ceiling_applied :: bool
  rsc_proof :: string

definition mk_resonance_score :: "real \<Rightarrow> real \<Rightarrow> bool \<Rightarrow> string \<Rightarrow> resonance_score result" where
  "mk_resonance_score raw adjusted applied proof =
     (if 0 \<le> raw \<and> raw \<le> 1 \<and> 0 \<le> adjusted \<and> adjusted \<le> 1 \<and> length proof \<le> 300
      then Inr \<lparr>rsc_raw = raw, rsc_adjusted = adjusted, rsc_ceiling_applied = applied,
                rsc_proof = proof\<rparr>
      else Inl (ValueError ''ResonanceScore''))"

record verdict =
  vd_verdict_type :: verdict_type
  vd_resonance :: resonance_score
  vd_effect_description :: string
  vd_incoherence_reason :: "string option"
  vd_casting_note :: string
  vd_intent_vector :: intent_vector

definition mk_verdict ::
  "verdict_type \<Rightarrow> resonance_score \<Rightarrow> string \<Rightarrow> string option \<Rightarrow> string \<Rightarrow> intent_vector \<Rightarrow> verdict result"
where
  "mk_verdict vt resonance effect_description incoherence_reason casting_note iv =
     (if length effect_description \<le> 300 \<and> length casting_note \<le> 200
      then Inr \<lparr>vd_verdict_type = vt, vd_resonance = resonance,
                vd_effect_description = effect_description,
                vd_incoherence_reason = incoherence_reason, vd_casting_note = casting_note,
                vd_intent_vector = iv\<rparr>
      else Inl (ValueError ''Verdict''))"

section \<open>Lineage, casts, channels\<close>

record lineage =
  ln_parent_cast_id :: string
  ln_depth :: int
  ln_branch_id :: string
  ln_divergence_vector :: "svec option"

text \<open>A missing branch id is generated (\<open>new_branch\<close>).\<close>

definition mk_lineage ::
  "string \<Rightarrow> string \<Rightarrow> int \<Rightarrow> string option \<Rightarrow> svec option \<Rightarrow> lineage result" where
  "mk_lineage new_branch parent_cast_id depth branch_id dv =
     (if 1 \<le> depth
      then Inr \<lparr>ln_parent_cast_id = parent_cast_id, ln_depth = depth,
                ln_branch_id = (case branch_id of None \<Rightarrow> new_branch | Some b \<Rightarrow> b),
                ln_divergence_vector = dv\<rparr>
      else Inl (ValueError ''Lineage''))"

datatype cast_source = SRC_BASE | SRC_CRYSTALLIZED | SRC_FLUID

record cast_provenance =
  cp_source :: cast_source
  cp_crystallized_sigil_name :: "string option"
  cp_generation :: "int option"
  cp_narrative_coherence :: "real option"
  cp_causal_root_cast_id :: "string option"

definition fluid_provenance :: cast_provenance where
  "fluid_provenance =
     \<lparr>cp_source = SRC_FLUID, cp_crystallized_sigil_name = None, cp_generation = None,
      cp_narrative_coherence = None, cp_causal_root_cast_id = None\<rparr>"

text \<open>The fresh identity of a model instance: its ULID and its creation time.\<close>

type_synonym stamp = "string \<times> int"

record cast_result =
  cr_cast_id :: string
  cr_timestamp :: int
  cr_intent :: intent
  cr_sigil :: sigil
  cr_verdict :: verdict
  cr_lineage :: "lineage option"
  cr_glyph_seed_id :: "string option"
  cr_provenance :: "cast_provenance option"

definition mk_cast_result ::
  "stamp \<Rightarrow> intent \<Rightarrow> sigil \<Rightarrow> verdict \<Rightarrow> lineage option \<Rightarrow> cast_provenance option \<Rightarrow> cast_result" where
  "mk_cast_result st i s v l p =
     \<lparr>cr_cast_id = fst st, cr_timestamp = snd st, cr_intent = i, cr_sigil = s, cr_verdict = v,
      cr_lineage = l, cr_glyph_seed_id = None, cr_provenance = p\<rparr>"

abbreviation cast_adjusted :: "cast_result \<Rightarrow> real" where
  "cast_adjusted r \<equiv> rsc_adjusted (vd_resonance (cr_verdict r))"

abbreviation cast_verdict :: "cast_result \<Rightarrow> verdict_type" where
  "cast_verdict r \<equiv> vd_verdict_type (cr_verdict r)"

record channel_state =
  cs_branch_id :: string
  cs_cast_count :: int
  cs_cumulative_resonance :: real
  cs_mean_resonance :: real
  cs_coherence_streak :: int
  cs_last_verdict_type :: verdict_type
  cs_status :: channel_status
  cs_last_cast_id :: string
  cs_constraint_vector :: "svec option"
  cs_updated_at :: int

definition channel_ok :: "channel_state \<Rightarrow> bool" where
  "channel_ok c \<longleftrightarrow>
     0 \<le> cs_cast_count c \<and> 0 \<le> cs_cumulative_resonance c \<and> 0 \<le> cs_mean_resonance c
     \<and> cs_mean_resonance c \<le> 1 \<and> 0 \<le> cs_coherence_streak c"

definition mk_channel_state :: "channel_state \<Rightarrow> channel_state result" where
  "mk_channel_state c = (if channel_ok c then Inr c else Inl (ValueError ''ChannelState''))"

end
