(* ===== verification/Composition.thy ===== *)
theory Composition
  imports Schema
begin

text \<open>
  The composition engine of \<open>src/vermyth/engine/composition.py\<close>: the table of sigil entries keyed
  by the canonical key of an aspect set, composition of an exact set, interpolation of a vector
  between the nearest entries, and registration. Reading the JSON files is left out; what is done
  with their parsed content is \<open>ingest_entries\<close>. The exponential of \<open>math.exp\<close> is a parameter.
\<close>

section \<open>State\<close>

type_synonym entry = "(string, json) dict"

record composition =
  cm_table :: "(string, entry) dict"
  cm_contradictions :: "(string, entry) dict"

text \<open>\<open>Enum[x]\<close> for a value read from a JSON object.\<close>

fun enum_json_lookup :: "(string, 'e) dict \<Rightarrow> json \<Rightarrow> 'e result" where
  "enum_json_lookup members (JStr s) = enum_lookup members s"
| "enum_json_lookup members (JList _) = Inl (TypeError ''unhashable type: list'')"
| "enum_json_lookup members (JObj _) = Inl (TypeError ''unhashable type: dict'')"
| "enum_json_lookup members v = Inl (KeyError (py_repr v))"

definition item :: "entry \<Rightarrow> string \<Rightarrow> json result" where
  "item raw k = of_option (KeyError k) (dget raw k)"

definition aspect_id_members :: "(string, aspect_id) dict" where
  "aspect_id_members = map (\<lambda>a. (id_name a, a)) all_aspect_ids"

fun json_strings :: "json list \<Rightarrow> string list option" where
  "json_strings [] = Some []"
| "json_strings (JStr s # xs) = map_option ((#) s) (json_strings xs)"
| "json_strings (_ # xs) = None"

section \<open>Loading and registering entries\<close>

fun aspect_names :: "json list \<Rightarrow> aspect_id list result" where
  "aspect_names [] = Inr []"
| "aspect_names (JStr s # xs) =
     (case dget aspect_id_members s of
        None \<Rightarrow> Inl (ValueError (''unknown AspectID name: '' @ repr_str s))
      | Some a \<Rightarrow> rbind (aspect_names xs) (\<lambda>ys. Inr (a # ys)))"
| "aspect_names (_ # xs) = Inl (ValueError ''invalid aspect name'')"

definition ingest_entry ::
  "registry \<Rightarrow> json \<Rightarrow> (string, entry) dict \<Rightarrow> (string, entry) dict result" where
  "ingest_entry R e table =
     (case e of
        JObj entry \<Rightarrow>
          (case dget entry ''aspects'' of
             Some (JList raw_names) \<Rightarrow>
               rbind (aspect_names raw_names) (\<lambda>ids.
               let key = canonical_aspect_key R (map Canonical (remdups ids)) in
               if dhas table key
               then Inl (ValueError (''duplicate canonical sigil key: '' @ repr_str key))
               else Inr (dset key entry table))
           | _ \<Rightarrow> Inl (ValueError ''entry missing aspects array''))
      | _ \<Rightarrow> Inl (ValueError ''invalid entry''))"

fun ingest_all ::
  "registry \<Rightarrow> json list \<Rightarrow> (string, entry) dict \<Rightarrow> (string, entry) dict result" where
  "ingest_all R [] table = Inr table"
| "ingest_all R (e # es) table = rbind (ingest_entry R e table) (ingest_all R es)"

text \<open>One file: its content must be an array.\<close>

definition ingest_sigil_file ::
  "registry \<Rightarrow> json \<Rightarrow> (string, entry) dict \<Rightarrow> (string, entry) dict result" where
  "ingest_sigil_file R content table =
     (case content of
        JList entries \<Rightarrow> ingest_all R entries table
      | _ \<Rightarrow> Inl (ValueError ''expected JSON array''))"

definition register_sigil_entry ::
  "registry \<Rightarrow> aspect list \<Rightarrow> entry \<Rightarrow> bool \<Rightarrow> composition \<Rightarrow> composition result" where
  "register_sigil_entry R aspects entry allow_override C =
     (let key = canonical_aspect_key R aspects in
      if dhas (cm_table C) key \<and> \<not> allow_override
      then Inl (ValueError (''sigil for aspect combination '' @ repr_str key @
                            '' already exists; set allow_override=True to replace''))
      else Inr (C\<lparr>cm_table := dset key entry (cm_table C)\<rparr>))"

text \<open>Rows of \<open>load_registered_sigils\<close>: aspects, entry, allow-override flag.\<close>

fun load_registered_sigils ::
  "registry \<Rightarrow> (aspect list \<times> entry \<times> bool) list \<Rightarrow> composition \<Rightarrow> composition result" where
  "load_registered_sigils R [] C = Inr C"
| "load_registered_sigils R ((aspects, entry, allow_override) # rows) C =
     rbind (register_sigil_entry R aspects entry allow_override C) (load_registered_sigils R rows)"

section \<open>Composition\<close>

definition contradiction_severity_for_key ::
  "composition \<Rightarrow> string \<Rightarrow> entry \<Rightarrow> contradiction_severity result" where
  "contradiction_severity_for_key C key raw =
     (case dget raw ''contradiction_severity'' of
        Some (JStr s) \<Rightarrow>
          (case dget severity_members s of
             Some sev \<Rightarrow> Inr sev
           | None \<Rightarrow>
               (case dget (cm_contradictions C) key of
                  None \<Rightarrow> Inr SEV_NONE
                | Some contra \<Rightarrow>
                    enum_json_lookup severity_members (dget_or contra ''severity'' (JStr ''NONE''))))
      | _ \<Rightarrow>
          (case dget (cm_contradictions C) key of
             None \<Rightarrow> Inr SEV_NONE
           | Some contra \<Rightarrow>
               enum_json_lookup severity_members (dget_or contra ''severity'' (JStr ''NONE''))))"

fun as_str :: "json \<Rightarrow> string result" where
  "as_str (JStr s) = Inr s"
| "as_str _ = Inl (ValueError ''Input should be a valid string'')"

definition compose :: "registry \<Rightarrow> composition \<Rightarrow> aspect list \<Rightarrow> sigil result" where
  "compose R C aspects =
     (let n = length aspects in
      if n < 1 then Inl (ValueError ''aspects must contain at least one AspectID'')
      else if n > 3 then Inl (ValueError ''aspects must contain at most three AspectIDs'')
      else let key = canonical_aspect_key R aspects in
        (case dget (cm_table C) key of
           None \<Rightarrow> Inl (ValueError (''no defined resolution for aspect combination: '' @ repr_str key))
         | Some raw \<Rightarrow>
             rbind (contradiction_severity_for_key C key raw) (\<lambda>severity.
             rbind (item raw ''name'') (\<lambda>name.
             rbind (rbind (item raw ''effect_class'') (enum_json_lookup effect_class_members)) (\<lambda>ec.
             rbind (rbind (item raw ''resonance_ceiling'') py_float) (\<lambda>rc.
             rbind (as_str name) (\<lambda>name.
             mk_sigil R name aspects ec rc severity)))))))"

section \<open>Interpolation\<close>

definition unit_components :: "real list \<Rightarrow> real list" where
  "unit_components cs =
     (let n = fsqrt (fsum (map (\<lambda>c. fmul c c) cs)) in
      if n = 0 \<or> \<not> is_finite n then map (\<lambda>_. 0) cs else map (\<lambda>c. fdiv c n) cs)"

definition comp_normalize_unit :: "svec \<Rightarrow> svec" where
  "comp_normalize_unit v = v\<lparr>comps := unit_components (comps v)\<rparr>"

text \<open>An anchor: similarity, key, entry and aspects of a table row whose names are all canonical.\<close>

type_synonym anchor = "real \<times> string \<times> entry \<times> aspect list"

definition anchor_aspects :: "entry \<Rightarrow> aspect list option" where
  "anchor_aspects raw =
     (case dget raw ''aspects'' of
        Some (JList raw_names) \<Rightarrow>
          (case aspect_names raw_names of
             Inl _ \<Rightarrow> None
           | Inr ids \<Rightarrow> if ids = [] then None else Some (map Canonical (remdups ids)))
      | _ \<Rightarrow> None)"

fun score_anchors :: "registry \<Rightarrow> svec \<Rightarrow> (string, entry) dict \<Rightarrow> anchor list result" where
  "score_anchors R vec [] = Inr []"
| "score_anchors R vec ((key, raw) # rows) =
     (case anchor_aspects raw of
        None \<Rightarrow> score_anchors R vec rows
      | Some aspects \<Rightarrow>
          rbind (cosine_similarity (from_aspects R aspects) vec) (\<lambda>sim.
          rbind (score_anchors R vec rows) (\<lambda>rest. Inr ((sim, key, raw, aspects) # rest))))"

definition nearest_anchors :: "nat \<Rightarrow> anchor list \<Rightarrow> anchor list" where
  "nearest_anchors k scored = take (min k (length scored)) (sort_key (\<lambda>a. - fst a) scored)"

definition softmax :: "(real \<Rightarrow> real) \<Rightarrow> real list \<Rightarrow> real list" where
  "softmax mexp sims =
     (let max_sim = Max (set sims);
          exps = map (\<lambda>s. mexp (fsub s max_sim)) sims;
          total = fsum exps;
          denom = (if total = 0 then 1 else total)
      in map (\<lambda>e. fdiv e denom) exps)"

fun severity_rank :: "contradiction_severity \<Rightarrow> nat" where
  "severity_rank SEV_NONE = 0"
| "severity_rank SEV_SOFT = 1"
| "severity_rank SEV_HARD = 2"

text \<open>The accumulators of the loop over weights and neighbours.\<close>

record blend =
  bl_weights :: "(string, real) dict"
  bl_union :: "aspect list"
  bl_ceiling :: real
  bl_severity :: contradiction_severity

definition add_aspects :: "aspect list \<Rightarrow> aspect list \<Rightarrow> aspect list" where
  "add_aspects xs ys = xs @ filter (\<lambda>y. \<not> aspect_in y xs) ys"

fun blend_neighbours :: "composition \<Rightarrow> (real \<times> anchor) list \<Rightarrow> blend \<Rightarrow> blend result" where
  "blend_neighbours C [] b = Inr b"
| "blend_neighbours C ((w, (sim, key, raw, aspects)) # rest) b =
     (let name = py_str (dget_or raw ''name'' (JStr key));
          old = (case dget (bl_weights b) name of None \<Rightarrow> 0 | Some x \<Rightarrow> x) in
      rbind (rbind (item raw ''resonance_ceiling'') py_float) (\<lambda>c.
      rbind (if w > lit 0.10
             then rbind (contradiction_severity_for_key C key raw) (\<lambda>sev.
                  Inr (if severity_rank sev > severity_rank (bl_severity b) then sev else bl_severity b))
             else Inr (bl_severity b)) (\<lambda>worst.
      blend_neighbours C rest
        \<lparr>bl_weights = dset name (fadd old w) (bl_weights b),
         bl_union = add_aspects (bl_union b) aspects,
         bl_ceiling = fadd (bl_ceiling b) (fmul c w), bl_severity = worst\<rparr>)))"

definition vector_polarity :: "real list \<Rightarrow> polarity" where
  "vector_polarity cs =
     (let eps = lit (1 / 10 ^ 12);
          net = int (length (filter (\<lambda>c. c > eps) cs)) - int (length (filter (\<lambda>c. c < - eps) cs))
      in if net > 0 then POSITIVE else if net < 0 then NEGATIVE else NEUTRAL)"

definition interpolate ::
  "registry \<Rightarrow> composition \<Rightarrow> (real \<Rightarrow> real) \<Rightarrow> svec \<Rightarrow> int \<Rightarrow> sigil result" where
  "interpolate R C mexp vector k =
     (if k < 1 then Inl (ValueError ''k must be >= 1'')
      else let vec = comp_normalize_unit vector in
      rbind (score_anchors R vec (cm_table C)) (\<lambda>scored.
      if scored = [] then Inl (ValueError ''no sigil anchors available for interpolation'')
      else
      let neighbors = nearest_anchors (nat k) scored;
          weights = softmax mexp (map fst neighbors);
          best_idx = max_by (\<lambda>i. weights ! i) 0 [1..<length neighbors];
          (_, _, best_raw, best_aspects) = neighbors ! best_idx;
          best_name = py_str (dget_or best_raw ''name'' (JStr ''UNKNOWN'')) in
      rbind (rbind (item best_raw ''effect_class'') (enum_json_lookup effect_class_members)) (\<lambda>best_ec.
      rbind (blend_neighbours C (zip weights neighbors)
               \<lparr>bl_weights = [], bl_union = [], bl_ceiling = 0, bl_severity = SEV_NONE\<rparr>) (\<lambda>b.
      let union = (if length (bl_union b) > 3 then best_aspects else bl_union b);
          fp_basis = join ''+'' (sort (map aspect_name union)) @ ''|'' @
                     join '','' (map (fmt_fixed 6) (take 6 (comps vec))) in
      mk_fluid_sigil
        \<lparr>sg_name = ''Fluid:'' @ best_name, sg_aspects = union, sg_effect_class = best_ec,
         sg_resonance_ceiling = bl_ceiling b, sg_contradiction_severity = bl_severity b,
         sg_semantic_fingerprint = sha256_hex (encode_str (json_string fp_basis)),
         sg_semantic_vector = vec, sg_polarity = vector_polarity (comps vec),
         sg_fluid = Some \<lparr>fm_source_vector = vector, fm_nearest_canonical = best_name,
                          fm_interpolation_weights = bl_weights b\<rparr>\<rparr>))))"

section \<open>Properties of the composition engine\<close>

lemma compose_Inr:
  "compose R C A = Inr s \<Longrightarrow>
   1 \<le> length A \<and> length A \<le> 3 \<and> sg_aspects s = A \<and> 0 \<le> sg_resonance_ceiling s
   \<and> sg_resonance_ceiling s \<le> 1 \<and> sg_semantic_vector s = from_aspects R A
   \<and> sg_semantic_fingerprint s = semantic_fingerprint A \<and> sg_polarity s = polarity_from_aspects A
   \<and> sg_fluid s = None
   \<and> (\<exists>raw. dget (cm_table C) (canonical_aspect_key R A) = Some raw
        \<and> dget raw ''name'' = Some (JStr (sg_name s))
        \<and> contradiction_severity_for_key C (canonical_aspect_key R A) raw
          = Inr (sg_contradiction_severity s))"
  by (auto simp: compose_def Let_def rbind_Inr_iff mk_sigil_def item_def
      elim!: as_str.elims split: if_splits option.splits)

lemma compose_lookup_cong:
  "dget (cm_table C) (canonical_aspect_key R B) = dget (cm_table D) (canonical_aspect_key R B) \<Longrightarrow>
   cm_contradictions C = cm_contradictions D \<Longrightarrow> compose R C B = compose R D B"
proof -
  assume eq: "dget (cm_table C) (canonical_aspect_key R B) = dget (cm_table D) (canonical_aspect_key R B)"
    and "cm_contradictions C = cm_contradictions D"
  then have "contradiction_severity_for_key C = contradiction_severity_for_key D"
    by (intro ext) (simp only: contradiction_severity_for_key_def)
  note sev = this
  show ?thesis unfolding compose_def Let_def eq sev by (rule refl)
qed

text \<open>
  Registering an entry replaces exactly one row: afterwards the registered set, however it is
  ordered, is composed from the new entry alone, and every other set of known aspects is composed
  as before, errors included.
\<close>

theorem register_then_compose:
  assumes "registry_ok R" "names_plain R"
    and "set A \<subseteq> set (full_aspect_order R)" "set B \<subseteq> set (full_aspect_order R)"
    and "distinct A" "distinct B"
    and "register_sigil_entry R A e allow_override C = Inr C'"
  shows "compose R C' B =
    compose R (if set B = set A then C\<lparr>cm_table := [(canonical_aspect_key R B, e)]\<rparr> else C) B"
proof -
  have C': "C' = C\<lparr>cm_table := dset (canonical_aspect_key R A) e (cm_table C)\<rparr>"
    using assms(7) by (auto simp: register_sigil_entry_def Let_def split: if_splits)
  have "canonical_aspect_key R B = canonical_aspect_key R A \<longleftrightarrow> set B = set A"
    using key_sets [OF assms(1,2,4,3)] key_perm [OF assms(1,4,6,5)] by blast
  then show ?thesis
    by (intro compose_lookup_cong) (auto simp: C' dict_simps)
qed

definition sample_entry :: entry where
  "sample_entry =
     [(''name'', JStr ''Nullmind''), (''aspects'', JList [JStr ''VOID'', JStr ''MIND'']),
      (''effect_class'', JStr ''NEGATION''), (''resonance_ceiling'', JFloat (1/2))]"

definition sample_composition :: composition where
  "sample_composition =
     \<lparr>cm_table = [(''VOID+MIND'', sample_entry)], cm_contradictions = []\<rparr>"

lemma sample_items [simp]:
  "dget sample_entry ''name'' = Some (JStr ''Nullmind'')"
  "dget sample_entry ''effect_class'' = Some (JStr ''NEGATION'')"
  "dget sample_entry ''resonance_ceiling'' = Some (JFloat (1/2))"
  "dget sample_entry ''contradiction_severity'' = None"
  "dget sample_entry ''aspects'' = Some (JList [JStr ''VOID'', JStr ''MIND''])"
  by (simp_all add: sample_entry_def)

lemma sample_effect_class [simp]:
  "enum_lookup effect_class_members ''NEGATION'' = Inr NEGATION"
  by (simp add: enum_lookup_def effect_class_members_def)

lemma compose_sample:
  assumes "dget (cm_table C) (canonical_aspect_key R A) = Some sample_entry"
    "cm_contradictions C = []" "1 \<le> length A" "length A \<le> 3"
  shows "\<exists>s. compose R C A = Inr s \<and> sg_name s = ''Nullmind''
    \<and> sg_contradiction_severity s = SEV_NONE"
proof -
  have "contradiction_severity_for_key C k sample_entry = Inr SEV_NONE" for k
    using assms(2) by (simp add: contradiction_severity_for_key_def)
  moreover have "\<exists>s. mk_sigil R ''Nullmind'' A NEGATION (1/2) SEV_NONE = Inr s
      \<and> sg_name s = ''Nullmind'' \<and> sg_contradiction_severity s = SEV_NONE"
    using assms(3,4) by (simp add: mk_sigil_def)
  ultimately show ?thesis using assms
    by (auto simp: compose_def Let_def item_def)
qed

lemma sample_key: "canonical_aspect_key empty_registry [Canonical VOID, Canonical MIND] = ''VOID+MIND''"
  by (simp add: canonical_aspect_key_def order_index_def full_aspect_order_def all_aspect_ids_def
      empty_registry_def registry_init_def)

lemma register_then_compose_witness:
  "\<exists>C' s. register_sigil_entry empty_registry [Canonical VOID, Canonical MIND] sample_entry False
           \<lparr>cm_table = [], cm_contradictions = []\<rparr> = Inr C'
     \<and> compose empty_registry C' [Canonical MIND, Canonical VOID] = Inr s
     \<and> sg_name s = ''Nullmind'' \<and> sg_contradiction_severity s = SEV_NONE"
proof -
  let ?C = "\<lparr>cm_table = [], cm_contradictions = []\<rparr> :: composition"
  obtain C' where C': "register_sigil_entry empty_registry [Canonical VOID, Canonical MIND] sample_entry False ?C = Inr C'"
    by (simp add: register_sigil_entry_def Let_def)
  have np: "names_plain empty_registry"
    by (simp add: names_plain_def empty_registry_def registry_init_def)
  have known: "set [Canonical VOID, Canonical MIND] \<subseteq> set (full_aspect_order empty_registry)"
    "set [Canonical MIND, Canonical VOID] \<subseteq> set (full_aspect_order empty_registry)"
    by (auto simp: full_aspect_order_def)
  have "compose empty_registry C' [Canonical MIND, Canonical VOID] =
      compose empty_registry (?C\<lparr>cm_table :=
        [(canonical_aspect_key empty_registry [Canonical MIND, Canonical VOID], sample_entry)]\<rparr>)
        [Canonical MIND, Canonical VOID]"
    using register_then_compose [OF registry_ok_empty np known _ _ C'] by (simp add: insert_commute)
  moreover have "\<exists>s. compose empty_registry (?C\<lparr>cm_table :=
        [(canonical_aspect_key empty_registry [Canonical MIND, Canonical VOID], sample_entry)]\<rparr>)
        [Canonical MIND, Canonical VOID] = Inr s \<and> sg_name s = ''Nullmind''
        \<and> sg_contradiction_severity s = SEV_NONE"
    by (rule compose_sample) simp_all
  ultimately show ?thesis using C' by metis
qed

lemma max_by_init: "\<forall>x \<in> set xs. f x \<le> f m \<Longrightarrow> max_by f m xs = m"
  by (induction f m xs rule: max_by.induct) (auto simp: not_less [symmetric])

lemma fsum_nonneg: "\<forall>x \<in> set xs. 0 \<le> x \<Longrightarrow> 0 \<le> fsum xs"
proof -
  have "0 \<le> a \<Longrightarrow> \<forall>x \<in> set xs. 0 \<le> x \<Longrightarrow> 0 \<le> foldl fadd a xs" for a
    by (induction xs arbitrary: a) (auto simp: fadd_def fl_nonneg)
  then show "\<forall>x \<in> set xs. 0 \<le> x \<Longrightarrow> 0 \<le> fsum xs" by (simp add: fsum_def)
qed

lemma softmax_max_first:
  assumes "mono mexp" "\<forall>x. 0 \<le> mexp x" "\<forall>s \<in> set sims. s \<le> hd sims" "i < length sims"
  shows "softmax mexp sims ! i \<le> softmax mexp sims ! 0"
proof -
  have "sims \<noteq> []" using assms(4) by auto
  then have M: "Max (set sims) = sims ! 0"
    using assms(3) by (intro Max_eqI) (auto simp: hd_conv_nth)
  let ?e = "\<lambda>s. mexp (fsub s (Max (set sims)))"
  let ?t = "fsum (map ?e sims)"
  have "sims ! i \<le> sims ! 0" using assms(3,4) \<open>sims \<noteq> []\<close> by (simp add: hd_conv_nth)
  then have "fsub (sims ! i) (Max (set sims)) \<le> fsub (sims ! 0) (Max (set sims))"
    by (simp add: fsub_def fl_mono)
  then have "?e (sims ! i) \<le> ?e (sims ! 0)" using assms(1) by (rule monoD [rotated])
  moreover have "0 \<le> ?t" using assms(2) by (intro fsum_nonneg) auto
  ultimately have "fdiv (?e (sims ! i)) (if ?t = 0 then 1 else ?t) \<le> fdiv (?e (sims ! 0)) (if ?t = 0 then 1 else ?t)"
    unfolding fdiv_def by (intro fl_mono divide_right_mono) auto
  then show ?thesis using assms(4) \<open>sims \<noteq> []\<close> by (simp add: softmax_def Let_def)
qed

lemma nearest_anchors_best:
  assumes "scored \<noteq> []" "1 \<le> k"
  shows "nearest_anchors k scored \<noteq> []" "set (nearest_anchors k scored) \<subseteq> set scored"
    "\<forall>a \<in> set scored. fst a \<le> fst (nearest_anchors k scored ! 0)"
proof -
  let ?l = "sort_key (\<lambda>a. - fst a) scored"
  have "length ?l = length scored" by simp
  then have ne: "?l \<noteq> []" using assms(1) by (metis length_0_conv)
  then show "nearest_anchors k scored \<noteq> []" using assms by (simp add: nearest_anchors_def)
  show "set (nearest_anchors k scored) \<subseteq> set scored"
    by (auto simp: nearest_anchors_def dest: in_set_takeD)
  have "sorted (map (\<lambda>a. - fst a) ?l)" by simp
  then have "- fst (?l ! 0) \<le> - fst a" if a: "a \<in> set ?l" for a
  proof -
    obtain i where i: "i < length ?l" "?l ! i = a" using a by (metis in_set_conv_nth)
    from sorted_nth_mono [OF \<open>sorted _\<close>, of 0 i] i show ?thesis
      by (metis (no_types, lifting) le0 length_map nth_map order_le_less_trans)
  qed
  then show "\<forall>a \<in> set scored. fst a \<le> fst (nearest_anchors k scored ! 0)"
    using assms by (auto simp: nearest_anchors_def)
qed

lemma nearest_sorted:
  "\<forall>s \<in> set (map fst (nearest_anchors k scored)). s \<le> hd (map fst (nearest_anchors k scored))"
proof (cases "nearest_anchors k scored")
  case (Cons a as)
  then have "scored \<noteq> []" "1 \<le> k" by (cases k; auto simp: nearest_anchors_def)+
  from nearest_anchors_best(2,3) [OF this] Cons show ?thesis by auto
qed simp

lemma blend_union_nonempty:
  "blend_neighbours C ws b = Inr b' \<Longrightarrow> bl_union b \<noteq> [] \<or> (\<exists>w s key raw as rest. ws = (w, s, key, raw, as) # rest \<and> as \<noteq> []) \<Longrightarrow>
   bl_union b' \<noteq> []"
  by (induction C ws b rule: blend_neighbours.induct)
    (auto simp: rbind_Inr_iff Let_def add_aspects_def aspect_in_def)

lemma anchor_aspects_nonempty: "anchor_aspects raw = Some as \<Longrightarrow> as \<noteq> []"
  by (auto simp: anchor_aspects_def split: option.splits json.splits sum.splits if_splits)

lemma score_anchors_aspects:
  "score_anchors R vec rows = Inr scored \<Longrightarrow> (s, key, raw, as) \<in> set scored \<Longrightarrow> as \<noteq> []"
proof (induction rows arbitrary: scored)
  case (Cons row rows)
  obtain k r where row: "row = (k, r)" by (cases row)
  show ?case
  proof (cases "anchor_aspects r")
    case None
    with Cons row show ?thesis by simp
  next
    case (Some bs)
    with Cons.prems row obtain sim rest where "score_anchors R vec rows = Inr rest"
      "scored = (sim, k, r, bs) # rest"
      by (auto simp: rbind_Inr_iff)
    with Cons.IH Cons.prems(2) anchor_aspects_nonempty [OF Some] show ?thesis by auto
  qed
qed simp

text \<open>
  C6. Interpolation names the nearest anchor: when it succeeds, the nearest canonical sigil is the
  name of a table row whose similarity to the normalised vector is the greatest of all rows with
  canonical aspects, the effect class is that row's, the aspect set is not empty and has at most
  three members or is that row's, and the ceiling lies in [0, 1]. The exponential only has to be
  monotone and not negative.
\<close>

theorem interpolate_nearest:
  assumes "mono mexp" "\<forall>x. 0 \<le> mexp x" and "interpolate R C mexp v k = Inr s"
  shows "\<exists>scored sim key raw as. score_anchors R (comp_normalize_unit v) (cm_table C) = Inr scored
    \<and> (sim, key, raw, as) \<in> set scored \<and> (\<forall>a \<in> set scored. fst a \<le> sim)
    \<and> sg_name s = ''Fluid:'' @ py_str (dget_or raw ''name'' (JStr ''UNKNOWN''))
    \<and> rbind (item raw ''effect_class'') (enum_json_lookup effect_class_members) = Inr (sg_effect_class s)
    \<and> sg_aspects s \<noteq> [] \<and> (length (sg_aspects s) \<le> 3 \<or> sg_aspects s = as)
    \<and> 0 \<le> sg_resonance_ceiling s \<and> sg_resonance_ceiling s \<le> 1
    \<and> sg_semantic_vector s = comp_normalize_unit v"
proof -
  obtain scored where sc: "score_anchors R (comp_normalize_unit v) (cm_table C) = Inr scored"
    and k: "1 \<le> nat k" and ne: "scored \<noteq> []"
    using assms(3) by (auto simp: interpolate_def Let_def rbind_Inr_iff split: if_splits)
  let ?N = "nearest_anchors (nat k) scored"
  let ?w = "softmax mexp (map fst ?N)"
  note best = nearest_anchors_best [OF ne k]
  obtain sim key raw as where N0: "?N ! 0 = (sim, key, raw, as)" by (cases "?N ! 0") auto
  have "\<forall>i \<in> set [1..<length ?N]. ?w ! i \<le> ?w ! 0"
    using softmax_max_first [OF assms(1,2) nearest_sorted] by auto
  then have idx: "max_by ((!) ?w) 0 [1..<length ?N] = 0" by (rule max_by_init)
  have mem: "(sim, key, raw, as) \<in> set scored"
    using best(1,2) N0 by (metis length_greater_0_conv nth_mem subsetD)
  from assms(3) sc ne k idx N0 obtain ec b where
    "rbind (item raw ''effect_class'') (enum_json_lookup effect_class_members) = Inr ec"
    and bl: "blend_neighbours C (zip ?w ?N)
       \<lparr>bl_weights = [], bl_union = [], bl_ceiling = 0, bl_severity = SEV_NONE\<rparr> = Inr b"
    and s: "sg_effect_class s = ec" "sg_name s = ''Fluid:'' @ py_str (dget_or raw ''name'' (JStr ''UNKNOWN''))"
      "sg_aspects s = (if length (bl_union b) > 3 then as else bl_union b)"
      "sg_resonance_ceiling s = bl_ceiling b" "0 \<le> bl_ceiling b" "bl_ceiling b \<le> 1"
      "sg_semantic_vector s = comp_normalize_unit v"
    by (auto simp: interpolate_def Let_def rbind_Inr_iff mk_fluid_sigil_def split: if_splits)
  have "as \<noteq> []" using score_anchors_aspects [OF sc mem] by simp
  moreover have "bl_union b \<noteq> []"
  proof (rule blend_union_nonempty [OF bl])
    obtain w ws' where "?w = w # ws'" using best(1) by (cases ?w) (auto simp: softmax_def Let_def)
    moreover obtain rest where "?N = (sim, key, raw, as) # rest" using N0 best(1) by (cases ?N) auto
    ultimately show "bl_union \<lparr>bl_weights = [], bl_union = [], bl_ceiling = 0, bl_severity = SEV_NONE\<rparr> \<noteq> [] \<or>
       (\<exists>w s key raw as rest. zip ?w ?N = (w, s, key, raw, as) # rest \<and> as \<noteq> [])"
      using \<open>as \<noteq> []\<close> by auto
  qed
  moreover have "\<forall>a \<in> set scored. fst a \<le> sim" using best(3) N0 by simp
  ultimately show ?thesis using sc mem s \<open>rbind _ _ = Inr ec\<close> by (auto intro!: exI)
qed


lemma sample_score_anchors:
  "comp_normalize_unit \<lparr>comps = [0, 0, 0, 0, 0, 0], basis = None\<rparr> =
     \<lparr>comps = [0, 0, 0, 0, 0, 0], basis = None\<rparr>"
  "score_anchors empty_registry \<lparr>comps = [0, 0, 0, 0, 0, 0], basis = None\<rparr> (cm_table sample_composition) =
     Inr [(0, ''VOID+MIND'', sample_entry, [Canonical VOID, Canonical MIND])]"
proof -
  let ?v = "\<lparr>comps = [0, 0, 0, 0, 0, 0], basis = None\<rparr> :: svec"
  show u: "comp_normalize_unit ?v = ?v"
    by (simp add: comp_normalize_unit_def unit_components_def fsum_def fadd_def fmul_def fsqrt_def)
  have n: "l2_norm ?v = 0"
    by (simp add: l2_norm_def fsum_def fadd_def fmul_def fsqrt_def is_finite_def)
  have asp: "anchor_aspects sample_entry = Some [Canonical VOID, Canonical MIND]"
    by (simp add: anchor_aspects_def aspect_id_members_def all_aspect_ids_def)
  have "cosine_similarity (from_aspects empty_registry [Canonical VOID, Canonical MIND]) ?v = Inr 0"
    by (simp add: cosine_similarity_def cosine_core_def n normalized_basis_version_def
        from_aspects_def empty_registry_def registry_init_def)
  then show "score_anchors empty_registry ?v (cm_table sample_composition) =
      Inr [(0, ''VOID+MIND'', sample_entry, [Canonical VOID, Canonical MIND])]"
    by (simp add: sample_composition_def asp)
qed

lemma sample_interpolate:
  "\<exists>s. interpolate empty_registry sample_composition (\<lambda>x. fl (exp x))
         \<lparr>comps = [0, 0, 0, 0, 0, 0], basis = None\<rparr> 3 = Inr s"
proof -
  let ?v = "\<lparr>comps = [0, 0, 0, 0, 0, 0], basis = None\<rparr> :: svec"
  have w: "softmax (\<lambda>x. fl (exp x)) [0] = [1]"
    by (simp add: softmax_def fsum_def fadd_def fsub_def fdiv_def)
  have bl: "\<exists>b. blend_neighbours sample_composition
      [(1, 0, ''VOID+MIND'', sample_entry, [Canonical VOID, Canonical MIND])]
      \<lparr>bl_weights = [], bl_union = [], bl_ceiling = 0, bl_severity = SEV_NONE\<rparr> = Inr b
      \<and> bl_union b = [Canonical VOID, Canonical MIND] \<and> bl_ceiling b = 1/2"
  proof -
    have half: "fadd 0 (fmul (1/2) 1) = 1/2"
      using is_double_dyadic [of 1 1] by (simp add: fadd_def fmul_def fl_double)
    show ?thesis
      by (simp add: item_def half add_aspects_def aspect_in_def contradiction_severity_for_key_def
          sample_composition_def)
  qed
  show "\<exists>s. interpolate empty_registry sample_composition (\<lambda>x. fl (exp x)) ?v 3 = Inr s"
    using sample_score_anchors(2) w bl
    by (auto simp: interpolate_def sample_score_anchors(1) nearest_anchors_def item_def mk_fluid_sigil_def Let_def
        simp del: blend_neighbours.simps)
qed

lemma interpolate_nearest_witness:
  "\<exists>s. interpolate empty_registry sample_composition (\<lambda>x. fl (exp x))
         \<lparr>comps = [0, 0, 0, 0, 0, 0], basis = None\<rparr> 3 = Inr s
     \<and> sg_name s = ''Fluid:Nullmind'' \<and> sg_aspects s \<noteq> []"
proof -
  let ?v = "\<lparr>comps = [0, 0, 0, 0, 0, 0], basis = None\<rparr> :: svec"
  obtain s where s: "interpolate empty_registry sample_composition (\<lambda>x. fl (exp x)) ?v 3 = Inr s"
    using sample_interpolate by blast
  have "mono (\<lambda>x. fl (exp x))" by (intro monoI fl_mono) simp
  moreover have "\<forall>x. 0 \<le> fl (exp x)" by (intro allI fl_nonneg) simp
  ultimately show ?thesis
    using interpolate_nearest [OF _ _ s] sample_score_anchors s by (fastforce simp: dget_or_def py_str_def)
qed

end
