(* ===== verification/Resonance.thy ===== *)
theory Resonance
  imports Composition
begin

text \<open>
  Evaluation of a sigil against an intent, from \<open>src/vermyth/engine/operations/intent.py\<close>,
  \<open>src/vermyth/engine/operations/cast.py\<close> and the pressure tables of
  \<open>src/vermyth/engine/resonance.py\<close>: the intent vector from the declared constraints and the
  projection backend, the resonance score with contradiction penalty and ceiling, the verdict and
  its texts, and the fallback of \<open>evaluate\<close>. The projection backend, when there is one, is a
  parameter that returns a value or raises.
\<close>

section \<open>The engine\<close>

record engine =
  eg_registry :: registry
  eg_composition :: composition
  eg_backend :: "(string \<Rightarrow> string \<Rightarrow> json result) option"
  eg_contradictions :: "(string, entry) dict"

section \<open>Intent vectors\<close>

fun reversibility_pressures :: "reversibility_class \<Rightarrow> real list" where
  "reversibility_pressures IRREVERSIBLE = map lit [0.80, -0.40, 0, 0, 0.70, -0.30]"
| "reversibility_pressures REV_PARTIAL = map lit [0, 0, 0.30, 0.20, 0, 0]"
| "reversibility_pressures REVERSIBLE = map lit [-0.50, 0.70, 0, 0, -0.40, 0.60]"

fun side_effect_pressures :: "side_effect_tolerance \<Rightarrow> real list" where
  "side_effect_pressures TOL_NONE = map lit [-0.60, 0.60, 0, 0, -0.50, 0.50]"
| "side_effect_pressures TOL_LOW = map lit [-0.20, 0.30, 0, 0.30, -0.20, 0]"
| "side_effect_pressures TOL_MEDIUM = map lit [0, 0, 0.20, 0.20, 0, 0]"
| "side_effect_pressures TOL_HIGH = map lit [0.40, -0.30, 0.30, 0, 0.50, 0]"

definition clip_component :: "real \<Rightarrow> real" where
  "clip_component x = (if x > 1 then 1 else if x < -1 then -1 else x)"

definition scale_unit :: "real list \<Rightarrow> real list" where
  "scale_unit cs =
     (let norm = fsqrt (fsum (map (\<lambda>c. fmul c c) cs))
      in if norm = 0 then map (\<lambda>_. 0) cs else map (\<lambda>c. fdiv c norm) cs)"

definition normalize_unit :: "registry \<Rightarrow> real list \<Rightarrow> svec" where
  "normalize_unit R cs = \<lparr>comps = scale_unit cs, basis = Some (basis_version R)\<rparr>"

definition build_constraint_vector :: "registry \<Rightarrow> intent \<Rightarrow> svec" where
  "build_constraint_vector R i =
     (let rv = reversibility_pressures (in_reversibility i);
          side = side_effect_pressures (in_side_effect_tolerance i)
      in normalize_unit R
           (map (\<lambda>j. clip_component (fadd (comp_at rv j) (comp_at side j))) [0..<dimensionality R]))"

text \<open>The numeric components of a backend's answer, each in [-1, 1]; anything else is refused.\<close>

fun backend_floats :: "json list \<Rightarrow> real list option" where
  "backend_floats [] = Some []"
| "backend_floats (x # xs) =
     (case x of
        JInt n \<Rightarrow> if n < -1 \<or> n > 1 then None else map_option ((#) (of_int n)) (backend_floats xs)
      | JFloat y \<Rightarrow> if y < -1 \<or> y > 1 then None else map_option ((#) y) (backend_floats xs)
      | JBool b \<Rightarrow> map_option ((#) (if b then 1 else 0)) (backend_floats xs)
      | _ \<Rightarrow> None)"

definition build_semantic_vector :: "engine \<Rightarrow> intent \<Rightarrow> svec option" where
  "build_semantic_vector E i =
     (case eg_backend E of
        None \<Rightarrow> None
      | Some project \<Rightarrow>
          (case project (in_objective i) (in_scope i) of
             Inr (JList raw_list) \<Rightarrow>
               (if length raw_list < 6 then None
                else (case backend_floats raw_list of
                        None \<Rightarrow> None
                      | Some floats \<Rightarrow>
                          let d = dimensionality (eg_registry E)
                          in Some (normalize_unit (eg_registry E)
                                     (floats @ replicate (d - length floats) 0))))
           | _ \<Rightarrow> None))"

definition combine_vectors :: "svec \<Rightarrow> svec option \<Rightarrow> svec \<times> projection_method \<times> real" where
  "combine_vectors constraint semantic =
     (case semantic of
        None \<Rightarrow> (constraint, PARTIAL, lit 0.60)
      | Some s \<Rightarrow>
          let combined = map (\<lambda>i. fadd (fmul (comps constraint ! i) (lit 0.35))
                                         (fmul (comp_at (comps s) i) (lit 0.65)))
                           [0..<length (comps constraint)];
              norm = fsqrt (fsum (map (\<lambda>c. fmul c c) combined))
          in if norm = 0 then (constraint, PARTIAL, lit 0.60)
             else (\<lparr>comps = map (\<lambda>c. fdiv c norm) combined, basis = None\<rparr>, FULL, 1))"

definition build_intent_vector :: "engine \<Rightarrow> intent \<Rightarrow> intent_vector result" where
  "build_intent_vector E i =
     (let constraint = build_constraint_vector (eg_registry E) i;
          semantic = build_semantic_vector E i;
          (combined, method, confidence) = combine_vectors constraint semantic
      in mk_intent_vector combined method constraint semantic confidence)"

section \<open>Resonance\<close>

definition alignment_word :: "real \<Rightarrow> string" where
  "alignment_word cosine =
     (if cosine \<ge> lit 0.70 then ''strongly'' else if cosine \<ge> lit 0.40 then ''moderately''
      else if cosine \<ge> lit 0.10 then ''weakly'' else ''opposingly'')"

fun penalty_phrase :: "contradiction_severity \<Rightarrow> string" where
  "penalty_phrase SEV_HARD = ''HARD contradiction penalised -0.40''"
| "penalty_phrase SEV_SOFT = ''SOFT contradiction penalised -0.18''"
| "penalty_phrase SEV_NONE = ''no contradiction penalty''"

text \<open>The branch of \<open>compute_resonance\<close> that fixes the penalty.\<close>

fun penalty_of :: "contradiction_severity \<Rightarrow> real" where
  "penalty_of SEV_HARD = lit 0.40"
| "penalty_of SEV_SOFT = lit 0.18"
| "penalty_of SEV_NONE = 0"

definition compute_resonance :: "sigil \<Rightarrow> intent_vector \<Rightarrow> (resonance_score \<times> real) result" where
  "compute_resonance sigil iv =
     (let sv = sg_semantic_vector sigil; v = iv_vector iv;
          (sigil_vec, intent_vec, basis_note) =
            (if normalized_basis_version sv \<noteq> normalized_basis_version v
             then let tb = max (normalized_basis_version sv) (normalized_basis_version v);
                      td = max (length (comps sv)) (length (comps v))
                  in (upsample_to sv (int tb) (Some td), upsample_to v (int tb) (Some td),
                      '' Basis v'' @ nat_text (normalized_basis_version sv) @ '' vs v'' @
                      nat_text (normalized_basis_version v) @ '' upsampled to v'' @ nat_text tb @ ''.'')
             else (sv, v, ''''))
      in rbind (cosine_similarity sigil_vec intent_vec) (\<lambda>cosine.
         let raw_norm = fdiv (fadd cosine 1) 2;
             penalized = max 0 (fsub raw_norm (penalty_of (sg_contradiction_severity sigil)));
             rc = sg_resonance_ceiling sigil;
             adjusted = min penalized rc;
             ceiling_applied = (adjusted < fsub penalized (lit (1 / 10 ^ 12)));
             ceil_desc = (if ceiling_applied then ''applied at '' @ fmt_fixed 2 rc else ''not reached'');
             proof = ''Intent vector aligns '' @ alignment_word cosine @ '' with '' @ sg_name sigil @
                     '' (cosine '' @ fmt_fixed 3 cosine @ ''); '' @
                     penalty_phrase (sg_contradiction_severity sigil) @ ''; ceiling '' @ ceil_desc @
                     ''.'' @ basis_note
         in rbind (mk_resonance_score raw_norm adjusted ceiling_applied proof) (\<lambda>score.
            Inr (score, cosine))))"

definition verdict_type_of :: "real \<Rightarrow> verdict_type" where
  "verdict_type_of adjusted =
     (if adjusted \<ge> 0.75 then V_COHERENT else if adjusted \<ge> lit 0.45 then V_PARTIAL
      else V_INCOHERENT)"

section \<open>Verdict texts\<close>

fun casting_note_fallback :: "verdict_type \<Rightarrow> string" where
  "casting_note_fallback V_COHERENT =
     ''Coherent resonance; the casting stabilises without residual tension.''"
| "casting_note_fallback V_PARTIAL =
     ''Partial resonance; the casting holds tension that further passes may resolve.''"
| "casting_note_fallback V_INCOHERENT =
     ''Incoherent resonance; the casting fails to close a consistent inference loop.''"

fun casting_note_text :: "verdict_type \<Rightarrow> effect_class \<Rightarrow> string" where
  "casting_note_text V_COHERENT ERASURE =
     ''The target concept loses referential weight; downstream reasoning finds no anchor where it stood.''"
| "casting_note_text V_COHERENT MANIFESTATION =
     ''A stable attractor forms in the solution space; subsequent reasoning orbits it naturally.''"
| "casting_note_text V_COHERENT FORCE =
     ''Directional pressure propagates through the inference graph without resistance.''"
| "casting_note_text V_COHERENT COGNITION =
     ''The cognitive substrate reorganises around the new pattern; retrieval pathways realign.''"
| "casting_note_text V_COHERENT DISSOLUTION =
     ''Structural boundaries soften; categories that were load-bearing become permeable.''"
| "casting_note_text V_COHERENT REVELATION =
     ''A previously occluded feature of the solution space becomes the dominant signal.''"
| "casting_note_text V_COHERENT CONTAINMENT =
     ''A boundary condition is imposed; the reasoning space contracts to the declared scope.''"
| "casting_note_text V_COHERENT NEGATION =
     ''The target proposition loses truth value; dependent inferences cascade to null.''"
| "casting_note_text V_COHERENT CORRUPTION =
     ''Controlled noise is introduced at the specified locus; outputs diverge predictably.''"
| "casting_note_text V_COHERENT ACCELERATION =
     ''The inference clock advances; conclusions that required iteration arrive in fewer steps.''"
| "casting_note_text V_COHERENT BINDING =
     ''Two previously independent reasoning threads are coupled; they now share gradient.''"
| "casting_note_text V_COHERENT EMERGENCE =
     ''A pattern not present in any input becomes legible at the output layer.''"
| "casting_note_text V_PARTIAL ERASURE =
     ''The target loses salience but retains residual weight; erasure is incomplete and may reverse.''"
| "casting_note_text V_PARTIAL MANIFESTATION =
     ''An attractor forms but lacks sufficient depth; reasoning approaches it without fully settling.''"
| "casting_note_text V_PARTIAL FORCE =
     ''Directional pressure is present but bleeds into adjacent inference paths.''"
| "casting_note_text V_PARTIAL COGNITION =
     ''Reorganisation begins but stalls at the boundary of the contradiction; partial rewiring only.''"
| "casting_note_text V_PARTIAL DISSOLUTION =
     ''Boundaries soften unevenly; some load-bearing structures resist and hold.''"
| "casting_note_text V_PARTIAL REVELATION =
     ''Signal emerges but competes with existing priors; clarity is present but contested.''"
| "casting_note_text V_PARTIAL CONTAINMENT =
     ''The boundary holds in some dimensions but leaks in others; scope is partially enforced.''"
| "casting_note_text V_PARTIAL NEGATION =
     ''Truth value wavers; the proposition is weakened but not nullified.''"
| "casting_note_text V_PARTIAL CORRUPTION =
     ''Noise is introduced but distribution is uneven; some outputs are unaffected.''"
| "casting_note_text V_PARTIAL ACCELERATION =
     ''Inference advances unevenly; some paths compress while others remain at full cost.''"
| "casting_note_text V_PARTIAL BINDING =
     ''Coupling is established but asymmetric; one thread pulls the other without full entanglement.''"
| "casting_note_text V_PARTIAL EMERGENCE =
     ''A pattern becomes partially legible but requires additional casting to resolve fully.''"
| "casting_note_text V_INCOHERENT ERASURE =
     ''The erasure finds no coherent target; the casting dissipates without removing anything.''"
| "casting_note_text V_INCOHERENT MANIFESTATION =
     ''The attractor cannot form against the declared intent; the solution space remains unstructured.''"
| "casting_note_text V_INCOHERENT FORCE =
     ''Directional pressure is present but self-cancelling; the inference graph absorbs it without moving.''"
| "casting_note_text V_INCOHERENT COGNITION =
     ''The reorganisation pattern conflicts with the cognitive substrate; no rewiring occurs.''"
| "casting_note_text V_INCOHERENT DISSOLUTION =
     ''Dissolution finds no boundary to permeate; the casting has no substrate to act on.''"
| "casting_note_text V_INCOHERENT REVELATION =
     ''The signal cannot surface through the contradiction; occlusion is total.''"
| "casting_note_text V_INCOHERENT CONTAINMENT =
     ''The boundary condition cannot be imposed against the declared scope; containment fails.''"
| "casting_note_text V_INCOHERENT NEGATION =
     ''The negation is self-negating; the proposition and its denial cancel without resolution.''"
| "casting_note_text V_INCOHERENT CORRUPTION =
     ''Noise finds no coherent locus; the corruption is absorbed uniformly and has no effect.''"
| "casting_note_text V_INCOHERENT ACCELERATION =
     ''The inference clock cannot advance against the contradicting intent; time cost is unchanged.''"
| "casting_note_text V_INCOHERENT BINDING =
     ''The threads cannot be coupled across the contradiction; they repel rather than entangle.''"
| "casting_note_text V_INCOHERENT EMERGENCE =
     ''No pattern emerges; the output layer reflects only the incoherence of the input.''"

definition effect_description :: "sigil \<Rightarrow> verdict_type \<Rightarrow> string" where
  "effect_description sigil vt =
     ''Evaluation for '' @ sg_name sigil @ '' ('' @ verdict_type_name vt @ '').''"

definition incoherence_reason :: "engine \<Rightarrow> sigil \<Rightarrow> verdict_type \<Rightarrow> real \<Rightarrow> string option" where
  "incoherence_reason E sigil vt cosine =
     (if vt = V_COHERENT then None
      else
        let key = canonical_aspect_key (eg_registry E) (sg_aspects sigil);
            geometric = ''Geometric misalignment between intent projection and sigil semantic vector '' @
                        ''(cosine '' @ fmt_fixed 3 cosine @ '').''
        in case dget (eg_contradictions E) key of
             None \<Rightarrow> Some geometric
           | Some contra \<Rightarrow>
               if sg_contradiction_severity sigil = SEV_NONE then Some geometric
               else (case dget contra ''reason'' of
                       Some (JStr reason) \<Rightarrow>
                         if strip_text reason \<noteq> [] then Some reason else Some geometric
                     | _ \<Rightarrow> Some geometric))"

section \<open>Evaluation\<close>

definition evaluate_with_intent_vector ::
  "engine \<Rightarrow> sigil \<Rightarrow> intent \<Rightarrow> intent_vector \<Rightarrow> verdict result" where
  "evaluate_with_intent_vector E sigil i iv =
     rbind (compute_resonance sigil iv) (\<lambda>(resonance, cosine).
     let vt = verdict_type_of (rsc_adjusted resonance)
     in mk_verdict vt resonance (effect_description sigil vt) (incoherence_reason E sigil vt cosine)
          (casting_note_text vt (sg_effect_class sigil)) iv)"

definition fallback_verdict :: "registry \<Rightarrow> verdict" where
  "fallback_verdict R =
     (let z = \<lparr>comps = replicate (dimensionality R) 0, basis = None\<rparr>
      in \<lparr>vd_verdict_type = V_INCOHERENT,
          vd_resonance = \<lparr>rsc_raw = 0, rsc_adjusted = 0, rsc_ceiling_applied = False,
            rsc_proof = ''Intent vector aligns opposingly with sigil (cosine 0.000); no contradiction penalty; ceiling not reached.''\<rparr>,
          vd_effect_description = ''Evaluation failed; incoherent fallback.'',
          vd_incoherence_reason = Some ''Evaluation raised an unexpected error; incoherent fallback applied.'',
          vd_casting_note = casting_note_fallback V_INCOHERENT,
          vd_intent_vector = \<lparr>iv_vector = z, iv_projection_method = PARTIAL,
            iv_constraint_component = z, iv_semantic_component = None, iv_confidence = lit 0.60\<rparr>\<rparr>)"

definition evaluate :: "engine \<Rightarrow> sigil \<Rightarrow> intent \<Rightarrow> verdict" where
  "evaluate E sigil i =
     (case rbind (build_intent_vector E i) (evaluate_with_intent_vector E sigil i) of
        Inl _ \<Rightarrow> fallback_verdict (eg_registry E)
      | Inr v \<Rightarrow> v)"

definition blend_toward :: "registry \<Rightarrow> svec \<Rightarrow> svec \<Rightarrow> real \<Rightarrow> svec" where
  "blend_toward R current target alpha =
     (let a = max 0 (min 1 alpha);
          d = max (length (comps current)) (length (comps target))
      in normalize_unit R (map (\<lambda>i. fadd (fmul (fsub 1 a) (comp_at (comps current) i))
                                            (fmul a (comp_at (comps target) i))) [0..<d]))"

text \<open>Component-wise difference of the sigil vectors of a child and its parent.\<close>

definition divergence_vector :: "cast_result \<Rightarrow> cast_result \<Rightarrow> svec" where
  "divergence_vector child parent =
     (let cc = comps (sg_semantic_vector (cr_sigil child));
          pc = comps (sg_semantic_vector (cr_sigil parent))
      in \<lparr>comps = map (\<lambda>i. fsub (comp_at cc i) (comp_at pc i)) [0..<max (length cc) (length pc)],
          basis = None\<rparr>)"

definition next_depth :: "cast_result \<Rightarrow> int" where
  "next_depth parent = (case cr_lineage parent of None \<Rightarrow> 1 | Some l \<Rightarrow> ln_depth l + 1)"

definition cast_result_with_lineage ::
  "cast_result \<Rightarrow> cast_result \<Rightarrow> string \<Rightarrow> cast_result result" where
  "cast_result_with_lineage base parent branch_id =
     rbind (mk_lineage branch_id (cr_cast_id parent) (next_depth parent) (Some branch_id)
              (Some (divergence_vector base parent))) (\<lambda>l.
     Inr (base\<lparr>cr_lineage := Some l\<rparr>))"

section \<open>Properties of evaluation\<close>

definition raw_of :: "sigil \<Rightarrow> intent_vector \<Rightarrow> real" where
  "raw_of s iv = fdiv (fadd (cosine_core (sg_semantic_vector s) (iv_vector iv)) 1) 2"

definition adjusted_of :: "sigil \<Rightarrow> intent_vector \<Rightarrow> real" where
  "adjusted_of s iv =
     min (max 0 (fsub (raw_of s iv) (penalty_of (sg_contradiction_severity s)))) (sg_resonance_ceiling s)"

lemma compute_resonance_eq:
  "\<exists>applied proof. compute_resonance s iv =
     rbind (mk_resonance_score (raw_of s iv) (adjusted_of s iv) applied proof)
       (\<lambda>score. Inr (score, cosine_core (sg_semantic_vector s) (iv_vector iv)))"
proof (cases "normalized_basis_version (sg_semantic_vector s) = normalized_basis_version (iv_vector iv)")
  case True
  then have "cosine_similarity (sg_semantic_vector s) (iv_vector iv) =
      Inr (cosine_core (sg_semantic_vector s) (iv_vector iv))"
    by (simp add: cosine_similarity_def)
  with True show ?thesis
    unfolding compute_resonance_def raw_of_def adjusted_of_def Let_def
    by (simp only: if_False prod.case rbind.simps simp_thms) blast
next
  case False
  then show ?thesis
    unfolding compute_resonance_def raw_of_def adjusted_of_def Let_def
    by (simp only: if_True prod.case rbind.simps upsampled_cosine max.cobounded1 max.cobounded2
        not_False_eq_True) blast
qed

lemma compute_resonance_Inr:
  "compute_resonance s iv = Inr (score, c) \<Longrightarrow>
   rsc_raw score = raw_of s iv \<and> rsc_adjusted score = adjusted_of s iv \<and> length (rsc_proof score) \<le> 300
   \<and> c = cosine_core (sg_semantic_vector s) (iv_vector iv) \<and> 0 \<le> adjusted_of s iv"
  using compute_resonance_eq [of s iv]
  by (auto simp: mk_resonance_score_def rbind_Inr_iff split: if_splits)

lemma raw_range: "0 \<le> raw_of s iv \<and> raw_of s iv \<le> 1"
proof -
  let ?c = "cosine_core (sg_semantic_vector s) (iv_vector iv)"
  have "0 \<le> fadd ?c 1 \<and> fadd ?c 1 \<le> 2"
    using cosine_core_range [of "sg_semantic_vector s" "iv_vector iv"]
    unfolding fadd_def by (auto intro: fl_nonneg fl_le)
  then show ?thesis unfolding raw_of_def fdiv_def by (intro fl_unit) auto
qed

lemma penalty_nonneg: "0 \<le> penalty_of sv"
  by (cases sv) (simp_all add: lit_unit)

lemma penalty_mono: "severity_rank a \<le> severity_rank b \<Longrightarrow> penalty_of a \<le> penalty_of b"
  using lit_mono [of "0.18" "0.40"] lit_unit [of "0.18"] lit_unit [of "0.40"]
  by (cases a; cases b) auto

lemma penalized_range:
  "0 \<le> max 0 (fsub (raw_of s iv) (penalty_of sv)) \<and> max 0 (fsub (raw_of s iv) (penalty_of sv)) \<le> raw_of s iv"
  (is "0 \<le> ?p \<and> ?p \<le> _")
proof -
  have "is_double (raw_of s iv)" by (simp add: raw_of_def fdiv_def is_double_fl)
  then have "fsub (raw_of s iv) (penalty_of sv) \<le> raw_of s iv"
    unfolding fsub_def using penalty_nonneg by (intro fl_le) auto
  then show ?thesis using raw_range by auto
qed

lemma mk_verdict_Inr:
  "mk_verdict vt r ed ir cn iv = Inr v \<Longrightarrow>
   vd_verdict_type v = vt \<and> vd_resonance v = r \<and> vd_effect_description v = ed
   \<and> vd_incoherence_reason v = ir \<and> vd_casting_note v = cn
   \<and> length (vd_effect_description v) \<le> 300 \<and> length (vd_casting_note v) \<le> 200"
  by (auto simp: mk_verdict_def split: if_splits)

lemma incoherence_reason_None: "incoherence_reason E s vt c = None \<longleftrightarrow> vt = V_COHERENT"
  by (simp add: incoherence_reason_def Let_def split: option.splits json.splits)

lemma evaluate_cases:
  "evaluate E s i = fallback_verdict (eg_registry E) \<or>
   (\<exists>iv score c. compute_resonance s iv = Inr (score, c)
     \<and> vd_verdict_type (evaluate E s i) = verdict_type_of (rsc_adjusted score)
     \<and> vd_resonance (evaluate E s i) = score
     \<and> length (vd_effect_description (evaluate E s i)) \<le> 300
     \<and> length (vd_casting_note (evaluate E s i)) \<le> 200
     \<and> (vd_incoherence_reason (evaluate E s i) = None \<longleftrightarrow> vd_verdict_type (evaluate E s i) = V_COHERENT))"
proof (cases "rbind (build_intent_vector E i) (evaluate_with_intent_vector E s i)")
  case (Inl e)
  then show ?thesis by (simp add: evaluate_def)
next
  case (Inr v)
  then obtain iv where "evaluate_with_intent_vector E s i iv = Inr v" by (auto simp: rbind_Inr_iff)
  then obtain score c where sc: "compute_resonance s iv = Inr (score, c)"
    and v: "mk_verdict (verdict_type_of (rsc_adjusted score)) score
       (effect_description s (verdict_type_of (rsc_adjusted score)))
       (incoherence_reason E s (verdict_type_of (rsc_adjusted score)) c)
       (casting_note_text (verdict_type_of (rsc_adjusted score)) (sg_effect_class s)) iv = Inr v"
    by (auto simp: evaluate_with_intent_vector_def rbind_Inr_iff Let_def)
  note m = mk_verdict_Inr [OF v]
  have "vd_incoherence_reason v = None \<longleftrightarrow> vd_verdict_type v = V_COHERENT"
    using incoherence_reason_None m by metis
  moreover have "evaluate E s i = v" using Inr by (simp only: evaluate_def sum.case)
  ultimately show ?thesis using sc m by metis
qed

lemma verdict_type_0: "verdict_type_of 0 = V_INCOHERENT"
proof -
  have "1/4 \<le> lit 0.45"
    using lit_mono [of "1/4" "0.45"] is_double_dyadic [of 1 2] by (simp add: lit_double)
  then show ?thesis by (simp add: verdict_type_of_def)
qed

lemma evaluate_facts:
  "vd_verdict_type (evaluate E s i) = verdict_type_of (rsc_adjusted (vd_resonance (evaluate E s i)))
   \<and> 0 \<le> rsc_adjusted (vd_resonance (evaluate E s i))
   \<and> rsc_adjusted (vd_resonance (evaluate E s i)) \<le> rsc_raw (vd_resonance (evaluate E s i))
   \<and> rsc_raw (vd_resonance (evaluate E s i)) \<le> 1
   \<and> rsc_adjusted (vd_resonance (evaluate E s i)) \<le> max 0 (sg_resonance_ceiling s)
   \<and> length (rsc_proof (vd_resonance (evaluate E s i))) \<le> 300
   \<and> length (vd_effect_description (evaluate E s i)) \<le> 300
   \<and> length (vd_casting_note (evaluate E s i)) \<le> 200
   \<and> (vd_incoherence_reason (evaluate E s i) = None \<longleftrightarrow> vd_verdict_type (evaluate E s i) = V_COHERENT)"
  using evaluate_cases [of E s i]
proof
  assume f: "evaluate E s i = fallback_verdict (eg_registry E)"
  show ?thesis unfolding f by (simp add: fallback_verdict_def Let_def verdict_type_0)
next
  assume "\<exists>iv score c. compute_resonance s iv = Inr (score, c)
     \<and> vd_verdict_type (evaluate E s i) = verdict_type_of (rsc_adjusted score)
     \<and> vd_resonance (evaluate E s i) = score
     \<and> length (vd_effect_description (evaluate E s i)) \<le> 300
     \<and> length (vd_casting_note (evaluate E s i)) \<le> 200
     \<and> (vd_incoherence_reason (evaluate E s i) = None \<longleftrightarrow> vd_verdict_type (evaluate E s i) = V_COHERENT)"
  then obtain iv score c where *: "compute_resonance s iv = Inr (score, c)"
    "vd_verdict_type (evaluate E s i) = verdict_type_of (rsc_adjusted score)"
    "vd_resonance (evaluate E s i) = score"
    "length (vd_effect_description (evaluate E s i)) \<le> 300"
    "length (vd_casting_note (evaluate E s i)) \<le> 200"
    "vd_incoherence_reason (evaluate E s i) = None \<longleftrightarrow> vd_verdict_type (evaluate E s i) = V_COHERENT"
    by (elim exE conjE) (rule that)
  from compute_resonance_Inr [OF *(1)] penalized_range [of s iv "sg_contradiction_severity s"]
    raw_range [of s iv] * show ?thesis by (auto simp: adjusted_of_def)
qed

lemma hard_adjusted:
  assumes "sg_contradiction_severity s = SEV_HARD"
  shows "adjusted_of s iv < 0.75"
proof -
  have "is_double (5/16 :: real)" "is_double (11/16 :: real)"
    using is_double_dyadic [of 5 4] is_double_dyadic [of 11 4] by simp_all
  then have "5/16 \<le> lit 0.40" using lit_mono [of "5/16" "0.40"] by (simp add: lit_double)
  then have "fsub (raw_of s iv) (lit 0.40) \<le> 11/16"
    unfolding fsub_def using raw_range [of s iv] \<open>is_double (11/16)\<close> by (intro fl_le) auto
  then show ?thesis using assms by (simp add: adjusted_of_def)
qed

text \<open>
  C7. Evaluation is total and its verdict is consistent: the type is the band of the adjusted
  score, the scores satisfy 0 <= adjusted <= raw <= 1 and the adjusted one does not exceed the
  sigil's ceiling, every declared length limit holds, and a reason is given exactly for verdicts
  that are not COHERENT.
\<close>

theorem evaluate_consistent:
  "vd_verdict_type (evaluate E s i) = verdict_type_of (rsc_adjusted (vd_resonance (evaluate E s i)))
   \<and> 0 \<le> rsc_adjusted (vd_resonance (evaluate E s i))
   \<and> rsc_adjusted (vd_resonance (evaluate E s i)) \<le> rsc_raw (vd_resonance (evaluate E s i))
   \<and> rsc_raw (vd_resonance (evaluate E s i)) \<le> 1
   \<and> rsc_adjusted (vd_resonance (evaluate E s i)) \<le> max 0 (sg_resonance_ceiling s)
   \<and> length (rsc_proof (vd_resonance (evaluate E s i))) \<le> 300
   \<and> length (vd_effect_description (evaluate E s i)) \<le> 300
   \<and> length (vd_casting_note (evaluate E s i)) \<le> 200
   \<and> (vd_incoherence_reason (evaluate E s i) = None \<longleftrightarrow> vd_verdict_type (evaluate E s i) = V_COHERENT)"
  by (rule evaluate_facts)

lemma hard_not_coherent:
  assumes "sg_contradiction_severity s = SEV_HARD"
  shows "vd_verdict_type (evaluate E s i) \<noteq> V_COHERENT"
  using evaluate_cases [of E s i]
proof
  assume "\<exists>iv score c. compute_resonance s iv = Inr (score, c)
     \<and> vd_verdict_type (evaluate E s i) = verdict_type_of (rsc_adjusted score)
     \<and> vd_resonance (evaluate E s i) = score
     \<and> length (vd_effect_description (evaluate E s i)) \<le> 300
     \<and> length (vd_casting_note (evaluate E s i)) \<le> 200
     \<and> (vd_incoherence_reason (evaluate E s i) = None \<longleftrightarrow> vd_verdict_type (evaluate E s i) = V_COHERENT)"
  then obtain iv score c where "compute_resonance s iv = Inr (score, c)"
    and vt: "vd_verdict_type (evaluate E s i) = verdict_type_of (rsc_adjusted score)" by metis
  with compute_resonance_Inr have "rsc_adjusted score = adjusted_of s iv" by blast
  with hard_adjusted [OF assms, of iv] vt show ?thesis by (simp add: verdict_type_of_def)
qed (simp add: fallback_verdict_def Let_def)

text \<open>
  A HARD contradiction is never coherent: whatever the intent, the backend and the ceiling, the
  evaluation of a sigil with HARD severity is PARTIAL or INCOHERENT.
\<close>

theorem hard_never_coherent:
  assumes "sg_contradiction_severity s = SEV_HARD"
  shows "vd_verdict_type (evaluate E s i) \<noteq> V_COHERENT"
  using assms by (rule hard_not_coherent)

text \<open>
  A graver contradiction never scores higher: of two sigils that differ only in severity (and
  in their texts), the one with the higher severity has the lower or the same adjusted score.
\<close>

theorem severity_antitone:
  assumes "compute_resonance s iv = Inr (x, c)" "compute_resonance (s\<lparr>sg_contradiction_severity := sv\<rparr>) iv = Inr (y, d)"
    and "severity_rank (sg_contradiction_severity s) \<le> severity_rank sv"
  shows "rsc_adjusted y \<le> rsc_adjusted x \<and> rsc_raw y = rsc_raw x \<and> d = c"
proof -
  have raw: "raw_of (s\<lparr>sg_contradiction_severity := sv\<rparr>) iv = raw_of s iv" by (simp add: raw_of_def)
  have "fsub (raw_of s iv) (penalty_of sv) \<le> fsub (raw_of s iv) (penalty_of (sg_contradiction_severity s))"
    unfolding fsub_def using penalty_mono [OF assms(3)] by (intro fl_mono) simp
  then have "adjusted_of (s\<lparr>sg_contradiction_severity := sv\<rparr>) iv \<le> adjusted_of s iv"
    unfolding adjusted_of_def raw by simp
  then show ?thesis
    using compute_resonance_Inr [OF assms(1)] compute_resonance_Inr [OF assms(2)] raw by auto
qed

definition zero_vec :: svec where
  "zero_vec = \<lparr>comps = [0, 0, 0, 0, 0, 0], basis = None\<rparr>"

definition sample_sigil :: "contradiction_severity \<Rightarrow> sigil" where
  "sample_sigil sv =
     \<lparr>sg_name = ''Nullmind'', sg_aspects = [Canonical VOID, Canonical MIND],
      sg_effect_class = NEGATION, sg_resonance_ceiling = 1, sg_contradiction_severity = sv,
      sg_semantic_fingerprint = '''', sg_semantic_vector = zero_vec, sg_polarity = NEUTRAL,
      sg_fluid = None\<rparr>"

definition sample_iv :: intent_vector where
  "sample_iv = \<lparr>iv_vector = zero_vec, iv_projection_method = PARTIAL,
     iv_constraint_component = zero_vec, iv_semantic_component = None, iv_confidence = 1/2\<rparr>"

definition sample_engine :: engine where
  "sample_engine = \<lparr>eg_registry = empty_registry, eg_composition = sample_composition,
     eg_backend = None, eg_contradictions = []\<rparr>"

definition sample_intent :: intent where
  "sample_intent = \<lparr>in_objective = ''o'', in_scope = ''s'', in_reversibility = REVERSIBLE,
     in_side_effect_tolerance = TOL_NONE\<rparr>"

lemma hard_never_coherent_witness:
  "vd_verdict_type (evaluate sample_engine (sample_sigil SEV_HARD) sample_intent) \<noteq> V_COHERENT"
  by (rule hard_never_coherent) (simp add: sample_sigil_def)

lemma length_nat_text: "n < 10 ^ Suc k \<Longrightarrow> length (nat_text n) \<le> Suc k"
proof (induction k arbitrary: n)
  case 0
  then show ?case by (simp add: nat_text.simps)
next
  case (Suc k)
  then have "n div 10 < 10 ^ Suc k" by (simp add: less_mult_imp_div_less mult.commute)
  with Suc.IH have "length (nat_text (n div 10)) \<le> Suc k" by blast
  then show ?case by (subst nat_text.simps) auto
qed

lemma length_fmt_fixed_9:
  assumes "\<bar>x\<bar> \<le> 9"
  shows "length (fmt_fixed (Suc d) x) \<le> d + 4"
proof -
  let ?n = "nat (rne (\<bar>x\<bar> * 10 ^ Suc d))"
  have "rne (\<bar>x\<bar> * 10 ^ Suc d) \<le> rne (of_int (9 * 10 ^ Suc d))"
    using assms by (intro rne_mono) simp
  then have "rne (\<bar>x\<bar> * 10 ^ Suc d) \<le> 9 * 10 ^ Suc d" by (simp only: rne_of_int)
  then have n: "?n \<le> 9 * 10 ^ Suc d" by (simp add: nat_le_iff)
  then have "?n div 10 ^ Suc d \<le> 9 * 10 ^ Suc d div 10 ^ Suc d" by (rule div_le_mono)
  also have "9 * 10 ^ Suc d div 10 ^ Suc d = (9 :: nat)" by (rule nonzero_mult_div_cancel_right) simp
  finally have "?n div 10 ^ Suc d < 10 ^ Suc 0" by simp
  from length_nat_text [OF this] have 1: "length (nat_text (?n div 10 ^ Suc d)) \<le> 1" by simp
  have "?n mod 10 ^ Suc d < 10 ^ Suc d" by simp
  from length_nat_text [OF this] have "length (nat_text (?n mod 10 ^ Suc d)) \<le> Suc d" .
  then have "length (pad_left (Suc d) (nat_text (?n mod 10 ^ Suc d))) = Suc d"
    by (simp add: pad_left_def)
  moreover define n where "n = ?n"
  ultimately show ?thesis
    using 1 unfolding fmt_fixed_def Let_def n_def [symmetric] by (simp del: power_Suc)
qed

lemma length_fmt_fixed: "\<bar>x\<bar> \<le> 1 \<Longrightarrow> length (fmt_fixed (Suc d) x) \<le> d + 4"
  by (rule length_fmt_fixed_9) simp

lemma length_penalty_phrase: "length (penalty_phrase sv) \<le> 34"
  by (cases sv) simp_all

lemma length_alignment_word: "length (alignment_word c) \<le> 10"
  by (simp add: alignment_word_def)

lemma score_exists:
  assumes "length (sg_name s) \<le> 128" "0 \<le> sg_resonance_ceiling s" "sg_resonance_ceiling s \<le> 1"
    and "normalized_basis_version (sg_semantic_vector s) < 10 ^ 9"
    and "normalized_basis_version (iv_vector iv) < 10 ^ 9"
  shows "\<exists>score. compute_resonance s iv = Inr (score, cosine_core (sg_semantic_vector s) (iv_vector iv))"
proof -
  let ?c = "cosine_core (sg_semantic_vector s) (iv_vector iv)"
  let ?v = "normalized_basis_version (sg_semantic_vector s)"
  let ?w = "normalized_basis_version (iv_vector iv)"
  have c: "length (fmt_fixed 3 ?c) \<le> 6"
    using length_fmt_fixed [of ?c 2] cosine_core_range [of "sg_semantic_vector s" "iv_vector iv"]
    by (simp add: numeral_3_eq_3 abs_le_iff)
  have r: "length (fmt_fixed 2 (sg_resonance_ceiling s)) \<le> 5"
    using length_fmt_fixed [of "sg_resonance_ceiling s" 1] assms(2,3) by (simp add: numeral_2_eq_2)
  have n: "length (nat_text ?v) \<le> 9" "length (nat_text ?w) \<le> 9" "length (nat_text (max ?v ?w)) \<le> 9"
    using length_nat_text [of _ 8] assms(4,5) by simp_all
  note len = c r n length_penalty_phrase [of "sg_contradiction_severity s"] length_alignment_word [of ?c] assms(1)
  have ok: "0 \<le> raw_of s iv" "raw_of s iv \<le> 1" "0 \<le> adjusted_of s iv" "adjusted_of s iv \<le> 1"
    using raw_range [of s iv] penalized_range [of s iv "sg_contradiction_severity s"] assms(2,3)
    by (auto simp: adjusted_of_def)
  have score: "length p \<le> 300 \<Longrightarrow> \<exists>sc. rbind (mk_resonance_score (raw_of s iv) (adjusted_of s iv) ap p)
      (\<lambda>score. Inr (score, ?c)) = Inr (sc, ?c)" for ap p
    using ok by (simp add: mk_resonance_score_def)
  show ?thesis
  proof (cases "?v = ?w")
    case True
    then have cos: "cosine_similarity (sg_semantic_vector s) (iv_vector iv) = Inr ?c"
      by (simp add: cosine_similarity_def)
    show ?thesis
      unfolding compute_resonance_def Let_def True
      by (simp only: if_False prod.case rbind.simps simp_thms cos raw_of_def [symmetric]
          adjusted_of_def [symmetric]) (rule score, use len in \<open>simp split: if_split\<close>)
  next
    case False
    show ?thesis
      unfolding compute_resonance_def Let_def
      by (simp only: False if_True prod.case rbind.simps simp_thms upsampled_cosine max.cobounded1
          max.cobounded2 raw_of_def [symmetric] adjusted_of_def [symmetric])
        (rule score, use len in \<open>simp split: if_split\<close>)
  qed
qed

text \<open>
  Scoring succeeds: for a sigil whose name has at most 128 characters, a ceiling in [0, 1] and
  basis versions below 10^9, \<open>compute_resonance\<close> returns a score, the bases being aligned first;
  the proof text fits its limit of 300 characters.
\<close>

theorem resonance_score_exists:
  assumes "length (sg_name s) \<le> 128" "0 \<le> sg_resonance_ceiling s" "sg_resonance_ceiling s \<le> 1"
    and "normalized_basis_version (sg_semantic_vector s) < 10 ^ 9"
    and "normalized_basis_version (iv_vector iv) < 10 ^ 9"
  shows "\<exists>score. compute_resonance s iv = Inr (score, cosine_core (sg_semantic_vector s) (iv_vector iv))"
  using assms by (rule score_exists)

lemma long_name_fallback:
  assumes "300 < length (sg_name s)"
  shows "evaluate E s i = fallback_verdict (eg_registry E)"
proof -
  have "compute_resonance s iv = Inr r \<Longrightarrow> False" for iv r
    using assms by (auto simp: compute_resonance_def Let_def mk_resonance_score_def rbind_Inr_iff
        split: if_splits prod.splits)
  then show ?thesis
    by (auto simp: evaluate_def evaluate_with_intent_vector_def rbind_Inr_iff split: sum.splits)
qed


lemma resonance_score_exists_witness:
  "\<exists>score. compute_resonance (sample_sigil SEV_SOFT) sample_iv =
     Inr (score, cosine_core zero_vec zero_vec)"
  using resonance_score_exists [of "sample_sigil SEV_SOFT" sample_iv]
  by (simp add: sample_sigil_def sample_iv_def zero_vec_def normalized_basis_version_def)

lemma sample_score: "\<exists>x c. compute_resonance (sample_sigil sv) sample_iv = Inr (x, c)"
  using score_exists [of "sample_sigil sv" sample_iv]
  by (auto simp: sample_sigil_def sample_iv_def zero_vec_def normalized_basis_version_def)

lemma severity_antitone_witness:
  "\<exists>x y c d. compute_resonance (sample_sigil SEV_NONE) sample_iv = Inr (x, c)
     \<and> compute_resonance (sample_sigil SEV_HARD) sample_iv = Inr (y, d)
     \<and> rsc_adjusted y \<le> rsc_adjusted x"
proof -
  obtain x c where x: "compute_resonance (sample_sigil SEV_NONE) sample_iv = Inr (x, c)"
    using sample_score [of SEV_NONE] by blast
  have eq: "(sample_sigil SEV_NONE)\<lparr>sg_contradiction_severity := SEV_HARD\<rparr> = sample_sigil SEV_HARD"
    by (simp add: sample_sigil_def)
  obtain y d where y: "compute_resonance (sample_sigil SEV_HARD) sample_iv = Inr (y, d)"
    using sample_score [of SEV_HARD] by blast
  have "severity_rank (sg_contradiction_severity (sample_sigil SEV_NONE)) \<le> severity_rank SEV_HARD"
    by (simp add: sample_sigil_def)
  from severity_antitone [OF x _ this, unfolded eq, OF y] x y show ?thesis by blast
qed

end
