(* ===== verification/Casting.thy ===== *)
theory Casting
  imports Resonance
begin

text \<open>
  The casting operations over the engine: \<open>src/vermyth/engine/operations/casting.py\<close> (cast, fluid
  cast and the search loop of \<open>auto_cast\<close>), \<open>swarm.py\<close> (aggregation of members, chained casts and the
  state of their channel), \<open>drift.py\<close> (synchronising a channel) and \<open>seeds.py\<close> (accumulation and
  crystallisation of glyph seeds). Fresh identities and creation times come in as stamps.
\<close>

section \<open>Casts\<close>

definition cast_op :: "engine \<Rightarrow> stamp \<Rightarrow> aspect list \<Rightarrow> intent \<Rightarrow> cast_result result" where
  "cast_op E st aspects i =
     rbind (compose (eg_registry E) (eg_composition E) aspects) (\<lambda>sigil.
     Inr (mk_cast_result st i sigil (evaluate E sigil i) None None))"

definition fluid_cast ::
  "engine \<Rightarrow> (real \<Rightarrow> real) \<Rightarrow> stamp \<Rightarrow> svec \<Rightarrow> intent \<Rightarrow> cast_result result" where
  "fluid_cast E mexp st vector i =
     rbind (interpolate (eg_registry E) (eg_composition E) mexp vector 3) (\<lambda>sigil.
     Inr (mk_cast_result st i sigil (evaluate E sigil i) None (Some fluid_provenance)))"

section \<open>Auto-cast\<close>

record diagnostics_step =
  ds_adjusted :: real
  ds_raw :: real
  ds_blend_alpha :: real

record auto_cast_diagnostics =
  ad_steps :: "diagnostics_step list"
  ad_converged :: bool
  ad_final_adjusted :: real

text \<open>
  The body of the loop. The chain is kept in order; \<open>stamps\<close> supplies one identity per round, so
  the number of rounds is the length of that list (\<open>max_depth\<close>).
\<close>

definition link_cast :: "string \<Rightarrow> cast_result list \<Rightarrow> cast_result \<Rightarrow> cast_result result" where
  "link_cast branch_id chain base =
     (if chain = [] then Inr base
      else let parent = last chain in
        rbind (mk_lineage branch_id (cr_cast_id parent) (next_depth parent) (Some branch_id)
                 (Some (divergence_vector base parent))) (\<lambda>lin.
        Inr (base\<lparr>cr_lineage := Some lin, cr_provenance := Some fluid_provenance\<rparr>)))"

definition step_of :: "real \<Rightarrow> cast_result \<Rightarrow> diagnostics_step" where
  "step_of blend_alpha r =
     \<lparr>ds_adjusted = cast_adjusted r, ds_raw = rsc_raw (vd_resonance (cr_verdict r)),
      ds_blend_alpha = blend_alpha\<rparr>"

fun auto_cast_loop ::
  "engine \<Rightarrow> (real \<Rightarrow> real) \<Rightarrow> intent \<Rightarrow> real \<Rightarrow> real \<Rightarrow> string \<Rightarrow> stamp list \<Rightarrow> svec
     \<Rightarrow> cast_result list \<Rightarrow> diagnostics_step list
     \<Rightarrow> (cast_result list \<times> diagnostics_step list \<times> bool) result" where
  "auto_cast_loop E mexp i target alpha branch_id [] current chain steps = Inr (chain, steps, False)"
| "auto_cast_loop E mexp i target alpha branch_id (st # sts) current chain steps =
     rbind (fluid_cast E mexp st current i) (\<lambda>base.
     rbind (link_cast branch_id chain base) (\<lambda>r.
     let chain = chain @ [r]; steps = steps @ [step_of alpha r] in
     if cast_verdict r = V_COHERENT \<and> cast_adjusted r \<ge> target
     then Inr (chain, steps, True)
     else rbind (interpolate (eg_registry E) (eg_composition E) mexp current 3) (\<lambda>fluid.
          auto_cast_loop E mexp i target alpha branch_id sts
            (blend_toward (eg_registry E) current (sg_semantic_vector fluid) alpha) chain steps)))"

text \<open>\<open>chain[-1]\<close> of an empty chain (\<open>max_depth\<close> below one) is an \<open>IndexError\<close>.\<close>

definition auto_cast ::
  "engine \<Rightarrow> (real \<Rightarrow> real) \<Rightarrow> string \<Rightarrow> stamp list \<Rightarrow> svec \<Rightarrow> intent \<Rightarrow> real \<Rightarrow> real
     \<Rightarrow> (cast_result \<times> cast_result list \<times> auto_cast_diagnostics) result" where
  "auto_cast E mexp branch_id stamps vector i target_resonance blend_alpha =
     rbind (auto_cast_loop E mexp i target_resonance blend_alpha branch_id stamps vector [] [])
       (\<lambda>(chain, steps, converged).
     if chain = [] then Inl (IndexError ''list index out of range'')
     else Inr (last chain, chain,
            \<lparr>ad_steps = steps, ad_converged = converged, ad_final_adjusted = cast_adjusted (last chain)\<rparr>))"

section \<open>Swarms\<close>

datatype swarm_status = SW_COHERENT | SW_STRAINED | SW_DECOHERENT

type_synonym member = "string \<times> svec \<times> int"

definition swarm_weight :: "int \<Rightarrow> real" where
  "swarm_weight streak = fadd 1 (fmul (lit 0.01) (of_int (min 100 streak)))"

definition swarm_sum :: "member list \<Rightarrow> nat \<Rightarrow> real" where
  "swarm_sum members j =
     foldl (\<lambda>acc (_, v, streak). fadd acc (fmul (swarm_weight streak) (comp_at (comps v) j))) 0 members"

definition swarm_total :: "member list \<Rightarrow> real" where
  "swarm_total members = foldl (\<lambda>acc (_, _, streak). fadd acc (swarm_weight streak)) 0 members"

definition swarm_aggregate :: "registry \<Rightarrow> member list \<Rightarrow> svec" where
  "swarm_aggregate R members =
     (let total = (if swarm_total members \<le> 0 then 1 else swarm_total members)
      in normalize_unit R (map (\<lambda>j. fdiv (swarm_sum members j) total) [0..<dimensionality R]))"

definition swarm_verdict :: "verdict_type \<Rightarrow> real \<Rightarrow> real \<Rightarrow> swarm_status" where
  "swarm_verdict vt adj threshold =
     (if vt = V_COHERENT \<and> adj \<ge> threshold then SW_COHERENT
      else if vt = V_INCOHERENT then SW_DECOHERENT else SW_STRAINED)"

definition new_streak :: "swarm_status \<Rightarrow> int \<Rightarrow> int" where
  "new_streak status streak =
     (case status of SW_COHERENT \<Rightarrow> streak + 1 | SW_DECOHERENT \<Rightarrow> 0 | SW_STRAINED \<Rightarrow> streak)"

definition new_streaks :: "swarm_status \<Rightarrow> member list \<Rightarrow> (string, int) dict" where
  "new_streaks status members =
     foldl (\<lambda>d (sid, _, streak). dset sid (new_streak status streak) d) [] members"

definition swarm_cast ::
  "engine \<Rightarrow> (real \<Rightarrow> real) \<Rightarrow> stamp \<Rightarrow> intent \<Rightarrow> member list \<Rightarrow> real
     \<Rightarrow> (cast_result \<times> svec \<times> swarm_status \<times> (string, int) dict) result" where
  "swarm_cast E mexp st i members consensus_threshold =
     (if members = [] then Inl (ValueError ''swarm requires at least one member'')
      else let agg = swarm_aggregate (eg_registry E) members in
      rbind (fluid_cast E mexp st agg i) (\<lambda>r.
      let status = swarm_verdict (cast_verdict r) (cast_adjusted r) consensus_threshold
      in Inr (r, agg, status, new_streaks status members)))"

section \<open>Channels\<close>

definition blend_constraint :: "registry \<Rightarrow> intent_vector \<Rightarrow> svec \<Rightarrow> intent_vector" where
  "blend_constraint R iv constraint =
     (let a = comps (iv_vector iv); b = comps constraint
      in iv\<lparr>iv_vector := normalize_unit R
             (map (\<lambda>j. fadd (fmul (lit 0.8) (comp_at a j)) (fmul (lit 0.2) (comp_at b j)))
                [0..<max (length a) (length b)])\<rparr>)"

definition channel_band :: "real \<Rightarrow> channel_status" where
  "channel_band mean =
     (if mean \<ge> lit 0.65 then CH_COHERENT else if mean \<ge> lit 0.40 then CH_STRAINED
      else CH_DECOHERENT)"

text \<open>
  The channel after a cast with the given verdict type and adjusted score; \<open>None\<close> starts a new
  channel under the fresh branch id.
\<close>

definition advance_channel ::
  "string \<Rightarrow> int \<Rightarrow> channel_state option \<Rightarrow> cast_result \<Rightarrow> svec \<Rightarrow> channel_state result" where
  "advance_channel new_branch now channel r constraint =
     (let (branch_id, cast_count, cumulative, streak) =
            (case channel of
               None \<Rightarrow> (new_branch, 0, 0, 0)
             | Some c \<Rightarrow> (cs_branch_id c, cs_cast_count c, cs_cumulative_resonance c,
                          cs_coherence_streak c));
          count = cast_count + 1;
          total = fadd cumulative (cast_adjusted r);
          mean = (if count \<noteq> 0 then fdiv total (fl (of_int count)) else 0)
      in mk_channel_state
           \<lparr>cs_branch_id = branch_id, cs_cast_count = count, cs_cumulative_resonance = total,
            cs_mean_resonance = mean,
            cs_coherence_streak = (if cast_verdict r = V_COHERENT then streak + 1 else 0),
            cs_last_verdict_type = cast_verdict r, cs_status = channel_band mean,
            cs_last_cast_id = cr_cast_id r, cs_constraint_vector = Some constraint,
            cs_updated_at = now\<rparr>)"

definition chained_cast ::
  "engine \<Rightarrow> stamp \<Rightarrow> string \<Rightarrow> aspect list \<Rightarrow> intent \<Rightarrow> channel_state option \<Rightarrow> bool
     \<Rightarrow> (cast_result \<times> channel_state) result" where
  "chained_cast E st new_branch aspects i channel force =
     (if (case channel of Some c \<Rightarrow> cs_status c = CH_DECOHERENT | None \<Rightarrow> False) \<and> \<not> force
      then Inl (ChannelDecoherentError (''channel '' @ cs_branch_id (the channel) @
                  '' is DECOHERENT; sync required''))
      else
      rbind (compose (eg_registry E) (eg_composition E) aspects) (\<lambda>sigil.
      rbind (build_intent_vector E i) (\<lambda>iv0.
      let iv = (case channel of
                  None \<Rightarrow> iv0
                | Some c \<Rightarrow> (case cs_constraint_vector c of
                               None \<Rightarrow> iv0
                             | Some constraint \<Rightarrow> blend_constraint (eg_registry E) iv0 constraint)) in
      rbind (evaluate_with_intent_vector E sigil i iv) (\<lambda>v.
      let r = mk_cast_result st i sigil v None None in
      rbind (advance_channel new_branch (snd st) channel r (sg_semantic_vector sigil)) (\<lambda>updated.
      Inr (r, updated))))))"

section \<open>Seeds\<close>

record glyph_seed =
  gs_seed_id :: string
  gs_aspect_pattern :: "aspect list"
  gs_observed_count :: int
  gs_mean_resonance :: real
  gs_coherence_rate :: real
  gs_candidate_effect_class :: "effect_class option"
  gs_crystallized :: bool
  gs_generation :: int
  gs_semantic_vector :: svec

definition mk_glyph_seed ::
  "registry \<Rightarrow> string \<Rightarrow> aspect list \<Rightarrow> int \<Rightarrow> real \<Rightarrow> real \<Rightarrow> effect_class option \<Rightarrow> bool \<Rightarrow> int
     \<Rightarrow> glyph_seed result" where
  "mk_glyph_seed R new_id pat cnt mean coh cand crystallized gen =
     (if 1 \<le> length pat \<and> length pat \<le> 3 \<and> 0 \<le> cnt \<and> 0 \<le> mean \<and> mean \<le> 1
         \<and> 0 \<le> coh \<and> coh \<le> 1 \<and> 1 \<le> gen
      then Inr \<lparr>gs_seed_id = new_id, gs_aspect_pattern = pat, gs_observed_count = cnt,
                gs_mean_resonance = mean, gs_coherence_rate = coh,
                gs_candidate_effect_class = cand, gs_crystallized = crystallized,
                gs_generation = gen, gs_semantic_vector = from_aspects R pat\<rparr>
      else Inl (ValueError ''GlyphSeed''))"

definition running_mean :: "real \<Rightarrow> int \<Rightarrow> real \<Rightarrow> real" where
  "running_mean mean cnt x =
     fdiv (fadd (fmul mean (of_int cnt)) x) (of_int (cnt + 1))"

definition same_aspects :: "aspect list \<Rightarrow> aspect list \<Rightarrow> bool" where
  "same_aspects A B \<longleftrightarrow> list_all (\<lambda>a. aspect_in a B) A \<and> list_all (\<lambda>b. aspect_in b A) B"

definition accumulate ::
  "registry \<Rightarrow> string \<Rightarrow> cast_result \<Rightarrow> glyph_seed list \<Rightarrow> glyph_seed option result" where
  "accumulate R new_id r seeds =
     (let aspects = sg_aspects (cr_sigil r);
          matching = first_where (\<lambda>s. same_aspects (gs_aspect_pattern s) aspects) seeds;
          vt = cast_verdict r; adj = cast_adjusted r;
          inc = (if vt = V_COHERENT then 1 else 0)
      in case matching of
           None \<Rightarrow>
             if vt = V_INCOHERENT then Inr None
             else rbind (mk_glyph_seed R new_id aspects 1 adj inc
                          (Some (sg_effect_class (cr_sigil r))) False 1) (\<lambda>s. Inr (Some s))
         | Some m \<Rightarrow>
             rbind (mk_glyph_seed R new_id (gs_aspect_pattern m) (gs_observed_count m + 1)
                      (running_mean (gs_mean_resonance m) (gs_observed_count m) adj)
                      (running_mean (gs_coherence_rate m) (gs_observed_count m) inc)
                      (case gs_candidate_effect_class m of
                         None \<Rightarrow> Some (sg_effect_class (cr_sigil r)) | Some c \<Rightarrow> Some c)
                      False (gs_generation m)) (\<lambda>s. Inr (Some s)))"

definition required_count :: "int \<Rightarrow> int" where
  "required_count gen = min 50 (10 + 5 * (gen - 1))"

definition required_mean :: "int \<Rightarrow> real" where
  "required_mean gen = min (lit 0.95) (fadd (lit 0.70) (fmul (lit 0.05) (of_int (gen - 1))))"

definition required_coherence :: "int \<Rightarrow> real" where
  "required_coherence gen = min (lit 0.90) (fadd (lit 0.65) (fmul (lit 0.05) (of_int (gen - 1))))"

definition crystallize :: "engine \<Rightarrow> glyph_seed \<Rightarrow> sigil option result" where
  "crystallize E seed =
     (let gen = (if gs_generation seed = 0 then 1 else gs_generation seed) in
      if gs_crystallized seed then Inr None
      else if gs_observed_count seed < required_count gen
              \<or> gs_mean_resonance seed < required_mean gen
              \<or> gs_coherence_rate seed < required_coherence gen
      then Inr None
      else (case gs_candidate_effect_class seed of
              None \<Rightarrow> Inr None
            | Some ec \<Rightarrow>
                rbind (compose (eg_registry E) (eg_composition E) (gs_aspect_pattern seed)) (\<lambda>base.
                rbind (mk_sigil (eg_registry E) (''Glyph:'' @ sg_name base) (gs_aspect_pattern seed)
                         ec (py_round (gs_mean_resonance seed) 2)
                         (sg_contradiction_severity base)) (\<lambda>s. Inr (Some s)))))"

section \<open>Synchronising a channel\<close>

definition sync_channel ::
  "engine \<Rightarrow> int \<Rightarrow> channel_state \<Rightarrow> glyph_seed list \<Rightarrow> channel_state result" where
  "sync_channel E now channel seeds =
     (let best = (case seeds of [] \<Rightarrow> None | s # ss \<Rightarrow> Some (max_by gs_mean_resonance s ss)) in
      rbind (case best of None \<Rightarrow> Inr None | Some s \<Rightarrow> crystallize E s) (\<lambda>sigil.
      let anchor = (case sigil of Some s \<Rightarrow> Some (sg_semantic_vector s)
                                | None \<Rightarrow> cs_constraint_vector channel)
      in mk_channel_state (channel\<lparr>cs_coherence_streak := 0, cs_status := CH_COHERENT,
                             cs_constraint_vector := anchor, cs_updated_at := now\<rparr>)))"

section \<open>Properties of auto-cast\<close>

text \<open>
  What the loop keeps of the chain built so far: each cast but the first is linked to the one
  before it, one level deeper, on the branch; no cast but the last may have met the target; one
  diagnostics step per cast.
\<close>

definition met :: "real \<Rightarrow> cast_result \<Rightarrow> bool" where
  "met target r \<longleftrightarrow> cast_verdict r = V_COHERENT \<and> target \<le> cast_adjusted r"

definition linked :: "string \<Rightarrow> cast_result list \<Rightarrow> bool" where
  "linked branch chain \<longleftrightarrow>
     (chain \<noteq> [] \<longrightarrow> cr_lineage (chain ! 0) = None) \<and>
     (\<forall>k. 0 < k \<and> k < length chain \<longrightarrow>
        (\<exists>l. cr_lineage (chain ! k) = Some l \<and> ln_parent_cast_id l = cr_cast_id (chain ! (k - 1))
             \<and> ln_depth l = int k \<and> ln_branch_id l = branch))"

lemma linked_append:
  assumes "linked branch chain" "link_cast branch chain base = Inr r" "cr_lineage base = None"
  shows "linked branch (chain @ [r])"
proof (cases "chain = []")
  case True
  with assms show ?thesis by (auto simp: linked_def link_cast_def)
next
  case False
  let ?n = "length chain"
  have depth: "next_depth (last chain) = int ?n"
  proof (cases "?n = 1")
    case True
    with assms(1) False show ?thesis by (simp add: linked_def next_depth_def last_conv_nth)
  next
    case F: False
    then obtain l where "cr_lineage (chain ! (?n - 1)) = Some l" "ln_depth l = int (?n - 1)"
      using assms(1) False unfolding linked_def
      by (metis One_nat_def diff_less length_greater_0_conv less_numeral_extra(1) nat_neq_iff neq0_conv zero_less_diff less_one linorder_neqE_nat)
    with False show ?thesis by (simp add: next_depth_def last_conv_nth of_nat_diff Suc_leI)
  qed
  from assms(2) False depth obtain l where r: "cr_lineage r = Some l"
    "ln_parent_cast_id l = cr_cast_id (last chain)" "ln_depth l = int ?n" "ln_branch_id l = branch"
    by (auto simp: link_cast_def Let_def rbind_Inr_iff mk_lineage_def split: if_splits)
  show ?thesis
    unfolding linked_def
  proof (intro conjI allI impI)
    show "cr_lineage ((chain @ [r]) ! 0) = None"
      using assms(1) False by (simp add: linked_def nth_append)
  next
    fix k assume k: "0 < k \<and> k < length (chain @ [r])"
    show "\<exists>l. cr_lineage ((chain @ [r]) ! k) = Some l
        \<and> ln_parent_cast_id l = cr_cast_id ((chain @ [r]) ! (k - 1)) \<and> ln_depth l = int k \<and> ln_branch_id l = branch"
    proof (cases "k < ?n")
      case True
      then show ?thesis using assms(1) k by (auto simp: linked_def nth_append)
    next
      case F: False
      with k have "k = ?n" by simp
      with r False show ?thesis by (simp add: nth_append last_conv_nth)
    qed
  qed
qed

lemma fluid_cast_Inr:
  "fluid_cast E mexp st v i = Inr r \<Longrightarrow>
   cr_lineage r = None \<and> cr_cast_id r = fst st \<and> cr_intent r = i \<and> cr_verdict r = evaluate E (cr_sigil r) i
   \<and> interpolate (eg_registry E) (eg_composition E) mexp v 3 = Inr (cr_sigil r)"
  by (auto simp: fluid_cast_def rbind_Inr_iff mk_cast_result_def)

lemma link_cast_Inr:
  "link_cast b chain base = Inr r \<Longrightarrow>
   cr_cast_id r = cr_cast_id base \<and> cr_verdict r = cr_verdict base \<and> cr_sigil r = cr_sigil base"
  by (auto simp: link_cast_def Let_def rbind_Inr_iff split: if_splits)

lemma auto_cast_loop_inv:
  assumes "auto_cast_loop E mexp i target alpha branch sts current chain steps = Inr (chain', steps', ok)"
    and "linked branch chain" "length steps = length chain" "\<forall>r \<in> set chain. \<not> met target r"
  shows "linked branch chain' \<and> length steps' = length chain' \<and> length chain' \<le> length chain + length sts
    \<and> (sts \<noteq> [] \<longrightarrow> length chain < length chain') \<and> (\<forall>r \<in> set (butlast chain'). \<not> met target r)
    \<and> (ok \<longleftrightarrow> chain' \<noteq> [] \<and> met target (last chain')) \<and> (\<not> ok \<longrightarrow> length chain' = length chain + length sts)
    \<and> (\<exists>n \<le> length sts. map cr_cast_id chain' = map cr_cast_id chain @ map fst (take n sts))"
  using assms
proof (induction sts arbitrary: current chain steps)
  case Nil
  then show ?case by (cases chain' rule: rev_cases) auto
next
  case (Cons st sts)
  from Cons.prems(1) obtain base r where
    b: "fluid_cast E mexp st current i = Inr base" and r: "link_cast branch chain base = Inr r"
    and rest: "(if met target r then Inr (chain @ [r], steps @ [step_of alpha r], True)
      else rbind (interpolate (eg_registry E) (eg_composition E) mexp current 3) (\<lambda>fluid.
          auto_cast_loop E mexp i target alpha branch sts
            (blend_toward (eg_registry E) current (sg_semantic_vector fluid) alpha) (chain @ [r])
            (steps @ [step_of alpha r]))) = Inr (chain', steps', ok)"
    by (auto simp: rbind_Inr_iff Let_def met_def)
  have lk: "linked branch (chain @ [r])"
    using linked_append [OF Cons.prems(2) r] fluid_cast_Inr [OF b] by simp
  have id: "cr_cast_id r = fst st" using link_cast_Inr [OF r] fluid_cast_Inr [OF b] by simp
  show ?case
  proof (cases "met target r")
    case True
    with rest have eq: "chain' = chain @ [r]" "steps' = steps @ [step_of alpha r]" "ok" by simp_all
    have "\<exists>n \<le> length (st # sts). map cr_cast_id chain' = map cr_cast_id chain @ map fst (take n (st # sts))"
      by (rule exI [of _ 1]) (simp add: eq id)
    with lk True Cons.prems(3,4) show ?thesis by (simp add: eq)
  next
    case False
    with rest obtain cur where
      "auto_cast_loop E mexp i target alpha branch sts cur (chain @ [r]) (steps @ [step_of alpha r]) = Inr (chain', steps', ok)"
      by (auto simp: rbind_Inr_iff)
    note loop = this
    have "length (steps @ [step_of alpha r]) = length (chain @ [r])" using Cons.prems(3) by simp
    moreover have "\<forall>x \<in> set (chain @ [r]). \<not> met target x" using Cons.prems(4) False by simp
    ultimately have I: "linked branch chain'" "length steps' = length chain'"
      "length chain' \<le> length (chain @ [r]) + length sts"
      "\<forall>r \<in> set (butlast chain'). \<not> met target r" "ok \<longleftrightarrow> chain' \<noteq> [] \<and> met target (last chain')"
      "\<not> ok \<longrightarrow> length chain' = length (chain @ [r]) + length sts"
      "\<exists>n \<le> length sts. map cr_cast_id chain' = map cr_cast_id (chain @ [r]) @ map fst (take n sts)"
      using Cons.IH [OF loop lk] by blast+
    from I(7) obtain n where
      n: "n \<le> length sts" "map cr_cast_id chain' = map cr_cast_id chain @ cr_cast_id r # map fst (take n sts)"
      by auto
    note IH = I(1-6)
    have ids: "map cr_cast_id chain' = map cr_cast_id chain @ map fst (take (Suc n) (st # sts))"
      using n(2) id by simp
    have lt: "length chain < length chain'"
      using arg_cong [OF n(2), of length] by simp
    have ex: "\<exists>n \<le> length (st # sts). map cr_cast_id chain' = map cr_cast_id chain @ map fst (take n (st # sts))"
      by (rule exI [of _ "Suc n"]) (use ids n(1) in \<open>simp only: list.size, simp\<close>)
    have "length chain' \<le> length chain + length (st # sts)"
      "\<not> ok \<longrightarrow> length chain' = length chain + length (st # sts)" using IH(3,6) by simp_all
    then show ?thesis using IH(1,2,4,5) ex lt by blast
  qed
qed

lemma auto_cast_props:
  assumes "auto_cast E mexp branch stamps v i target alpha = Inr (r, chain, d)"
  shows "1 \<le> length chain \<and> length chain \<le> length stamps \<and> r = last chain
    \<and> linked branch chain \<and> length (ad_steps d) = length chain
    \<and> (\<forall>x \<in> set (butlast chain). \<not> met target x)
    \<and> (ad_converged d \<longleftrightarrow> met target r) \<and> (\<not> ad_converged d \<longrightarrow> length chain = length stamps)
    \<and> ad_final_adjusted d = cast_adjusted r
    \<and> map cr_cast_id chain = map fst (take (length chain) stamps)"
proof -
  from assms obtain steps ok where
    l: "auto_cast_loop E mexp i target alpha branch stamps v [] [] = Inr (chain, steps, ok)"
    and ne: "chain \<noteq> []" and r: "r = last chain" "ad_steps d = steps" "ad_converged d = ok"
      "ad_final_adjusted d = cast_adjusted r"
    by (auto simp: auto_cast_def rbind_Inr_iff split: if_splits)
  have "linked branch []" by (simp add: linked_def)
  note inv = auto_cast_loop_inv [OF l this]
  from inv obtain n where "n \<le> length stamps" "map cr_cast_id chain = map fst (take n stamps)" by auto
  moreover from this have "length chain = n" by (metis length_map length_take min.absorb2)
  ultimately have "map cr_cast_id chain = map fst (take (length chain) stamps)" by simp
  with inv ne r show ?thesis by (auto simp: Suc_le_eq)
qed


text \<open>
  C8. Auto-cast terminates within its depth and returns a well-linked chain: it holds between one
  and \<open>max_depth\<close> casts with the identities in order, the result is its last cast, every later cast
  has the one before it as parent, one level deeper and on the same branch, no cast before the
  last met the target, and it is reported as converged exactly when the last one did; otherwise
  all rounds were used.
\<close>

theorem auto_cast_chain:
  assumes "auto_cast E mexp branch stamps v i target alpha = Inr (r, chain, d)"
  shows "1 \<le> length chain \<and> length chain \<le> length stamps \<and> r = last chain
    \<and> linked branch chain \<and> length (ad_steps d) = length chain
    \<and> (\<forall>x \<in> set (butlast chain). \<not> met target x)
    \<and> (ad_converged d \<longleftrightarrow> met target r) \<and> (\<not> ad_converged d \<longrightarrow> length chain = length stamps)
    \<and> ad_final_adjusted d = cast_adjusted r
    \<and> map cr_cast_id chain = map fst (take (length chain) stamps)"
  using assms by (rule auto_cast_props)

section \<open>Properties of channels\<close>

definition channel_inv :: "channel_state \<Rightarrow> bool" where
  "channel_inv c \<longleftrightarrow>
     0 \<le> cs_coherence_streak c \<and> cs_coherence_streak c \<le> cs_cast_count c
     \<and> 0 \<le> cs_cumulative_resonance c \<and> cs_cumulative_resonance c \<le> of_int (cs_cast_count c)
     \<and> 0 \<le> cs_mean_resonance c \<and> cs_mean_resonance c \<le> 1"

lemma advance_channel_ok:
  assumes "0 \<le> cast_adjusted r" "cast_adjusted r \<le> 1"
    and "case ch of None \<Rightarrow> True | Some c \<Rightarrow> channel_inv c \<and> cs_cast_count c < 2 ^ 53"
  shows "\<exists>c'. advance_channel nb now ch r v = Inr c' \<and> channel_inv c'
    \<and> cs_cast_count c' = (case ch of None \<Rightarrow> 1 | Some c \<Rightarrow> cs_cast_count c + 1)
    \<and> cs_branch_id c' = (case ch of None \<Rightarrow> nb | Some c \<Rightarrow> cs_branch_id c)
    \<and> cs_status c' = channel_band (cs_mean_resonance c')
    \<and> cs_last_cast_id c' = cr_cast_id r \<and> cs_constraint_vector c' = Some v"
proof -
  define n :: int where "n = (case ch of None \<Rightarrow> 0 | Some c \<Rightarrow> cs_cast_count c)"
  define cum where "cum = (case ch of None \<Rightarrow> 0 | Some c \<Rightarrow> cs_cumulative_resonance c)"
  have n: "0 \<le> n" "n < 2 ^ 53" and cum: "0 \<le> cum" "cum \<le> of_int n"
    using assms(3) by (auto simp: n_def cum_def channel_inv_def split: option.splits)
  have dbl: "is_double (of_int (n + 1))" using n by (intro is_double_int) simp
  have tot: "0 \<le> fadd cum (cast_adjusted r)" "fadd cum (cast_adjusted r) \<le> of_int (n + 1)"
    using cum assms(1,2) fl_nonneg fl_le [OF _ dbl] by (auto simp: fadd_def)
  have "0 \<le> fdiv (fadd cum (cast_adjusted r)) (fl (of_int (n + 1)))
      \<and> fdiv (fadd cum (cast_adjusted r)) (fl (of_int (n + 1))) \<le> 1"
    unfolding fdiv_def fl_double [OF dbl] using tot n by (intro fl_unit) auto
  then show ?thesis
    using n tot assms(3)
    by (cases ch) (auto simp: advance_channel_def Let_def mk_channel_state_def channel_ok_def
        channel_inv_def n_def cum_def)
qed

lemma evaluate_adjusted:
  "evaluate_with_intent_vector E s i iv = Inr v \<Longrightarrow>
   0 \<le> rsc_adjusted (vd_resonance v) \<and> rsc_adjusted (vd_resonance v) \<le> 1
   \<and> vd_verdict_type v = verdict_type_of (rsc_adjusted (vd_resonance v))"
proof -
  assume "evaluate_with_intent_vector E s i iv = Inr v"
  then obtain score c where sc: "compute_resonance s iv = Inr (score, c)"
    and v: "mk_verdict (verdict_type_of (rsc_adjusted score)) score
       (effect_description s (verdict_type_of (rsc_adjusted score)))
       (incoherence_reason E s (verdict_type_of (rsc_adjusted score)) c)
       (casting_note_text (verdict_type_of (rsc_adjusted score)) (sg_effect_class s)) iv = Inr v"
    by (auto simp: evaluate_with_intent_vector_def rbind_Inr_iff Let_def)
  have "0 \<le> rsc_adjusted score \<and> rsc_adjusted score \<le> 1"
    using compute_resonance_Inr [OF sc] penalized_range [of s iv "sg_contradiction_severity s"] raw_range [of s iv]
    by (auto simp: adjusted_of_def)
  with mk_verdict_Inr [OF v] show ?thesis by simp
qed

definition decoherent :: "channel_state option \<Rightarrow> bool" where
  "decoherent ch = (case ch of Some c \<Rightarrow> cs_status c = CH_DECOHERENT | None \<Rightarrow> False)"

lemma chained_cast_Inr:
  assumes "chained_cast E st nb A i ch force = Inr (r, c')"
  shows "\<not> (decoherent ch \<and> \<not> force)
    \<and> (\<exists>s iv v. compose (eg_registry E) (eg_composition E) A = Inr s
       \<and> evaluate_with_intent_vector E s i iv = Inr v \<and> r = mk_cast_result st i s v None None
       \<and> advance_channel nb (snd st) ch r (sg_semantic_vector s) = Inr c')"
  using assms unfolding chained_cast_def decoherent_def
  by (cases ch) (auto simp: rbind_Inr_iff Let_def split: if_splits)

text \<open>Operations that never raise a \<open>ChannelDecoherentError\<close>.\<close>

definition no_decoherent :: "'a result \<Rightarrow> bool" where
  "no_decoherent m \<longleftrightarrow> (\<forall>t. m \<noteq> Inl (ChannelDecoherentError t))"

lemma no_decoherent_simps [simp]:
  "no_decoherent (Inr x)" "no_decoherent (Inl e) \<longleftrightarrow> (\<forall>t. e \<noteq> ChannelDecoherentError t)"
  by (simp_all add: no_decoherent_def)

lemma no_decoherent_rbind [intro!]:
  "no_decoherent m \<Longrightarrow> (\<And>x. no_decoherent (f x)) \<Longrightarrow> no_decoherent (rbind m f)"
  by (cases m) (auto simp: no_decoherent_def)

lemma no_decoherent_parts [simp]:
  "no_decoherent (item raw k)" "no_decoherent (enum_lookup ms n)" "no_decoherent (enum_json_lookup ms j)"
  "no_decoherent (py_float j)" "no_decoherent (as_str j)" "no_decoherent (mk_sigil R n A ec rc sv)"
  "no_decoherent (cosine_similarity v w)" "no_decoherent (mk_resonance_score a1 a2 a3 a4)"
  "no_decoherent (mk_verdict b1 b2 b3 b4 b5 b6)" "no_decoherent (mk_intent_vector c1 c2 c3 c4 c5)"
  "no_decoherent (mk_channel_state ch)"
proof -
  show look: "no_decoherent (enum_lookup ms n)" for n
    by (simp add: no_decoherent_def enum_lookup_def)
  show "no_decoherent (enum_json_lookup ms j)" using look by (cases j) auto
qed (auto simp: no_decoherent_def item_def cosine_similarity_def mk_sigil_def mk_resonance_score_def
    mk_verdict_def mk_intent_vector_def mk_channel_state_def split: option.splits
    elim!: py_float.elims as_str.elims)

lemma no_decoherent_compose [simp]: "no_decoherent (compose R C A)"
proof -
  have "no_decoherent (contradiction_severity_for_key C k raw)" for k raw
    by (auto simp: contradiction_severity_for_key_def split: option.splits json.splits)
  then show ?thesis
    by (auto simp: compose_def Let_def split: option.splits)
qed

lemma no_decoherent_evaluate [simp]: "no_decoherent (evaluate_with_intent_vector E s i iv)"
  by (auto simp: evaluate_with_intent_vector_def compute_resonance_def Let_def split: prod.splits)

lemma no_decoherent_build [simp]: "no_decoherent (build_intent_vector E i)"
  by (auto simp: build_intent_vector_def Let_def split: prod.splits)

lemma no_decoherent_advance [simp]: "no_decoherent (advance_channel nb now ch r v)"
  by (auto simp: advance_channel_def Let_def split: prod.splits)

lemma chained_cast_refused:
  "(\<exists>m. chained_cast E st nb A i ch force = Inl (ChannelDecoherentError m)) \<longleftrightarrow> decoherent ch \<and> \<not> force"
proof (cases "decoherent ch \<and> \<not> force")
  case True
  then show ?thesis by (auto simp: chained_cast_def decoherent_def)
next
  case False
  then have "no_decoherent (chained_cast E st nb A i ch force)"
    unfolding chained_cast_def decoherent_def [symmetric] Let_def
    by (auto split: option.splits)
  with False show ?thesis by (auto simp: no_decoherent_def)
qed

text \<open>
  C9. A chained cast keeps its channel well-formed. It is refused, with a
  \<open>ChannelDecoherentError\<close> and nothing else, exactly on a decoherent channel without force; when it
  succeeds, the channel counts one more cast, its cumulative resonance stays within the count, its
  mean in [0, 1] and its streak within the count, its status is the band of the mean, and its
  constraint is the vector of the sigil just cast.
\<close>

theorem chained_cast_channel:
  assumes "channel_inv c" "cs_cast_count c < 2 ^ 53"
  shows "(cs_status c = CH_DECOHERENT \<and> \<not> force \<longleftrightarrow>
       (\<exists>m. chained_cast E st nb A i (Some c) force = Inl (ChannelDecoherentError m)))
    \<and> (\<forall>r c'. chained_cast E st nb A i (Some c) force = Inr (r, c') \<longrightarrow>
         channel_inv c' \<and> cs_cast_count c' = cs_cast_count c + 1 \<and> cs_branch_id c' = cs_branch_id c
         \<and> cs_status c' = channel_band (cs_mean_resonance c') \<and> cs_last_cast_id c' = cr_cast_id r
         \<and> cs_constraint_vector c' = Some (sg_semantic_vector (cr_sigil r)))"
proof (intro conjI allI impI)
  show "cs_status c = CH_DECOHERENT \<and> \<not> force \<longleftrightarrow>
      (\<exists>m. chained_cast E st nb A i (Some c) force = Inl (ChannelDecoherentError m))"
    by (simp add: chained_cast_refused decoherent_def)
next
  fix r c' assume "chained_cast E st nb A i (Some c) force = Inr (r, c')"
  from chained_cast_Inr [OF this] obtain s iv v where
    ev: "evaluate_with_intent_vector E s i iv = Inr v" and r: "r = mk_cast_result st i s v None None"
    and adv: "advance_channel nb (snd st) (Some c) r (sg_semantic_vector s) = Inr c'" by blast
  have "0 \<le> cast_adjusted r" "cast_adjusted r \<le> 1"
    using evaluate_adjusted [OF ev] by (simp_all add: r mk_cast_result_def)
  from advance_channel_ok [OF this, of "Some c" nb "snd st" "sg_semantic_vector s"] assms adv
  show "channel_inv c'" "cs_cast_count c' = cs_cast_count c + 1" "cs_branch_id c' = cs_branch_id c"
    "cs_status c' = channel_band (cs_mean_resonance c')" "cs_last_cast_id c' = cr_cast_id r"
    "cs_constraint_vector c' = Some (sg_semantic_vector (cr_sigil r))"
    by (auto simp: r mk_cast_result_def)
qed

text \<open>
  Synchronising re-opens a channel: whatever the seeds, when it succeeds the status is COHERENT
  and the streak zero, counts and resonance are kept, the channel stays well-formed, and a chained
  cast on it is not refused as decoherent.
\<close>

theorem sync_reopens:
  assumes "channel_inv c" "sync_channel E now c seeds = Inr c'"
  shows "channel_inv c' \<and> cs_status c' = CH_COHERENT \<and> cs_coherence_streak c' = 0
    \<and> cs_cast_count c' = cs_cast_count c \<and> cs_mean_resonance c' = cs_mean_resonance c
    \<and> cs_branch_id c' = cs_branch_id c
    \<and> chained_cast E st nb A i (Some c') False = chained_cast E st nb A i (Some c') True"
  using assms
  by (auto simp: sync_channel_def rbind_Inr_iff Let_def mk_channel_state_def channel_inv_def
      chained_cast_def split: if_splits)

section \<open>Properties of seeds\<close>

definition seed_ok :: "glyph_seed \<Rightarrow> bool" where
  "seed_ok s \<longleftrightarrow> 1 \<le> length (gs_aspect_pattern s) \<and> length (gs_aspect_pattern s) \<le> 3
     \<and> 0 \<le> gs_observed_count s \<and> 0 \<le> gs_mean_resonance s \<and> gs_mean_resonance s \<le> 1
     \<and> 0 \<le> gs_coherence_rate s \<and> gs_coherence_rate s \<le> 1 \<and> 1 \<le> gs_generation s"

lemma running_mean_unit:
  assumes "0 \<le> m" "m \<le> 1" "0 \<le> x" "x \<le> 1" "0 \<le> n" "n < 2 ^ 53"
  shows "0 \<le> running_mean m n x \<and> running_mean m n x \<le> 1"
proof -
  have d: "is_double (of_int n)" "is_double (of_int (n + 1))"
    using assms(5,6) by (auto intro!: is_double_int simp del: of_int_add)
  have "0 \<le> fmul m (of_int n)" "fmul m (of_int n) \<le> of_int n"
    unfolding fmul_def using assms by (auto intro!: fl_nonneg fl_le [OF _ d(1)] simp: mult_left_le_one_le)
  then have "0 \<le> fadd (fmul m (of_int n)) x" "fadd (fmul m (of_int n)) x \<le> of_int (n + 1)"
    unfolding fadd_def using assms fl_le [OF _ d(2), of "fmul m (of_int n) + x"] by (auto intro!: fl_nonneg)
  then show ?thesis unfolding running_mean_def fdiv_def using assms(5) by (intro fl_unit) auto
qed

text \<open>
  Accumulation never fails on valid seeds, and the seed it returns is valid: it yields nothing
  exactly for an incoherent cast without a matching seed; otherwise the matching seed's count goes
  up by one with both rates staying in [0, 1] and its pattern and generation kept, or a first seed
  with count one is made from the cast.
\<close>

theorem accumulate_total:
  assumes "\<forall>s \<in> set seeds. seed_ok s \<and> gs_observed_count s < 2 ^ 53"
    and "0 \<le> cast_adjusted r" "cast_adjusted r \<le> 1"
    and "1 \<le> length (sg_aspects (cr_sigil r))" "length (sg_aspects (cr_sigil r)) \<le> 3"
  shows "\<exists>res. accumulate R new_id r seeds = Inr res \<and>
    (case first_where (\<lambda>s. same_aspects (gs_aspect_pattern s) (sg_aspects (cr_sigil r))) seeds of
       Some m \<Rightarrow> \<exists>s. res = Some s \<and> seed_ok s \<and> gs_observed_count s = gs_observed_count m + 1
           \<and> gs_aspect_pattern s = gs_aspect_pattern m \<and> gs_generation s = gs_generation m
     | None \<Rightarrow> if cast_verdict r = V_INCOHERENT then res = None
         else \<exists>s. res = Some s \<and> seed_ok s \<and> gs_observed_count s = 1
           \<and> gs_aspect_pattern s = sg_aspects (cr_sigil r) \<and> gs_mean_resonance s = cast_adjusted r)"
proof (cases "first_where (\<lambda>s. same_aspects (gs_aspect_pattern s) (sg_aspects (cr_sigil r))) seeds")
  case None
  then show ?thesis using assms(2-5)
    by (auto simp: accumulate_def Let_def mk_glyph_seed_def seed_ok_def simp del: first_where_None)
next
  case (Some m)
  then have "m \<in> set seeds" by (auto dest: first_where_Some)
  with assms(1) have m: "seed_ok m" "gs_observed_count m < 2 ^ 53" by auto
  have "0 \<le> running_mean (gs_mean_resonance m) (gs_observed_count m) (cast_adjusted r)
      \<and> running_mean (gs_mean_resonance m) (gs_observed_count m) (cast_adjusted r) \<le> 1"
    "0 \<le> running_mean (gs_coherence_rate m) (gs_observed_count m) (if cast_verdict r = V_COHERENT then 1 else 0)
      \<and> running_mean (gs_coherence_rate m) (gs_observed_count m) (if cast_verdict r = V_COHERENT then 1 else 0) \<le> 1"
    using m assms(2,3) by (intro running_mean_unit; simp add: seed_ok_def)+
  then show ?thesis using Some m
    by (auto simp: accumulate_def Let_def mk_glyph_seed_def seed_ok_def)
qed

text \<open>
  A seed crystallises only above the thresholds of its generation, which rise with the
  generation, and never twice: the sigil it gives keeps the seed's aspects and candidate effect
  class, is named after the composed sigil, and its ceiling is the rounded mean, in [0, 1].
\<close>

theorem crystallize_gated:
  assumes "seed_ok seed" "crystallize E seed = Inr (Some s)"
  shows "\<not> gs_crystallized seed \<and> required_count (gs_generation seed) \<le> gs_observed_count seed
    \<and> required_mean (gs_generation seed) \<le> gs_mean_resonance seed
    \<and> required_coherence (gs_generation seed) \<le> gs_coherence_rate seed
    \<and> (\<forall>g. 1 \<le> g \<and> g \<le> gs_generation seed \<longrightarrow> required_count g \<le> gs_observed_count seed
        \<and> required_mean g \<le> gs_mean_resonance seed \<and> required_coherence g \<le> gs_coherence_rate seed)
    \<and> sg_aspects s = gs_aspect_pattern seed \<and> gs_candidate_effect_class seed = Some (sg_effect_class s)
    \<and> sg_resonance_ceiling s = py_round (gs_mean_resonance seed) 2
    \<and> (\<exists>base. compose (eg_registry E) (eg_composition E) (gs_aspect_pattern seed) = Inr base
         \<and> sg_name s = ''Glyph:'' @ sg_name base)"
proof -
  have "required_count g \<le> required_count h" if "g \<le> h" for g h
    using that by (simp add: required_count_def min.coboundedI2)
  moreover have "fadd (lit b) (fmul (lit 0.05) (of_int (g - 1))) \<le> fadd (lit b) (fmul (lit 0.05) (of_int (h - 1)))"
    if "g \<le> h" for g h b
    using that lit_unit [of "0.05"] unfolding fmul_def fadd_def
    by (intro fl_mono add_left_mono mult_left_mono) auto
  then have "required_mean g \<le> required_mean h" "required_coherence g \<le> required_coherence h" if "g \<le> h" for g h
    using that unfolding required_mean_def required_coherence_def by (intro min.mono; blast)+
  moreover have "\<not> gs_crystallized seed \<and> required_count (gs_generation seed) \<le> gs_observed_count seed
    \<and> required_mean (gs_generation seed) \<le> gs_mean_resonance seed
    \<and> required_coherence (gs_generation seed) \<le> gs_coherence_rate seed
    \<and> sg_aspects s = gs_aspect_pattern seed \<and> gs_candidate_effect_class seed = Some (sg_effect_class s)
    \<and> sg_resonance_ceiling s = py_round (gs_mean_resonance seed) 2
    \<and> (\<exists>base. compose (eg_registry E) (eg_composition E) (gs_aspect_pattern seed) = Inr base
         \<and> sg_name s = ''Glyph:'' @ sg_name base)"
    using assms by (auto simp: crystallize_def Let_def seed_ok_def rbind_Inr_iff mk_sigil_def
        split: if_splits option.splits)
  ultimately show ?thesis by (meson order_trans)
qed


section \<open>Sample runs\<close>

lemma sample_fluid_cast:
  "\<exists>r. fluid_cast sample_engine (\<lambda>x. fl (exp x)) st zero_vec i = Inr r"
  using sample_interpolate by (auto simp: fluid_cast_def sample_engine_def zero_vec_def)

lemma sample_auto_cast:
  "\<exists>r chain d. auto_cast sample_engine (\<lambda>x. fl (exp x)) ''b'' [(''c1'', 0)] zero_vec sample_intent 1 0
     = Inr (r, chain, d)"
proof -
  obtain b where "fluid_cast sample_engine (\<lambda>x. fl (exp x)) (''c1'', 0) zero_vec sample_intent = Inr b"
    using sample_fluid_cast by blast
  moreover obtain f where "interpolate (eg_registry sample_engine) (eg_composition sample_engine)
      (\<lambda>x. fl (exp x)) zero_vec 3 = Inr f"
    using sample_interpolate by (auto simp: sample_engine_def zero_vec_def)
  ultimately show ?thesis
    by (simp add: auto_cast_def link_cast_def Let_def)
qed

lemma auto_cast_chain_witness:
  "\<exists>r d. auto_cast sample_engine (\<lambda>x. fl (exp x)) ''b'' [(''c1'', 0)] zero_vec sample_intent 1 0
     = Inr (r, [r], d) \<and> cr_cast_id r = ''c1''"
proof -
  obtain r chain d where a: "auto_cast sample_engine (\<lambda>x. fl (exp x)) ''b'' [(''c1'', 0)] zero_vec sample_intent 1 0
     = Inr (r, chain, d)" using sample_auto_cast by blast
  from auto_cast_chain [OF a] have "length chain = 1" "r = last chain"
    "map cr_cast_id chain = map fst (take (length chain) [(''c1'', 0::int)])" by auto
  then have "chain = [r]" "cr_cast_id r = ''c1''" by (cases chain; simp)+
  with a show ?thesis by blast
qed

definition sample_channel :: "channel_status \<Rightarrow> channel_state" where
  "sample_channel status =
     \<lparr>cs_branch_id = ''b'', cs_cast_count = 1, cs_cumulative_resonance = 0, cs_mean_resonance = 0,
      cs_coherence_streak = 0, cs_last_verdict_type = V_INCOHERENT, cs_status = status,
      cs_last_cast_id = ''c0'', cs_constraint_vector = None, cs_updated_at = 0\<rparr>"

lemma chained_cast_channel_witness:
  "\<exists>m. chained_cast sample_engine (''c1'', 0) ''n'' [Canonical VOID] sample_intent
     (Some (sample_channel CH_DECOHERENT)) False = Inl (ChannelDecoherentError m)"
  using chained_cast_channel [of "sample_channel CH_DECOHERENT" False]
  by (simp add: sample_channel_def channel_inv_def)

lemma sync_reopens_witness:
  "\<exists>c'. sync_channel sample_engine 7 (sample_channel CH_DECOHERENT) [] = Inr c'
     \<and> cs_status c' = CH_COHERENT"
proof -
  obtain c' where c': "sync_channel sample_engine 7 (sample_channel CH_DECOHERENT) [] = Inr c'"
    by (simp add: sync_channel_def mk_channel_state_def channel_ok_def sample_channel_def)
  have "channel_inv (sample_channel CH_DECOHERENT)" by (simp add: sample_channel_def channel_inv_def)
  from sync_reopens [OF this c'] c' show ?thesis by blast
qed

definition sample_cast :: cast_result where
  "sample_cast = mk_cast_result (''c1'', 0) sample_intent (sample_sigil SEV_NONE)
     (fallback_verdict empty_registry) None None"

definition sample_seed :: "int \<Rightarrow> glyph_seed" where
  "sample_seed n =
     \<lparr>gs_seed_id = ''s'', gs_aspect_pattern = [Canonical VOID, Canonical MIND],
      gs_observed_count = n, gs_mean_resonance = 1, gs_coherence_rate = 1,
      gs_candidate_effect_class = Some NEGATION, gs_crystallized = False, gs_generation = 1,
      gs_semantic_vector = zero_vec\<rparr>"

lemma accumulate_total_witness:
  "\<exists>s. accumulate empty_registry ''n'' sample_cast [sample_seed 10] = Inr (Some s)
     \<and> gs_observed_count s = 11"
proof -
  have "first_where (\<lambda>s. same_aspects (gs_aspect_pattern s) (sg_aspects (cr_sigil sample_cast))) [sample_seed 10]
      = Some (sample_seed 10)"
    by (simp add: sample_seed_def sample_cast_def mk_cast_result_def sample_sigil_def same_aspects_def
        aspect_in_def)
  moreover have "cast_adjusted sample_cast = 0"
    by (simp add: sample_cast_def mk_cast_result_def fallback_verdict_def Let_def)
  moreover have "length (sg_aspects (cr_sigil sample_cast)) = 2"
    by (simp add: sample_cast_def mk_cast_result_def sample_sigil_def)
  moreover have "seed_ok (sample_seed 10)" "gs_observed_count (sample_seed 10) = 10"
    by (simp_all add: seed_ok_def sample_seed_def)
  ultimately show ?thesis
    using accumulate_total [of "[sample_seed 10]" sample_cast empty_registry "''n''"] by auto
qed

lemma sample_crystallize:
  "\<exists>s. crystallize sample_engine (sample_seed 10) = Inr (Some s)"
proof -
  obtain b where b: "compose empty_registry sample_composition [Canonical VOID, Canonical MIND] = Inr b"
    using compose_sample [of sample_composition empty_registry "[Canonical VOID, Canonical MIND]"]
    by (auto simp: sample_key sample_composition_def)
  have "required_mean 1 \<le> 1" "required_coherence 1 \<le> 1"
    using lit_unit [of "0.95"] lit_unit [of "0.90"]
    by (simp_all add: required_mean_def required_coherence_def min.coboundedI1)
  with b show ?thesis
    using py_round_unit [of 1 2]
    by (simp add: crystallize_def sample_seed_def required_count_def sample_engine_def mk_sigil_def)
qed

lemma crystallize_gated_witness:
  "\<exists>s. crystallize sample_engine (sample_seed 10) = Inr (Some s)
     \<and> sg_aspects s = [Canonical VOID, Canonical MIND]"
proof -
  obtain s where s: "crystallize sample_engine (sample_seed 10) = Inr (Some s)"
    using sample_crystallize by blast
  have "seed_ok (sample_seed 10)" by (simp add: seed_ok_def sample_seed_def)
  from crystallize_gated [OF this s] s show ?thesis by (auto simp: sample_seed_def)
qed

end
