(* ===== verification/HeapQ.thy ===== *)
theory HeapQ
  imports Prelude "HOL-Library.Product_Lexorder" "HOL-Library.Multiset"
begin

text \<open>
  Python's \<open>heapq\<close> on lists, as \<open>semantic_search\<close> of
  \<open>src/vermyth/grimoire/repositories/casts.py\<close> uses it: \<open>heappush\<close> and \<open>heapreplace\<close> with the
  two sift loops of the library, the heap property, and the facts the search relies on: the root
  is least, and an operation changes the contents only by the items it is given.
\<close>

section \<open>The sift operations\<close>

text \<open>\<open>_siftdown(heap, 0, pos)\<close> with the new item \<open>x\<close>: parents larger than \<open>x\<close> move down.\<close>

fun siftdown :: "'a::linorder list \<Rightarrow> 'a \<Rightarrow> nat \<Rightarrow> 'a list" where
  "siftdown h x pos =
     (if pos = 0 then h[pos := x]
      else let parentpos = (pos - 1) div 2 in
        if x < h ! parentpos then siftdown (h[pos := h ! parentpos]) x parentpos
        else h[pos := x])"

text \<open>The loop of \<open>_siftup\<close>: smaller children move up until the hole is a leaf.\<close>

function siftup_hole :: "'a::linorder list \<Rightarrow> nat \<Rightarrow> 'a list \<times> nat" where
  "siftup_hole h pos =
     (let childpos = 2 * pos + 1 in
      if childpos < length h
      then let c = (if childpos + 1 < length h \<and> \<not> h ! childpos < h ! (childpos + 1)
                    then childpos + 1 else childpos)
           in siftup_hole (h[pos := h ! c]) c
      else (h, pos))"
  by pat_completeness auto
termination by (relation "measure (\<lambda>(h, pos). length h - pos)") (auto simp: Let_def split: if_splits)

declare siftdown.simps [simp del] siftup_hole.simps [simp del]

definition heappush :: "'a::linorder list \<Rightarrow> 'a \<Rightarrow> 'a list" where
  "heappush h x = siftdown (h @ [x]) x (length h)"

definition heapreplace :: "'a::linorder list \<Rightarrow> 'a \<Rightarrow> 'a list" where
  "heapreplace h x = (case siftup_hole (h[0 := x]) 0 of (h', pos) \<Rightarrow> siftdown h' x pos)"

section \<open>The heap property\<close>

definition parent :: "nat \<Rightarrow> nat" where
  "parent i = (i - 1) div 2"

definition heap :: "'a::linorder list \<Rightarrow> bool" where
  "heap h \<longleftrightarrow> (\<forall>i. 0 < i \<longrightarrow> i < length h \<longrightarrow> h ! parent i \<le> h ! i)"

text \<open>A heap but for the entry at \<open>pos\<close>, whose children are not below its parent.\<close>

definition heap_but :: "'a::linorder list \<Rightarrow> nat \<Rightarrow> bool" where
  "heap_but h pos \<longleftrightarrow>
     (\<forall>i. 0 < i \<longrightarrow> i < length h \<longrightarrow> i \<noteq> pos \<longrightarrow> parent i \<noteq> pos \<longrightarrow> h ! parent i \<le> h ! i)
     \<and> (\<forall>i. 0 < i \<longrightarrow> i < length h \<longrightarrow> parent i = pos \<longrightarrow> 0 < pos \<longrightarrow> h ! parent pos \<le> h ! i)"

lemma parent_less: "0 < i \<Longrightarrow> parent i < i"
  by (simp add: parent_def)

lemma parent_eq: "0 < i \<Longrightarrow> parent i = p \<longleftrightarrow> i = 2 * p + 1 \<or> i = 2 * p + 2"
  by (auto simp: parent_def)

lemma heap_root_le: "heap h \<Longrightarrow> i < length h \<Longrightarrow> h ! 0 \<le> h ! i"
proof (induction i rule: less_induct)
  case (less i)
  show ?case
  proof (cases "i = 0")
    case False
    with less parent_less [of i] have "h ! 0 \<le> h ! parent i" by auto
    also have "\<dots> \<le> h ! i" using less.prems False by (auto simp: heap_def)
    finally show ?thesis .
  qed simp
qed

lemma mset_swap_up:
  assumes "i < length h" "j < length h"
  shows "mset (h[i := h ! j, j := x]) = mset (h[i := x])"
proof (cases "i = j")
  case False
  let ?g = "h[i := x]"
  have "mset (?g[i := ?g ! j, j := ?g ! i]) = mset ?g"
    using assms by (intro mset_swap) simp_all
  with False assms show ?thesis by simp
qed simp

lemma heap_butD:
  "heap_but h pos \<Longrightarrow> 0 < i \<Longrightarrow> i < length h \<Longrightarrow> i \<noteq> pos \<Longrightarrow> parent i \<noteq> pos \<Longrightarrow> h ! parent i \<le> h ! i"
  by (simp add: heap_but_def)

lemma heap_but_fill:
  assumes "heap_but h pos" "pos < length h"
    and "\<And>i. 0 < i \<Longrightarrow> i < length h \<Longrightarrow> parent i = pos \<Longrightarrow> x \<le> h ! i"
    and "0 < pos \<Longrightarrow> h ! parent pos \<le> x"
  shows "heap (h[pos := x])"
  unfolding heap_def
proof (intro allI impI)
  fix i assume i: "0 < i" "i < length (h[pos := x])"
  then show "h[pos := x] ! parent i \<le> h[pos := x] ! i"
    using assms parent_less [of i] by (auto simp: heap_but_def nth_list_update)
qed

lemma heap_but_up:
  assumes "heap_but h pos" "pos < length h" "0 < pos"
  shows "heap_but (h[pos := h ! parent pos]) (parent pos)"
    and "\<And>i. 0 < i \<Longrightarrow> i < length h \<Longrightarrow> parent i = parent pos \<Longrightarrow>
           h ! parent pos \<le> h[pos := h ! parent pos] ! i"
proof -
  have pp: "parent pos < pos" using assms(3) by (rule parent_less)
  show sib: "h ! parent pos \<le> h[pos := h ! parent pos] ! i"
    if "0 < i" "i < length h" "parent i = parent pos" for i
  proof (cases "i = pos")
    case False
    with heap_butD [OF assms(1) that(1,2)] that(3) pp show ?thesis by simp
  qed (use assms in simp)
  show "heap_but (h[pos := h ! parent pos]) (parent pos)"
    unfolding heap_but_def
  proof (intro conjI allI impI)
    fix i assume i: "0 < i" "i < length (h[pos := h ! parent pos])" "i \<noteq> parent pos" "parent i \<noteq> parent pos"
    then show "h[pos := h ! parent pos] ! parent i \<le> h[pos := h ! parent pos] ! i"
      using assms by (cases "parent i = pos") (auto simp: heap_but_def nth_list_update)
  next
    fix i assume i: "0 < i" "i < length (h[pos := h ! parent pos])" "parent i = parent pos" "0 < parent pos"
    have "parent (parent pos) < parent pos" using i(4) by (rule parent_less)
    then have "h ! parent (parent pos) \<le> h ! parent pos"
      using assms pp i(4) by (auto simp: heap_but_def)
    also have "\<dots> \<le> h[pos := h ! parent pos] ! i" using sib i by simp
    finally show "h[pos := h ! parent pos] ! parent (parent pos) \<le> h[pos := h ! parent pos] ! i"
      using pp \<open>parent (parent pos) < parent pos\<close> by simp
  qed
qed

lemma siftdown_heap:
  assumes "heap_but h pos" "pos < length h"
    and "\<And>i. 0 < i \<Longrightarrow> i < length h \<Longrightarrow> parent i = pos \<Longrightarrow> x \<le> h ! i"
  shows "heap (siftdown h x pos) \<and> mset (siftdown h x pos) = mset (h[pos := x])"
  using assms
proof (induction h x pos rule: siftdown.induct)
  case (1 h x pos)
  show ?case
  proof (cases "pos \<noteq> 0 \<and> x < h ! parent pos")
    case True
    let ?h = "h[pos := h ! parent pos]"
    have p: "parent pos < length h" using True parent_less [of pos] 1(3) by auto
    have eq: "siftdown h x pos = siftdown ?h x (parent pos)"
      using True by (simp add: siftdown.simps [of h x pos] parent_def Let_def)
    note up = heap_but_up [OF 1(2,3)]
    have "x \<le> ?h ! i" if "0 < i" "i < length ?h" "parent i = parent pos" for i
      using up(2) [of i] that True by auto
    then have "heap (siftdown ?h x (parent pos))"
      "mset (siftdown ?h x (parent pos)) = mset (?h[parent pos := x])"
      using 1(1) [of "(pos - 1) div 2"] True p up(1) by (auto simp: parent_def)
    then show ?thesis using eq mset_swap_up [OF 1(3) p, of x] by simp
  next
    case False
    then have "siftdown h x pos = h[pos := x]"
      by (auto simp: siftdown.simps [of h x pos] parent_def Let_def)
    with False heap_but_fill [OF 1(2,3)] 1(4) show ?thesis by auto
  qed
qed

lemma siftup_hole_leaf:
  assumes "heap_but h pos" "pos < length h" "siftup_hole h pos = (h', pos')"
  shows "heap_but h' pos' \<and> pos' < length h' \<and> length h \<le> 2 * pos' + 1 \<and> length h' = length h
         \<and> mset (h'[pos' := x]) = mset (h[pos := x])"
  using assms
proof (induction h pos rule: siftup_hole.induct)
  case (1 h pos)
  define c where "c = (if 2 * pos + 2 < length h \<and> \<not> h ! (2 * pos + 1) < h ! (2 * pos + 2)
                    then 2 * pos + 2 else 2 * pos + 1)"
  show ?case
  proof (cases "2 * pos + 1 < length h")
    case True
    have c: "c < length h" "0 < c" "parent c = pos" "pos < c"
      using True by (auto simp: c_def parent_def)
    have least: "h ! c \<le> h ! i" if "0 < i" "i < length h" "parent i = pos" for i
      using that by (auto simp: c_def parent_eq)
    have eq: "siftup_hole h pos = siftup_hole (h[pos := h ! c]) c"
      using True by (simp add: siftup_hole.simps [of h pos] c_def Let_def)
    have cdef: "c = (if 2 * pos + 1 + 1 < length h \<and> \<not> h ! (2 * pos + 1) < h ! (2 * pos + 1 + 1)
                    then 2 * pos + 1 + 1 else 2 * pos + 1)"
      by (simp add: c_def)
    have hb: "heap_but (h[pos := h ! c]) c"
      unfolding heap_but_def
    proof (intro conjI allI impI)
      fix i assume i: "0 < i" "i < length (h[pos := h ! c])" "i \<noteq> c" "parent i \<noteq> c"
      show "h[pos := h ! c] ! parent i \<le> h[pos := h ! c] ! i"
      proof (cases "i = pos \<or> parent i = pos")
        case True
        then show ?thesis
        proof
          assume "i = pos"
          then have "h ! parent pos \<le> h ! c" using 1(2) c i by (auto simp: heap_but_def)
          then show ?thesis using \<open>i = pos\<close> i parent_less [of i] by simp
        next
          assume "parent i = pos"
          then show ?thesis using least i parent_less [of i] 1(3) by simp
        qed
      next
        case False
        then show ?thesis using 1(2) i by (auto simp: heap_but_def)
      qed
    next
      fix i assume i: "0 < i" "i < length (h[pos := h ! c])" "parent i = c" "0 < c"
      then have "i \<noteq> pos" "c \<noteq> pos" using parent_less [of i] c by auto
      then have "h ! c \<le> h ! i" using 1(2) i c by (auto simp: heap_but_def)
      then show "h[pos := h ! c] ! parent c \<le> h[pos := h ! c] ! i"
        using c \<open>i \<noteq> pos\<close> 1(3) by simp
    qed
    have "heap_but h' pos' \<and> pos' < length h' \<and> length h \<le> 2 * pos' + 1 \<and> length h' = length h
         \<and> mset (h'[pos' := x]) = mset (h[pos := h ! c, c := x])"
      using 1(1) [OF refl True cdef hb] c 1(4) eq by simp
    then show ?thesis using mset_swap_up [OF 1(3) c(1), of x] by simp
  next
    case False
    then show ?thesis using 1 by (simp add: siftup_hole.simps [of h pos] Let_def)
  qed
qed

lemma heappush_heap:
  assumes "heap h"
  shows "heap (heappush h x)" "mset (heappush h x) = add_mset x (mset h)"
proof -
  have par: "parent i < length h" if "0 < i" "i < Suc (length h)" for i
    using that parent_less [of i] by linarith
  have "heap_but (h @ [x]) (length h)"
    using assms par by (auto simp: heap_but_def heap_def nth_append parent_def)
  moreover have "x \<le> (h @ [x]) ! i" if "0 < i" "i < length (h @ [x])" "parent i = length h" for i
    using that par [of i] by simp
  ultimately have "heap (siftdown (h @ [x]) x (length h)) \<and>
      mset (siftdown (h @ [x]) x (length h)) = mset ((h @ [x])[length h := x])"
    by (intro siftdown_heap) auto
  then show "heap (heappush h x)" "mset (heappush h x) = add_mset x (mset h)"
    by (simp_all add: heappush_def)
qed

lemma heapreplace_heap:
  assumes "heap h" "h \<noteq> []"
  shows "heap (heapreplace h x)" "add_mset (h ! 0) (mset (heapreplace h x)) = add_mset x (mset h)"
proof -
  obtain h' pos where s: "siftup_hole (h[0 := x]) 0 = (h', pos)" by fastforce
  have hb: "heap_but (h[0 := x]) 0"
    using assms(1) by (simp add: heap_but_def heap_def)
  have ne: "0 < length (h[0 := x])" using assms(2) by simp
  note leaf = siftup_hole_leaf [OF hb ne s, of x]
  have "x \<le> h' ! i" if "0 < i" "i < length h'" "parent i = pos" for i
  proof -
    have "2 * pos + 1 \<le> i" using that parent_eq [of i pos] by auto
    with that(2) leaf show ?thesis by linarith
  qed
  with leaf have "heap (siftdown h' x pos) \<and> mset (siftdown h' x pos) = mset (h'[pos := x])"
    by (intro siftdown_heap) blast+
  then have 2: "heap (heapreplace h x)" "mset (heapreplace h x) = mset (h[0 := x])"
    using s leaf by (simp_all add: heapreplace_def)
  then show "heap (heapreplace h x)" by simp
  from assms(2) obtain y t where "h = y # t" by (cases h) auto
  with 2(2) show "add_mset (h ! 0) (mset (heapreplace h x)) = add_mset x (mset h)" by simp
qed

end
