(* ===== verification/CastStore.thy ===== *)
theory CastStore
  imports Casting HeapQ
begin

text \<open>
  The cast repository, \<open>src/vermyth/grimoire/repositories/casts.py\<close>: the row a cast result is
  serialised to and what it reads back as, writing, reading and deleting, the filtered query and
  the semantic search with its bounded heap. \<open>json.loads\<close> inverts \<open>json.dumps\<close>, so a JSON column
  holds the document; a timestamp is an integer of microseconds.
\<close>

section \<open>Names of enumeration members\<close>

definition enum_name :: "(string, 'e) dict \<Rightarrow> 'e \<Rightarrow> string" where
  "enum_name members e = (case first_where (\<lambda>m. snd m = e) members of Some m \<Rightarrow> fst m | None \<Rightarrow> [])"

definition verdict_members :: "(string, verdict_type) dict" where
  "verdict_members = [(''COHERENT'', V_COHERENT), (''PARTIAL'', V_PARTIAL), (''INCOHERENT'', V_INCOHERENT)]"

definition polarity_members :: "(string, polarity) dict" where
  "polarity_members = [(''POSITIVE'', POSITIVE), (''NEGATIVE'', NEGATIVE), (''NEUTRAL'', NEUTRAL)]"

definition projection_members :: "(string, projection_method) dict" where
  "projection_members = [(''FULL'', FULL), (''PARTIAL'', PARTIAL)]"

lemmas members_defs =
  verdict_members_def polarity_members_def projection_members_def effect_class_members_def
  severity_members_def

lemma enum_roundtrip [simp]:
  "enum_lookup verdict_members (enum_name verdict_members v) = Inr v"
  "enum_lookup polarity_members (enum_name polarity_members p) = Inr p"
  "enum_lookup projection_members (enum_name projection_members m) = Inr m"
  "enum_lookup effect_class_members (enum_name effect_class_members c) = Inr c"
  "enum_lookup severity_members (enum_name severity_members s) = Inr s"
proof -
  note defs = enum_name_def enum_lookup_def members_defs
  show "enum_lookup verdict_members (enum_name verdict_members v) = Inr v"
    by (cases v) (simp_all add: defs)
  show "enum_lookup polarity_members (enum_name polarity_members p) = Inr p"
    by (cases p) (simp_all add: defs)
  show "enum_lookup projection_members (enum_name projection_members m) = Inr m"
    by (cases m) (simp_all add: defs)
  show "enum_lookup effect_class_members (enum_name effect_class_members c) = Inr c"
    by (cases c) (simp_all add: defs)
  show "enum_lookup severity_members (enum_name severity_members s) = Inr s"
    by (cases s) (simp_all add: defs)
qed

section \<open>Reading JSON documents\<close>

text \<open>\<open>d[k]\<close> on a decoded document, and the types the constructors it is passed to accept.\<close>

definition jkey :: "json \<Rightarrow> string \<Rightarrow> json result" where
  "jkey d k = (case d of JObj kvs \<Rightarrow> of_option (KeyError k) (dget kvs k)
               | _ \<Rightarrow> Inl (TypeError ''document is not an object''))"

fun j_str :: "json \<Rightarrow> string result" where
  "j_str (JStr s) = Inr s"
| "j_str _ = Inl (TypeError ''str'')"

fun j_opt_str :: "json \<Rightarrow> string option result" where
  "j_opt_str (JStr s) = Inr (Some s)"
| "j_opt_str JNull = Inr None"
| "j_opt_str _ = Inl (TypeError ''str'')"

fun j_bool :: "json \<Rightarrow> bool result" where
  "j_bool (JBool b) = Inr b"
| "j_bool _ = Inl (TypeError ''bool'')"

fun j_items :: "json \<Rightarrow> json list result" where
  "j_items (JList xs) = Inr xs"
| "j_items _ = Inl (TypeError ''not iterable'')"

lemma map_py_float [simp]: "rmap_list py_float (map JFloat xs) = Inr xs"
  by (induction xs) simp_all

lemma map_j_str [simp]: "rmap_list j_str (map JStr xs) = Inr xs"
  by (induction xs) simp_all

section \<open>Rows\<close>

text \<open>
  A row of \<open>cast_results\<close>. The columns a model writes and reads as a whole
  (\<open>model_dump_json\<close>, \<open>model_validate_json\<close>: intent, lineage and provenance) are kept as the value;
  the documents the repository builds itself are JSON values.
\<close>

record cast_row =
  row_cast_id :: string
  row_timestamp :: int
  row_intent :: intent
  row_sigil :: json
  row_verdict :: json
  row_lineage :: "lineage option"
  row_glyph_seed_id :: "string option"
  row_semantic_vector :: json
  row_verdict_type :: string
  row_effect_class :: string
  row_adjusted_resonance :: real
  row_branch_id :: "string option"
  row_provenance :: "cast_provenance option"
  row_aspect_pattern_key :: string
  row_basis_version :: nat
  row_narrative_coherence :: "real option"
  row_causal_root_cast_id :: "string option"

definition floats_json :: "svec \<Rightarrow> json" where
  "floats_json v = JList (map JFloat (comps v))"

definition vector_json :: "svec \<Rightarrow> json" where
  "vector_json v =
     JObj [(''components'', floats_json v), (''basis_version'', JInt (int (normalized_basis_version v)))]"

definition sigil_document :: "sigil \<Rightarrow> json" where
  "sigil_document s =
     JObj [(''name'', JStr (sg_name s)),
       (''aspects'', JList (map (\<lambda>a. JStr (aspect_name a)) (sg_aspects s))),
       (''effect_class'', JStr (enum_name effect_class_members (sg_effect_class s))),
       (''resonance_ceiling'', JFloat (sg_resonance_ceiling s)),
       (''contradiction_severity'', JStr (enum_name severity_members (sg_contradiction_severity s))),
       (''semantic_fingerprint'', JStr (sg_semantic_fingerprint s)),
       (''semantic_vector'', floats_json (sg_semantic_vector s)),
       (''basis_version'', JInt (int (normalized_basis_version (sg_semantic_vector s)))),
       (''polarity'', JStr (enum_name polarity_members (sg_polarity s)))]"

definition resonance_document :: "resonance_score \<Rightarrow> json" where
  "resonance_document r =
     JObj [(''raw'', JFloat (rsc_raw r)), (''adjusted'', JFloat (rsc_adjusted r)),
       (''ceiling_applied'', JBool (rsc_ceiling_applied r)), (''proof'', JStr (rsc_proof r))]"

definition intent_vector_document :: "intent_vector \<Rightarrow> json" where
  "intent_vector_document iv =
     JObj [(''vector'', vector_json (iv_vector iv)),
       (''projection_method'', JStr (enum_name projection_members (iv_projection_method iv))),
       (''constraint_component'', vector_json (iv_constraint_component iv)),
       (''semantic_component'',
          case iv_semantic_component iv of Some v \<Rightarrow> vector_json v | None \<Rightarrow> JNull),
       (''confidence'', JFloat (iv_confidence iv))]"

definition verdict_document :: "verdict \<Rightarrow> json" where
  "verdict_document v =
     JObj [(''verdict_type'', JStr (enum_name verdict_members (vd_verdict_type v))),
       (''resonance'', resonance_document (vd_resonance v)),
       (''effect_description'', JStr (vd_effect_description v)),
       (''incoherence_reason'', opt_str (vd_incoherence_reason v)),
       (''casting_note'', JStr (vd_casting_note v)),
       (''intent_vector'', intent_vector_document (vd_intent_vector v))]"

definition serialize_cast_result :: "registry \<Rightarrow> cast_result \<Rightarrow> cast_row" where
  "serialize_cast_result R r =
     \<lparr>row_cast_id = cr_cast_id r, row_timestamp = cr_timestamp r, row_intent = cr_intent r,
      row_sigil = sigil_document (cr_sigil r), row_verdict = verdict_document (cr_verdict r),
      row_lineage = cr_lineage r, row_glyph_seed_id = cr_glyph_seed_id r,
      row_semantic_vector = floats_json (sg_semantic_vector (cr_sigil r)),
      row_verdict_type = enum_name verdict_members (cast_verdict r),
      row_effect_class = enum_name effect_class_members (sg_effect_class (cr_sigil r)),
      row_adjusted_resonance = cast_adjusted r,
      row_branch_id = map_option ln_branch_id (cr_lineage r),
      row_provenance = cr_provenance r,
      row_aspect_pattern_key = canonical_aspect_key R (sg_aspects (cr_sigil r)),
      row_basis_version = normalized_basis_version (sg_semantic_vector (cr_sigil r)),
      row_narrative_coherence = Option.bind (cr_provenance r) cp_narrative_coherence,
      row_causal_root_cast_id = Option.bind (cr_provenance r) cp_causal_root_cast_id\<rparr>"

section \<open>Reading a row back\<close>

text \<open>A vector of the verdict document, padded to the current dimension.\<close>

definition pad_to :: "nat \<Rightarrow> real list \<Rightarrow> real list" where
  "pad_to n xs = xs @ replicate (n - length xs) 0"

definition read_vector :: "nat \<Rightarrow> nat \<Rightarrow> json \<Rightarrow> svec result" where
  "read_vector n cast_basis raw =
     rbind (case raw of
              JObj d \<Rightarrow> rbind (py_int (dget_or d ''basis_version'' (JInt (int cast_basis))))
                              (\<lambda>b. Inr (dget_or d ''components'' (JList []), b))
            | _ \<Rightarrow> Inr (raw, int cast_basis)) (\<lambda>(source, b).
     rbind (j_items source) (\<lambda>items.
     rbind (rmap_list py_float items) (\<lambda>xs.
     if b < 0 then Inl (ValueError ''basis_version'') else mk_svec (pad_to n xs) (Some (nat b)))))"

definition read_sigil :: "registry \<Rightarrow> cast_row \<Rightarrow> sigil result" where
  "read_sigil R row =
     (let d = row_sigil row in
      rbind (rbind (jkey d ''aspects'') j_items) (\<lambda>names.
      rbind (rmap_list j_str names) (\<lambda>names.
      rbind (rmap_list (resolve R) names) (\<lambda>aspects.
      rbind (case jget d ''semantic_vector'' of
               Some (JList xs) \<Rightarrow> Inr xs
             | _ \<Rightarrow> j_items (row_semantic_vector row)) (\<lambda>items.
      rbind (rbind (jkey d ''name'') j_str) (\<lambda>name.
      rbind (rbind (rbind (jkey d ''effect_class'') j_str) (enum_lookup effect_class_members)) (\<lambda>ec.
      rbind (rbind (jkey d ''resonance_ceiling'') py_float) (\<lambda>rc.
      rbind (rbind (rbind (jkey d ''contradiction_severity'') j_str) (enum_lookup severity_members)) (\<lambda>sev.
      rbind (rmap_list py_float items) (\<lambda>xs.
      rbind (mk_svec xs (Some (row_basis_version row))) (\<lambda>v.
      rbind (rbind (jkey d ''polarity'') (\<lambda>p. enum_lookup polarity_members (py_str p))) (\<lambda>pol.
      Inr \<lparr>sg_name = name, sg_aspects = remdups aspects, sg_effect_class = ec,
           sg_resonance_ceiling = rc, sg_contradiction_severity = sev,
           sg_semantic_fingerprint =
             (case jget d ''semantic_fingerprint'' of
                Some x \<Rightarrow> if truthy x then py_str x else [] | None \<Rightarrow> []),
           sg_semantic_vector = v, sg_polarity = pol, sg_fluid = None\<rparr>))))))))))))"

definition read_resonance :: "json \<Rightarrow> resonance_score result" where
  "read_resonance d =
     rbind (rbind (jkey d ''raw'') py_float) (\<lambda>raw.
     rbind (rbind (jkey d ''adjusted'') py_float) (\<lambda>adjusted.
     rbind (rbind (jkey d ''ceiling_applied'') j_bool) (\<lambda>applied.
     rbind (rbind (jkey d ''proof'') j_str) (\<lambda>proof.
     mk_resonance_score raw adjusted applied proof))))"

definition read_intent_vector :: "nat \<Rightarrow> nat \<Rightarrow> json \<Rightarrow> intent_vector result" where
  "read_intent_vector n cast_basis d =
     rbind (rbind (jkey d ''vector'') (read_vector n cast_basis)) (\<lambda>vec.
     rbind (rbind (jkey d ''constraint_component'') (read_vector n cast_basis)) (\<lambda>cc.
     rbind (rbind (jkey d ''semantic_component'') (\<lambda>raw.
              if raw = JNull then Inr None
              else rbind (read_vector n cast_basis raw) (\<lambda>v. Inr (Some v)))) (\<lambda>sc.
     rbind (rbind (rbind (jkey d ''projection_method'') j_str) (enum_lookup projection_members)) (\<lambda>pm.
     rbind (rbind (jkey d ''confidence'') py_float) (\<lambda>confidence.
     mk_intent_vector vec pm cc sc confidence)))))"

definition read_verdict :: "nat \<Rightarrow> nat \<Rightarrow> json \<Rightarrow> verdict result" where
  "read_verdict n cast_basis d =
     rbind (rbind (jkey d ''resonance'') read_resonance) (\<lambda>resonance.
     rbind (rbind (jkey d ''intent_vector'') (read_intent_vector n cast_basis)) (\<lambda>iv.
     rbind (rbind (rbind (jkey d ''verdict_type'') j_str) (enum_lookup verdict_members)) (\<lambda>vt.
     rbind (rbind (jkey d ''effect_description'') j_str) (\<lambda>effect.
     rbind (rbind (jkey d ''incoherence_reason'') j_opt_str) (\<lambda>reason.
     rbind (rbind (jkey d ''casting_note'') j_str) (\<lambda>note.
     mk_verdict vt resonance effect reason note iv))))))"

definition read_provenance :: "cast_row \<Rightarrow> cast_provenance option" where
  "read_provenance row =
     (case row_provenance row of
        Some p \<Rightarrow> Some p
      | None \<Rightarrow>
          if row_narrative_coherence row \<noteq> None \<or> row_causal_root_cast_id row \<noteq> None
          then Some \<lparr>cp_source = SRC_BASE, cp_crystallized_sigil_name = None, cp_generation = None,
                     cp_narrative_coherence = row_narrative_coherence row,
                     cp_causal_root_cast_id = row_causal_root_cast_id row\<rparr>
          else None)"

definition deserialize_cast_result :: "registry \<Rightarrow> cast_row \<Rightarrow> cast_result result" where
  "deserialize_cast_result R row =
     rbind (read_sigil R row) (\<lambda>sigil.
     rbind (read_verdict (dimensionality R) (row_basis_version row) (row_verdict row)) (\<lambda>verdict.
     Inr \<lparr>cr_cast_id = row_cast_id row, cr_timestamp = row_timestamp row, cr_intent = row_intent row,
          cr_sigil = sigil, cr_verdict = verdict, cr_lineage = row_lineage row,
          cr_glyph_seed_id = row_glyph_seed_id row, cr_provenance = read_provenance row\<rparr>))"

section \<open>What a stored cast reads back as\<close>

text \<open>
  The models a cast result is made of accept their own fields, and its aspects are known to the
  registry, each once.
\<close>

definition cast_valid :: "registry \<Rightarrow> cast_result \<Rightarrow> bool" where
  "cast_valid R r \<longleftrightarrow>
     (let s = cr_sigil r; v = cr_verdict r; iv = vd_intent_vector v; q = vd_resonance v in
      set (sg_aspects s) \<subseteq> set (full_aspect_order R) \<and> distinct (sg_aspects s)
      \<and> 6 \<le> length (comps (sg_semantic_vector s)) \<and> 6 \<le> length (comps (iv_vector iv))
      \<and> 6 \<le> length (comps (iv_constraint_component iv))
      \<and> (\<forall>c. iv_semantic_component iv = Some c \<longrightarrow> 6 \<le> length (comps c))
      \<and> mk_resonance_score (rsc_raw q) (rsc_adjusted q) (rsc_ceiling_applied q) (rsc_proof q) = Inr q
      \<and> mk_intent_vector (iv_vector iv) (iv_projection_method iv) (iv_constraint_component iv)
          (iv_semantic_component iv) (iv_confidence iv) = Inr iv
      \<and> mk_verdict (vd_verdict_type v) q (vd_effect_description v) (vd_incoherence_reason v)
          (vd_casting_note v) iv = Inr v)"

definition with_basis :: "svec \<Rightarrow> svec" where
  "with_basis v = v\<lparr>basis := Some (normalized_basis_version v)\<rparr>"

definition padded :: "nat \<Rightarrow> svec \<Rightarrow> svec" where
  "padded n v = \<lparr>comps = pad_to n (comps v), basis = Some (normalized_basis_version v)\<rparr>"

text \<open>
  Basis versions become explicit, the vectors of the verdict are padded to the dimension of the
  registry that reads them, and a fluid sigil comes back as a plain one.
\<close>

definition restored :: "nat \<Rightarrow> cast_result \<Rightarrow> cast_result" where
  "restored n r =
     r\<lparr>cr_sigil := (cr_sigil r)\<lparr>sg_semantic_vector := with_basis (sg_semantic_vector (cr_sigil r)),
                                 sg_fluid := None\<rparr>,
        cr_verdict := (cr_verdict r)\<lparr>vd_intent_vector :=
          (let iv = vd_intent_vector (cr_verdict r) in
           iv\<lparr>iv_vector := padded n (iv_vector iv),
               iv_constraint_component := padded n (iv_constraint_component iv),
               iv_semantic_component := map_option (padded n) (iv_semantic_component iv)\<rparr>)\<rparr>\<rparr>"

lemma jkey_JObj [simp]: "jkey (JObj d) k = of_option (KeyError k) (dget d k)"
  by (simp add: jkey_def)

lemma vector_json_not_null [simp]: "vector_json v \<noteq> JNull"
  by (simp add: vector_json_def)

lemma read_vector_json [simp]:
  "6 \<le> length (comps v) \<Longrightarrow> read_vector n b (vector_json v) = Inr (padded n v)"
  by (simp add: read_vector_def vector_json_def floats_json_def dget_or_def mk_svec_def pad_to_def padded_def)

lemma resolve_order:
  "registry_ok R \<Longrightarrow> a \<in> set (full_aspect_order R) \<Longrightarrow> resolve R (aspect_name a) = Inr a"
  by (auto simp: registry_ok_def resolve_def)

lemma resolve_names:
  "registry_ok R \<Longrightarrow> set A \<subseteq> set (full_aspect_order R) \<Longrightarrow> rmap_list (resolve R) (map aspect_name A) = Inr A"
  by (induction A) (auto simp: resolve_order)

lemma read_resonance_document:
  "mk_resonance_score (rsc_raw q) (rsc_adjusted q) (rsc_ceiling_applied q) (rsc_proof q) = Inr q \<Longrightarrow>
   read_resonance (resonance_document q) = Inr q"
  by (simp add: read_resonance_def resonance_document_def)

lemma read_intent_vector_document:
  assumes "mk_intent_vector (iv_vector iv) (iv_projection_method iv) (iv_constraint_component iv)
          (iv_semantic_component iv) (iv_confidence iv) = Inr iv"
    and "6 \<le> length (comps (iv_vector iv))" "6 \<le> length (comps (iv_constraint_component iv))"
    and "\<forall>c. iv_semantic_component iv = Some c \<longrightarrow> 6 \<le> length (comps c)"
  shows "read_intent_vector n b (intent_vector_document iv) =
     Inr (iv\<lparr>iv_vector := padded n (iv_vector iv),
             iv_constraint_component := padded n (iv_constraint_component iv),
             iv_semantic_component := map_option (padded n) (iv_semantic_component iv)\<rparr>)"
  using assms
  by (cases "iv_semantic_component iv")
    (auto simp: read_intent_vector_def intent_vector_document_def mk_intent_vector_def
      split: if_splits)

lemma read_verdict_document:
  assumes "cast_valid R r"
  shows "read_verdict n b (verdict_document (cr_verdict r)) = Inr (cr_verdict (restored n r))"
proof -
  let ?v = "cr_verdict r"
  let ?iv = "vd_intent_vector ?v"
  have valid: "mk_verdict (vd_verdict_type ?v) (vd_resonance ?v) (vd_effect_description ?v)
      (vd_incoherence_reason ?v) (vd_casting_note ?v) ?iv = Inr ?v"
    and rs: "read_resonance (resonance_document (vd_resonance ?v)) = Inr (vd_resonance ?v)"
    and iv: "read_intent_vector n b (intent_vector_document ?iv) =
      Inr (vd_intent_vector (cr_verdict (restored n r)))"
    using assms
    by (auto simp: cast_valid_def restored_def Let_def read_resonance_document
        read_intent_vector_document)
  have "j_opt_str (opt_str x) = Inr x" for x by (cases x) simp_all
  with valid rs iv show ?thesis
    by (simp add: read_verdict_def verdict_document_def mk_verdict_def restored_def Let_def split: if_splits)
qed

lemma read_sigil_document:
  assumes "registry_ok R" "cast_valid R r"
  shows "read_sigil R (serialize_cast_result R r) = Inr (cr_sigil (restored n r))"
proof -
  let ?s = "cr_sigil r"
  have "rmap_list j_str (map (\<lambda>a. JStr (aspect_name a)) (sg_aspects ?s)) = Inr (map aspect_name (sg_aspects ?s))"
    using map_j_str [of "map aspect_name (sg_aspects ?s)"] by (simp add: comp_def)
  moreover have "rmap_list (resolve R) (map aspect_name (sg_aspects ?s)) = Inr (sg_aspects ?s)"
    "distinct (sg_aspects ?s)" "6 \<le> length (comps (sg_semantic_vector ?s))"
    using assms by (auto simp: cast_valid_def Let_def intro: resolve_names)
  ultimately show ?thesis
    by (simp add: read_sigil_def serialize_cast_result_def sigil_document_def floats_json_def
        mk_svec_def restored_def with_basis_def Let_def distinct_remdups_id py_str_def)
qed

lemma deserialize_serialize:
  assumes "registry_ok R" "cast_valid R r"
  shows "deserialize_cast_result R (serialize_cast_result R r) = Inr (restored (dimensionality R) r)"
proof -
  have "read_provenance (serialize_cast_result R r) = cr_provenance r"
    by (cases "cr_provenance r") (simp_all add: read_provenance_def serialize_cast_result_def)
  then show ?thesis
    using read_sigil_document [OF assms] read_verdict_document [OF assms(2)]
    by (simp add: deserialize_cast_result_def)
       (simp add: serialize_cast_result_def restored_def)
qed

section \<open>The repository\<close>

text \<open>
  The table in the order of insertion, keyed by the cast id. A cast a policy decision refers to
  cannot be deleted (foreign key without a cascade); the ids of those casts are an argument.
\<close>

type_synonym cast_table = "(string, cast_row) dict"

definition write_cast :: "registry \<Rightarrow> cast_result \<Rightarrow> cast_table \<Rightarrow> cast_table result" where
  "write_cast R r T =
     (if dhas T (cr_cast_id r)
      then Inl (ValueError (''CastResult with cast_id '' @ repr_str (cr_cast_id r) @ '' already exists''))
      else Inr (dset (cr_cast_id r) (serialize_cast_result R r) T))"

definition read_cast :: "registry \<Rightarrow> string \<Rightarrow> cast_table \<Rightarrow> cast_result result" where
  "read_cast R cast_id T =
     rbind (of_option (KeyError cast_id) (dget T cast_id)) (deserialize_cast_result R)"

definition delete_cast :: "string set \<Rightarrow> string \<Rightarrow> cast_table \<Rightarrow> cast_table result" where
  "delete_cast decided cast_id T =
     (if \<not> dhas T cast_id then Inl (KeyError cast_id)
      else if cast_id \<in> decided then Inl (RuntimeError ''FOREIGN KEY constraint failed'')
      else Inr (dpop cast_id T))"

record semantic_query =
  sq_aspect_filter :: "aspect list option"
  sq_verdict_filter :: "verdict_type option"
  sq_min_resonance :: "real option"
  sq_effect_class_filter :: "effect_class option"
  sq_branch_id :: "string option"
  sq_proximity_to :: "svec option"
  sq_proximity_threshold :: "real option"
  sq_limit :: nat

definition mk_semantic_query :: "semantic_query \<Rightarrow> semantic_query result" where
  "mk_semantic_query q =
     (if (case sq_min_resonance q of None \<Rightarrow> True | Some x \<Rightarrow> 0 \<le> x \<and> x \<le> 1)
         \<and> (case sq_proximity_threshold q of None \<Rightarrow> True | Some x \<Rightarrow> 0 \<le> x \<and> x \<le> 1)
         \<and> 1 \<le> sq_limit q \<and> sq_limit q \<le> 100
      then if sq_proximity_threshold q \<noteq> None \<and> sq_proximity_to q = None
           then Inl (ValueError ''proximity_to is required when proximity_threshold is set'')
           else Inr q
      else Inl (ValueError ''SemanticQuery''))"

text \<open>The \<open>WHERE\<close> clause of \<open>query\<close>.\<close>

definition row_matches :: "registry \<Rightarrow> semantic_query \<Rightarrow> cast_row \<Rightarrow> bool" where
  "row_matches R q row \<longleftrightarrow>
     pred_option (\<lambda>v. row_verdict_type row = enum_name verdict_members v) (sq_verdict_filter q)
     \<and> pred_option (\<lambda>c. row_effect_class row = enum_name effect_class_members c) (sq_effect_class_filter q)
     \<and> pred_option (\<lambda>m. row_adjusted_resonance row \<ge> m) (sq_min_resonance q)
     \<and> pred_option (\<lambda>b. row_branch_id row = Some b) (sq_branch_id q)
     \<and> pred_option (\<lambda>A. row_aspect_pattern_key row = canonical_aspect_key R A) (sq_aspect_filter q)"

definition query_casts :: "registry \<Rightarrow> semantic_query \<Rightarrow> cast_table \<Rightarrow> cast_result list result" where
  "query_casts R q T =
     rmap_list (deserialize_cast_result R)
       (take (sq_limit q) (sort_key (\<lambda>row. - row_timestamp row) (filter (row_matches R q) (map snd T))))"

text \<open>
  The pass of \<open>semantic_search\<close> over the table: the heap \<open>top\<close> holds the best matches so far.
\<close>

definition row_vector :: "cast_row \<Rightarrow> svec result" where
  "row_vector row =
     rbind (j_items (row_semantic_vector row)) (\<lambda>items.
     rbind (rmap_list py_float items) (\<lambda>xs. mk_svec xs (Some (row_basis_version row))))"

definition keep_best :: "nat \<Rightarrow> (real \<times> string) list \<Rightarrow> real \<times> string \<Rightarrow> (real \<times> string) list" where
  "keep_best limit best itm =
     (if length best < limit then heappush best itm
      else if limit > 0 \<and> fst itm > fst (best ! 0) then heapreplace best itm
      else best)"

fun scan_rows ::
  "svec \<Rightarrow> real \<Rightarrow> nat \<Rightarrow> cast_row list \<Rightarrow> (real \<times> string) list \<Rightarrow> (real \<times> string) list result" where
  "scan_rows prox thr limit [] best = Inr best"
| "scan_rows prox thr limit (row # rows) best =
     rbind (row_vector row) (\<lambda>sv.
     rbind (cosine_similarity prox sv) (\<lambda>sim.
     scan_rows prox thr limit rows
       (if sim < thr then best else keep_best limit best (sim, row_cast_id row))))"

definition semantic_search :: "registry \<Rightarrow> semantic_query \<Rightarrow> cast_table \<Rightarrow> cast_result list result" where
  "semantic_search R q T =
     (case (sq_proximity_to q, sq_proximity_threshold q) of
        (Some prox, Some thr) \<Rightarrow>
          rbind (scan_rows prox thr (sq_limit q) (map snd T) []) (\<lambda>best.
          let ids = map snd (sort_key (\<lambda>t. - fst t) best) in
          if ids = [] then Inr []
          else rbind (rmap_list (deserialize_cast_result R)
                        (filter (\<lambda>row. row_cast_id row \<in> set ids) (map snd T))) (\<lambda>found.
               let by_id = fold (\<lambda>r d. dset (cr_cast_id r) r d) found []
               in Inr (List.map_filter (dget by_id) ids)))
      | _ \<Rightarrow> Inl (ValueError ''proximity_to and proximity_threshold are required''))"

section \<open>The search keeps the best matches\<close>

text \<open>
  \<open>best\<close> are the \<open>limit\<close> best of the items \<open>seen\<close>: nothing left out beats anything kept.
\<close>

definition best_of :: "nat \<Rightarrow> (real \<times> string) list \<Rightarrow> (real \<times> string) list \<Rightarrow> bool" where
  "best_of limit seen best \<longleftrightarrow>
     heap best \<and> length best = min limit (length seen) \<and> mset best \<subseteq># mset seen
     \<and> (\<forall>y \<in># mset seen - mset best. \<forall>b \<in> set best. fst y \<le> fst b)"

lemma heap_root_fst: "heap h \<Longrightarrow> b \<in> set h \<Longrightarrow> fst (h ! 0) \<le> fst b" for h :: "(real \<times> string) list"
  using heap_root_le [of h] by (force simp: in_set_conv_nth less_eq_prod_def)

lemma keep_best_of:
  assumes best: "best_of limit seen best" and pos: "0 < limit"
  shows "best_of limit (seen @ [x]) (keep_best limit best x)"
proof -
  have h: "heap best" and len: "length best = min limit (length seen)" and sub: "mset best \<subseteq># mset seen"
    and out: "\<And>y b. y \<in># mset seen - mset best \<Longrightarrow> b \<in> set best \<Longrightarrow> fst y \<le> fst b"
    using best unfolding best_of_def by blast+
  define D where "D = mset seen - mset best"
  have D: "mset seen = mset best + D" using sub by (simp add: D_def)
  show ?thesis
  proof (cases "length best < limit")
    case True
    have "length seen = length best + size D" by (metis D size_mset size_union)
    with len True have "size D = 0" by linarith
    with D have eq: "mset seen = mset best" by simp
    note push = heappush_heap [OF h, of x]
    have "length (heappush best x) = Suc (length best)"
      using arg_cong [OF push(2), of size] by simp
    moreover have "keep_best limit best x = heappush best x" using True by (simp add: keep_best_def)
    ultimately show ?thesis
      using True len push eq unfolding best_of_def by simp
  next
    case False
    with len pos have full: "length best = limit" "limit \<le> length seen" "best \<noteq> []" by auto
    let ?r = "best ! 0"
    define B where "B = mset best - {#?r#}"
    have B: "mset best = add_mset ?r B" using full(3) by (simp add: B_def)
    have root: "fst ?r \<le> fst b" if "b \<in> set best" for b using heap_root_fst [OF h that] .
    have low: "fst y \<le> fst ?r" if "y \<in># D" for y using out that full(3) by (simp add: D_def)
    show ?thesis
    proof (cases "fst x > fst ?r")
      case True
      note repl = heapreplace_heap [OF h full(3), of x]
      have ms: "mset (heapreplace best x) = add_mset x B" using repl(2) by (simp add: B)
      have rest: "mset (seen @ [x]) - mset (heapreplace best x) = add_mset ?r D" by (simp add: ms D B)
      have "length (heapreplace best x) = limit"
        using arg_cong [OF ms, of size] arg_cong [OF B, of size] full(1) by simp
      moreover have "mset (heapreplace best x) \<subseteq># mset (seen @ [x])" by (simp add: ms D B)
      moreover have "fst y \<le> fst b" if "y \<in># add_mset ?r D" "b \<in> set (heapreplace best x)" for y b
      proof -
        have "b = x \<or> b \<in># B" using that(2) ms by (metis in_multiset_in_set insert_iff set_mset_add_mset_insert)
        then have "b = x \<or> b \<in> set best" using B by (metis in_multiset_in_set insert_iff set_mset_add_mset_insert)
        then have "fst ?r \<le> fst b" using True root [of b] by (elim disjE) simp_all
        moreover have "fst y \<le> fst ?r" using that(1) low [of y] by (cases "y = ?r") simp_all
        ultimately show ?thesis by simp
      qed
      ultimately show ?thesis
        using True full pos repl(1) rest unfolding best_of_def keep_best_def by simp
    next
      case False
      have rest: "mset (seen @ [x]) - mset best = add_mset x D" by (simp add: D)
      have "fst y \<le> fst b" if "y \<in># add_mset x D" "b \<in> set best" for y b
        using that root [of b] low [of y] False by auto
      then show ?thesis
        using False full h rest unfolding best_of_def keep_best_def by (simp add: D)
    qed
  qed
qed

lemma keep_all_best_of:
  "0 < limit \<Longrightarrow> best_of limit seen best \<Longrightarrow>
   best_of limit (seen @ items) (foldl (keep_best limit) best items)"
proof (induction items arbitrary: seen best)
  case (Cons x items)
  from Cons.IH [OF Cons.prems(1) keep_best_of [OF Cons.prems(2,1), of x]] show ?case by simp
qed simp

lemma scan_rows_eq:
  assumes "\<And>row. row \<in> set rows \<Longrightarrow> row_vector row = Inr (v row) \<and> cosine_similarity prox (v row) = Inr (sim row)"
  shows "scan_rows prox thr limit rows best =
    Inr (foldl (keep_best limit) best
      (filter (\<lambda>i. \<not> fst i < thr) (map (\<lambda>row. (sim row, row_cast_id row)) rows)))"
  using assms by (induction rows arbitrary: best) simp_all

section \<open>The search answers from the stored casts\<close>

definition casts_ok :: "registry \<Rightarrow> cast_table \<Rightarrow> bool" where
  "casts_ok R T \<longleftrightarrow>
     registry_ok R \<and> keys_distinct T
     \<and> (\<forall>(k, row) \<in> set T. k = row_cast_id row \<and> (\<exists>r. cast_valid R r \<and> row = serialize_cast_result R r))"

lemma casts_ok_row:
  assumes "casts_ok R T" "row \<in> set (map snd T)"
  obtains r where "deserialize_cast_result R row = Inr r" "cr_cast_id r = row_cast_id row"
    "row_vector row = Inr (sg_semantic_vector (cr_sigil r))" "dget T (row_cast_id row) = Some row"
    "cr_timestamp r = row_timestamp row"
proof -
  from assms obtain r where r: "cast_valid R r" "row = serialize_cast_result R r"
      and mem: "(row_cast_id row, row) \<in> set T" and R: "registry_ok R" "keys_distinct T"
    by (auto simp: casts_ok_def)
  have "row_vector row = Inr (with_basis (sg_semantic_vector (cr_sigil r)))"
    using r by (simp add: row_vector_def serialize_cast_result_def floats_json_def mk_svec_def
        with_basis_def cast_valid_def Let_def)
  moreover have "dget T (row_cast_id row) = Some row" using mem R(2) by (simp add: keys_distinct_def)
  ultimately show ?thesis
    using that [of "restored (dimensionality R) r"] deserialize_serialize [OF R(1) r(1)] r(2)
    by (simp add: restored_def serialize_cast_result_def)
qed

lemma write_cast_casts_ok:
  assumes "casts_ok R T" "cast_valid R r" "write_cast R r T = Inr T'"
  shows "casts_ok R T'"
proof -
  have T': "T' = dset (cr_cast_id r) (serialize_cast_result R r) T"
    using assms(3) by (auto simp: write_cast_def split: if_splits)
  have "row_cast_id (serialize_cast_result R r) = cr_cast_id r" by (simp add: serialize_cast_result_def)
  then show ?thesis
    using assms(1,2) unfolding casts_ok_def T' by (fastforce dest: in_set_dset)
qed

lemma delete_cast_casts_ok:
  assumes "casts_ok R T" "delete_cast decided k T = Inr T'"
  shows "casts_ok R T'"
proof -
  have T': "T' = dpop k T" using assms(2) by (auto simp: delete_cast_def split: if_splits)
  have "keys_distinct T'" using assms(1) by (simp add: T' casts_ok_def)
  moreover have "set T' \<subseteq> set T" by (auto simp: T' AList.delete_eq)
  ultimately show ?thesis using assms(1) unfolding casts_ok_def by blast
qed

lemma distinct_submset:
  assumes "mset xs \<subseteq># mset ys" "distinct ys"
  shows "distinct xs"
  unfolding distinct_count_atmost_1
proof
  fix a
  have "count (mset xs) a \<le> count (mset ys) a" using assms(1) by (rule mset_subset_eq_count)
  also have "\<dots> \<le> 1" using assms(2) by (simp add: distinct_count_atmost_1)
  finally show "count (mset xs) a = (if a \<in> set xs then 1 else 0)"
    by (auto simp: count_eq_zero_iff [symmetric] le_Suc_eq)
qed

text \<open>\<open>{r.cast_id: r for r in found}\<close>.\<close>

lemma dget_index_other: "k \<notin> f ` set rs \<Longrightarrow> dget (fold (\<lambda>r d. dset (f r) r d) rs d) k = dget d k"
  by (induction rs arbitrary: d) (auto simp: dict_simps)

lemma dget_index:
  "distinct (map f rs) \<Longrightarrow> r \<in> set rs \<Longrightarrow> dget (fold (\<lambda>r d. dset (f r) r d) rs d) (f r) = Some r"
proof (induction rs arbitrary: d)
  case (Cons a rs)
  then show ?case
    using dget_index_other [of "f a" f rs "dset (f a) a d"] by (auto simp: dict_simps)
qed simp

text \<open>The similarity of a cast to the vector of the query.\<close>

definition likeness :: "svec \<Rightarrow> cast_result \<Rightarrow> real" where
  "likeness prox r = cosine_core prox (sg_semantic_vector (cr_sigil r))"

lemma in_set_dget: "dget d k = Some v \<Longrightarrow> v \<in> set (map snd d)"
  by (force dest: map_of_SomeD)

lemma casts_ok_choose:
  assumes "casts_ok R T"
  obtains C where "\<And>row. row \<in> set (map snd T) \<Longrightarrow> deserialize_cast_result R row = Inr (C row)"
    and "\<And>row. row \<in> set (map snd T) \<Longrightarrow> cr_cast_id (C row) = row_cast_id row"
    and "\<And>row. row \<in> set (map snd T) \<Longrightarrow> row_vector row = Inr (sg_semantic_vector (cr_sigil (C row)))"
    and "\<And>row. row \<in> set (map snd T) \<Longrightarrow> dget T (row_cast_id row) = Some row"
proof -
  have "\<forall>row \<in> set (map snd T). \<exists>r. deserialize_cast_result R row = Inr r \<and> cr_cast_id r = row_cast_id row
      \<and> row_vector row = Inr (sg_semantic_vector (cr_sigil r)) \<and> dget T (row_cast_id row) = Some row"
    using casts_ok_row [OF assms] by metis
  from bchoice [OF this] that show ?thesis by metis
qed

lemma best_of_subset: "best_of limit items best \<Longrightarrow> set best \<subseteq> set items"
  using set_mset_mono [of "mset best" "mset items"] by (simp add: best_of_def)

lemma best_of_distinct:
  assumes "best_of limit items best" "distinct (map snd items)"
  shows "distinct (map snd (sort_key f best))"
proof (rule distinct_submset [OF _ assms(2)])
  show "mset (map snd (sort_key f best)) \<subseteq># mset (map snd items)"
    using assms(1) by (simp add: best_of_def image_mset_subseteq_mono)
qed

lemma best_of_left_out:
  assumes "best_of limit items best" "y \<in> set items" "y \<notin> set best" "b \<in> set best"
  shows "fst y \<le> fst b"
proof -
  have "y \<in># mset items - mset best" using assms(2,3)
    by (metis count_greater_zero_iff in_diff_count not_in_iff set_mset_mset)
  with assms(1,4) show ?thesis unfolding best_of_def by blast
qed

lemma mk_semantic_query_limit: "mk_semantic_query q = Inr q' \<Longrightarrow> 0 < sq_limit q"
  by (simp add: mk_semantic_query_def split: if_split_asm)

lemma casts_ok_keys: "casts_ok R T \<Longrightarrow> map row_cast_id (map snd T) = map fst T"
  unfolding casts_ok_def by fastforce

lemma rmap_list_total: "(\<And>x. x \<in> set xs \<Longrightarrow> f x = Inr (g x)) \<Longrightarrow> rmap_list f xs = Inr (map g xs)"
  by (induction xs) simp_all

lemma map_filter_map_snd: "List.map_filter f (map snd xs) = List.map_filter (\<lambda>i. f (snd i)) xs"
  by (induction xs) (simp_all add: map_filter_simps split: option.split)

lemma map_filter_total:
  "(\<And>x. x \<in> set xs \<Longrightarrow> f x = Some (g x)) \<Longrightarrow> List.map_filter f xs = map g xs"
  by (induction xs) (simp_all add: map_filter_simps)

text \<open>
  C11. Over the stored casts, a semantic search with a vector of their basis returns the best
  matches: stored casts, each once, at or above the threshold, in descending order of similarity,
  at most limit of them, and a stored cast above the threshold is only left out when limit casts
  at least as similar are returned.
\<close>

theorem semantic_search_best:
  assumes "casts_ok R T" "mk_semantic_query q = Inr q"
    and "sq_proximity_to q = Some prox" "sq_proximity_threshold q = Some thr"
    and "\<And>k r. read_cast R k T = Inr r \<Longrightarrow>
           normalized_basis_version prox = normalized_basis_version (sg_semantic_vector (cr_sigil r))"
  shows "\<exists>rs. semantic_search R q T = Inr rs
      \<and> distinct (map cr_cast_id rs) \<and> length rs \<le> sq_limit q
      \<and> sorted_wrt (\<lambda>a b. likeness prox b \<le> likeness prox a) rs
      \<and> (\<forall>r \<in> set rs. read_cast R (cr_cast_id r) T = Inr r \<and> thr \<le> likeness prox r)
      \<and> (\<forall>k r. read_cast R k T = Inr r \<longrightarrow> thr \<le> likeness prox r \<longrightarrow> r \<notin> set rs \<longrightarrow>
            length rs = sq_limit q \<and> (\<forall>r' \<in> set rs. likeness prox r \<le> likeness prox r'))"
proof -
  let ?rows = "map snd T"
  obtain C where C: "\<And>row. row \<in> set ?rows \<Longrightarrow> deserialize_cast_result R row = Inr (C row)"
      "\<And>row. row \<in> set ?rows \<Longrightarrow> cr_cast_id (C row) = row_cast_id row"
      "\<And>row. row \<in> set ?rows \<Longrightarrow> row_vector row = Inr (sg_semantic_vector (cr_sigil (C row)))"
      "\<And>row. row \<in> set ?rows \<Longrightarrow> dget T (row_cast_id row) = Some row"
    using casts_ok_choose [OF assms(1)] by blast
  have read: "read_cast R (row_cast_id row) T = Inr (C row)" if "row \<in> set ?rows" for row
    using C(1,4) [OF that] by (simp add: read_cast_def)
  have sim: "cosine_similarity prox (sg_semantic_vector (cr_sigil (C row))) = Inr (likeness prox (C row))"
    if "row \<in> set ?rows" for row
    using assms(5) [OF read [OF that]] by (simp add: cosine_similarity_def likeness_def)
  have inj: "row = row'" if "row \<in> set ?rows" "row' \<in> set ?rows" "row_cast_id row = row_cast_id row'" for row row'
    by (metis C(4) option.inject that)
  define items where "items = filter (\<lambda>i. \<not> fst i < thr) (map (\<lambda>row. (likeness prox (C row), row_cast_id row)) ?rows)"
  define best where "best = foldl (keep_best (sq_limit q)) [] items"
  have scan: "scan_rows prox thr (sq_limit q) ?rows [] = Inr best"
    unfolding best_def items_def by (rule scan_rows_eq) (use C(3) sim in blast)
  have limit: "0 < sq_limit q" using mk_semantic_query_limit [OF assms(2)] by simp
  have "best_of (sq_limit q) [] []" by (simp add: best_of_def heap_def)
  from keep_all_best_of [OF limit this, of items] have best: "best_of (sq_limit q) items best"
    by (simp add: best_def)
  define sorted_best where "sorted_best = sort_key (\<lambda>t. - fst t) best"
  define ids where "ids = map snd sorted_best"
  have dist: "distinct (map row_cast_id ?rows)"
    unfolding casts_ok_keys [OF assms(1)] using assms(1) by (simp add: casts_ok_def keys_distinct_def)
  then have "distinct (map snd items)" by (simp add: items_def distinct_map_filter comp_def)
  then have dist_ids: "distinct ids" unfolding ids_def sorted_best_def by (rule best_of_distinct [OF best])
  have row_of: "\<exists>row \<in> set ?rows. i = (likeness prox (C row), row_cast_id row) \<and> thr \<le> likeness prox (C row)"
    if "i \<in> set best" for i
    using best_of_subset [OF best] that by (fastforce simp: items_def)
  define kept where "kept = filter (\<lambda>row. row_cast_id row \<in> set ids) ?rows"
  have des: "rmap_list (deserialize_cast_result R) kept = Inr (map C kept)"
    using C(1) by (intro rmap_list_total) (auto simp: kept_def)
  define by_id where "by_id = fold (\<lambda>r d. dset (cr_cast_id r) r d) (map C kept) []"
  define rs where "rs = List.map_filter (dget by_id) ids"
  have res: "semantic_search R q T = Inr rs"
    using scan des by (simp add: semantic_search_def assms(3,4) Let_def rs_def by_id_def ids_def
        sorted_best_def map_filter_simps kept_def)
  have kept_ids: "map cr_cast_id (map C kept) = map row_cast_id kept" using C(2) by (simp add: kept_def)
  have "distinct (map cr_cast_id (map C kept))"
    unfolding kept_ids using dist by (simp add: kept_def distinct_map_filter)
  then have found: "dget by_id (row_cast_id row) = Some (C row)"
    if "row \<in> set ?rows" "row_cast_id row \<in> set ids" for row
    using dget_index [of cr_cast_id "map C kept" "C row" "[]"] C(2) that by (auto simp: by_id_def kept_def)
  define cast where "cast i = the (dget by_id (snd i))" for i :: "real \<times> string"
  have cast: "dget by_id (snd i) = Some (cast i)" "read_cast R (snd i) T = Inr (cast i)"
      "cr_cast_id (cast i) = snd i" "likeness prox (cast i) = fst i" "thr \<le> fst i"
    if "i \<in> set sorted_best" for i
  proof -
    have "i \<in> set best" using that by (simp add: sorted_best_def)
    from row_of [OF this] obtain row where row: "row \<in> set ?rows"
        "i = (likeness prox (C row), row_cast_id row)" "thr \<le> likeness prox (C row)" by blast
    moreover have "snd i \<in> set ids" using that by (simp add: ids_def)
    ultimately show "dget by_id (snd i) = Some (cast i)" "read_cast R (snd i) T = Inr (cast i)"
      "cr_cast_id (cast i) = snd i" "likeness prox (cast i) = fst i" "thr \<le> fst i"
      using found [OF row(1)] read [OF row(1)] C(2) [OF row(1)] by (simp_all add: cast_def)
  qed
  have rs: "rs = map cast sorted_best"
    unfolding rs_def ids_def map_filter_map_snd using cast(1) by (rule map_filter_total)
  have "length rs \<le> sq_limit q" using best by (simp add: rs sorted_best_def best_of_def)
  moreover have "map cr_cast_id rs = ids" using cast(3) by (simp add: rs ids_def)
  moreover have "sorted_wrt (\<lambda>a b. likeness prox b \<le> likeness prox a) rs"
  proof -
    have "sorted (map (\<lambda>t. - fst t) sorted_best)" by (simp add: sorted_best_def)
    then have "sorted_wrt (\<lambda>a b. fst b \<le> fst a) sorted_best" by (simp add: sorted_map sorted_wrt_map)
    then have "sorted_wrt (\<lambda>a b. likeness prox (cast b) \<le> likeness prox (cast a)) sorted_best"
      by (rule sorted_wrt_mono_rel [rotated]) (simp add: cast(4))
    then show ?thesis by (simp add: rs sorted_wrt_map)
  qed
  moreover have "read_cast R (cr_cast_id r) T = Inr r \<and> thr \<le> likeness prox r" if "r \<in> set rs" for r
    using that cast unfolding rs by auto
  moreover have "length rs = sq_limit q \<and> (\<forall>r' \<in> set rs. likeness prox r \<le> likeness prox r')"
    if stored: "read_cast R k T = Inr r" and near: "thr \<le> likeness prox r" and out: "r \<notin> set rs" for k r
  proof -
    obtain row where row: "row \<in> set ?rows" "r = C row"
      using stored C(1) by (auto simp: read_cast_def rbind_Inr_iff dest!: in_set_dget)
    let ?i = "(likeness prox r, row_cast_id row)"
    have item: "?i \<in> set items" using row near by (auto simp: items_def)
    have "?i \<notin> set best"
    proof
      assume "?i \<in> set best"
      then have "cast ?i \<in> set rs" "row_cast_id row \<in> set ids" by (force simp: rs sorted_best_def ids_def)+
      with found [OF row(1)] row(2) out show False by (simp add: cast_def)
    qed
    have "likeness prox r \<le> fst b" if "b \<in> set best" for b
      using best_of_left_out [OF best item \<open>?i \<notin> set best\<close> that] by simp
    moreover have "length best = sq_limit q"
    proof (rule ccontr)
      assume "length best \<noteq> sq_limit q"
      then have "size (mset best) = size (mset items)" "mset best \<subseteq># mset items"
        using best by (auto simp: best_of_def)
      then have "mset best = mset items" by (metis mset_subset_size nat_neq_iff subset_mset.le_imp_less_or_eq)
      then show False using item \<open>?i \<notin> set best\<close> by (metis set_mset_mset)
    qed
    ultimately show ?thesis using cast(4) by (auto simp: rs sorted_best_def)
  qed
  ultimately show ?thesis using res dist_ids by blast
qed

lemma scan_rows_mixed:
  assumes "\<And>row. row \<in> set rows \<Longrightarrow> row_vector row = Inr (v row)"
    and "row \<in> set rows" "normalized_basis_version prox \<noteq> normalized_basis_version (v row)"
  shows "\<exists>m. scan_rows prox thr limit rows best = Inl (ValueError m)"
  using assms
proof (induction rows arbitrary: best)
  case (Cons a rows)
  show ?case
  proof (cases "normalized_basis_version prox = normalized_basis_version (v a)")
    case True
    with Cons.prems have "row \<in> set rows" by auto
    with Cons.IH Cons.prems True show ?thesis by (simp add: cosine_similarity_def)
  qed (use Cons.prems(1) in \<open>simp add: cosine_similarity_def\<close>)
qed simp

text \<open>
  One stored cast of another basis version is enough for every semantic search to raise, however
  far that cast is from the vector of the query.
\<close>

theorem semantic_search_mixed_bases:
  assumes "casts_ok R T" "sq_proximity_to q = Some prox" "sq_proximity_threshold q = Some thr"
    and "read_cast R k T = Inr r"
    and "normalized_basis_version prox \<noteq> normalized_basis_version (sg_semantic_vector (cr_sigil r))"
  shows "\<exists>m. semantic_search R q T = Inl (ValueError m)"
proof -
  obtain C where C: "\<And>row. row \<in> set (map snd T) \<Longrightarrow> deserialize_cast_result R row = Inr (C row)"
      "\<And>row. row \<in> set (map snd T) \<Longrightarrow> row_vector row = Inr (sg_semantic_vector (cr_sigil (C row)))"
    using casts_ok_choose [OF assms(1)] by metis
  obtain row where row: "row \<in> set (map snd T)" "r = C row"
    using assms(4) C(1) by (auto simp: read_cast_def rbind_Inr_iff dest!: in_set_dget)
  obtain m where "scan_rows prox thr (sq_limit q) (map snd T) [] = Inl (ValueError m)"
    using scan_rows_mixed [OF C(2) row(1)] assms(5) row(2) by blast
  then show ?thesis by (simp add: semantic_search_def assms(2,3))
qed

lemma restored_fixed:
  assumes "sg_fluid (cr_sigil r) = None"
    and "basis (sg_semantic_vector (cr_sigil r)) \<noteq> None"
    and "\<And>v. v \<in> {iv_vector (vd_intent_vector (cr_verdict r)),
                   iv_constraint_component (vd_intent_vector (cr_verdict r))}
              \<union> set_option (iv_semantic_component (vd_intent_vector (cr_verdict r))) \<Longrightarrow>
           basis v \<noteq> None \<and> n \<le> length (comps v)"
  shows "restored n r = r"
proof -
  have "padded n v = v" if "basis v \<noteq> None" "n \<le> length (comps v)" for v
    using that by (auto simp: padded_def pad_to_def normalized_basis_version_def)
  moreover have "with_basis v = v" if "basis v \<noteq> None" for v
    using that by (auto simp: with_basis_def normalized_basis_version_def)
  ultimately show ?thesis
    using assms by (cases "iv_semantic_component (vd_intent_vector (cr_verdict r))")
      (auto simp: restored_def Let_def)
qed

lemma restored_idem: "restored n (restored n r) = restored n r"
  by (rule restored_fixed)
    (auto simp: restored_def Let_def with_basis_def padded_def pad_to_def)

text \<open>
  C10. A written cast is read back, every other stored cast is unaffected, and a second cast of the
  same id is refused. What is read back is the cast itself with its bases made explicit, the
  vectors of its verdict padded to the dimension of the registry and its fluid metadata dropped;
  a cast that was already of that form comes back unchanged.
\<close>

theorem cast_write_read:
  assumes "casts_ok R T" "cast_valid R r" "\<not> dhas T (cr_cast_id r)"
  shows "\<exists>T'. write_cast R r T = Inr T'
      \<and> read_cast R (cr_cast_id r) T' = Inr (restored (dimensionality R) r)
      \<and> (\<forall>k. k \<noteq> cr_cast_id r \<longrightarrow> read_cast R k T' = read_cast R k T)
      \<and> (\<forall>r'. cr_cast_id r' = cr_cast_id r \<longrightarrow> (\<exists>m. write_cast R r' T' = Inl (ValueError m)))
      \<and> restored (dimensionality R) (restored (dimensionality R) r) = restored (dimensionality R) r"
proof -
  have "registry_ok R" using assms(1) by (simp add: casts_ok_def)
  from deserialize_serialize [OF this assms(2)] assms(3) show ?thesis
    by (simp add: write_cast_def read_cast_def dict_simps restored_idem)
qed

section \<open>Examples\<close>

definition sample_table :: cast_table where
  "sample_table = [(''c1'', serialize_cast_result empty_registry sample_cast)]"

definition sample_query :: "nat \<Rightarrow> semantic_query" where
  "sample_query b =
     \<lparr>sq_aspect_filter = None, sq_verdict_filter = None, sq_min_resonance = None,
      sq_effect_class_filter = None, sq_branch_id = None,
      sq_proximity_to = Some (zero_vec\<lparr>basis := Some b\<rparr>), sq_proximity_threshold = Some 0, sq_limit = 5\<rparr>"

lemma sample_cast_sel:
  "cr_cast_id sample_cast = ''c1''" "cr_sigil sample_cast = sample_sigil SEV_NONE"
  "cr_verdict sample_cast = fallback_verdict empty_registry"
  by (simp_all add: sample_cast_def mk_cast_result_def)

lemma sample_cast_valid: "cast_valid empty_registry sample_cast"
proof -
  have "lit 0.60 \<le> lit 0.65" "0 \<le> lit 0.60" "lit 0.60 \<le> 1"
    using lit_mono [of "0.60" "0.65"] lit_unit [of "0.60"] by simp_all
  then show ?thesis
    unfolding cast_valid_def sample_cast_sel Let_def
    using dimensionality_ge_6 [of empty_registry]
    by (simp add: fallback_verdict_def sample_sigil_def zero_vec_def Let_def mk_resonance_score_def
        mk_intent_vector_def mk_verdict_def full_aspect_order_def)
qed

lemma sample_table_ok: "casts_ok empty_registry sample_table"
proof -
  have "row_cast_id (serialize_cast_result empty_registry sample_cast) = ''c1''"
    by (simp add: serialize_cast_result_def sample_cast_sel)
  then show ?thesis
    using sample_cast_valid registry_ok_empty
    by (auto simp: casts_ok_def sample_table_def keys_distinct_def)
qed

lemma sample_read:
  "read_cast empty_registry ''c1'' sample_table = Inr (restored 6 sample_cast)"
  using deserialize_serialize [OF registry_ok_empty sample_cast_valid]
  by (simp add: read_cast_def sample_table_def dimensionality_eq empty_registry_def registry_init_def)

lemma sample_read_basis:
  assumes "read_cast empty_registry k sample_table = Inr r"
  shows "normalized_basis_version (sg_semantic_vector (cr_sigil r)) = 0"
proof -
  have "k = ''c1''" using assms by (auto simp: read_cast_def sample_table_def split: if_splits)
  with assms sample_read have "r = restored 6 sample_cast" by simp
  then show ?thesis
    by (simp add: restored_def with_basis_def normalized_basis_version_def sample_cast_sel
        sample_sigil_def zero_vec_def)
qed

lemma semantic_search_best_witness:
  "\<exists>rs. semantic_search empty_registry (sample_query 0) sample_table = Inr rs
     \<and> distinct (map cr_cast_id rs) \<and> length rs \<le> 5
     \<and> (\<forall>r \<in> set rs. read_cast empty_registry (cr_cast_id r) sample_table = Inr r)"
proof -
  have "mk_semantic_query (sample_query 0) = Inr (sample_query 0)"
    by (simp add: mk_semantic_query_def sample_query_def)
  moreover have "sq_proximity_to (sample_query 0) = Some (zero_vec\<lparr>basis := Some 0\<rparr>)"
    "sq_proximity_threshold (sample_query 0) = Some 0" "sq_limit (sample_query 0) = 5"
    by (simp_all add: sample_query_def)
  moreover have "normalized_basis_version (zero_vec\<lparr>basis := Some 0\<rparr>) = 0"
    by (simp add: normalized_basis_version_def)
  ultimately show ?thesis
    using semantic_search_best [OF sample_table_ok, of "sample_query 0"] sample_read_basis by fastforce
qed

lemma semantic_search_mixed_bases_witness:
  "\<exists>m. semantic_search empty_registry (sample_query 1) sample_table = Inl (ValueError m)"
  using semantic_search_mixed_bases [OF sample_table_ok _ _ sample_read, of "sample_query 1"]
    sample_read_basis [OF sample_read]
  by (simp add: sample_query_def normalized_basis_version_def)

lemma cast_write_read_witness:
  "\<exists>T'. write_cast empty_registry sample_cast [] = Inr T'
     \<and> read_cast empty_registry ''c1'' T' = Inr (restored 6 sample_cast)"
proof -
  have "casts_ok empty_registry []" using registry_ok_empty by (simp add: casts_ok_def)
  from cast_write_read [OF this sample_cast_valid] show ?thesis
    by (simp add: sample_cast_sel dimensionality_eq empty_registry_def registry_init_def) blast
qed

end
