(* ===== verification/Causal.thy ===== *)
theory Causal
  imports CastStore
begin
text \<open>
  The causal graph: inference and narrative scoring of edges
  (\<open>src/vermyth/engine/operations/causal.py\<close>), the edge table and its breadth-first subgraph
  query (\<open>src/vermyth/grimoire/repositories/causal.py\<close>), and the tools over both
  (\<open>src/vermyth/mcp/tools/causal.py\<close>). The casts are the table of
  \<open>CastStore\<close>, which the edges reference; times are microseconds.
\<close>

section \<open>Edges\<close>

datatype causal_edge_type = CAUSES | INHIBITS | ENABLES | REQUIRES

record causal_edge =
  ce_edge_id :: string
  ce_source :: string
  ce_target :: string
  ce_type :: causal_edge_type
  ce_weight :: real
  ce_created_at :: int
  ce_evidence :: "string option"

definition mk_causal_edge :: "causal_edge \<Rightarrow> causal_edge result" where
  "mk_causal_edge e =
     (if 0 \<le> ce_weight e \<and> ce_weight e \<le> 1
         \<and> (case ce_evidence e of None \<Rightarrow> True | Some t \<Rightarrow> length t \<le> 500)
      then Inr e else Inl (ValueError ''CausalEdge''))"

datatype direction = FORWARD | BACKWARD | BOTH

record causal_query =
  cq_root :: string
  cq_edge_types :: "causal_edge_type list option"
  cq_direction :: direction
  cq_max_depth :: nat
  cq_min_weight :: real

definition mk_causal_query :: "causal_query \<Rightarrow> causal_query result" where
  "mk_causal_query q =
     (if 1 \<le> cq_max_depth q \<and> cq_max_depth q \<le> 100 \<and> 0 \<le> cq_min_weight q \<and> cq_min_weight q \<le> 1
      then Inr q else Inl (ValueError ''CausalQuery''))"

record causal_subgraph =
  sub_root :: string
  sub_nodes :: "string list"
  sub_edges :: "causal_edge list"
  sub_narrative :: real

section \<open>Inference and narrative\<close>

definition time_weight :: "int \<Rightarrow> real" where
  "time_weight dt_us = fdiv 1 (fadd 1 (fdiv (max 0 (fl (of_int dt_us / 10 ^ 6))) 3600))"

definition edge_strength :: "real \<Rightarrow> int \<Rightarrow> real" where
  "edge_strength sim dt_us =
     max 0 (min 1 (fmul (fdiv (fadd sim 1) 2) (time_weight dt_us)))"

definition edge_type_for :: "real \<Rightarrow> verdict_type \<Rightarrow> verdict_type \<Rightarrow> causal_edge_type" where
  "edge_type_for sim vs vt =
     (if sim \<ge> lit 0.55 then CAUSES else if sim \<le> lit (-0.25) then INHIBITS
      else if vs = V_COHERENT \<and> vt = V_COHERENT then ENABLES else REQUIRES)"

definition infer_causal_edge :: "stamp \<Rightarrow> cast_result \<Rightarrow> cast_result \<Rightarrow> causal_edge option result" where
  "infer_causal_edge st source target =
     (if cr_timestamp source \<ge> cr_timestamp target then Inr None
      else
      rbind (cosine_similarity (sg_semantic_vector (cr_sigil source))
               (sg_semantic_vector (cr_sigil target))) (\<lambda>sim.
      let dt = cr_timestamp target - cr_timestamp source; strength = edge_strength sim dt in
      if strength < lit 0.20 then Inr None
      else rbind (mk_causal_edge
             \<lparr>ce_edge_id = fst st, ce_source = cr_cast_id source, ce_target = cr_cast_id target,
              ce_type = edge_type_for sim (cast_verdict source) (cast_verdict target),
              ce_weight = strength, ce_created_at = snd st,
              ce_evidence = Some (''sim='' @ fmt_fixed 3 sim @ '', dt_seconds='' @
                              fmt_fixed 1 (fl (of_int dt / 10 ^ 6)))\<rparr>) (\<lambda>e. Inr (Some e))))"

definition edge_pairs :: "causal_edge list \<Rightarrow> (string \<times> string) list" where
  "edge_pairs es = remdups (map (\<lambda>e. (ce_source e, ce_target e)) es)"

definition pair_contradicts :: "causal_edge list \<Rightarrow> string \<times> string \<Rightarrow> bool" where
  "pair_contradicts es pr \<longleftrightarrow>
     list_ex (\<lambda>e. (ce_source e, ce_target e) = pr \<and> ce_type e = CAUSES) es
     \<and> list_ex (\<lambda>e. (ce_source e, ce_target e) = pr \<and> ce_type e = INHIBITS) es"

definition evaluate_narrative :: "causal_edge list \<Rightarrow> real" where
  "evaluate_narrative es =
     (if es = [] then 0
      else let pairs = edge_pairs es;
               contradictions = length (filter (pair_contradicts es) pairs);
               pen = min 1 (fl (real contradictions / real (max 1 (length pairs))));
               avg = fdiv (fsum (map ce_weight es)) (real (length es))
           in max 0 (min 1 (fmul avg (fsub 1 (fmul 0.5 pen)))))"

definition with_narrative :: "cast_source \<Rightarrow> real option \<Rightarrow> string option \<Rightarrow> cast_result \<Rightarrow> cast_result" where
  "with_narrative dflt narrative root_id r =
     (let b = (case cr_provenance r of
                 Some p \<Rightarrow> p
               | None \<Rightarrow> \<lparr>cp_source = dflt, cp_crystallized_sigil_name = None, cp_generation = None,
                          cp_narrative_coherence = None, cp_causal_root_cast_id = None\<rparr>)
      in r\<lparr>cr_provenance := Some (b\<lparr>cp_narrative_coherence := narrative,
                                      cp_causal_root_cast_id := root_id\<rparr>)\<rparr>)"

definition predictive_cast ::
  "engine \<Rightarrow> (real \<Rightarrow> real) \<Rightarrow> string \<Rightarrow> stamp list \<Rightarrow> causal_subgraph \<Rightarrow> intent \<Rightarrow> cast_result result" where
  "predictive_cast E mexp branch_id stamps graph i =
     rbind (build_intent_vector E i) (\<lambda>iv.
     let seed = iv_vector iv;
         alpha = fadd (lit 0.1) (fmul (lit 0.4) (sub_narrative graph)) in
     rbind (interpolate (eg_registry E) (eg_composition E) mexp seed 3) (\<lambda>fluid.
     let blended = blend_toward (eg_registry E) seed (sg_semantic_vector fluid) alpha in
     rbind (auto_cast E mexp branch_id (take 4 stamps) blended i
              (max (lit 0.65) (sub_narrative graph)) (lit 0.35)) (\<lambda>(r, _, _).
     Inr (with_narrative SRC_FLUID (Some (sub_narrative graph)) (Some (sub_root graph)) r))))"

section \<open>The edge table\<close>

record graph_db =
  gd_casts :: cast_table
  gd_edges :: "(string, causal_edge) dict"

definition incident :: "string \<Rightarrow> causal_edge \<Rightarrow> bool" where
  "incident n e \<longleftrightarrow> ce_source e = n \<or> ce_target e = n"

text \<open>Storing a cast, and deleting one with the edges that refer to it (\<open>ON DELETE CASCADE\<close>).\<close>

definition store_cast :: "registry \<Rightarrow> cast_result \<Rightarrow> graph_db \<Rightarrow> graph_db result" where
  "store_cast R r G = rbind (write_cast R r (gd_casts G)) (\<lambda>T. Inr (G\<lparr>gd_casts := T\<rparr>))"

definition remove_cast :: "string set \<Rightarrow> string \<Rightarrow> graph_db \<Rightarrow> graph_db result" where
  "remove_cast decided cast_id G =
     rbind (delete_cast decided cast_id (gd_casts G)) (\<lambda>T.
     Inr (G\<lparr>gd_casts := T, gd_edges := filter (\<lambda>(k, e). \<not> incident cast_id e) (gd_edges G)\<rparr>))"

definition write_causal_edge :: "causal_edge \<Rightarrow> graph_db \<Rightarrow> graph_db result" where
  "write_causal_edge e G =
     (if dhas (gd_casts G) (ce_source e) \<and> dhas (gd_casts G) (ce_target e)
      then Inr (G\<lparr>gd_edges := dset (ce_edge_id e) e (gd_edges G)\<rparr>)
      else Inl (RuntimeError ''FOREIGN KEY constraint failed''))"

definition read_causal_edge :: "string \<Rightarrow> graph_db \<Rightarrow> causal_edge result" where
  "read_causal_edge edge_id G =
     rbind (of_option (KeyError edge_id) (dget (gd_edges G) edge_id)) mk_causal_edge"

definition delete_causal_edge :: "string \<Rightarrow> graph_db \<Rightarrow> graph_db result" where
  "delete_causal_edge edge_id G =
     (if dhas (gd_edges G) edge_id then Inr (G\<lparr>gd_edges := dpop edge_id (gd_edges G)\<rparr>)
      else Inl (KeyError edge_id))"

definition query_causal_edges ::
  "string option \<Rightarrow> causal_edge_type list \<Rightarrow> real \<Rightarrow> int \<Rightarrow> graph_db \<Rightarrow> causal_edge list" where
  "query_causal_edges cast_id edge_types min_weight limit G =
     sql_limit limit (sort_key (\<lambda>e. - ce_created_at e)
       (filter (\<lambda>e. ce_weight e \<ge> min_weight
                    \<and> (case cast_id of None \<Rightarrow> True | Some c \<Rightarrow> incident c e)
                    \<and> (edge_types = [] \<or> ce_type e \<in> set edge_types))
          (map snd (gd_edges G))))"

section \<open>Breadth-first subgraph\<close>

text \<open>The edges the loop follows from a node, after the filters of its body.\<close>

definition keeps_edge :: "causal_query \<Rightarrow> string \<Rightarrow> causal_edge \<Rightarrow> bool" where
  "keeps_edge q n e \<longleftrightarrow>
     (case cq_edge_types q of None \<Rightarrow> True | Some ts \<Rightarrow> ts = [] \<or> ce_type e \<in> set ts)
     \<and> (cq_direction q = FORWARD \<longrightarrow> ce_source e = n)
     \<and> (cq_direction q = BACKWARD \<longrightarrow> ce_target e = n)"

definition followed_edges :: "causal_query \<Rightarrow> graph_db \<Rightarrow> string \<Rightarrow> causal_edge list" where
  "followed_edges q G n =
     filter (keeps_edge q n) (query_causal_edges (Some n) [] (cq_min_weight q) 1000 G)"

type_synonym bfs_state =
  "string list \<times> (string, causal_edge) dict \<times> (string \<times> nat) list"

definition visit_node :: "nat \<Rightarrow> string \<Rightarrow> bfs_state \<Rightarrow> bfs_state" where
  "visit_node d n st =
     (case st of (nodes, edges, frontier) \<Rightarrow>
        if n \<in> set nodes then st else (nodes @ [n], edges, frontier @ [(n, d)]))"

definition visit_edge :: "nat \<Rightarrow> bfs_state \<Rightarrow> causal_edge \<Rightarrow> bfs_state" where
  "visit_edge d st e =
     (case st of (nodes, edges, frontier) \<Rightarrow>
        visit_node d (ce_target e)
          (visit_node d (ce_source e) (nodes, dset (ce_edge_id e) e edges, frontier)))"

definition endpoints :: "graph_db \<Rightarrow> string set" where
  "endpoints G = (\<lambda>e. ce_source e) ` set (map snd (gd_edges G)) \<union> (\<lambda>e. ce_target e) ` set (map snd (gd_edges G))"

lemma finite_endpoints [simp]: "finite (endpoints G)"
  by (simp add: endpoints_def)

lemma followed_edges_table: "set (followed_edges q G n) \<subseteq> set (map snd (gd_edges G))"
  using set_sql_limit by (fastforce simp: followed_edges_def query_causal_edges_def)

lemma visit_node_measure:
  assumes "visit_node d n (ns, es, fr) = (ns', es', fr')" "n \<in> U" "finite U"
  shows "card (U - set ns') + length fr' = card (U - set ns) + length fr"
proof (cases "n \<in> set ns")
  case False
  have eqs: "ns' = ns @ [n]" "length fr' = Suc (length fr)"
    using assms(1) False by (auto simp: visit_node_def)
  have "n \<in> U - set ns" "finite (U - set ns)" using assms(2,3) False by auto
  from card_Suc_Diff1 [OF this(2,1)] have "Suc (card (U - set ns - {n})) = card (U - set ns)" .
  moreover have "U - set ns' = U - set ns - {n}" using eqs by auto
  ultimately show ?thesis using eqs by simp
qed (use assms in \<open>auto simp: visit_node_def\<close>)

lemma visit_edges_measure:
  assumes "foldl (visit_edge d) (ns, es, fr) L = (ns', es', fr')"
    and "ce_source ` set L \<subseteq> U" "ce_target ` set L \<subseteq> U" "finite U"
  shows "card (U - set ns') + length fr' = card (U - set ns) + length fr"
  using assms
proof (induction L arbitrary: ns es fr)
  case (Cons e L)
  obtain ns1 es1 fr1 where 1: "visit_node d (ce_source e) (ns, dset (ce_edge_id e) e es, fr) = (ns1, es1, fr1)"
    by (metis prod_cases3)
  obtain ns2 es2 fr2 where 2: "visit_node d (ce_target e) (ns1, es1, fr1) = (ns2, es2, fr2)"
    by (metis prod_cases3)
  have v: "visit_edge d (ns, es, fr) e = (ns2, es2, fr2)" by (simp add: visit_edge_def 1 2)
  have "card (U - set ns') + length fr' = card (U - set ns2) + length fr2"
    using Cons.IH Cons.prems v by simp
  moreover have "card (U - set ns2) + length fr2 = card (U - set ns1) + length fr1"
    using visit_node_measure [OF 2] Cons.prems by simp
  moreover have "card (U - set ns1) + length fr1 = card (U - set ns) + length fr"
    using visit_node_measure [OF 1] Cons.prems by simp
  ultimately show ?case by simp
qed simp

text \<open>
  The loop over the frontier. It ends because an iteration takes one entry off and every entry it
  adds is a node of the table that was not visited before.
\<close>

function bfs_loop :: "causal_query \<Rightarrow> graph_db \<Rightarrow> bfs_state \<Rightarrow> bfs_state" where
  "bfs_loop q G (nodes, edges, []) = (nodes, edges, [])"
| "bfs_loop q G (nodes, edges, (n, d) # frontier) =
     (if d \<ge> cq_max_depth q then bfs_loop q G (nodes, edges, frontier)
      else bfs_loop q G (foldl (visit_edge (d + 1)) (nodes, edges, frontier) (followed_edges q G n)))"
  by pat_completeness auto
termination
proof (relation "measure (\<lambda>(q, G, nodes, edges, frontier). card (endpoints G - set nodes) + length frontier)")
  fix q G nodes edges n d frontier
  obtain ns es fr where f: "foldl (visit_edge (d + 1)) (nodes, edges, frontier) (followed_edges q G n) = (ns, es, fr)"
    by (metis prod_cases3)
  have "ce_source ` set (followed_edges q G n) \<subseteq> endpoints G" "ce_target ` set (followed_edges q G n) \<subseteq> endpoints G"
    using followed_edges_table [of q G n] by (auto simp: endpoints_def)
  from visit_edges_measure [OF f this] f
  show "((q, G, foldl (visit_edge (d + 1)) (nodes, edges, frontier) (followed_edges q G n)),
      q, G, nodes, edges, (n, d) # frontier)
      \<in> measure (\<lambda>(q, G, nodes, edges, frontier). card (endpoints G - set nodes) + length frontier)"
    by simp
qed auto

definition causal_subgraph_of :: "causal_query \<Rightarrow> graph_db \<Rightarrow> causal_subgraph" where
  "causal_subgraph_of q G =
     (case bfs_loop q G ([cq_root q], [], [(cq_root q, 0)]) of (nodes, edges, _) \<Rightarrow>
        let es = map snd edges;
            narrative = (if es = [] then 0 else fdiv (fsum (map ce_weight es)) (real (length es)))
        in \<lparr>sub_root = cq_root q, sub_nodes = sort nodes, sub_edges = es,
            sub_narrative = max 0 (min 1 narrative)\<rparr>)"

section \<open>Tools\<close>

definition tool_infer_causal_edge ::
  "registry \<Rightarrow> stamp \<Rightarrow> string \<Rightarrow> string \<Rightarrow> graph_db \<Rightarrow> (causal_edge option \<times> graph_db) result" where
  "tool_infer_causal_edge R st source_id target_id G =
     rbind (read_cast R source_id (gd_casts G)) (\<lambda>source.
     rbind (read_cast R target_id (gd_casts G)) (\<lambda>target.
     rbind (infer_causal_edge st source target) (\<lambda>edge.
     case edge of
       None \<Rightarrow> Inr (None, G)
     | Some e \<Rightarrow> rbind (write_causal_edge e G) (\<lambda>G'. Inr (Some e, G')))))"

definition tool_add_causal_edge :: "causal_edge \<Rightarrow> graph_db \<Rightarrow> (causal_edge \<times> graph_db) result" where
  "tool_add_causal_edge payload G =
     rbind (mk_causal_edge payload) (\<lambda>e. rbind (write_causal_edge e G) (\<lambda>G'. Inr (e, G')))"

definition tool_causal_subgraph :: "causal_query \<Rightarrow> graph_db \<Rightarrow> causal_subgraph result" where
  "tool_causal_subgraph q G = rbind (mk_causal_query q) (\<lambda>q. Inr (causal_subgraph_of q G))"

definition tool_evaluate_narrative :: "string list \<Rightarrow> graph_db \<Rightarrow> (real \<times> nat) result" where
  "tool_evaluate_narrative edge_ids G =
     rbind (rmap_list (\<lambda>i. read_causal_edge i G) edge_ids) (\<lambda>es.
     Inr (evaluate_narrative es, length es))"

text \<open>
  The inferred edge of one leaf is stored as CAUSES; every failure (a leaf that cannot be read, a
  write that is refused) is skipped, except one of the inference itself. What was written before
  an exception stays. \<open>edge_stamps\<close> supplies an identity for every leaf.
\<close>

definition link_leaf :: "registry \<Rightarrow> cast_result \<Rightarrow> string \<times> stamp \<Rightarrow> (graph_db, unit) op" where
  "link_leaf R r leaf G =
     (case read_cast R (fst leaf) (gd_casts G) of
        Inl _ \<Rightarrow> (Inr (), G)
      | Inr l \<Rightarrow>
          (case infer_causal_edge (snd leaf) l r of
             Inl e \<Rightarrow> (Inl e, G)
           | Inr None \<Rightarrow> (Inr (), G)
           | Inr (Some e) \<Rightarrow>
               (case write_causal_edge (e\<lparr>ce_type := CAUSES\<rparr>) G of
                  Inl _ \<Rightarrow> (Inr (), G) | Inr G' \<Rightarrow> (Inr (), G'))))"

fun link_leaves :: "registry \<Rightarrow> cast_result \<Rightarrow> (string \<times> stamp) list \<Rightarrow> (graph_db, unit) op" where
  "link_leaves R r [] = ret ()"
| "link_leaves R r (l # ls) = obind (link_leaf R r l) (\<lambda>_. link_leaves R r ls)"

definition leaf_nodes :: "causal_subgraph \<Rightarrow> string list" where
  "leaf_nodes g = filter (\<lambda>n. n \<notin> set (map ce_source (sub_edges g))) (sub_nodes g)"

text \<open>
  The tool ends in a call of \<open>cast_result_to_dict\<close> that lacks its first argument, the tools: after the
  cast and the edges are written the call raises \<open>TypeError\<close>.
\<close>

definition tool_predictive_cast ::
  "engine \<Rightarrow> (real \<Rightarrow> real) \<Rightarrow> string \<Rightarrow> stamp list \<Rightarrow> stamp list \<Rightarrow> string \<Rightarrow> intent
     \<Rightarrow> (graph_db, json) op" where
  "tool_predictive_cast E mexp branch_id stamps edge_stamps root_id i G =
     (let graph = causal_subgraph_of \<lparr>cq_root = root_id, cq_edge_types = None, cq_direction = BOTH,
                                      cq_max_depth = 5, cq_min_weight = 0\<rparr> G in
      case rbind (predictive_cast E mexp branch_id stamps graph i)
             (\<lambda>r. rbind (store_cast (eg_registry E) r G) (\<lambda>G1. Inr (r, G1))) of
        Inl e \<Rightarrow> (Inl e, G)
      | Inr (r, G1) \<Rightarrow>
          obind (link_leaves (eg_registry E) r (zip (leaf_nodes graph) edge_stamps))
            (\<lambda>_. raise_exc (TypeError ''cast_result_to_dict() missing 1 required positional argument'')) G1)"

section \<open>The subgraph is the bounded reachability of the graph\<close>

text \<open>The rows of the edge table are keyed by the id of their edge.\<close>

definition edge_table_ok :: "graph_db \<Rightarrow> bool" where
  "edge_table_ok G \<longleftrightarrow>
     keys_distinct (gd_edges G) \<and> (\<forall>(k, e) \<in> set (gd_edges G). k = ce_edge_id e \<and> mk_causal_edge e = Inr e)"

definition follows :: "causal_query \<Rightarrow> graph_db \<Rightarrow> (string \<times> string) set" where
  "follows q G = {(a, b). \<exists>e \<in> set (followed_edges q G a). b = ce_source e \<or> b = ce_target e}"

definition near :: "causal_query \<Rightarrow> graph_db \<Rightarrow> nat \<Rightarrow> string set" where
  "near q G k = {n. \<exists>i \<le> k. (cq_root q, n) \<in> follows q G ^^ i}"

lemma near_0 [simp]: "near q G 0 = {cq_root q}"
  by (auto simp: near_def)

lemma near_Suc: "near q G (Suc k) = near q G k \<union> follows q G `` near q G k"
proof
  show "near q G (Suc k) \<subseteq> near q G k \<union> follows q G `` near q G k"
    by (fastforce simp: near_def le_Suc_eq)
  have "near q G k \<subseteq> near q G (Suc k)" by (auto simp: near_def intro: le_SucI)
  moreover have "follows q G `` near q G k \<subseteq> near q G (Suc k)"
    unfolding near_def by clarsimp (meson Suc_le_mono relpow_Suc_I)
  ultimately show "near q G k \<union> follows q G `` near q G k \<subseteq> near q G (Suc k)" by simp
qed

lemma near_mono: "i \<le> k \<Longrightarrow> near q G i \<subseteq> near q G k"
  by (auto simp: near_def intro: order_trans)

lemma near_closed:
  assumes "follows q G `` near q G d \<subseteq> near q G d" "d \<le> k"
  shows "near q G k = near q G d"
  using assms(2)
proof (induction k rule: dec_induct)
  case (step k)
  then show ?case using assms(1) by (simp add: near_Suc) blast
qed simp

definition edges_from :: "causal_query \<Rightarrow> graph_db \<Rightarrow> string set \<Rightarrow> causal_edge set" where
  "edges_from q G X = (\<Union>n \<in> X. set (followed_edges q G n))"

lemma edges_from_insert [simp]:
  "edges_from q G (insert n X) = set (followed_edges q G n) \<union> edges_from q G X"
  by (simp add: edges_from_def)

abbreviation keyed :: "causal_edge set \<Rightarrow> (string \<times> causal_edge) set" where
  "keyed X \<equiv> (\<lambda>e. (ce_edge_id e, e)) ` X"

definition layer :: "nat \<Rightarrow> string list \<Rightarrow> (string \<times> nat) list" where
  "layer d ns = map (\<lambda>n. (n, d)) ns"

lemma set_dset_agree:
  "keys_distinct d \<Longrightarrow> (\<And>v'. (k, v') \<in> set d \<Longrightarrow> v' = v) \<Longrightarrow> set (dset k v d) = insert (k, v) (set d)"
proof (induction d)
  case (Cons a d)
  obtain k' v' where a: "a = (k', v')" by (cases a)
  show ?case
  proof (cases "k' = k")
    case True
    with Cons.prems a show ?thesis by auto
  next
    case False
    have "set (dset k v d) = insert (k, v) (set d)"
      using Cons.IH Cons.prems by (auto simp: keys_distinct_def)
    with False a show ?thesis by auto
  qed
qed simp

text \<open>What following a list of edges of the table adds to the state of the loop.\<close>

lemma visit_edges_effect:
  assumes "edge_table_ok G" "keyed (set L) \<subseteq> set (gd_edges G)"
    and "distinct V" "keys_distinct E" "set E \<subseteq> set (gd_edges G)"
  shows "\<exists>N E'. foldl (visit_edge d) (V, E, F) L = (V @ N, E', F @ layer d N)
           \<and> distinct (V @ N) \<and> set N = (ce_source ` set L \<union> ce_target ` set L) - set V
           \<and> keys_distinct E' \<and> set E' = set E \<union> keyed (set L)"
  using assms(2-)
proof (induction L arbitrary: V E F)
  case Nil
  then show ?case by (auto simp: layer_def intro!: exI [of _ "[]"])
next
  case (Cons e L)
  define E1 where "E1 = dset (ce_edge_id e) e E"
  have row: "(ce_edge_id e, e) \<in> set (gd_edges G)" using Cons.prems by auto
  have E1: "set E1 = insert (ce_edge_id e, e) (set E)" "keys_distinct E1"
    unfolding E1_def using Cons.prems row assms(1)
    by (auto intro!: set_dset_agree dest: eq_key_imp_eq_value
        simp: edge_table_ok_def keys_distinct_def distinct_update)
  define S where "S = (if ce_source e \<in> set V then [] else [ce_source e])"
  define T where "T = (if ce_target e \<in> set (V @ S) then [] else [ce_target e])"
  have v: "visit_edge d (V, E, F) e = (V @ S @ T, E1, F @ layer d (S @ T))"
    by (simp add: visit_edge_def visit_node_def S_def T_def E1_def layer_def)
  have ST: "distinct (V @ S @ T)" "set (S @ T) = {ce_source e, ce_target e} - set V"
    using Cons.prems by (auto simp: S_def T_def)
  obtain N E' where "foldl (visit_edge d) (V @ S @ T, E1, F @ layer d (S @ T)) L
        = ((V @ S @ T) @ N, E', (F @ layer d (S @ T)) @ layer d N)"
      and "distinct ((V @ S @ T) @ N)" "set N = (ce_source ` set L \<union> ce_target ` set L) - set (V @ S @ T)"
      and "keys_distinct E'" "set E' = set E1 \<union> keyed (set L)"
    using Cons.IH [of "V @ S @ T" E1 "F @ layer d (S @ T)"] Cons.prems E1 ST row by auto
  then show ?case using v ST E1
    by (intro exI [of _ "S @ T @ N"] exI [of _ E']) (auto simp: layer_def)
qed

text \<open>
  The loop at depth \<open>d\<close>: \<open>A\<close> is what is left of the layer, \<open>B\<close> what was found of the next one.
\<close>

definition bfs_inv ::
  "causal_query \<Rightarrow> graph_db \<Rightarrow> nat \<Rightarrow> string list \<Rightarrow> string list \<Rightarrow> bfs_state \<Rightarrow> bool" where
  "bfs_inv q G d A B st \<longleftrightarrow>
     (case st of (V, E, F) \<Rightarrow>
        F = layer d A @ layer (Suc d) B \<and> d \<le> cq_max_depth q \<and> distinct V \<and> distinct (A @ B)
        \<and> set A \<subseteq> near q G d \<and> set B \<subseteq> near q G (Suc d) - near q G d
        \<and> set V = near q G d \<union> set B \<and> keys_distinct E
        \<and> (if d < cq_max_depth q
            then follows q G `` (near q G d - set A) \<subseteq> set V
                 \<and> set E = keyed (edges_from q G (near q G d - set A))
            else B = [] \<and> set E = keyed (edges_from q G (near q G (cq_max_depth q - 1)))))"

lemma bfs_inv_next_layer:
  assumes inv: "bfs_inv q G d [] B st" and d: "d < cq_max_depth q"
  shows "bfs_inv q G (Suc d) B [] st"
proof -
  obtain V E F where st: "st = (V, E, F)" by (cases st)
  have V: "set V = near q G (Suc d)" and B: "near q G (Suc d) - set B = near q G d"
    using inv d st by (auto simp: bfs_inv_def near_Suc)
  have "cq_max_depth q - 1 = d" if "\<not> Suc d < cq_max_depth q" using that d by simp
  moreover have "follows q G `` near q G d \<subseteq> near q G (Suc d)" by (auto simp: near_Suc)
  ultimately show ?thesis using inv d st V B
    by (auto simp: bfs_inv_def layer_def Suc_le_eq)
qed

lemma followed_keyed:
  "edge_table_ok G \<Longrightarrow> keyed (set (followed_edges q G n)) \<subseteq> set (gd_edges G)"
  using followed_edges_table [of q G n] by (fastforce simp: edge_table_ok_def)

lemma bfs_inv_inner:
  "d < cq_max_depth q \<Longrightarrow>
   bfs_inv q G d A B (V, E, F) \<longleftrightarrow>
     F = layer d A @ layer (Suc d) B \<and> distinct V \<and> distinct (A @ B)
     \<and> set A \<subseteq> near q G d \<and> set B \<subseteq> near q G (Suc d) - near q G d
     \<and> set V = near q G d \<union> set B \<and> keys_distinct E
     \<and> follows q G `` (near q G d - set A) \<subseteq> set V
     \<and> set E = keyed (edges_from q G (near q G d - set A))"
  by (simp add: bfs_inv_def)

lemma keyed_edges_from:
  "edge_table_ok G \<Longrightarrow> keyed (edges_from q G X) \<subseteq> set (gd_edges G)"
  using followed_keyed by (fastforce simp: edges_from_def)

lemma follows_ends:
  "ce_source ` set (followed_edges q G n) \<union> ce_target ` set (followed_edges q G n) = follows q G `` {n}"
  by (auto simp: follows_def)

lemma bfs_inv_visit:
  assumes ok: "edge_table_ok G" and d: "d < cq_max_depth q"
    and inv: "bfs_inv q G d (n # A) B (V, E, (n, d) # F)"
  shows "\<exists>B'. bfs_inv q G d A B' (foldl (visit_edge (d + 1)) (V, E, F) (followed_edges q G n))"
proof -
  let ?W = "near q G d"
  have F: "F = layer d A @ layer (Suc d) B" and dV: "distinct V" and dAB: "distinct (n # A @ B)"
    and A: "n \<in> ?W" "set A \<subseteq> ?W" and B: "set B \<subseteq> near q G (Suc d) - ?W"
    and V: "set V = ?W \<union> set B" and dE: "keys_distinct E"
    and fol: "follows q G `` (?W - set (n # A)) \<subseteq> ?W \<union> set B"
    and setE: "set E = keyed (edges_from q G (?W - set (n # A)))"
    using inv unfolding bfs_inv_inner [OF d] by (simp_all add: layer_def, blast)
  have E: "set E \<subseteq> set (gd_edges G)" using setE keyed_edges_from [OF ok] by simp
  obtain N E' where f: "foldl (visit_edge (d + 1)) (V, E, F) (followed_edges q G n) = (V @ N, E', F @ layer (d + 1) N)"
    and N: "distinct (V @ N)" "set N = follows q G `` {n} - set V"
    and E': "keys_distinct E'" "set E' = set E \<union> keyed (set (followed_edges q G n))"
    using visit_edges_effect [OF ok followed_keyed [OF ok, of q n] dV dE E, of "d + 1" F]
    unfolding follows_ends by metis
  have W: "?W - set A = insert n (?W - set (n # A))" using A dAB by auto
  have 1: "F @ layer (d + 1) N = layer d A @ layer (Suc d) (B @ N)" using F by (simp add: layer_def)
  have 2: "distinct (A @ B @ N)" using dAB N A V by auto
  have "follows q G `` {n} \<subseteq> near q G (Suc d)" using A by (auto simp: near_Suc)
  with B N(2) V have 3: "set (B @ N) \<subseteq> near q G (Suc d) - ?W" by auto
  have 4: "set (V @ N) = ?W \<union> set (B @ N)" using V by auto
  have "follows q G `` {n} \<subseteq> set (V @ N)" using N(2) by auto
  with fol V have 5: "follows q G `` (?W - set A) \<subseteq> set (V @ N)" unfolding W by auto
  have 6: "set E' = keyed (edges_from q G (?W - set A))"
    using setE E'(2) unfolding W by (simp add: image_Un Un_commute)
  have "bfs_inv q G d A (B @ N) (V @ N, E', F @ layer (d + 1) N)"
    unfolding bfs_inv_inner [OF d] using 1 2 3 4 5 6 N(1) E'(1) A(2) by simp
  then show ?thesis using f by auto
qed

lemma bfs_inv_front:
  assumes inv: "bfs_inv q G d A B (V, E, (n, m) # F)"
  obtains A' B' where "bfs_inv q G m (n # A') B' (V, E, (n, m) # F)"
proof (cases A)
  case (Cons a A')
  with inv have "a = n" "d = m" by (auto simp: bfs_inv_def layer_def)
  with inv Cons that show ?thesis by blast
next
  case Nil
  show ?thesis
  proof (cases "d < cq_max_depth q")
    case True
    from bfs_inv_next_layer [OF _ True] inv Nil
    have next_inv: "bfs_inv q G (Suc d) B [] (V, E, (n, m) # F)" by blast
    then obtain B' where "B = n # B'" "m = Suc d"
      by (cases B) (auto simp: bfs_inv_def layer_def)
    with next_inv that show ?thesis by blast
  qed (use inv Nil in \<open>auto simp: bfs_inv_def layer_def\<close>)
qed

lemma bfs_inv_bottom:
  assumes "bfs_inv q G d (n # A) B (V, E, (n, d) # F)" "cq_max_depth q \<le> d"
  shows "bfs_inv q G d A [] (V, E, F)"
  using assms by (auto simp: bfs_inv_def layer_def)

lemma bfs_inv_done:
  assumes "bfs_inv q G d [] [] (V, E, F)"
  shows "distinct V \<and> set V = near q G (cq_max_depth q) \<and> keys_distinct E
           \<and> set E = keyed (edges_from q G (near q G (cq_max_depth q - 1)))"
proof (cases "d < cq_max_depth q")
  case True
  have "bfs_inv q G d [] [] (V, E, F) \<longleftrightarrow> F = [] \<and> distinct V \<and> set V = near q G d \<and> keys_distinct E
      \<and> follows q G `` near q G d \<subseteq> set V \<and> set E = keyed (edges_from q G (near q G d))"
    unfolding bfs_inv_inner [OF True] by (simp add: layer_def)
  with assms have "distinct V" "keys_distinct E" and V: "set V = near q G d"
    and E: "set E = keyed (edges_from q G (near q G d))"
    and fol: "follows q G `` near q G d \<subseteq> set V"
    by (blast, blast, blast, blast, blast)
  have "near q G (cq_max_depth q) = near q G d" "near q G (cq_max_depth q - 1) = near q G d"
    by (rule near_closed [OF fol [unfolded V]]; use True in simp)+
  then show ?thesis using \<open>distinct V\<close> \<open>keys_distinct E\<close> V E by simp
next
  case False
  with assms have "d = cq_max_depth q" by (simp add: bfs_inv_def)
  with assms show ?thesis by (simp add: bfs_inv_def)
qed

lemma bfs_loop_inv:
  assumes "edge_table_ok G" "bfs_inv q G d A B st"
  shows "case bfs_loop q G st of (V, E, _) \<Rightarrow>
           distinct V \<and> set V = near q G (cq_max_depth q) \<and> keys_distinct E
           \<and> set E = keyed (edges_from q G (near q G (cq_max_depth q - 1)))"
  using assms
proof (induction q G st arbitrary: d A B rule: bfs_loop.induct)
  case (1 q G V E)
  then have "A = []" "B = []" by (auto simp: bfs_inv_def layer_def)
  with 1 bfs_inv_done show ?case by simp
next
  case (2 q G V E n m F)
  obtain A' B' where inv: "bfs_inv q G m (n # A') B' (V, E, (n, m) # F)"
    using bfs_inv_front [OF 2(4)] .
  show ?case
  proof (cases "cq_max_depth q \<le> m")
    case True
    from 2(1) [OF True 2(3) bfs_inv_bottom [OF inv True]] True show ?thesis by simp
  next
    case False
    then have "m < cq_max_depth q" by simp
    from bfs_inv_visit [OF 2(3) this inv] obtain B''
      where "bfs_inv q G m A' B'' (foldl (visit_edge (m + 1)) (V, E, F) (followed_edges q G n))" ..
    from 2(2) [OF False 2(3) this] False show ?thesis by simp
  qed
qed

lemma bfs_inv_init:
  "0 < cq_max_depth q \<Longrightarrow> bfs_inv q G 0 [cq_root q] [] ([cq_root q], [], [(cq_root q, 0)])"
  by (simp add: bfs_inv_def layer_def edges_from_def)

lemma subgraph_reaches:
  assumes "edge_table_ok G" "0 < cq_max_depth q"
  defines "g \<equiv> causal_subgraph_of q G"
  shows "set (sub_nodes g) = near q G (cq_max_depth q)" "distinct (sub_nodes g)" "sorted (sub_nodes g)"
    and "set (sub_edges g) = edges_from q G (near q G (cq_max_depth q - 1))" "distinct (sub_edges g)"
proof -
  obtain V E F where l: "bfs_loop q G ([cq_root q], [], [(cq_root q, 0)]) = (V, E, F)"
    by (metis prod_cases3)
  have g: "sub_nodes g = sort V" "sub_edges g = map snd E"
    by (simp_all add: g_def causal_subgraph_of_def l Let_def del: bfs_loop.simps)
  from bfs_loop_inv [OF assms(1) bfs_inv_init [OF assms(2)]]
  have *: "distinct V" "set V = near q G (cq_max_depth q)" "keys_distinct E"
      "set E = keyed (edges_from q G (near q G (cq_max_depth q - 1)))"
    by (simp_all add: l del: bfs_loop.simps)
  then show "set (sub_nodes g) = near q G (cq_max_depth q)" "distinct (sub_nodes g)" "sorted (sub_nodes g)"
    by (simp_all add: g)
  have "snd ` keyed X = X" for X by (simp add: image_image)
  then show "set (sub_edges g) = edges_from q G (near q G (cq_max_depth q - 1))"
    using *(4) by (simp add: g)
  have "inj_on snd (set E)" unfolding *(4) by (auto intro: inj_onI)
  moreover have "distinct E" using *(3) by (simp add: keys_distinct_def distinct_map)
  ultimately show "distinct (sub_edges g)" by (simp add: g distinct_map)
qed

section \<open>Reachability in the stored graph\<close>

text \<open>The edges of the table a query may follow from a node, and the graph they form.\<close>

definition matching :: "causal_query \<Rightarrow> graph_db \<Rightarrow> string \<Rightarrow> causal_edge list" where
  "matching q G n = filter (\<lambda>e. ce_weight e \<ge> cq_min_weight q \<and> incident n e) (map snd (gd_edges G))"

definition edge_links :: "causal_query \<Rightarrow> graph_db \<Rightarrow> (string \<times> string) set" where
  "edge_links q G =
     {(a, b). \<exists>e \<in> set (matching q G a). keeps_edge q a e \<and> (b = ce_source e \<or> b = ce_target e)}"

lemma followed_edges_matching:
  assumes "length (matching q G n) \<le> 1000"
  shows "set (followed_edges q G n) = {e \<in> set (matching q G n). keeps_edge q n e}"
  using assms by (auto simp: followed_edges_def query_causal_edges_def matching_def sql_limit_def)

lemma follows_links:
  "(\<And>n. length (matching q G n) \<le> 1000) \<Longrightarrow> follows q G = edge_links q G"
  by (auto simp: follows_def edge_links_def followed_edges_matching)

text \<open>
  C12. A causal subgraph query whose depth and weight are in range answers with exactly the casts
  reachable from the root in at most max_depth hops along the matching edges, each once and in
  sorted order, and with exactly the matching edges that leave a cast less than max_depth hops
  away, each once, provided no cast has more than 1000 incident edges above the weight (the LIMIT
  of the neighbour query, which is applied before the type filter).
\<close>

theorem causal_subgraph_reaches:
  assumes "edge_table_ok G" "mk_causal_query q = Inr q"
    and "\<And>n. length (matching q G n) \<le> 1000"
  shows "\<exists>g. tool_causal_subgraph q G = Inr g
      \<and> set (sub_nodes g) = {n. \<exists>i \<le> cq_max_depth q. (cq_root q, n) \<in> edge_links q G ^^ i}
      \<and> distinct (sub_nodes g) \<and> sorted (sub_nodes g) \<and> distinct (sub_edges g)
      \<and> set (sub_edges g) =
          {e. \<exists>n. (\<exists>i < cq_max_depth q. (cq_root q, n) \<in> edge_links q G ^^ i)
                  \<and> e \<in> set (matching q G n) \<and> keeps_edge q n e}"
proof -
  have depth: "0 < cq_max_depth q"
    using assms(2) by (auto simp: mk_causal_query_def split: if_splits)
  have less: "i \<le> cq_max_depth q - Suc 0 \<longleftrightarrow> i < cq_max_depth q" for i using depth by auto
  note g = subgraph_reaches [OF assms(1) depth]
  have "near q G k = {n. \<exists>i \<le> k. (cq_root q, n) \<in> edge_links q G ^^ i}" for k
    by (simp add: near_def follows_links [OF assms(3)])
  with g show ?thesis using assms(2)
    by (auto simp: tool_causal_subgraph_def edges_from_def followed_edges_matching [OF assms(3)] less)
qed

section \<open>Integrity of the stored graph\<close>

definition graph_ok :: "graph_db \<Rightarrow> bool" where
  "graph_ok G \<longleftrightarrow>
     keys_distinct (gd_casts G) \<and> (\<forall>(k, row) \<in> set (gd_casts G). k = row_cast_id row) \<and> edge_table_ok G
     \<and> (\<forall>e \<in> set (map snd (gd_edges G)).
          dhas (gd_casts G) (ce_source e) \<and> dhas (gd_casts G) (ce_target e))"

text \<open>Every stored edge points forward in time.\<close>

definition forward :: "graph_db \<Rightarrow> bool" where
  "forward G \<longleftrightarrow>
     (\<forall>e \<in> set (map snd (gd_edges G)). \<forall>a b.
        dget (gd_casts G) (ce_source e) = Some a \<longrightarrow> dget (gd_casts G) (ce_target e) = Some b
        \<longrightarrow> row_timestamp a < row_timestamp b)"

definition edge_relation :: "graph_db \<Rightarrow> (string \<times> string) set" where
  "edge_relation G = {(ce_source e, ce_target e) | e. e \<in> set (map snd (gd_edges G))}"

text \<open>A step of the tools on the graph; every one but the explicit insertion of an edge.\<close>

inductive graph_step :: "graph_db \<Rightarrow> graph_db \<Rightarrow> bool" where
  store: "store_cast R r G = Inr G' \<Longrightarrow> graph_step G G'"
| remove: "remove_cast decided k G = Inr G' \<Longrightarrow> graph_step G G'"
| infer: "tool_infer_causal_edge R st a b G = Inr (r, G') \<Longrightarrow> graph_step G G'"
| predict: "tool_predictive_cast E mexp br sts ests rt i G = (res, G') \<Longrightarrow> graph_step G G'"
| delete: "delete_causal_edge k G = Inr G' \<Longrightarrow> graph_step G G'"

definition empty_graph :: graph_db where
  "empty_graph = \<lparr>gd_casts = [], gd_edges = []\<rparr>"

definition graph_inv :: "graph_db \<Rightarrow> bool" where
  "graph_inv G \<longleftrightarrow> graph_ok G \<and> forward G"

lemma row_of_serialize [simp]:
  "row_cast_id (serialize_cast_result R r) = cr_cast_id r"
  "row_timestamp (serialize_cast_result R r) = cr_timestamp r"
  by (simp_all add: serialize_cast_result_def)

lemma store_cast_inv:
  assumes "store_cast R r G = Inr G'" "graph_inv G"
  shows "graph_inv G'" "dget (gd_casts G') (cr_cast_id r) = Some (serialize_cast_result R r)"
proof -
  let ?row = "serialize_cast_result R r"
  have new: "\<not> dhas (gd_casts G) (cr_cast_id r)"
    and G': "G' = G\<lparr>gd_casts := dset (cr_cast_id r) ?row (gd_casts G)\<rparr>"
    using assms(1) by (auto simp: store_cast_def write_cast_def split: if_splits)
  have ok: "graph_ok G" and fw: "forward G" using assms(2) by (auto simp: graph_inv_def)
  have known: "ce_source e \<noteq> cr_cast_id r \<and> ce_target e \<noteq> cr_cast_id r"
    if "e \<in> set (map snd (gd_edges G))" for e
    using ok new that by (auto simp: graph_ok_def)
  have "graph_ok G'"
    using ok unfolding G' graph_ok_def edge_table_ok_def
    by (auto simp: dict_simps dest!: in_set_dset)
  moreover have "forward G'"
    using fw known unfolding G' forward_def by (auto simp: dict_simps)
  ultimately show "graph_inv G'" by (simp add: graph_inv_def)
  show "dget (gd_casts G') (cr_cast_id r) = Some ?row" by (simp add: G' dict_simps)
qed

lemma remove_cast_inv:
  assumes "remove_cast decided k G = Inr G'" "graph_inv G"
  shows "graph_inv G'"
proof -
  have G': "G' = G\<lparr>gd_casts := dpop k (gd_casts G), gd_edges := filter (\<lambda>(i, e). \<not> incident k e) (gd_edges G)\<rparr>"
    using assms(1) by (auto simp: remove_cast_def delete_cast_def split: if_splits)
  have "set (dpop k (gd_casts G)) \<subseteq> set (gd_casts G)" by (auto simp: AList.delete_eq)
  moreover have "keys_distinct (gd_edges G')" using assms(2)
    by (auto simp: G' graph_inv_def graph_ok_def edge_table_ok_def keys_distinct_def distinct_map_filter)
  ultimately show ?thesis
    using assms(2) unfolding graph_inv_def graph_ok_def edge_table_ok_def forward_def
    by (auto simp: G' dict_simps incident_def)
qed

lemma read_cast_row:
  assumes "graph_ok G" "read_cast R c (gd_casts G) = Inr r"
  obtains row where "dget (gd_casts G) c = Some row" "cr_cast_id r = c" "cr_timestamp r = row_timestamp row"
proof -
  obtain row where row: "dget (gd_casts G) c = Some row" "deserialize_cast_result R row = Inr r"
    using assms(2) by (auto simp: read_cast_def rbind_Inr_iff)
  have "row_cast_id row = c" using assms(1) map_of_SomeD [OF row(1)] by (auto simp: graph_ok_def)
  moreover have "cr_cast_id r = row_cast_id row" "cr_timestamp r = row_timestamp row"
    using row(2) by (auto simp: deserialize_cast_result_def rbind_Inr_iff)
  ultimately show ?thesis using that row by simp
qed

lemma infer_causal_edge_Some:
  assumes "infer_causal_edge st a b = Inr (Some e)"
  shows "cr_timestamp a < cr_timestamp b" "ce_source e = cr_cast_id a" "ce_target e = cr_cast_id b"
    "mk_causal_edge e = Inr e" "ce_edge_id e = fst st"
  using assms by (auto simp: infer_causal_edge_def rbind_Inr_iff mk_causal_edge_def Let_def split: if_splits)

lemma write_edge_inv:
  assumes "write_causal_edge e G = Inr G'" "graph_inv G" "mk_causal_edge e = Inr e"
    and "\<And>a b. dget (gd_casts G) (ce_source e) = Some a \<Longrightarrow> dget (gd_casts G) (ce_target e) = Some b \<Longrightarrow>
            row_timestamp a < row_timestamp b"
  shows "graph_inv G'" "gd_casts G' = gd_casts G"
proof -
  have G': "G' = G\<lparr>gd_edges := dset (ce_edge_id e) e (gd_edges G)\<rparr>"
    and ends: "dhas (gd_casts G) (ce_source e)" "dhas (gd_casts G) (ce_target e)"
    using assms(1) by (auto simp: write_causal_edge_def split: if_splits)
  have rows: "e' = e \<or> e' \<in> set (map snd (gd_edges G))" if "e' \<in> set (map snd (gd_edges G'))" for e'
    using that by (force simp: G' dest: in_set_dset)
  have ok: "graph_ok G" and fw: "forward G" using assms(2) by (auto simp: graph_inv_def)
  have "edge_table_ok G'"
    using ok assms(3) unfolding G' graph_ok_def edge_table_ok_def by (auto dest!: in_set_dset)
  moreover show casts: "gd_casts G' = gd_casts G" by (simp add: G')
  ultimately have "graph_ok G'" using ok ends rows unfolding graph_ok_def by metis
  moreover have "forward G'"
    using fw assms(4) rows casts unfolding forward_def by metis
  ultimately show "graph_inv G'" by (simp add: graph_inv_def)
qed

lemma delete_edge_inv:
  assumes "delete_causal_edge k G = Inr G'" "graph_inv G"
  shows "graph_inv G'"
proof -
  have G': "G' = G\<lparr>gd_edges := dpop k (gd_edges G)\<rparr>"
    using assms(1) by (auto simp: delete_causal_edge_def split: if_splits)
  have "set (gd_edges G') \<subseteq> set (gd_edges G)" by (auto simp: G' AList.delete_eq)
  then show ?thesis
    using assms(2) unfolding graph_inv_def graph_ok_def edge_table_ok_def forward_def
    by (auto simp: G')
qed

lemma infer_inv:
  assumes "tool_infer_causal_edge R st a b G = Inr (r, G')" "graph_inv G"
  shows "graph_inv G'"
proof -
  have ok: "graph_ok G" using assms(2) by (simp add: graph_inv_def)
  obtain s t edge where reads: "read_cast R a (gd_casts G) = Inr s" "read_cast R b (gd_casts G) = Inr t"
    and inf: "infer_causal_edge st s t = Inr edge"
    and rest: "(case edge of None \<Rightarrow> Inr (None, G)
          | Some e \<Rightarrow> rbind (write_causal_edge e G) (\<lambda>G'. Inr (Some e, G'))) = Inr (r, G')"
    using assms(1) by (auto simp: tool_infer_causal_edge_def rbind_Inr_iff)
  obtain ra rb where rows: "dget (gd_casts G) a = Some ra" "cr_cast_id s = a" "cr_timestamp s = row_timestamp ra"
      "dget (gd_casts G) b = Some rb" "cr_cast_id t = b" "cr_timestamp t = row_timestamp rb"
    using read_cast_row [OF ok reads(1)] read_cast_row [OF ok reads(2)] by metis
  show ?thesis
  proof (cases edge)
    case (Some e)
    note e = infer_causal_edge_Some [OF inf [unfolded Some]]
    have "write_causal_edge e G = Inr G'" using rest Some by (auto simp: rbind_Inr_iff)
    with assms(2) e rows show ?thesis by (intro write_edge_inv [of e G G']) auto
  qed (use rest assms(2) in auto)
qed

text \<open>The state in which the leaves are linked to the cast \<open>r\<close> that was just written.\<close>

definition linking :: "cast_result \<Rightarrow> graph_db \<Rightarrow> bool" where
  "linking r G \<longleftrightarrow> graph_inv G
     \<and> (\<exists>row. dget (gd_casts G) (cr_cast_id r) = Some row \<and> row_timestamp row = cr_timestamp r)"

lemma link_leaf_preserves: "preserves (linking r) (link_leaf R r leaf)"
  unfolding preserves_def
proof (intro allI impI)
  fix G assume inv: "linking r G"
  then have ok: "graph_ok G" by (simp add: linking_def graph_inv_def)
  show "linking r (snd (link_leaf R r leaf G))"
  proof (cases "\<exists>l e G'. read_cast R (fst leaf) (gd_casts G) = Inr l
      \<and> infer_causal_edge (snd leaf) l r = Inr (Some e)
      \<and> write_causal_edge (e\<lparr>ce_type := CAUSES\<rparr>) G = Inr G'")
    case True
    then obtain l e G' where l: "read_cast R (fst leaf) (gd_casts G) = Inr l"
      and inf: "infer_causal_edge (snd leaf) l r = Inr (Some e)"
      and wr: "write_causal_edge (e\<lparr>ce_type := CAUSES\<rparr>) G = Inr G'" by blast
    note e = infer_causal_edge_Some [OF inf]
    obtain row where row: "dget (gd_casts G) (fst leaf) = Some row" "cr_cast_id l = fst leaf"
        "cr_timestamp l = row_timestamp row" using read_cast_row [OF ok l] .
    have "graph_inv G' \<and> gd_casts G' = gd_casts G"
      using inv e row by (intro conjI write_edge_inv [OF wr])
        (auto simp: linking_def mk_causal_edge_def split: if_splits)
    then show ?thesis using l inf wr inv by (simp add: link_leaf_def linking_def)
  next
    case False
    then have "snd (link_leaf R r leaf G) = G"
      by (auto simp: link_leaf_def split: sum.splits option.splits)
    then show ?thesis using inv by simp
  qed
qed

lemma link_leaves_preserves: "preserves (linking r) (link_leaves R r ls)"
  by (induction ls) (auto intro: link_leaf_preserves)

lemma predict_inv:
  assumes "tool_predictive_cast E mexp br sts ests rt i G = (res, G')" "graph_inv G"
  shows "graph_inv G'"
proof (cases "rbind (predictive_cast E mexp br sts (causal_subgraph_of \<lparr>cq_root = rt, cq_edge_types = None,
      cq_direction = BOTH, cq_max_depth = 5, cq_min_weight = 0\<rparr> G) i)
      (\<lambda>r. rbind (store_cast (eg_registry E) r G) (\<lambda>G1. Inr (r, G1)))")
  case (Inl e)
  with assms show ?thesis by (simp add: tool_predictive_cast_def)
next
  case (Inr p)
  then obtain r G1 where p: "p = (r, G1)" "store_cast (eg_registry E) r G = Inr G1"
    by (auto simp: rbind_Inr_iff)
  have "linking r G1" using store_cast_inv [OF p(2) assms(2)] by (simp add: linking_def)
  moreover have "preserves (linking r) (obind (link_leaves (eg_registry E) r ls) (\<lambda>_. raise_exc e))" for ls and e :: py_exc
    by (auto intro: link_leaves_preserves)
  ultimately have "linking r G'"
    using assms(1) Inr p(1) by (auto simp: tool_predictive_cast_def Let_def intro: preservesD)
  then show ?thesis by (simp add: linking_def)
qed

text \<open>The call never answers; a prediction that can be stored is stored all the same.\<close>

lemma prediction_lost:
  assumes "tool_predictive_cast E mexp br sts ests rt i G = (res, G')" "graph_inv G"
    and "predictive_cast E mexp br sts (causal_subgraph_of \<lparr>cq_root = rt, cq_edge_types = None,
      cq_direction = BOTH, cq_max_depth = 5, cq_min_weight = 0\<rparr> G) i = Inr r"
    and "store_cast (eg_registry E) r G = Inr G1"
  shows "(\<exists>e. res = Inl e) \<and> dhas (gd_casts G') (cr_cast_id r)"
proof -
  have "linking r G1" using store_cast_inv [OF assms(4,2)] by (simp add: linking_def)
  moreover have "preserves (linking r) (obind (link_leaves (eg_registry E) r ls) (\<lambda>_. raise_exc e))" for ls and e :: py_exc
    by (auto intro: link_leaves_preserves)
  ultimately have "linking r G'"
    using assms(1,3,4) by (auto simp: tool_predictive_cast_def Let_def intro: preservesD)
  moreover have "\<exists>e. res = Inl e"
    using assms(1,3,4) by (auto simp: tool_predictive_cast_def Let_def obind_def raise_exc_def split: prod.splits sum.splits)
  ultimately show ?thesis by (auto simp: linking_def)
qed

lemma graph_step_inv: "graph_step G G' \<Longrightarrow> graph_inv G \<Longrightarrow> graph_inv G'"
  by (induction rule: graph_step.induct)
    (auto intro: store_cast_inv remove_cast_inv infer_inv predict_inv delete_edge_inv)

text \<open>
  C13. However casts are stored, edges inferred, predictions linked and edges deleted, starting
  from an empty store: every edge joins two stored casts, lies in the limits of the model and is
  filed under its own id, and the stored edges form an acyclic graph.
\<close>

theorem inferred_graph_acyclic:
  assumes "graph_step\<^sup>*\<^sup>* empty_graph G"
  shows "acyclic (edge_relation G)
    \<and> (\<forall>e \<in> set (map snd (gd_edges G)).
          read_causal_edge (ce_edge_id e) G = Inr e
          \<and> dhas (gd_casts G) (ce_source e) \<and> dhas (gd_casts G) (ce_target e))"
proof -
  have "graph_inv empty_graph"
    by (simp add: graph_inv_def graph_ok_def edge_table_ok_def forward_def empty_graph_def)
  with assms have inv: "graph_inv G"
    by (induction rule: rtranclp_induct) (auto intro: graph_step_inv)
  define time where "time = (\<lambda>c. case dget (gd_casts G) c of None \<Rightarrow> 0 | Some r \<Rightarrow> row_timestamp r)"
  have "time a < time b" if "(a, b) \<in> edge_relation G" for a b
    using inv that by (fastforce simp: edge_relation_def graph_inv_def graph_ok_def forward_def time_def)
  note step = this
  have "time a < time b" if "(a, b) \<in> (edge_relation G)\<^sup>+" for a b
    using that by (induction rule: trancl_induct) (auto dest: step intro: less_trans)
  then have "acyclic (edge_relation G)" by (meson acyclic_def less_irrefl)
  moreover have "read_causal_edge (ce_edge_id e) G = Inr e" if "e \<in> set (map snd (gd_edges G))" for e
  proof -
    have "(ce_edge_id e, e) \<in> set (gd_edges G)" "mk_causal_edge e = Inr e" "keys_distinct (gd_edges G)"
      using inv that by (auto simp: graph_inv_def graph_ok_def edge_table_ok_def)
    then have "dget (gd_edges G) (ce_edge_id e) = Some e" by (simp add: keys_distinct_def)
    with \<open>mk_causal_edge e = Inr e\<close> show ?thesis by (simp add: read_causal_edge_def)
  qed
  ultimately show ?thesis using inv by (simp add: graph_inv_def graph_ok_def)
qed

section \<open>Examples\<close>

definition example_cast :: "string \<Rightarrow> int \<Rightarrow> cast_result" where
  "example_cast k t = sample_cast\<lparr>cr_cast_id := k, cr_timestamp := t\<rparr>"

definition example_row :: "string \<Rightarrow> int \<Rightarrow> cast_row" where
  "example_row k t = serialize_cast_result empty_registry (example_cast k t)"

definition example_edge :: causal_edge where
  "example_edge =
     \<lparr>ce_edge_id = ''e'', ce_source = ''a'', ce_target = ''b'', ce_type = REQUIRES, ce_weight = 1 / 4,
      ce_created_at = 5, ce_evidence = Some ''sim=0.000, dt_seconds=3600.0''\<rparr>"

definition example_graph :: graph_db where
  "example_graph =
     \<lparr>gd_casts = [(''a'', example_row ''a'' 0), (''b'', example_row ''b'' 3600000000)],
      gd_edges = [(''e'', example_edge)]\<rparr>"

definition example_query :: causal_query where
  "example_query =
     \<lparr>cq_root = ''a'', cq_edge_types = None, cq_direction = FORWARD, cq_max_depth = 5, cq_min_weight = 0\<rparr>"

lemma causal_subgraph_reaches_witness:
  "\<exists>g. tool_causal_subgraph example_query example_graph = Inr g
     \<and> set (sub_nodes g) = {n. \<exists>i \<le> 5. (''a'', n) \<in> edge_links example_query example_graph ^^ i}
     \<and> distinct (sub_nodes g) \<and> distinct (sub_edges g)"
proof -
  have rows: "map snd (gd_edges example_graph) = [example_edge]" by (simp add: example_graph_def)
  have few: "length (matching example_query example_graph n) \<le> 1000" for n
    by (simp add: matching_def rows)
  have "edge_table_ok example_graph"
    by (simp add: edge_table_ok_def keys_distinct_def example_graph_def example_edge_def mk_causal_edge_def)
  moreover have "mk_causal_query example_query = Inr example_query"
    by (simp add: example_query_def mk_causal_query_def)
  moreover have "cq_max_depth example_query = 5" "cq_root example_query = ''a''"
    by (simp_all add: example_query_def)
  ultimately show ?thesis
    using causal_subgraph_reaches [of example_graph example_query] few by auto
qed

lemma example_doubles:
  "is_double 3600" "is_double (1/2)" "is_double (1/4)" "is_double (-1/4)"
  using is_double_int [of 3600] is_double_dyadic [of 1 1] is_double_dyadic [of 1 2] is_double_dyadic [of "-1" 2]
  by auto

lemma example_strength: "edge_strength 0 3600000000 = 1/4"
proof -
  have tw: "time_weight 3600000000 = 1/2"
    using example_doubles by (simp add: time_weight_def fdiv_def fadd_def fl_double)
  show ?thesis
    unfolding edge_strength_def tw using example_doubles
    by (simp add: fdiv_def fadd_def fmul_def fl_double)
qed

lemma example_similarity: "cosine_similarity (with_basis zero_vec) (with_basis zero_vec) = Inr 0"
proof -
  have "l2_norm (with_basis zero_vec) = 0"
    by (simp add: l2_norm_def fmul_def fadd_def fsqrt_def zero_vec_def with_basis_def)
  then show ?thesis by (simp add: cosine_similarity_def cosine_core_def)
qed

lemma example_weight: "\<not> 1/4 < lit 0.20"
  using lit_mono [of "0.20" "1/4"] example_doubles by (simp add: lit_double not_less)

lemma example_type: "edge_type_for 0 V_INCOHERENT V_INCOHERENT = REQUIRES"
  using lit_mono [of "1/2" "0.55"] lit_mono [of "-0.25" "-1/4"] example_doubles
  by (simp add: edge_type_for_def lit_double)

lemma example_digits: "nat_text 0 = ''0''" "nat_text 3600 = ''3600''"
  by (simp_all add: nat_text.simps digit_char_def, code_simp+)

lemma example_text: "fmt_fixed 3 0 = ''0.000''" "fmt_fixed (Suc 0) 3600 = ''3600.0''"
proof -
  have "rne (3600 * 10) = 36000" "rne 0 = 0" using rne_of_int [of 36000] rne_of_int [of 0] by simp_all
  moreover have "replicate 2 CHR ''0'' = ''00''" by (simp only: numeral_2_eq_2 replicate.simps)
  ultimately show "fmt_fixed 3 0 = ''0.000''" "fmt_fixed (Suc 0) 3600 = ''3600.0''"
    by (simp_all add: fmt_fixed_def pad_left_def Let_def example_digits)
qed

lemma example_cast_sel:
  "cr_cast_id (restored n (example_cast k t)) = k" "cr_timestamp (restored n (example_cast k t)) = t"
  "sg_semantic_vector (cr_sigil (restored n (example_cast k t))) = with_basis zero_vec"
  "cast_verdict (restored n (example_cast k t)) = V_INCOHERENT"
  by (simp_all add: restored_def example_cast_def sample_cast_sel sample_sigil_def fallback_verdict_def Let_def)

lemma example_read:
  "deserialize_cast_result empty_registry (example_row k t) =
   Inr (restored (dimensionality empty_registry) (example_cast k t))"
  unfolding example_row_def using sample_cast_valid
  by (intro deserialize_serialize registry_ok_empty) (simp add: cast_valid_def example_cast_def)

lemma example_infer:
  "infer_causal_edge (''e'', 5) (restored n (example_cast ''a'' 0)) (restored n (example_cast ''b'' 3600000000)) =
   Inr (Some example_edge)"
proof -
  have f: "fl 3600 = 3600" using example_doubles(1) by (simp add: fl_double)
  show ?thesis
    unfolding infer_causal_edge_def Let_def example_cast_sel example_similarity
    by (simp add: example_strength f example_text example_weight [simplified] example_type example_edge_def mk_causal_edge_def)
qed

lemma inferred_graph_acyclic_witness:
  "graph_step\<^sup>*\<^sup>* empty_graph example_graph \<and> acyclic (edge_relation example_graph)
   \<and> read_causal_edge ''e'' example_graph = Inr example_edge"
proof -
  let ?G1 = "\<lparr>gd_casts = [(''a'', example_row ''a'' 0)], gd_edges = []\<rparr>"
  let ?G2 = "\<lparr>gd_casts = [(''a'', example_row ''a'' 0), (''b'', example_row ''b'' 3600000000)], gd_edges = []\<rparr>"
  have id: "cr_cast_id (example_cast k t) = k" for k t by (simp add: example_cast_def)
  have "store_cast empty_registry (example_cast ''a'' 0) empty_graph = Inr ?G1"
       "store_cast empty_registry (example_cast ''b'' 3600000000) ?G1 = Inr ?G2"
    by (simp_all add: store_cast_def write_cast_def empty_graph_def id example_row_def)
  moreover have "tool_infer_causal_edge empty_registry (''e'', 5) ''a'' ''b'' ?G2 = Inr (Some example_edge, example_graph)"
    by (simp add: tool_infer_causal_edge_def read_cast_def example_read example_infer write_causal_edge_def
        example_edge_def example_graph_def)
  ultimately have "graph_step empty_graph ?G1" "graph_step ?G1 ?G2" "graph_step ?G2 example_graph"
    by (auto intro: graph_step.intros)
  then have run: "graph_step\<^sup>*\<^sup>* empty_graph example_graph" by (simp add: rtranclp.rtrancl_into_rtrancl)
  have "example_edge \<in> set (map snd (gd_edges example_graph))" "ce_edge_id example_edge = ''e''"
    by (simp_all add: example_graph_def example_edge_def)
  with run inferred_graph_acyclic [OF run] show ?thesis by fastforce
qed

end
