(* ===== verification/Stores.thy ===== *)
theory Stores
  imports Causal
begin

text \<open>
  The repositories behind the grimoire other than casts and edges
  (\<open>grimoire/repositories/channels.py\<close>, \<open>seeds.py\<close>, \<open>crystallized.py\<close>, \<open>divergence.py\<close>,
  \<open>swarm.py\<close>).  The locale \<open>keyed_store\<close> states what a client may rely on - the last write of a
  key wins, other keys are untouched - and each repository is shown to satisfy it.
\<close>

section \<open>Keyed stores\<close>

text \<open>\<open>INSERT OR REPLACE\<close> deletes the old row and appends the new one.\<close>

definition dreplace :: "'k \<Rightarrow> 'v \<Rightarrow> ('k, 'v) dict \<Rightarrow> ('k, 'v) dict" where
  "dreplace k v d = dpop k d @ [(k, v)]"

lemma dget_dreplace [dict_simps]: "dget (dreplace k v d) k' = (if k' = k then Some v else dget d k')"
  by (auto simp: dreplace_def dict_simps map_add_def split: option.split)

text \<open>Writing a list of values, stopping at the first failure; the last value with a given key.\<close>

fun write_list :: "('v \<Rightarrow> 's \<Rightarrow> 's result) \<Rightarrow> 'v list \<Rightarrow> 's \<Rightarrow> 's result" where
  "write_list put [] s = Inr s"
| "write_list put (v # vs) s = rbind (put v s) (write_list put vs)"

definition last_keyed :: "('v \<Rightarrow> 'k) \<Rightarrow> 'k \<Rightarrow> 'v list \<Rightarrow> 'v option" where
  "last_keyed key k vs = first_where (\<lambda>v. key v = k) (rev vs)"

lemma last_keyed_simps:
  "last_keyed key k [] = None"
  "last_keyed key k (vs @ [v]) = (if key v = k then Some v else last_keyed key k vs)"
  by (simp_all add: last_keyed_def)

lemma write_list_append:
  "write_list put (vs @ ws) s = rbind (write_list put vs s) (write_list put ws)"
proof (induction vs arbitrary: s)
  case (Cons v vs)
  then show ?case by (cases "put v s") simp_all
qed simp

lemma sql_int_fits [simp]: "fits_sql n \<Longrightarrow> sql_int n = Inr n"
  by simp

text \<open>
  The contract of a repository: a write succeeds on a valid value, its row reads back as the
  \<open>view\<close> of the value, and no other row changes.
\<close>

locale keyed_store =
  fixes put :: "'v \<Rightarrow> 's \<Rightarrow> 's result"
    and fetch :: "'k \<Rightarrow> 's \<Rightarrow> 'v result"
    and key :: "'v \<Rightarrow> 'k"
    and view :: "'v \<Rightarrow> 'v"
    and valid :: "'v \<Rightarrow> bool"
  assumes put_ok: "valid v \<Longrightarrow> \<exists>s'. put v s = Inr s'"
    and fetch_put: "valid v \<Longrightarrow> put v s = Inr s' \<Longrightarrow> fetch (key v) s' = Inr (view v)"
    and fetch_other: "valid v \<Longrightarrow> put v s = Inr s' \<Longrightarrow> k \<noteq> key v \<Longrightarrow> fetch k s' = fetch k s"
    and key_view: "key (view v) = key v"
    and view_view: "view (view v) = view v"
    and valid_view: "valid v \<Longrightarrow> valid (view v)"
begin

lemma write_list_ok: "list_all valid vs \<Longrightarrow> \<exists>s'. write_list put vs s = Inr s'"
proof (induction vs arbitrary: s)
  case (Cons v vs)
  then obtain s1 where "put v s = Inr s1" using put_ok [of v s] by auto
  with Cons show ?case by simp
qed simp

lemma read_after:
  "list_all valid vs \<Longrightarrow> write_list put vs s = Inr s' \<Longrightarrow>
   fetch k s' = (case last_keyed key k vs of Some v \<Rightarrow> Inr (view v) | None \<Rightarrow> fetch k s)"
proof (induction vs arbitrary: s' rule: rev_induct)
  case (snoc v vs)
  then obtain s1 where s1: "write_list put vs s = Inr s1" "put v s1 = Inr s'"
    by (auto simp: write_list_append rbind_Inr_iff)
  with snoc show ?case
    using fetch_put [of v s1 s'] fetch_other [of v s1 s' k] by (auto simp: last_keyed_simps)
qed (simp add: last_keyed_simps)

lemma last_write_wins:
  "list_all valid vs \<Longrightarrow>
   \<exists>s'. write_list put vs s = Inr s'
      \<and> (\<forall>k. fetch k s' = (case last_keyed key k vs of Some v \<Rightarrow> Inr (view v) | None \<Rightarrow> fetch k s))"
  using write_list_ok read_after by blast

text \<open>Writing back what was fetch changes nothing that can be fetch.\<close>

lemma write_back:
  assumes "valid v" "put v s = Inr s1" "fetch (key v) s1 = Inr u"
  shows "\<exists>s2. put u s1 = Inr s2 \<and> (\<forall>k. fetch k s2 = fetch k s1)"
proof -
  have u: "u = view v" using assms fetch_put by simp
  obtain s2 where s2: "put u s1 = Inr s2" using put_ok valid_view [OF assms(1)] u by blast
  have "fetch k s2 = fetch k s1" for k
    using fetch_put [OF _ s2] fetch_other [OF _ s2, of k] valid_view [OF assms(1)] assms(3)
    by (cases "k = key u") (auto simp: u key_view view_view)
  with s2 show ?thesis by blast
qed

text \<open>Writes of different keys commute, as far as reads can tell.\<close>

lemma writes_commute:
  assumes "valid v" "valid w" "key v \<noteq> key w"
    and "write_list put [v, w] s = Inr s1" "write_list put [w, v] s = Inr s2"
  shows "fetch k s1 = fetch k s2"
proof -
  have "list_all valid [v, w]" "list_all valid [w, v]" using assms by simp_all
  from read_after [OF this(1) assms(4), of k] read_after [OF this(2) assms(5), of k] assms(3)
  show ?thesis by (auto simp: last_keyed_def)
qed

end

section \<open>Channels\<close>

definition channel_status_members :: "(string, channel_status) dict" where
  "channel_status_members =
     [(''COHERENT'', CH_COHERENT), (''STRAINED'', CH_STRAINED), (''DECOHERENT'', CH_DECOHERENT)]"

definition divergence_members :: "(string, divergence_status) dict" where
  "divergence_members = [(''STABLE'', STABLE), (''DRIFTING'', DRIFTING), (''DIVERGED'', DIVERGED)]"

definition swarm_status_members :: "(string, swarm_status) dict" where
  "swarm_status_members =
     [(''COHERENT'', SW_COHERENT), (''STRAINED'', SW_STRAINED), (''DECOHERENT'', SW_DECOHERENT)]"

lemma status_roundtrip [simp]:
  "enum_lookup channel_status_members (enum_name channel_status_members c) = Inr c"
  "enum_lookup divergence_members (enum_name divergence_members d) = Inr d"
  "enum_lookup swarm_status_members (enum_name swarm_status_members s) = Inr s"
proof -
  note defs = enum_name_def enum_lookup_def channel_status_members_def divergence_members_def
    swarm_status_members_def
  show "enum_lookup channel_status_members (enum_name channel_status_members c) = Inr c"
    by (cases c) (simp_all add: defs)
  show "enum_lookup divergence_members (enum_name divergence_members d) = Inr d"
    by (cases d) (simp_all add: defs)
  show "enum_lookup swarm_status_members (enum_name swarm_status_members s) = Inr s"
    by (cases s) (simp_all add: defs)
qed

record channel_row =
  chr_branch_id :: string
  chr_cast_count :: int
  chr_cumulative_resonance :: real
  chr_mean_resonance :: real
  chr_coherence_streak :: int
  chr_last_verdict_type :: string
  chr_status :: string
  chr_last_cast_id :: string
  chr_constraint_vector :: "json option"
  chr_updated_at :: int
  chr_basis_version :: nat

type_synonym channel_table = "(string, channel_row) dict"

definition write_channel_state :: "registry \<Rightarrow> channel_state \<Rightarrow> channel_table \<Rightarrow> channel_table result" where
  "write_channel_state R c T =
     rbind (sql_int (cs_cast_count c)) (\<lambda>n.
     rbind (sql_int (cs_coherence_streak c)) (\<lambda>streak.
     Inr (dset (cs_branch_id c)
       \<lparr>chr_branch_id = cs_branch_id c, chr_cast_count = n,
        chr_cumulative_resonance = cs_cumulative_resonance c,
        chr_mean_resonance = cs_mean_resonance c, chr_coherence_streak = streak,
        chr_last_verdict_type = enum_name verdict_members (cs_last_verdict_type c),
        chr_status = enum_name channel_status_members (cs_status c),
        chr_last_cast_id = cs_last_cast_id c,
        chr_constraint_vector = map_option floats_json (cs_constraint_vector c),
        chr_updated_at = cs_updated_at c,
        chr_basis_version =
          (case cs_constraint_vector c of
             Some v \<Rightarrow> normalized_basis_version v | None \<Rightarrow> basis_version R)\<rparr> T)))"

definition read_constraint :: "channel_row \<Rightarrow> svec option result" where
  "read_constraint row =
     (case chr_constraint_vector row of
        None \<Rightarrow> Inr None
      | Some doc \<Rightarrow>
          rbind (j_items doc) (\<lambda>items. rbind (rmap_list py_float items) (\<lambda>xs.
          rbind (mk_svec xs (Some (chr_basis_version row))) (\<lambda>v. Inr (Some v)))))"

definition channel_of_row :: "channel_row \<Rightarrow> channel_state result" where
  "channel_of_row row =
     rbind (read_constraint row) (\<lambda>vec.
     rbind (enum_lookup verdict_members (chr_last_verdict_type row)) (\<lambda>vt.
     rbind (enum_lookup channel_status_members (chr_status row)) (\<lambda>st.
     mk_channel_state
       \<lparr>cs_branch_id = chr_branch_id row, cs_cast_count = chr_cast_count row,
        cs_cumulative_resonance = chr_cumulative_resonance row,
        cs_mean_resonance = chr_mean_resonance row, cs_coherence_streak = chr_coherence_streak row,
        cs_last_verdict_type = vt, cs_status = st, cs_last_cast_id = chr_last_cast_id row,
        cs_constraint_vector = vec, cs_updated_at = chr_updated_at row\<rparr>)))"

definition read_channel_state :: "string \<Rightarrow> channel_table \<Rightarrow> channel_state result" where
  "read_channel_state branch_id T =
     rbind (of_option (KeyError branch_id) (dget T branch_id)) channel_of_row"

definition query_channel_states :: "string option \<Rightarrow> int \<Rightarrow> channel_table \<Rightarrow> channel_state list result" where
  "query_channel_states status limit T =
     rbind (sql_int limit) (\<lambda>limit.
     rmap_list channel_of_row
       (sql_limit limit (sort_key (\<lambda>row. - chr_updated_at row)
          (filter (\<lambda>row. pred_option (\<lambda>s. chr_status row = s) status) (map snd T)))))"

text \<open>A channel the repository can hold, and what it reads back as.\<close>

definition channel_valid :: "channel_state \<Rightarrow> bool" where
  "channel_valid c \<longleftrightarrow>
     channel_ok c \<and> fits_sql (cs_cast_count c) \<and> fits_sql (cs_coherence_streak c)
     \<and> pred_option (\<lambda>v. 6 \<le> length (comps v)) (cs_constraint_vector c)"

definition channel_view :: "channel_state \<Rightarrow> channel_state" where
  "channel_view c = c\<lparr>cs_constraint_vector := map_option with_basis (cs_constraint_vector c)\<rparr>"

lemma with_basis_idem [simp]: "with_basis (with_basis v) = with_basis v"
  by (simp add: with_basis_def normalized_basis_version_def)

lemma comps_with_basis [simp]: "comps (with_basis v) = comps v"
  by (simp add: with_basis_def)

lemma channel_row_view:
  assumes "channel_valid c" "write_channel_state R c T = Inr T'"
  shows "\<exists>row. T' = dset (cs_branch_id c) row T \<and> channel_of_row row = Inr (channel_view c)"
proof (cases "cs_constraint_vector c")
  case None
  with assms show ?thesis
    by (auto simp: write_channel_state_def channel_of_row_def read_constraint_def channel_valid_def
        channel_view_def mk_channel_state_def channel_ok_def)
next
  case (Some v)
  with assms show ?thesis
    by (auto simp: write_channel_state_def channel_of_row_def read_constraint_def channel_valid_def
        channel_view_def mk_channel_state_def channel_ok_def floats_json_def mk_svec_def with_basis_def)
qed

interpretation channels: keyed_store "write_channel_state R" read_channel_state cs_branch_id channel_view channel_valid
proof
  fix v s s' k
  show "channel_valid v \<Longrightarrow> \<exists>s'. write_channel_state R v s = Inr s'"
    by (simp add: write_channel_state_def channel_valid_def)
  show "channel_valid v \<Longrightarrow> write_channel_state R v s = Inr s' \<Longrightarrow>
      read_channel_state (cs_branch_id v) s' = Inr (channel_view v)"
    using channel_row_view [of v R s s'] by (auto simp: read_channel_state_def dict_simps)
  show "channel_valid v \<Longrightarrow> write_channel_state R v s = Inr s' \<Longrightarrow> k \<noteq> cs_branch_id v \<Longrightarrow>
      read_channel_state k s' = read_channel_state k s"
    using channel_row_view [of v R s s'] by (auto simp: read_channel_state_def dict_simps)
  show "cs_branch_id (channel_view v) = cs_branch_id v" by (simp add: channel_view_def)
  show "channel_view (channel_view v) = channel_view v"
    by (cases "cs_constraint_vector v") (simp_all add: channel_view_def)
  show "channel_valid v \<Longrightarrow> channel_valid (channel_view v)"
    by (cases "cs_constraint_vector v") (auto simp: channel_view_def channel_valid_def channel_ok_def)
qed

section \<open>Glyph seeds\<close>

text \<open>
  The aspect pattern is stored as the JSON list of its names in the iteration order of the
  frozenset, and that text is what a query compares.
\<close>

record seed_row =
  sdr_seed_id :: string
  sdr_aspect_pattern :: json
  sdr_observed_count :: int
  sdr_mean_resonance :: real
  sdr_coherence_rate :: real
  sdr_candidate_effect_class :: "string option"
  sdr_crystallized :: int
  sdr_generation :: int
  sdr_semantic_vector :: json
  sdr_basis_version :: nat

type_synonym seed_table = "(string, seed_row) dict"

definition pattern_json :: "aspect list \<Rightarrow> json" where
  "pattern_json A = JList (map (\<lambda>a. JStr (aspect_name a)) A)"

definition serialize_glyph_seed :: "glyph_seed \<Rightarrow> seed_row" where
  "serialize_glyph_seed s =
     \<lparr>sdr_seed_id = gs_seed_id s, sdr_aspect_pattern = pattern_json (gs_aspect_pattern s),
      sdr_observed_count = gs_observed_count s, sdr_mean_resonance = gs_mean_resonance s,
      sdr_coherence_rate = gs_coherence_rate s,
      sdr_candidate_effect_class =
        map_option (enum_name effect_class_members) (gs_candidate_effect_class s),
      sdr_crystallized = (if gs_crystallized s then 1 else 0), sdr_generation = gs_generation s,
      sdr_semantic_vector = floats_json (gs_semantic_vector s),
      sdr_basis_version = normalized_basis_version (gs_semantic_vector s)\<rparr>"

definition resolve_pattern :: "registry \<Rightarrow> json \<Rightarrow> aspect list result" where
  "resolve_pattern R doc =
     rbind (j_items doc) (\<lambda>names. rbind (rmap_list j_str names) (\<lambda>names.
     rbind (rmap_list (resolve R) names) (\<lambda>A. Inr (remdups A))))"

definition deserialize_glyph_seed :: "registry \<Rightarrow> seed_row \<Rightarrow> glyph_seed result" where
  "deserialize_glyph_seed R row =
     rbind (resolve_pattern R (sdr_aspect_pattern row)) (\<lambda>pat.
     rbind (j_items (sdr_semantic_vector row)) (\<lambda>items.
     rbind (rmap_list py_float items) (\<lambda>xs.
     rbind (mk_svec (pad_to (dimensionality R) xs) (Some (sdr_basis_version row))) (\<lambda>sv.
     rbind (case sdr_candidate_effect_class row of
              None \<Rightarrow> Inr None
            | Some n \<Rightarrow> rbind (enum_lookup effect_class_members n) (\<lambda>c. Inr (Some c))) (\<lambda>cand.
     Inr \<lparr>gs_seed_id = sdr_seed_id row, gs_aspect_pattern = pat,
          gs_observed_count = sdr_observed_count row, gs_mean_resonance = sdr_mean_resonance row,
          gs_coherence_rate = sdr_coherence_rate row, gs_candidate_effect_class = cand,
          gs_crystallized = (sdr_crystallized row \<noteq> 0), gs_generation = sdr_generation row,
          gs_semantic_vector = sv\<rparr>)))))"

definition write_seed :: "glyph_seed \<Rightarrow> seed_table \<Rightarrow> seed_table result" where
  "write_seed s T =
     rbind (sql_int (gs_observed_count s)) (\<lambda>_. rbind (sql_int (gs_generation s)) (\<lambda>_.
     Inr (dreplace (gs_seed_id s) (serialize_glyph_seed s) T)))"

definition read_seed :: "registry \<Rightarrow> string \<Rightarrow> seed_table \<Rightarrow> glyph_seed result" where
  "read_seed R seed_id T =
     rbind (of_option (KeyError seed_id) (dget T seed_id)) (deserialize_glyph_seed R)"

definition query_seeds ::
  "registry \<Rightarrow> aspect list option \<Rightarrow> bool option \<Rightarrow> seed_table \<Rightarrow> glyph_seed list result" where
  "query_seeds R pat crystallized T =
     rmap_list (deserialize_glyph_seed R)
       (filter (\<lambda>row. pred_option (\<lambda>A. sdr_aspect_pattern row = pattern_json A) pat
                     \<and> pred_option (\<lambda>c. sdr_crystallized row = (if c then 1 else 0)) crystallized)
         (map snd T))"

definition seed_valid :: "registry \<Rightarrow> glyph_seed \<Rightarrow> bool" where
  "seed_valid R s \<longleftrightarrow>
     registry_ok R \<and> set (gs_aspect_pattern s) \<subseteq> set (full_aspect_order R)
     \<and> distinct (gs_aspect_pattern s) \<and> 6 \<le> length (comps (gs_semantic_vector s))
     \<and> fits_sql (gs_observed_count s) \<and> fits_sql (gs_generation s)"

definition seed_view :: "registry \<Rightarrow> glyph_seed \<Rightarrow> glyph_seed" where
  "seed_view R s = s\<lparr>gs_semantic_vector := padded (dimensionality R) (gs_semantic_vector s)\<rparr>"

lemma resolve_pattern_json:
  assumes "registry_ok R" "set A \<subseteq> set (full_aspect_order R)" "distinct A"
  shows "resolve_pattern R (pattern_json A) = Inr A"
proof -
  have "rmap_list j_str (map (\<lambda>a. JStr (aspect_name a)) A) = Inr (map aspect_name A)"
    using map_j_str [of "map aspect_name A"] by (simp add: comp_def)
  with resolve_names [OF assms(1,2)] assms(3) show ?thesis
    by (simp add: resolve_pattern_def pattern_json_def distinct_remdups_id)
qed

lemma deserialize_seed:
  "seed_valid R s \<Longrightarrow> deserialize_glyph_seed R (serialize_glyph_seed s) = Inr (seed_view R s)"
  by (cases "gs_candidate_effect_class s")
    (auto simp: deserialize_glyph_seed_def serialize_glyph_seed_def seed_valid_def seed_view_def
      resolve_pattern_json floats_json_def mk_svec_def pad_to_def padded_def)

lemma write_seed_valid:
  "seed_valid R s \<Longrightarrow> write_seed s T = Inr (dreplace (gs_seed_id s) (serialize_glyph_seed s) T)"
  by (simp add: write_seed_def seed_valid_def)

interpretation seeds: keyed_store write_seed "read_seed R" gs_seed_id "seed_view R" "seed_valid R"
proof
  fix v s s' k
  show "seed_valid R v \<Longrightarrow> \<exists>s'. write_seed v s = Inr s'"
    by (simp add: write_seed_valid)
  show "seed_valid R v \<Longrightarrow> write_seed v s = Inr s' \<Longrightarrow> read_seed R (gs_seed_id v) s' = Inr (seed_view R v)"
    by (auto simp: write_seed_valid read_seed_def dict_simps deserialize_seed)
  show "seed_valid R v \<Longrightarrow> write_seed v s = Inr s' \<Longrightarrow> k \<noteq> gs_seed_id v \<Longrightarrow>
      read_seed R k s' = read_seed R k s"
    by (auto simp: write_seed_valid read_seed_def dict_simps)
  show "gs_seed_id (seed_view R v) = gs_seed_id v" by (simp add: seed_view_def)
  show "seed_view R (seed_view R v) = seed_view R v"
    by (simp add: seed_view_def padded_def pad_to_def normalized_basis_version_def)
  show "seed_valid R v \<Longrightarrow> seed_valid R (seed_view R v)"
    by (simp add: seed_view_def seed_valid_def padded_def pad_to_def)
qed

section \<open>Crystallized sigils\<close>

record crystallized_sigil =
  cz_name :: string
  cz_sigil :: sigil
  cz_source_seed_id :: string
  cz_crystallized_at :: int
  cz_generation :: int

definition mk_crystallized_sigil :: "crystallized_sigil \<Rightarrow> crystallized_sigil result" where
  "mk_crystallized_sigil c =
     (if 1 \<le> cz_generation c then Inr c else Inl (ValueError ''CrystallizedSigil''))"

record crystal_row =
  czr_name :: string
  czr_sigil :: json
  czr_source_seed_id :: string
  czr_crystallized_at :: int
  czr_generation :: int
  czr_aspect_pattern :: json
  czr_basis_version :: nat

type_synonym crystal_table = "(string, crystal_row) dict"

definition crystal_sigil_document :: "sigil \<Rightarrow> json" where
  "crystal_sigil_document s =
     JObj [(''name'', JStr (sg_name s)), (''aspects'', pattern_json (sg_aspects s)),
       (''effect_class'', JStr (enum_name effect_class_members (sg_effect_class s))),
       (''resonance_ceiling'', JFloat (sg_resonance_ceiling s)),
       (''contradiction_severity'', JStr (enum_name severity_members (sg_contradiction_severity s))),
       (''semantic_fingerprint'', JStr (sg_semantic_fingerprint s)),
       (''semantic_vector'', floats_json (sg_semantic_vector s)),
       (''polarity'', JStr (enum_name polarity_members (sg_polarity s)))]"

definition write_crystallized_sigil :: "crystallized_sigil \<Rightarrow> crystal_table \<Rightarrow> crystal_table result" where
  "write_crystallized_sigil c T =
     rbind (sql_int (cz_generation c)) (\<lambda>gen.
     Inr (dreplace (cz_name c)
       \<lparr>czr_name = cz_name c, czr_sigil = crystal_sigil_document (cz_sigil c),
        czr_source_seed_id = cz_source_seed_id c, czr_crystallized_at = cz_crystallized_at c,
        czr_generation = gen, czr_aspect_pattern = pattern_json (sg_aspects (cz_sigil c)),
        czr_basis_version = normalized_basis_version (sg_semantic_vector (cz_sigil c))\<rparr> T))"

definition crystal_sigil_of_row :: "registry \<Rightarrow> crystal_row \<Rightarrow> sigil result" where
  "crystal_sigil_of_row R row =
     (let d = czr_sigil row in
      rbind (rbind (jkey d ''aspects'') (resolve_pattern R)) (\<lambda>aspects.
      rbind (rbind (jkey d ''name'') j_str) (\<lambda>name.
      rbind (rbind (rbind (jkey d ''effect_class'') j_str) (enum_lookup effect_class_members)) (\<lambda>ec.
      rbind (rbind (jkey d ''resonance_ceiling'') py_float) (\<lambda>rc.
      rbind (rbind (rbind (jkey d ''contradiction_severity'') j_str) (enum_lookup severity_members)) (\<lambda>sev.
      rbind (rbind (rbind (jkey d ''semantic_vector'') j_items) (rmap_list py_float)) (\<lambda>xs.
      rbind (mk_svec xs (Some (czr_basis_version row))) (\<lambda>v.
      rbind (rbind (jkey d ''polarity'') (\<lambda>p. enum_lookup polarity_members (py_str p))) (\<lambda>pol.
      Inr \<lparr>sg_name = name, sg_aspects = aspects, sg_effect_class = ec, sg_resonance_ceiling = rc,
           sg_contradiction_severity = sev,
           sg_semantic_fingerprint =
             (case jget d ''semantic_fingerprint'' of
                Some x \<Rightarrow> if truthy x then py_str x else [] | None \<Rightarrow> []),
           sg_semantic_vector = v, sg_polarity = pol, sg_fluid = None\<rparr>)))))))))"

definition deserialize_crystallized_sigil :: "registry \<Rightarrow> crystal_row \<Rightarrow> crystallized_sigil result" where
  "deserialize_crystallized_sigil R row =
     rbind (crystal_sigil_of_row R row) (\<lambda>s.
     Inr \<lparr>cz_name = czr_name row, cz_sigil = s, cz_source_seed_id = czr_source_seed_id row,
          cz_crystallized_at = czr_crystallized_at row, cz_generation = czr_generation row\<rparr>)"

definition read_crystallized_sigil :: "registry \<Rightarrow> string \<Rightarrow> crystal_table \<Rightarrow> crystallized_sigil result" where
  "read_crystallized_sigil R name T =
     rbind (of_option (KeyError name) (dget T name)) (deserialize_crystallized_sigil R)"

definition crystallized_for_aspects ::
  "registry \<Rightarrow> aspect list \<Rightarrow> crystal_table \<Rightarrow> crystallized_sigil option result" where
  "crystallized_for_aspects R aspects T =
     (case sort_key (\<lambda>row. - czr_generation row)
             (filter (\<lambda>row. czr_aspect_pattern row = pattern_json aspects) (map snd T)) of
        [] \<Rightarrow> Inr None
      | row # _ \<Rightarrow> rbind (deserialize_crystallized_sigil R row) (\<lambda>c. Inr (Some c)))"

definition query_crystallized_sigils :: "registry \<Rightarrow> crystal_table \<Rightarrow> crystallized_sigil list result" where
  "query_crystallized_sigils R T =
     rmap_list (deserialize_crystallized_sigil R) (sort_key (\<lambda>row. - czr_crystallized_at row) (map snd T))"

definition crystal_valid :: "registry \<Rightarrow> crystallized_sigil \<Rightarrow> bool" where
  "crystal_valid R c \<longleftrightarrow>
     registry_ok R \<and> set (sg_aspects (cz_sigil c)) \<subseteq> set (full_aspect_order R)
     \<and> distinct (sg_aspects (cz_sigil c)) \<and> 6 \<le> length (comps (sg_semantic_vector (cz_sigil c)))
     \<and> fits_sql (cz_generation c)"

definition crystal_view :: "crystallized_sigil \<Rightarrow> crystallized_sigil" where
  "crystal_view c =
     c\<lparr>cz_sigil := (cz_sigil c)\<lparr>sg_semantic_vector := with_basis (sg_semantic_vector (cz_sigil c)),
                               sg_fluid := None\<rparr>\<rparr>"

lemma crystal_row_view:
  assumes "crystal_valid R c" "write_crystallized_sigil c T = Inr T'"
  shows "\<exists>row. T' = dreplace (cz_name c) row T \<and> deserialize_crystallized_sigil R row = Inr (crystal_view c)"
  using assms
  by (auto simp: write_crystallized_sigil_def deserialize_crystallized_sigil_def crystal_sigil_of_row_def
      crystal_sigil_document_def Let_def crystal_valid_def resolve_pattern_json floats_json_def mk_svec_def
      crystal_view_def with_basis_def py_str_def)

interpretation crystals: keyed_store write_crystallized_sigil "read_crystallized_sigil R" cz_name crystal_view
  "crystal_valid R"
proof
  fix v s s' k
  show "crystal_valid R v \<Longrightarrow> \<exists>s'. write_crystallized_sigil v s = Inr s'"
    by (simp add: write_crystallized_sigil_def crystal_valid_def)
  show "crystal_valid R v \<Longrightarrow> write_crystallized_sigil v s = Inr s' \<Longrightarrow>
      read_crystallized_sigil R (cz_name v) s' = Inr (crystal_view v)"
    using crystal_row_view [of R v s s'] by (auto simp: read_crystallized_sigil_def dict_simps)
  show "crystal_valid R v \<Longrightarrow> write_crystallized_sigil v s = Inr s' \<Longrightarrow> k \<noteq> cz_name v \<Longrightarrow>
      read_crystallized_sigil R k s' = read_crystallized_sigil R k s"
    using crystal_row_view [of R v s s'] by (auto simp: read_crystallized_sigil_def dict_simps)
  show "cz_name (crystal_view v) = cz_name v" "crystal_view (crystal_view v) = crystal_view v"
    by (simp_all add: crystal_view_def)
  show "crystal_valid R v \<Longrightarrow> crystal_valid R (crystal_view v)"
    by (simp add: crystal_view_def crystal_valid_def)
qed

section \<open>Divergence reports and thresholds\<close>

record report_row =
  rpr_cast_id :: string
  rpr_parent_cast_id :: string
  rpr_l2_magnitude :: real
  rpr_cosine_distance :: real
  rpr_status :: string
  rpr_computed_at :: int

type_synonym report_table = "(string, report_row) dict"

definition write_divergence_report :: "divergence_report \<Rightarrow> report_table \<Rightarrow> report_table result" where
  "write_divergence_report r T =
     Inr (dreplace (dr_cast_id r)
       \<lparr>rpr_cast_id = dr_cast_id r, rpr_parent_cast_id = dr_parent_cast_id r,
        rpr_l2_magnitude = dr_l2_magnitude r, rpr_cosine_distance = dr_cosine_distance r,
        rpr_status = enum_name divergence_members (dr_status r),
        rpr_computed_at = dr_computed_at r\<rparr> T)"

definition mk_divergence_report :: "divergence_report \<Rightarrow> divergence_report result" where
  "mk_divergence_report r =
     (if 0 \<le> dr_l2_magnitude r \<and> 0 \<le> dr_cosine_distance r \<and> dr_cosine_distance r \<le> 2
      then Inr r else Inl (ValueError ''DivergenceReport''))"

definition report_of_row :: "report_row \<Rightarrow> divergence_report result" where
  "report_of_row row =
     rbind (enum_lookup divergence_members (rpr_status row)) (\<lambda>st.
     mk_divergence_report
       \<lparr>dr_cast_id = rpr_cast_id row, dr_parent_cast_id = rpr_parent_cast_id row,
        dr_l2_magnitude = rpr_l2_magnitude row, dr_cosine_distance = rpr_cosine_distance row,
        dr_status = st, dr_computed_at = rpr_computed_at row, dr_basis_note = None\<rparr>)"

definition read_divergence_report :: "string \<Rightarrow> report_table \<Rightarrow> divergence_report result" where
  "read_divergence_report cast_id T = rbind (of_option (KeyError cast_id) (dget T cast_id)) report_of_row"

definition query_divergence_reports ::
  "divergence_status option \<Rightarrow> int \<Rightarrow> int option \<Rightarrow> report_table \<Rightarrow> divergence_report list result" where
  "query_divergence_reports status limit since T =
     rbind (sql_int limit) (\<lambda>limit.
     rmap_list report_of_row
       (sql_limit limit (sort_key (\<lambda>row. - rpr_computed_at row)
          (filter (\<lambda>row. pred_option (\<lambda>s. rpr_status row = enum_name divergence_members s) status
                        \<and> pred_option (\<lambda>t. t \<le> rpr_computed_at row) since) (map snd T)))))"

text \<open>The single row of \<open>divergence_thresholds\<close>; the defaults when there is none.\<close>

type_synonym thresholds_table = "(real \<times> real \<times> real \<times> real) option"

definition write_divergence_thresholds :: "divergence_thresholds \<Rightarrow> thresholds_table \<Rightarrow> thresholds_table" where
  "write_divergence_thresholds t T =
     Some (l2_stable_max t, l2_diverged_min t, cosine_stable_max t, cosine_diverged_min t)"

definition read_divergence_thresholds :: "thresholds_table \<Rightarrow> divergence_thresholds result" where
  "read_divergence_thresholds T =
     (case T of None \<Rightarrow> Inr default_divergence_thresholds
      | Some (a, b, c, d) \<Rightarrow> mk_divergence_thresholds a b c d)"

definition report_valid :: "divergence_report \<Rightarrow> bool" where
  "report_valid r \<longleftrightarrow> mk_divergence_report r = Inr r"

definition report_view :: "divergence_report \<Rightarrow> divergence_report" where
  "report_view r = r\<lparr>dr_basis_note := None\<rparr>"

interpretation reports: keyed_store write_divergence_report read_divergence_report dr_cast_id report_view report_valid
proof
  fix v s s' k
  show "\<exists>s'. write_divergence_report v s = Inr s'" by (simp add: write_divergence_report_def)
  show "report_valid v \<Longrightarrow> write_divergence_report v s = Inr s' \<Longrightarrow>
      read_divergence_report (dr_cast_id v) s' = Inr (report_view v)"
    by (auto simp: write_divergence_report_def read_divergence_report_def report_of_row_def
        report_valid_def report_view_def mk_divergence_report_def dict_simps split: if_splits)
  show "write_divergence_report v s = Inr s' \<Longrightarrow> k \<noteq> dr_cast_id v \<Longrightarrow>
      read_divergence_report k s' = read_divergence_report k s"
    by (auto simp: write_divergence_report_def read_divergence_report_def dict_simps)
  show "dr_cast_id (report_view v) = dr_cast_id v" "report_view (report_view v) = report_view v"
    "report_valid v \<Longrightarrow> report_valid (report_view v)"
    by (simp_all add: report_view_def report_valid_def mk_divergence_report_def split: if_splits)
qed

text \<open>
  \<open>drift_branches\<close>: the reports of the casts on each branch, counted and maximised, the worst
  branches first.
\<close>

record branch_drift =
  bd_branch_id :: string
  bd_casts_with_divergence :: nat
  bd_diverged_count :: nat
  bd_drifting_count :: nat
  bd_max_l2 :: real
  bd_max_cosine_distance :: real
  bd_latest_computed_at :: int

definition branch_reports :: "cast_table \<Rightarrow> report_table \<Rightarrow> (string \<times> report_row) list" where
  "branch_reports casts T =
     List.map_filter (\<lambda>row. map_option (\<lambda>b. (b, row))
       (Option.bind (dget casts (rpr_cast_id row)) row_branch_id)) (map snd T)"

definition summarize_branch :: "(string \<times> report_row) list \<Rightarrow> string \<Rightarrow> branch_drift" where
  "summarize_branch joined b =
     (let rows = map snd (filter (\<lambda>(b', row). b' = b) joined) in
      \<lparr>bd_branch_id = b, bd_casts_with_divergence = length rows,
       bd_diverged_count = length (filter (\<lambda>row. rpr_status row = ''DIVERGED'') rows),
       bd_drifting_count = length (filter (\<lambda>row. rpr_status row = ''DRIFTING'') rows),
       bd_max_l2 = foldl max 0 (map rpr_l2_magnitude rows),
       bd_max_cosine_distance = foldl max 0 (map rpr_cosine_distance rows),
       bd_latest_computed_at =
         (case map rpr_computed_at rows of [] \<Rightarrow> 0 | t # ts \<Rightarrow> foldl max t ts)\<rparr>)"

definition drift_branches :: "int \<Rightarrow> cast_table \<Rightarrow> report_table \<Rightarrow> branch_drift list result" where
  "drift_branches limit casts T =
     rbind (sql_int limit) (\<lambda>limit.
     let joined = branch_reports casts T in
     Inr (sql_limit limit
       (sort_key (\<lambda>d. (- int (bd_diverged_count d), - int (bd_drifting_count d), - bd_max_l2 d,
                       - bd_max_cosine_distance d, - bd_latest_computed_at d))
          (map (summarize_branch joined) (sort (remdups (map fst joined)))))))"

definition cast_pairs_missing_divergence_reports ::
  "int \<Rightarrow> cast_table \<Rightarrow> report_table \<Rightarrow> (string \<times> string) list result" where
  "cast_pairs_missing_divergence_reports limit casts T =
     rbind (sql_int limit) (\<lambda>limit.
     Inr (List.map_filter (\<lambda>row. map_option (\<lambda>l. (row_cast_id row, ln_parent_cast_id l)) (row_lineage row))
       (sql_limit limit (sort_key (\<lambda>row. - row_timestamp row)
          (filter (\<lambda>row. row_lineage row \<noteq> None \<and> \<not> dhas T (row_cast_id row)) (map snd casts))))))"

section \<open>Swarms\<close>

record swarm_state =
  sws_swarm_id :: string
  sws_consensus_threshold :: real
  sws_status :: swarm_status
  sws_aggregated_vector :: svec
  sws_last_cast_id :: "string option"
  sws_updated_at :: int

definition mk_swarm_state :: "swarm_state \<Rightarrow> swarm_state result" where
  "mk_swarm_state s =
     (if 0 \<le> sws_consensus_threshold s \<and> sws_consensus_threshold s \<le> 1 then Inr s
      else Inl (ValueError ''SwarmState''))"

text \<open>
  The vectors of both tables are written with \<open>model_dump\<close> and read with \<open>model_validate\<close>, so the
  column holds the vector.
\<close>

record swarm_db =
  swd_swarms :: "(string, swarm_state) dict"
  swd_members :: "(string \<times> string, svec \<times> int) dict"

definition write_swarm_state :: "swarm_state \<Rightarrow> swarm_db \<Rightarrow> swarm_db result" where
  "write_swarm_state s D = Inr (D\<lparr>swd_swarms := dset (sws_swarm_id s) s (swd_swarms D)\<rparr>)"

definition read_swarm_state :: "string \<Rightarrow> swarm_db \<Rightarrow> swarm_state result" where
  "read_swarm_state swarm_id D =
     rbind (of_option (KeyError swarm_id) (dget (swd_swarms D) swarm_id)) mk_swarm_state"

definition upsert_swarm_member :: "string \<Rightarrow> string \<Rightarrow> svec \<Rightarrow> int \<Rightarrow> swarm_db \<Rightarrow> swarm_db result" where
  "upsert_swarm_member swarm_id session_id vector streak D =
     rbind (sql_int streak) (\<lambda>streak.
     if dhas (swd_swarms D) swarm_id
     then Inr (D\<lparr>swd_members := dset (swarm_id, session_id) (vector, streak) (swd_members D)\<rparr>)
     else Inl (RuntimeError ''FOREIGN KEY constraint failed''))"

definition query_swarm_members :: "string \<Rightarrow> swarm_db \<Rightarrow> member list" where
  "query_swarm_members swarm_id D =
     sort_key fst (List.map_filter (\<lambda>((s, sid), v, streak). if s = swarm_id then Some (sid, v, streak) else None)
                     (swd_members D))"

interpretation swarms: keyed_store write_swarm_state read_swarm_state sws_swarm_id "\<lambda>s. s"
  "\<lambda>s. mk_swarm_state s = Inr s"
  by unfold_locales (auto simp: write_swarm_state_def read_swarm_state_def dict_simps)

section \<open>The repositories are maps from keys to the last value written\<close>

text \<open>
  C14. Any sequence of valid writes to the channel, seed, crystallized-sigil, divergence-report and
  swarm tables succeeds, and afterwards a read with a key answers with what the last write of that
  key reads back as, and with what the table answered before when no write had that key.
\<close>

theorem repositories_last_write_wins:
  assumes "list_all channel_valid cs" "list_all (seed_valid R) ss" "list_all (crystal_valid R) zs"
    and "list_all report_valid rs" "list_all (\<lambda>s. mk_swarm_state s = Inr s) ws"
  shows "(\<exists>T'. write_list (write_channel_state R) cs T1 = Inr T'
            \<and> (\<forall>k. read_channel_state k T' =
                  (case last_keyed cs_branch_id k cs of Some c \<Rightarrow> Inr (channel_view c)
                   | None \<Rightarrow> read_channel_state k T1)))
       \<and> (\<exists>T'. write_list write_seed ss T2 = Inr T'
            \<and> (\<forall>k. read_seed R k T' =
                  (case last_keyed gs_seed_id k ss of Some s \<Rightarrow> Inr (seed_view R s)
                   | None \<Rightarrow> read_seed R k T2)))
       \<and> (\<exists>T'. write_list write_crystallized_sigil zs T3 = Inr T'
            \<and> (\<forall>k. read_crystallized_sigil R k T' =
                  (case last_keyed cz_name k zs of Some c \<Rightarrow> Inr (crystal_view c)
                   | None \<Rightarrow> read_crystallized_sigil R k T3)))
       \<and> (\<exists>T'. write_list write_divergence_report rs T4 = Inr T'
            \<and> (\<forall>k. read_divergence_report k T' =
                  (case last_keyed dr_cast_id k rs of Some r \<Rightarrow> Inr (report_view r)
                   | None \<Rightarrow> read_divergence_report k T4)))
       \<and> (\<exists>T'. write_list write_swarm_state ws T5 = Inr T'
            \<and> (\<forall>k. read_swarm_state k T' =
                  (case last_keyed sws_swarm_id k ws of Some s \<Rightarrow> Inr s
                   | None \<Rightarrow> read_swarm_state k T5)))"
  using channels.last_write_wins [OF assms(1)] seeds.last_write_wins [OF assms(2)]
    crystals.last_write_wins [OF assms(3)] reports.last_write_wins [OF assms(4)]
    swarms.last_write_wins [OF assms(5)]
  by blast

text \<open>
  A seed is found again by its pattern only in the iteration order it was written in: the same
  set of aspects iterated in another order finds nothing.
\<close>

theorem seed_lookup_order:
  assumes "seed_valid R s" "write_seed s [] = Inr T" "set A = set (gs_aspect_pattern s)" "distinct A"
  shows "query_seeds R (Some A) None T =
           Inr (if A = gs_aspect_pattern s then [seed_view R s] else [])"
proof -
  have A: "set A \<subseteq> set (full_aspect_order R)" and ok: "registry_ok R"
    using assms(1,3) by (simp_all add: seed_valid_def)
  have "pattern_json (gs_aspect_pattern s) = pattern_json A \<longleftrightarrow> A = gs_aspect_pattern s"
    using resolve_pattern_json [OF ok A assms(4)] resolve_pattern_json [of R "gs_aspect_pattern s"] assms(1)
    by (auto simp: seed_valid_def)
  moreover have "T = [(gs_seed_id s, serialize_glyph_seed s)]"
    using assms(2) by (simp add: write_seed_valid [OF assms(1)] dreplace_def)
  ultimately show ?thesis
    using deserialize_seed [OF assms(1)] by (simp add: query_seeds_def serialize_glyph_seed_def)
qed

section \<open>Witnesses\<close>

definition sample_crystal :: crystallized_sigil where
  "sample_crystal = \<lparr>cz_name = ''n'', cz_sigil = sample_sigil SEV_NONE, cz_source_seed_id = ''s'',
     cz_crystallized_at = 0, cz_generation = 1\<rparr>"

definition sample_swarm :: "real \<Rightarrow> swarm_state" where
  "sample_swarm t = \<lparr>sws_swarm_id = ''w'', sws_consensus_threshold = t, sws_status = SW_COHERENT,
     sws_aggregated_vector = zero_vec, sws_last_cast_id = None, sws_updated_at = 0\<rparr>"

definition sample_report :: "real \<Rightarrow> divergence_report" where
  "sample_report l2 = \<lparr>dr_cast_id = ''c1'', dr_parent_cast_id = ''c0'', dr_l2_magnitude = l2,
     dr_cosine_distance = 0, dr_status = STABLE, dr_computed_at = 0, dr_basis_note = None\<rparr>"

lemma samples_valid:
  "channel_valid (sample_channel CH_COHERENT)" "seed_valid empty_registry (sample_seed 1)"
  "crystal_valid empty_registry sample_crystal" "report_valid (sample_report 1)"
  "mk_swarm_state (sample_swarm 1) = Inr (sample_swarm 1)"
  using registry_ok_empty
  by (simp_all add: channel_valid_def sample_channel_def channel_ok_def fits_sql_def seed_valid_def
      sample_seed_def crystal_valid_def sample_crystal_def sample_sigil_def report_valid_def
      sample_report_def mk_swarm_state_def sample_swarm_def zero_vec_def full_aspect_order_def
      mk_divergence_report_def)

lemma repositories_last_write_wins_witness:
  "\<exists>T'. write_list (write_divergence_report) [sample_report 1, sample_report 2] [] = Inr T'
      \<and> read_divergence_report ''c1'' T' = Inr (report_view (sample_report 2))"
proof -
  have "list_all report_valid [sample_report 1, sample_report 2]"
    by (simp add: report_valid_def sample_report_def mk_divergence_report_def)
  moreover have "list_all channel_valid [sample_channel CH_COHERENT]"
      "list_all (seed_valid empty_registry) [sample_seed 1]"
      "list_all (crystal_valid empty_registry) [sample_crystal]"
      "list_all (\<lambda>s. mk_swarm_state s = Inr s) [sample_swarm 1]"
    using samples_valid by simp_all
  ultimately obtain T' where "write_list write_divergence_report [sample_report 1, sample_report 2] [] = Inr T'"
    and "\<forall>k. read_divergence_report k T' =
        (case last_keyed dr_cast_id k [sample_report 1, sample_report 2] of
           Some r \<Rightarrow> Inr (report_view r) | None \<Rightarrow> read_divergence_report k [])"
    using repositories_last_write_wins [where ?T4.0 = "[]"] by blast
  then show ?thesis by (auto simp: last_keyed_def sample_report_def)
qed

lemma seed_lookup_order_witness:
  "\<exists>T. write_seed (sample_seed 1) [] = Inr T
      \<and> query_seeds empty_registry (Some [Canonical MIND, Canonical VOID]) None T = Inr []"
proof -
  have "write_seed (sample_seed 1) [] = Inr [(''s'', serialize_glyph_seed (sample_seed 1))]"
    using write_seed_valid [OF samples_valid(2), of "[]"] by (simp add: dreplace_def sample_seed_def)
  with seed_lookup_order [OF samples_valid(2) this, of "[Canonical MIND, Canonical VOID]"] show ?thesis
    by (auto simp: sample_seed_def)
qed

end
