(* ===== verification/Policy.thy ===== *)
theory Policy
  imports Stores "HOL-Library.Sublist"
begin

text \<open>
  Policy decisions: effects, thresholds and scores of \<open>schema/_legacy.py\<close>, the scorers and models of
  \<open>engine/policy\<close>, \<open>engine/operations/decisions.py\<close>, the decision repository and the decide tool
  of \<open>mcp/tools/decisions.py\<close>.  A decision scores a plan, picks ALLOW, RESHAPE or DENY by rules,
  and is stored with the cast it is about.
\<close>

section \<open>Effects, thresholds and scores\<close>

datatype effect_type = EF_READ | EF_WRITE | EF_NETWORK | EF_EXEC | EF_COMPUTE | EF_OBSERVE | EF_NONE

datatype access = ACC_READ | ACC_WRITE | ACC_READ_WRITE

record resource_ref =
  rr_kind :: string
  rr_uri :: string
  rr_scope :: string
  rr_access :: access

definition mk_resource_ref :: "resource_ref \<Rightarrow> resource_ref result" where
  "mk_resource_ref r =
     (if 1 \<le> length (rr_kind r) \<and> length (rr_kind r) \<le> 64
         \<and> 1 \<le> length (rr_uri r) \<and> length (rr_uri r) \<le> 500
         \<and> 1 \<le> length (rr_scope r) \<and> length (rr_scope r) \<le> 200
      then Inr r else Inl (ValueError ''ResourceRef''))"

record effect =
  ef_type :: effect_type
  ef_target :: "resource_ref option"
  ef_reversible :: bool
  ef_cost_hint :: real

definition mk_effect :: "effect \<Rightarrow> effect result" where
  "mk_effect e =
     rbind (case ef_target e of None \<Rightarrow> Inr None
            | Some r \<Rightarrow> rbind (mk_resource_ref r) (\<lambda>r. Inr (Some r))) (\<lambda>_.
     if 0 \<le> ef_cost_hint e then Inr e else Inl (ValueError ''Effect''))"

datatype policy_action = ALLOW | RESHAPE | DENY

definition action_members :: "(string, policy_action) dict" where
  "action_members = [(''ALLOW'', ALLOW), (''RESHAPE'', RESHAPE), (''DENY'', DENY)]"

lemma action_roundtrip [simp]: "enum_lookup action_members (enum_name action_members a) = Inr a"
  by (cases a) (simp_all add: enum_name_def enum_lookup_def action_members_def)

text \<open>Actions are ordered by how much they permit.\<close>

fun permissiveness :: "policy_action \<Rightarrow> nat" where
  "permissiveness DENY = 0"
| "permissiveness RESHAPE = 1"
| "permissiveness ALLOW = 2"

instantiation policy_action :: linorder
begin

definition less_eq_policy_action :: "policy_action \<Rightarrow> policy_action \<Rightarrow> bool" where
  "less_eq_policy_action a b \<longleftrightarrow> permissiveness a \<le> permissiveness b"

definition less_policy_action :: "policy_action \<Rightarrow> policy_action \<Rightarrow> bool" where
  "less_policy_action a b \<longleftrightarrow> permissiveness a < permissiveness b"

instance
proof
  fix a b :: policy_action
  show "a \<le> b \<Longrightarrow> b \<le> a \<Longrightarrow> a = b"
    by (cases a; cases b) (simp_all add: less_eq_policy_action_def)
qed (auto simp: less_eq_policy_action_def less_policy_action_def)

end

record policy_thresholds =
  pt_allow_min_resonance :: real
  pt_reshape_min_resonance :: real
  pt_max_drift_status :: divergence_status
  pt_scorer_weights :: "(string, real) dict"
  pt_effect_risk_min_score :: "real option"

definition default_policy_thresholds :: policy_thresholds where
  "default_policy_thresholds =
     \<lparr>pt_allow_min_resonance = 0.75, pt_reshape_min_resonance = lit 0.45,
      pt_max_drift_status = DRIFTING,
      pt_scorer_weights = [(''resonance'', 0.5), (''divergence'', lit 0.2), (''narrative'', lit 0.1),
                           (''effect_risk'', lit 0.2)],
      pt_effect_risk_min_score = None\<rparr>"

definition mk_policy_thresholds :: "policy_thresholds \<Rightarrow> policy_thresholds result" where
  "mk_policy_thresholds t =
     (if 0 \<le> pt_allow_min_resonance t \<and> pt_allow_min_resonance t \<le> 1
         \<and> 0 \<le> pt_reshape_min_resonance t \<and> pt_reshape_min_resonance t \<le> 1
         \<and> pred_option (\<lambda>m. 0 \<le> m \<and> m \<le> 1) (pt_effect_risk_min_score t)
      then Inr t else Inl (ValueError ''PolicyThresholds''))"

record score_component =
  sco_name :: string
  sco_value :: real
  sco_weight :: real
  sco_explanation :: string

definition mk_score_component :: "string \<Rightarrow> real \<Rightarrow> real \<Rightarrow> string \<Rightarrow> score_component result" where
  "mk_score_component name v w explanation =
     (if 1 \<le> length name \<and> length name \<le> 100 \<and> 0 \<le> v \<and> v \<le> 1 \<and> 0 \<le> w \<and> w \<le> 5
         \<and> 1 \<le> length explanation \<and> length explanation \<le> 300
      then Inr \<lparr>sco_name = name, sco_value = v, sco_weight = w, sco_explanation = explanation\<rparr>
      else Inl (ValueError ''ScoreComponent''))"

section \<open>Scorers\<close>

text \<open>
  Every scorer reads its weight as \<open>float(context.get("weight", 1.0) or 1.0)\<close>, so a weight of zero
  is replaced by one, and clips it from below.
\<close>

definition scorer_weight :: "real \<Rightarrow> real" where
  "scorer_weight w = max 0 (if w = 0 then 1 else w)"

definition score_of_resonance :: "real \<Rightarrow> real \<Rightarrow> score_component result" where
  "score_of_resonance adjusted w =
     mk_score_component ''resonance'' (max 0 (min 1 adjusted)) (scorer_weight w)
       (''resonance='' @ fmt_fixed 3 adjusted)"

fun divergence_value :: "divergence_status option \<Rightarrow> real" where
  "divergence_value None = 1"
| "divergence_value (Some STABLE) = 1"
| "divergence_value (Some DRIFTING) = 0.5"
| "divergence_value (Some DIVERGED) = 0"

definition score_of_divergence :: "divergence_status option \<Rightarrow> real \<Rightarrow> score_component result" where
  "score_of_divergence status w =
     mk_score_component ''divergence'' (divergence_value status) (scorer_weight w)
       (''divergence='' @ (case status of Some s \<Rightarrow> enum_name divergence_members s | None \<Rightarrow> ''NONE''))"

definition score_of_narrative :: "real option \<Rightarrow> real \<Rightarrow> score_component result" where
  "score_of_narrative coherence w =
     mk_score_component ''narrative''
       (case coherence of None \<Rightarrow> 0.5 | Some c \<Rightarrow> max 0 (min 1 c)) (scorer_weight w)
       (case coherence of None \<Rightarrow> ''narrative=unknown'' | Some c \<Rightarrow> ''narrative='' @ fmt_fixed 3 c)"

definition add_risk :: "real \<Rightarrow> effect \<Rightarrow> real" where
  "add_risk risk e =
     (let risk = (if ef_type e = EF_WRITE \<or> ef_type e = EF_EXEC \<or> ef_type e = EF_NETWORK
                  then fadd risk (lit 0.35)
                  else if ef_type e = EF_COMPUTE then fadd risk (lit 0.10) else risk)
      in if \<not> ef_reversible e then fadd risk 0.25 else risk)"

definition effect_risk :: "effect list \<Rightarrow> real" where
  "effect_risk es = max 0 (min 1 (foldl add_risk 0 es))"

definition score_of_effects :: "effect list \<Rightarrow> real \<Rightarrow> score_component result" where
  "score_of_effects es w =
     mk_score_component ''effect_risk'' (fsub 1 (effect_risk es)) (scorer_weight w)
       (''effect_risk='' @ fmt_fixed 3 (effect_risk es))"

section \<open>Policy models\<close>

text \<open>\<open>RuleBasedPolicyModel.decide\<close>: the action and its rationale.\<close>

definition drift_ok :: "policy_thresholds \<Rightarrow> divergence_status option \<Rightarrow> bool" where
  "drift_ok t status \<longleftrightarrow>
     (case status of None \<Rightarrow> True | Some s \<Rightarrow> s = STABLE \<or> s = pt_max_drift_status t)"

definition score_text :: "score_component \<Rightarrow> string" where
  "score_text c = sco_name c @ '':'' @ fmt_fixed 3 (sco_value c) @ ''x'' @ fmt_fixed 2 (sco_weight c)"

definition rationale_text ::
  "verdict_type \<Rightarrow> real \<Rightarrow> divergence_status option \<Rightarrow> real option \<Rightarrow> real \<Rightarrow> score_component list
     \<Rightarrow> policy_action \<Rightarrow> string" where
  "rationale_text vt adjusted status narrative aggregate scores action =
     join ''; ''
       ([''verdict='' @ verdict_type_name vt, ''resonance='' @ fmt_fixed 3 adjusted]
        @ (case status of None \<Rightarrow> [] | Some s \<Rightarrow> [''drift='' @ enum_name divergence_members s])
        @ (case narrative of None \<Rightarrow> [] | Some n \<Rightarrow> [''narrative='' @ fmt_fixed 3 n])
        @ [''aggregate='' @ fmt_fixed 3 aggregate] @ map score_text scores
        @ [''decision='' @ enum_name action_members action])"

definition effect_gate :: "policy_thresholds \<Rightarrow> score_component list \<Rightarrow> (real \<times> score_component) option" where
  "effect_gate t scores =
     (case (pt_effect_risk_min_score t, first_where (\<lambda>c. sco_name c = ''effect_risk'') scores) of
        (Some m, Some c) \<Rightarrow> if sco_weight c > 0 \<and> sco_value c < m then Some (m, c) else None
      | _ \<Rightarrow> None)"

definition rule_action ::
  "verdict_type \<Rightarrow> real \<Rightarrow> divergence_status option \<Rightarrow> real \<Rightarrow> policy_thresholds \<Rightarrow> policy_action" where
  "rule_action vt adjusted status aggregate t =
     (if vt = V_INCOHERENT \<or> status = Some DIVERGED then DENY
      else if vt = V_COHERENT \<and> pt_allow_min_resonance t \<le> adjusted \<and> drift_ok t status
              \<and> pt_allow_min_resonance t \<le> aggregate then ALLOW
      else RESHAPE)"

definition rule_based ::
  "verdict_type \<Rightarrow> real \<Rightarrow> divergence_status option \<Rightarrow> real option \<Rightarrow> score_component list \<Rightarrow> real
     \<Rightarrow> policy_thresholds \<Rightarrow> policy_action \<times> string" where
  "rule_based vt adjusted status narrative scores aggregate t =
     (case effect_gate t scores of
        Some (m, c) \<Rightarrow>
          (DENY, ''verdict='' @ verdict_type_name vt @ ''; effect_risk='' @ fmt_fixed 3 (sco_value c) @
                 '' below min '' @ fmt_fixed 3 m @ ''; '' @ sco_explanation c)
      | None \<Rightarrow>
          (let action = rule_action vt adjusted status aggregate t
           in (action, rationale_text vt adjusted status narrative aggregate scores action)))"

text \<open>The tuned model is the rule-based one with thresholds of its own when it was given a file.\<close>

datatype policy_model = RuleBased | ThresholdTuned "policy_thresholds option"

fun model_decide ::
  "policy_model \<Rightarrow> verdict_type \<Rightarrow> real \<Rightarrow> divergence_status option \<Rightarrow> real option
     \<Rightarrow> score_component list \<Rightarrow> real \<Rightarrow> policy_thresholds \<Rightarrow> policy_action \<times> string" where
  "model_decide RuleBased vt adjusted status narrative scores aggregate t =
     rule_based vt adjusted status narrative scores aggregate t"
| "model_decide (ThresholdTuned ovr) vt adjusted status narrative scores aggregate t =
     rule_based vt adjusted status narrative scores aggregate
       (case ovr of Some t' \<Rightarrow> t' | None \<Rightarrow> t)"

fun model_name :: "policy_model \<Rightarrow> string" where
  "model_name RuleBased = ''rule_based''"
| "model_name (ThresholdTuned _) = ''threshold_tuned''"

text \<open>The registry of models; the tuned one reads its thresholds from a file when it is given a path.\<close>

definition policy_model_named ::
  "(string \<Rightarrow> policy_thresholds result) \<Rightarrow> string \<Rightarrow> string option \<Rightarrow> policy_model result" where
  "policy_model_named read_thresholds name path =
     (if name = ''rule_based'' then Inr RuleBased
      else if name = ''threshold_tuned''
      then (case path of None \<Rightarrow> Inr (ThresholdTuned None)
            | Some p \<Rightarrow> rbind (read_thresholds p) (\<lambda>t. Inr (ThresholdTuned (Some t))))
      else Inl (ValueError (''Unknown policy model: '' @ name)))"

section \<open>Decisions\<close>

record policy_decision =
  pd_decision_id :: string
  pd_action :: policy_action
  pd_rationale :: string
  pd_cast_id :: string
  pd_suggested_intent :: "intent option"
  pd_parent_cast_id :: "string option"
  pd_divergence_status :: "divergence_status option"
  pd_narrative_coherence :: "real option"
  pd_thresholds :: policy_thresholds
  pd_scores :: "score_component list"
  pd_explanation :: "string option"
  pd_model_name :: string
  pd_model_version :: "string option"
  pd_timestamp :: int

definition mk_policy_decision :: "policy_decision \<Rightarrow> policy_decision result" where
  "mk_policy_decision d =
     (if 1 \<le> length (pd_rationale d) \<and> length (pd_rationale d) \<le> 500
         \<and> pred_option (\<lambda>n. 0 \<le> n \<and> n \<le> 1) (pd_narrative_coherence d)
         \<and> pred_option (\<lambda>e. length e \<le> 500) (pd_explanation d)
         \<and> 1 \<le> length (pd_model_name d) \<and> length (pd_model_name d) \<le> 100
         \<and> pred_option (\<lambda>v. length v \<le> 100) (pd_model_version d)
      then Inr d else Inl (ValueError ''PolicyDecision''))"

definition plan_scores ::
  "policy_thresholds \<Rightarrow> real \<Rightarrow> divergence_status option \<Rightarrow> real option \<Rightarrow> effect list
     \<Rightarrow> score_component list result" where
  "plan_scores t adjusted status narrative effects =
     (let w = (\<lambda>k. case dget (pt_scorer_weights t) k of Some x \<Rightarrow> x | None \<Rightarrow> 0) in
      rbind (score_of_resonance adjusted (w ''resonance'')) (\<lambda>a.
      rbind (score_of_divergence status (w ''divergence'')) (\<lambda>b.
      rbind (score_of_narrative narrative (w ''narrative'')) (\<lambda>c.
      rbind (score_of_effects effects (w ''effect_risk'')) (\<lambda>d.
      Inr [a, b, c, d])))))"

definition aggregate_score :: "score_component list \<Rightarrow> real" where
  "aggregate_score scores =
     (let total = fsum (map sco_weight scores)
      in fdiv (fsum (map (\<lambda>s. fmul (sco_value s) (sco_weight s)) scores)) (if total = 0 then 1 else total))"

definition explanation_text :: "score_component list \<Rightarrow> string" where
  "explanation_text scores =
     ''aggregate='' @ fmt_fixed 3 (aggregate_score scores) @ ''; '' @
     join '', '' (map (\<lambda>s. sco_name s @ ''='' @ fmt_fixed 3 (sco_value s)) scores)"

text \<open>The state a decision reads: the stored casts and edges, and the divergence thresholds.\<close>

record decide_input =
  di_aspects :: "aspect list option"
  di_vector :: "svec option"
  di_parent_cast_id :: "string option"
  di_causal_root_cast_id :: "string option"
  di_thresholds :: "policy_thresholds option"
  di_effects :: "effect list"

definition plan_cast ::
  "engine \<Rightarrow> (real \<Rightarrow> real) \<Rightarrow> string \<Rightarrow> stamp \<Rightarrow> stamp list \<Rightarrow> decide_input \<Rightarrow> intent \<Rightarrow> cast_result result" where
  "plan_cast E mexp branch_id st stamps D i =
     (case (di_aspects D, di_vector D) of
        (Some _, Some _) \<Rightarrow> Inl (ValueError ''pass either aspects or vector, not both'')
      | (Some A, None) \<Rightarrow> cast_op E st A i
      | (None, Some v) \<Rightarrow> fluid_cast E mexp st v i
      | (None, None) \<Rightarrow>
          rbind (build_intent_vector E i) (\<lambda>iv.
          rbind (auto_cast E mexp branch_id (take 5 stamps) (iv_vector iv) i 0.75 (lit 0.35))
            (\<lambda>(r, _, _). Inr r)))"

definition plan_divergence ::
  "registry \<Rightarrow> int \<Rightarrow> (graph_db \<times> thresholds_table) option \<Rightarrow> string option \<Rightarrow> cast_result
     \<Rightarrow> divergence_status option result" where
  "plan_divergence R now db parent_id r =
     (case parent_id of
        None \<Rightarrow> Inr None
      | Some pid \<Rightarrow>
          (case db of
             None \<Rightarrow> Inl (ValueError ''grimoire is required when parent_cast_id is provided'')
           | Some (G, TT) \<Rightarrow>
               rbind (read_cast R pid (gd_casts G)) (\<lambda>p.
               rbind (read_divergence_thresholds TT) (\<lambda>th.
               rbind (classify (cr_cast_id r) pid (sg_semantic_vector (cr_sigil p))
                        (sg_semantic_vector (cr_sigil r)) th now) (\<lambda>rep.
               Inr (Some (dr_status rep)))))))"

definition plan_narrative ::
  "(graph_db \<times> thresholds_table) option \<Rightarrow> string option \<Rightarrow> real option result" where
  "plan_narrative db causal_root =
     (case causal_root of
        None \<Rightarrow> Inr None
      | Some rid \<Rightarrow>
          (case db of
             None \<Rightarrow> Inl (ValueError ''grimoire is required when causal_root_cast_id is provided'')
           | Some (G, _) \<Rightarrow>
               Inr (Some (evaluate_narrative (sub_edges (causal_subgraph_of
                 \<lparr>cq_root = rid, cq_edge_types = None, cq_direction = BOTH, cq_max_depth = 5,
                  cq_min_weight = 0\<rparr> G))))))"

definition decide ::
  "engine \<Rightarrow> policy_model \<Rightarrow> (real \<Rightarrow> real) \<Rightarrow> string \<Rightarrow> int \<Rightarrow> string \<Rightarrow> stamp \<Rightarrow> stamp list
     \<Rightarrow> (graph_db \<times> thresholds_table) option \<Rightarrow> decide_input \<Rightarrow> intent
     \<Rightarrow> (policy_decision \<times> cast_result) result" where
  "decide E M mexp decision_id now branch_id st stamps db D i =
     (let t = (case di_thresholds D of Some t \<Rightarrow> t | None \<Rightarrow> default_policy_thresholds) in
      rbind (plan_cast E mexp branch_id st stamps D i) (\<lambda>r.
      rbind (plan_divergence (eg_registry E) now db (di_parent_cast_id D) r) (\<lambda>status.
      rbind (plan_narrative db (di_causal_root_cast_id D)) (\<lambda>narrative.
      rbind (plan_scores t (cast_adjusted r) status narrative (di_effects D)) (\<lambda>scores.
      case model_decide M (cast_verdict r) (cast_adjusted r) status narrative scores
             (aggregate_score scores) t of
        (action, rationale) \<Rightarrow>
          rbind (mk_policy_decision
            \<lparr>pd_decision_id = decision_id, pd_action = action, pd_rationale = rationale,
             pd_cast_id = cr_cast_id r,
             pd_suggested_intent = (if action = RESHAPE then Some i else None),
             pd_parent_cast_id = di_parent_cast_id D, pd_divergence_status = status,
             pd_narrative_coherence = narrative, pd_thresholds = t, pd_scores = scores,
             pd_explanation = Some (explanation_text scores), pd_model_name = model_name M,
             pd_model_version = Some ''1'', pd_timestamp = now\<rparr>) (\<lambda>d.
          Inr (d, if narrative \<noteq> None \<or> di_causal_root_cast_id D \<noteq> None
                  then with_narrative SRC_BASE narrative (di_causal_root_cast_id D) r else r)))))))"

section \<open>The decision repository\<close>

text \<open>The scores and the explanation have no column.\<close>

record decision_row =
  dcr_decision_id :: string
  dcr_action :: string
  dcr_cast_id :: string
  dcr_parent_cast_id :: "string option"
  dcr_divergence_status :: "string option"
  dcr_narrative_coherence :: "real option"
  dcr_thresholds :: policy_thresholds
  dcr_rationale :: string
  dcr_suggested_intent :: "intent option"
  dcr_model_name :: string
  dcr_model_version :: "string option"
  dcr_created_at :: int

record decide_state =
  dcs_graph :: graph_db
  dcs_thresholds :: thresholds_table
  dcs_decisions :: "(string, decision_row) dict"
  dcs_model :: policy_model

definition decision_to_row :: "policy_decision \<Rightarrow> decision_row" where
  "decision_to_row d =
     \<lparr>dcr_decision_id = pd_decision_id d, dcr_action = enum_name action_members (pd_action d),
      dcr_cast_id = pd_cast_id d, dcr_parent_cast_id = pd_parent_cast_id d,
      dcr_divergence_status = map_option (enum_name divergence_members) (pd_divergence_status d),
      dcr_narrative_coherence = pd_narrative_coherence d, dcr_thresholds = pd_thresholds d,
      dcr_rationale = pd_rationale d, dcr_suggested_intent = pd_suggested_intent d,
      dcr_model_name = pd_model_name d, dcr_model_version = pd_model_version d,
      dcr_created_at = pd_timestamp d\<rparr>"

definition write_policy_decision :: "policy_decision \<Rightarrow> decide_state \<Rightarrow> decide_state result" where
  "write_policy_decision d S =
     (if dhas (gd_casts (dcs_graph S)) (pd_cast_id d)
      then Inr (S\<lparr>dcs_decisions := dreplace (pd_decision_id d) (decision_to_row d) (dcs_decisions S)\<rparr>)
      else Inl (RuntimeError ''FOREIGN KEY constraint failed''))"

definition opt_result :: "('a \<Rightarrow> 'b result) \<Rightarrow> 'a option \<Rightarrow> 'b option result" where
  "opt_result f x = (case x of None \<Rightarrow> Inr None | Some y \<Rightarrow> rbind (f y) (\<lambda>z. Inr (Some z)))"

definition decision_of_row :: "decision_row \<Rightarrow> policy_decision result" where
  "decision_of_row row =
     rbind (enum_lookup action_members (dcr_action row)) (\<lambda>action.
     rbind (opt_result (\<lambda>i. mk_intent (in_objective i) (in_scope i) (in_reversibility i)
                              (in_side_effect_tolerance i)) (dcr_suggested_intent row)) (\<lambda>suggested.
     rbind (opt_result (enum_lookup divergence_members) (dcr_divergence_status row)) (\<lambda>status.
     rbind (mk_policy_thresholds (dcr_thresholds row)) (\<lambda>t.
     mk_policy_decision
       \<lparr>pd_decision_id = dcr_decision_id row, pd_action = action, pd_rationale = dcr_rationale row,
        pd_cast_id = dcr_cast_id row, pd_suggested_intent = suggested,
        pd_parent_cast_id = dcr_parent_cast_id row, pd_divergence_status = status,
        pd_narrative_coherence = dcr_narrative_coherence row, pd_thresholds = t, pd_scores = [],
        pd_explanation = None, pd_model_name = dcr_model_name row,
        pd_model_version = dcr_model_version row, pd_timestamp = dcr_created_at row\<rparr>))))"

definition read_policy_decision :: "string \<Rightarrow> decide_state \<Rightarrow> policy_decision result" where
  "read_policy_decision decision_id S =
     rbind (of_option (KeyError decision_id) (dget (dcs_decisions S) decision_id)) decision_of_row"

definition query_policy_decisions ::
  "policy_action option \<Rightarrow> int option \<Rightarrow> int \<Rightarrow> decide_state \<Rightarrow> policy_decision list result" where
  "query_policy_decisions action since limit S =
     rbind (sql_int limit) (\<lambda>limit.
     rmap_list (\<lambda>row. read_policy_decision (dcr_decision_id row) S)
       (sql_limit limit (sort_key (\<lambda>row. - dcr_created_at row)
          (filter (\<lambda>row. pred_option (\<lambda>a. dcr_action row = enum_name action_members a) action
                        \<and> pred_option (\<lambda>t. t \<le> dcr_created_at row) since)
            (map snd (dcs_decisions S))))))"

section \<open>The decide tool\<close>

record decide_args =
  da_intent :: intent
  da_aspects :: "string list option"
  da_vector :: "real list option"
  da_parent_cast_id :: "string option"
  da_causal_root_cast_id :: "string option"
  da_thresholds :: "policy_thresholds option"
  da_effects :: "effect list option"
  da_policy_model :: "string option"
  da_tuned_thresholds_path :: "string option"
  da_require_causal_root :: bool

definition resolve_aspect_arg :: "registry \<Rightarrow> string \<Rightarrow> aspect result" where
  "resolve_aspect_arg R name =
     (case resolve R name of
        Inl (KeyError _) \<Rightarrow> Inl (ValueError (''Unknown aspect: '' @ name))
      | r \<Rightarrow> r)"

definition decide_arguments :: "registry \<Rightarrow> decide_args \<Rightarrow> (intent \<times> decide_input) result" where
  "decide_arguments R a =
     (if da_require_causal_root a \<and> da_causal_root_cast_id a \<in> {None, Some []}
      then Inl (ValueError ''divination gate: causal_root_cast_id required when ritual/bundle requires causal context'')
      else
        rbind (mk_intent (in_objective (da_intent a)) (in_scope (da_intent a))
                 (in_reversibility (da_intent a)) (in_side_effect_tolerance (da_intent a))) (\<lambda>i.
        rbind (opt_result (rmap_list (resolve_aspect_arg R)) (da_aspects a)) (\<lambda>aspects.
        rbind (opt_result (\<lambda>xs. mk_svec xs None) (da_vector a)) (\<lambda>vec.
        rbind (opt_result mk_policy_thresholds (da_thresholds a)) (\<lambda>t.
        rbind (opt_result (rmap_list mk_effect) (da_effects a)) (\<lambda>effects.
        Inr (i, \<lparr>di_aspects = map_option remdups aspects, di_vector = vec,
                 di_parent_cast_id = da_parent_cast_id a,
                 di_causal_root_cast_id = da_causal_root_cast_id a, di_thresholds = t,
                 di_effects = (case effects of None \<Rightarrow> [] | Some es \<Rightarrow> es)\<rparr>)))))))"

text \<open>
  The engine decides under the requested model, and the previous model is put back whatever
  happens; then the cast and the decision are written.
\<close>

definition select_model ::
  "(string \<Rightarrow> policy_thresholds result) \<Rightarrow> decide_args \<Rightarrow> (decide_state, unit) op" where
  "select_model read_thresholds a S =
     (case da_policy_model a of
        None \<Rightarrow> (Inr (), S)
      | Some name \<Rightarrow>
          (case policy_model_named read_thresholds name (da_tuned_thresholds_path a) of
             Inl e \<Rightarrow> (Inl e, S)
           | Inr m \<Rightarrow> (Inr (), S\<lparr>dcs_model := m\<rparr>)))"

definition tool_decide ::
  "engine \<Rightarrow> (real \<Rightarrow> real) \<Rightarrow> (string \<Rightarrow> policy_thresholds result) \<Rightarrow> string \<Rightarrow> int \<Rightarrow> string \<Rightarrow> stamp
     \<Rightarrow> stamp list \<Rightarrow> decide_args \<Rightarrow> (decide_state, policy_decision \<times> cast_result) op" where
  "tool_decide E mexp read_thresholds decision_id now branch_id st stamps a S =
     (case decide_arguments (eg_registry E) a of
        Inl e \<Rightarrow> (Inl e, S)
      | Inr (i, D) \<Rightarrow>
          (case obind (select_model read_thresholds a)
                  (\<lambda>_ S. (decide E (dcs_model S) mexp decision_id now branch_id st stamps
                           (Some (dcs_graph S, dcs_thresholds S)) D i, S)) S of
             (Inl e, S1) \<Rightarrow> (Inl e, S1\<lparr>dcs_model := dcs_model S\<rparr>)
           | (Inr (d, r), S1) \<Rightarrow>
               (let S2 = S1\<lparr>dcs_model := dcs_model S\<rparr> in
                case store_cast (eg_registry E) r (dcs_graph S2) of
                  Inl e \<Rightarrow> (Inl e, S2)
                | Inr G \<Rightarrow>
                    (let S3 = S2\<lparr>dcs_graph := G\<rparr> in
                     case write_policy_decision d S3 of
                       Inl e \<Rightarrow> (Inl e, S3)
                     | Inr S4 \<Rightarrow> (Inr (d, r), S4)))))"

section \<open>Laws of the scores\<close>

lemma unit_clamp: "0 \<le> max 0 (min 1 x) \<and> max 0 (min 1 x) \<le> (1::real)"
  by auto

definition double_weights :: "policy_thresholds \<Rightarrow> bool" where
  "double_weights t \<longleftrightarrow> list_all (\<lambda>(k, w). is_double w) (pt_scorer_weights t)"

text \<open>The four scores of a plan, when no weight is above five.\<close>

definition plan_weight :: "policy_thresholds \<Rightarrow> string \<Rightarrow> real" where
  "plan_weight t k = scorer_weight (case dget (pt_scorer_weights t) k of Some x \<Rightarrow> x | None \<Rightarrow> 0)"

definition score_ok :: "score_component \<Rightarrow> bool" where
  "score_ok c \<longleftrightarrow> 0 \<le> sco_value c \<and> sco_value c \<le> 1 \<and> 0 \<le> sco_weight c \<and> sco_weight c \<le> 5
     \<and> 1 \<le> length (sco_name c) \<and> length (sco_name c) \<le> 11 \<and> length (sco_explanation c) \<le> 20"

lemma effect_risk_unit: "0 \<le> effect_risk es \<and> effect_risk es \<le> 1"
  by (auto simp: effect_risk_def)

lemma effect_value_unit: "0 \<le> fsub 1 (effect_risk es) \<and> fsub 1 (effect_risk es) \<le> 1"
  using effect_risk_unit [of es] fl_unit [of "1 - effect_risk es"] by (simp add: fsub_def)

lemma length_fmt_unit: "0 \<le> x \<Longrightarrow> x \<le> 1 \<Longrightarrow> length (fmt_fixed 3 x) \<le> 6"
  using length_fmt_fixed [of x 2] by (simp add: numeral_3_eq_3)

lemma length_fmt_weight: "0 \<le> x \<Longrightarrow> x \<le> 5 \<Longrightarrow> length (fmt_fixed 2 x) \<le> 5"
  using length_fmt_fixed_9 [of x 1] by (simp add: numeral_2_eq_2)

definition plan_score_list ::
  "policy_thresholds \<Rightarrow> real \<Rightarrow> divergence_status option \<Rightarrow> real option \<Rightarrow> effect list \<Rightarrow> score_component list" where
  "plan_score_list t adjusted status narrative effects =
     [\<lparr>sco_name = ''resonance'', sco_value = max 0 (min 1 adjusted), sco_weight = plan_weight t ''resonance'',
       sco_explanation = ''resonance='' @ fmt_fixed 3 adjusted\<rparr>,
      \<lparr>sco_name = ''divergence'', sco_value = divergence_value status,
       sco_weight = plan_weight t ''divergence'',
       sco_explanation = ''divergence='' @
         (case status of Some s \<Rightarrow> enum_name divergence_members s | None \<Rightarrow> ''NONE'')\<rparr>,
      \<lparr>sco_name = ''narrative'', sco_value = (case narrative of None \<Rightarrow> 0.5 | Some c \<Rightarrow> max 0 (min 1 c)),
       sco_weight = plan_weight t ''narrative'',
       sco_explanation = (case narrative of None \<Rightarrow> ''narrative=unknown''
                          | Some c \<Rightarrow> ''narrative='' @ fmt_fixed 3 c)\<rparr>,
      \<lparr>sco_name = ''effect_risk'', sco_value = fsub 1 (effect_risk effects),
       sco_weight = plan_weight t ''effect_risk'',
       sco_explanation = ''effect_risk='' @ fmt_fixed 3 (effect_risk effects)\<rparr>]"

lemma mk_score_component_Inr:
  "mk_score_component n v w e = Inr c \<longleftrightarrow>
     c = \<lparr>sco_name = n, sco_value = v, sco_weight = w, sco_explanation = e\<rparr>
     \<and> 1 \<le> length n \<and> length n \<le> 100 \<and> 0 \<le> v \<and> v \<le> 1 \<and> 0 \<le> w \<and> w \<le> 5 \<and> 1 \<le> length e \<and> length e \<le> 300"
  by (auto simp: mk_score_component_def)

definition weights_ok :: "policy_thresholds \<Rightarrow> bool" where
  "weights_ok t \<longleftrightarrow> (\<forall>k \<in> {''resonance'', ''divergence'', ''narrative'', ''effect_risk''}. plan_weight t k \<le> 5)"

lemma plan_weight_nonneg [simp]: "0 \<le> plan_weight t k"
  by (simp add: plan_weight_def scorer_weight_def)

lemma length_divergence_name [simp]: "length (enum_name divergence_members s) \<le> 8"
  by (cases s) (simp_all add: enum_name_def divergence_members_def)

lemma divergence_value_unit [simp]: "0 \<le> divergence_value s" "divergence_value s \<le> 1"
  by (cases s rule: divergence_value.cases; simp)+

lemma plan_scores_Inr:
  assumes "0 \<le> adjusted" "adjusted \<le> 1" "pred_option (\<lambda>n. 0 \<le> n \<and> n \<le> 1) narrative"
  shows "plan_scores t adjusted status narrative effects = Inr scores \<longleftrightarrow>
     weights_ok t \<and> scores = plan_score_list t adjusted status narrative effects"
proof -
  have len: "length (fmt_fixed 3 adjusted) \<le> 6" "length (fmt_fixed 3 (effect_risk effects)) \<le> 6"
    "\<And>n. narrative = Some n \<Longrightarrow> length (fmt_fixed 3 n) \<le> 6"
    using length_fmt_unit assms effect_risk_unit by auto
  show ?thesis
    unfolding plan_scores_def Let_def rbind_Inr_iff score_of_resonance_def score_of_divergence_def
      score_of_narrative_def score_of_effects_def mk_score_component_Inr weights_ok_def
      plan_score_list_def plan_weight_def
    using len assms effect_value_unit [of effects] length_divergence_name
    by (cases narrative; cases status) (auto simp: scorer_weight_def le_trans [OF length_divergence_name])
qed

lemma plan_score_list_ok:
  assumes "0 \<le> adjusted" "adjusted \<le> 1" "pred_option (\<lambda>n. 0 \<le> n \<and> n \<le> 1) narrative" "weights_ok t"
  shows "list_all score_ok (plan_score_list t adjusted status narrative effects)"
proof -
  have len: "length (fmt_fixed 3 adjusted) \<le> 6" "length (fmt_fixed 3 (effect_risk effects)) \<le> 6"
    "\<And>n. narrative = Some n \<Longrightarrow> length (fmt_fixed 3 n) \<le> 6"
    using length_fmt_unit assms effect_risk_unit by auto
  show ?thesis
    using len assms effect_value_unit [of effects] length_divergence_name
    unfolding plan_score_list_def score_ok_def weights_ok_def list.pred_inject
    by (cases narrative; cases status) (auto simp: le_trans [OF length_divergence_name])
qed

lemma length_join_le:
  "\<forall>x \<in> set xs. length x \<le> n \<Longrightarrow> length (join sep xs) \<le> length xs * (n + length sep)"
proof (induction sep xs rule: join.induct)
  case (3 sep x y zs)
  then have "length (join sep (y # zs)) \<le> length (y # zs) * (n + length sep)" by simp
  moreover have "length x \<le> n" using 3 by simp
  ultimately show ?case by simp
qed simp_all

lemma length_score_text: "score_ok c \<Longrightarrow> length (score_text c) \<le> 24"
  using length_fmt_unit [of "sco_value c"] length_fmt_weight [of "sco_weight c"]
  by (simp add: score_ok_def score_text_def)

lemma length_verdict_name: "length (verdict_type_name v) \<le> 10"
  by (cases v) simp_all

lemma length_action_name: "length (enum_name action_members a) \<le> 7"
  by (cases a) (simp_all add: enum_name_def action_members_def)

lemma length_rationale:
  assumes "0 \<le> adjusted" "adjusted \<le> 1" "pred_option (\<lambda>n. 0 \<le> n \<and> n \<le> 1) narrative"
    and "0 \<le> aggregate" "aggregate \<le> 1" "list_all score_ok scores" "length scores = 4"
  shows "1 \<le> length (rationale_text vt adjusted status narrative aggregate scores action)
     \<and> length (rationale_text vt adjusted status narrative aggregate scores action) \<le> 500"
proof -
  let ?xs = "[''verdict='' @ verdict_type_name vt, ''resonance='' @ fmt_fixed 3 adjusted]
        @ (case status of None \<Rightarrow> [] | Some s \<Rightarrow> [''drift='' @ enum_name divergence_members s])
        @ (case narrative of None \<Rightarrow> [] | Some n \<Rightarrow> [''narrative='' @ fmt_fixed 3 n])
        @ [''aggregate='' @ fmt_fixed 3 aggregate] @ map score_text scores
        @ [''decision='' @ enum_name action_members action]"
  have len: "length (fmt_fixed 3 adjusted) \<le> 6" "length (fmt_fixed 3 aggregate) \<le> 6"
    "\<And>n. narrative = Some n \<Longrightarrow> length (fmt_fixed 3 n) \<le> 6"
    using length_fmt_unit assms by auto
  have "\<forall>x \<in> set ?xs. length x \<le> 24"
    using len length_score_text assms(6) length_verdict_name [of vt] length_action_name [of action]
    using le_trans [OF length_divergence_name, of 18] by (auto simp: list_all_iff split: option.splits)
  then have "length (join ''; '' ?xs) \<le> length ?xs * (24 + 2)"
    using length_join_le [of ?xs 24 "''; ''"] by simp
  also have "length ?xs \<le> 10" using assms(7) by (simp split: option.split)
  finally have "length (join ''; '' ?xs) \<le> 500" by simp
  moreover have "1 \<le> length (join ''; '' ?xs)" by simp
  ultimately show ?thesis unfolding rationale_text_def by blast
qed

section \<open>The aggregate\<close>

lemma foldl_fadd_mono:
  "list_all2 (\<le>) xs ys \<Longrightarrow> a \<le> b \<Longrightarrow> foldl fadd a xs \<le> foldl fadd b ys"
  by (induction xs ys arbitrary: a b rule: list_all2_induct) (simp_all add: fadd_def add_mono fl_mono)

lemma fsum_mono: "list_all2 (\<le>) xs ys \<Longrightarrow> fsum xs \<le> fsum ys"
  by (simp add: fsum_def foldl_fadd_mono)

definition weighted_sum :: "score_component list \<Rightarrow> real" where
  "weighted_sum scores = fsum (map (\<lambda>s. fmul (sco_value s) (sco_weight s)) scores)"

lemma aggregate_weighted:
  "aggregate_score scores =
     (let total = fsum (map sco_weight scores)
      in fdiv (weighted_sum scores) (if total = 0 then 1 else total))"
  by (simp add: aggregate_score_def weighted_sum_def)

lemma weighted_sum_range:
  assumes "list_all (\<lambda>s. score_ok s \<and> is_double (sco_weight s)) scores"
  shows "0 \<le> weighted_sum scores \<and> weighted_sum scores \<le> fsum (map sco_weight scores)"
proof
  show "0 \<le> weighted_sum scores"
    unfolding weighted_sum_def using assms
    by (intro fsum_nonneg) (auto simp: list_all_iff score_ok_def fmul_def intro!: fl_nonneg)
  have "fmul (sco_value s) (sco_weight s) \<le> sco_weight s" if "score_ok s \<and> is_double (sco_weight s)" for s
    using that unfolding fmul_def by (intro fl_le) (auto simp: score_ok_def mult_left_le_one_le)
  then show "weighted_sum scores \<le> fsum (map sco_weight scores)"
    unfolding weighted_sum_def using assms
    by (intro fsum_mono) (auto simp: list_all2_conv_all_nth list_all_length)
qed

lemma aggregate_unit:
  assumes "list_all (\<lambda>s. score_ok s \<and> is_double (sco_weight s)) scores"
  shows "0 \<le> aggregate_score scores \<and> aggregate_score scores \<le> 1"
proof -
  let ?t = "fsum (map sco_weight scores)"
  have t: "0 \<le> weighted_sum scores" "weighted_sum scores \<le> ?t" using weighted_sum_range [OF assms] by auto
  then have "0 \<le> weighted_sum scores / (if ?t = 0 then 1 else ?t)"
    "weighted_sum scores / (if ?t = 0 then 1 else ?t) \<le> 1"
    by (auto simp: divide_le_eq)
  then show ?thesis using fl_unit unfolding aggregate_weighted Let_def fdiv_def by blast
qed

text \<open>Lowering values with the same weights lowers the aggregate.\<close>

lemma aggregate_mono:
  assumes "list_all2 (\<lambda>a b. sco_value a \<le> sco_value b \<and> sco_weight a = sco_weight b \<and> 0 \<le> sco_weight a) xs ys"
  shows "aggregate_score xs \<le> aggregate_score ys"
proof -
  have w: "map sco_weight xs = map sco_weight ys"
    using assms by (auto simp: list_all2_conv_all_nth intro: nth_equalityI)
  have "list_all2 (\<le>) (map (\<lambda>s. fmul (sco_value s) (sco_weight s)) xs)
          (map (\<lambda>s. fmul (sco_value s) (sco_weight s)) ys)"
    using assms by (auto simp: list_all2_conv_all_nth fmul_def intro!: fl_mono mult_right_mono)
  then have "weighted_sum xs \<le> weighted_sum ys"
    unfolding weighted_sum_def by (rule fsum_mono)
  moreover have "0 \<le> sco_weight y" if "y \<in> set ys" for y
  proof -
    obtain k where k: "k < length ys" "y = ys ! k" using \<open>y \<in> set ys\<close> by (auto simp: in_set_conv_nth)
    with list_all2_nthD2 [OF assms k(1)] show ?thesis by simp
  qed
  then have "0 \<le> fsum (map sco_weight ys)" by (intro fsum_nonneg) auto
  ultimately show ?thesis
    unfolding aggregate_weighted Let_def w fdiv_def by (intro fl_mono divide_right_mono) auto
qed

section \<open>Effects only lower the score\<close>

lemma add_risk_mono: "a \<le> b \<Longrightarrow> add_risk a e \<le> add_risk b e"
  by (simp add: add_risk_def Let_def fadd_def fl_mono)

lemma foldl_add_risk_mono: "a \<le> b \<Longrightarrow> foldl add_risk a es \<le> foldl add_risk b es"
  by (induction es arbitrary: a b) (simp_all add: add_risk_mono)

lemma add_risk_grows: "is_double r \<Longrightarrow> r \<le> add_risk r e \<and> is_double (add_risk r e)"
proof -
  assume r: "is_double r"
  have step: "x \<le> fadd x c \<and> is_double (fadd x c)" if "is_double x" "0 \<le> c" for x c
    using fl_ge [of x "x + c"] that by (simp add: fadd_def is_double_fl)
  have lits: "0 \<le> lit 0.35" "0 \<le> lit 0.10"
    using lit_unit [of "0.35"] lit_unit [of "0.10"] by simp_all
  show ?thesis
    unfolding add_risk_def Let_def
    using r step [OF r lits(1)] step [OF r lits(2)] step [of _ "0.25"]
    by (auto intro: order_trans)
qed

lemma foldl_add_risk_subseq:
  "subseq xs ys \<Longrightarrow> a \<le> b \<Longrightarrow> is_double b \<Longrightarrow> foldl add_risk a xs \<le> foldl add_risk b ys"
proof (induction arbitrary: a b rule: list_emb.induct)
  case (list_emb_Nil ys)
  then show ?case
  proof (induction ys arbitrary: b)
    case (Cons y ys)
    then show ?case using add_risk_grows [of b y] by (auto intro: order_trans)
  qed simp
next
  case (list_emb_Cons xs ys y)
  then show ?case using add_risk_grows [of b y] by (auto intro: order_trans)
next
  case (list_emb_Cons2 x y xs ys)
  then show ?case using add_risk_grows [of b y] add_risk_mono [of a b y] by auto
qed

lemma effect_risk_subseq: "subseq es es' \<Longrightarrow> effect_risk es \<le> effect_risk es'"
  using foldl_add_risk_subseq [of es es' 0 0] unfolding effect_risk_def by fastforce

section \<open>What a decision is made of\<close>

lemma fluid_cast_verdict: "fluid_cast E mexp st v i = Inr r \<Longrightarrow> cr_verdict r = evaluate E (cr_sigil r) i"
  by (auto simp: fluid_cast_def rbind_Inr_iff mk_cast_result_def)

lemma link_cast_keeps:
  "link_cast b chain base = Inr r \<Longrightarrow> cr_verdict r = cr_verdict base \<and> cr_sigil r = cr_sigil base"
  by (auto simp: link_cast_def rbind_Inr_iff Let_def split: if_splits)

lemma auto_cast_loop_verdicts:
  "auto_cast_loop E mexp i target alpha branch sts current chain steps = Inr (chain', x) \<Longrightarrow>
   \<forall>r \<in> set chain. cr_verdict r = evaluate E (cr_sigil r) i \<Longrightarrow>
   \<forall>r \<in> set chain'. cr_verdict r = evaluate E (cr_sigil r) i"
proof (induction sts arbitrary: current chain steps)
  case (Cons st sts)
  obtain base r where b: "fluid_cast E mexp st current i = Inr base" "link_cast branch chain base = Inr r"
    using Cons.prems(1) by (auto simp: rbind_Inr_iff)
  then have v: "cr_verdict r = evaluate E (cr_sigil r) i"
    using fluid_cast_verdict [OF b(1)] link_cast_keeps [OF b(2)] by simp
  show ?case
  proof (cases "cast_verdict r = V_COHERENT \<and> cast_adjusted r \<ge> target")
    case True
    with Cons.prems b v show ?thesis by (auto simp: Let_def)
  next
    case False
    obtain f :: sigil where f: "auto_cast_loop E mexp i target alpha branch sts
        (blend_toward (eg_registry E) current (sg_semantic_vector f) alpha) (chain @ [r])
        (steps @ [step_of alpha r]) = Inr (chain', x)"
      using Cons.prems(1) False b by (auto simp: rbind_Inr_iff Let_def)
    show ?thesis by (rule Cons.IH [OF f]) (use Cons.prems(2) v in simp)
  qed
qed simp

lemma plan_cast_verdict:
  assumes "plan_cast E mexp b st stamps D i = Inr r"
  shows "cr_verdict r = evaluate E (cr_sigil r) i"
proof (cases "(di_aspects D, di_vector D)" rule: prod.exhaust)
  case (Pair A v)
  have auto: "cr_verdict r = evaluate E (cr_sigil r) i" if a: "auto_cast E mexp b sts w i t a = Inr (r, c, d)" for sts w t a c d
  proof -
    obtain chain s ok where "auto_cast_loop E mexp i t a b sts w [] [] = Inr (chain, s, ok)"
      "chain \<noteq> []" "r = last chain"
      using a by (auto simp: auto_cast_def rbind_Inr_iff split: if_splits)
    with auto_cast_loop_verdicts [of E mexp i t a b sts w "[]" "[]" chain "(s, ok)"] show ?thesis by simp
  qed
  show ?thesis
    using assms auto fluid_cast_verdict [of E mexp st _ i r]
    by (cases "di_aspects D"; cases "di_vector D")
      (auto simp: plan_cast_def cast_op_def rbind_Inr_iff mk_cast_result_def)
qed

lemma evaluate_narrative_unit: "0 \<le> evaluate_narrative es \<and> evaluate_narrative es \<le> 1"
  by (auto simp: evaluate_narrative_def Let_def)

lemma plan_narrative_unit: "plan_narrative db root_id = Inr n \<Longrightarrow> pred_option (\<lambda>n. 0 \<le> n \<and> n \<le> 1) n"
  using evaluate_narrative_unit by (auto simp: plan_narrative_def split: option.splits)

lemma cast_adjusted_unit:
  "cr_verdict r = evaluate E (cr_sigil r) i \<Longrightarrow> 0 \<le> cast_adjusted r \<and> cast_adjusted r \<le> 1"
  using evaluate_facts [of E "cr_sigil r" i] by auto

text \<open>The decision as a value, once the plan is cast and its drift and narrative are known.\<close>

definition decision_for ::
  "policy_model \<Rightarrow> string \<Rightarrow> int \<Rightarrow> decide_input \<Rightarrow> intent \<Rightarrow> policy_thresholds \<Rightarrow> cast_result
     \<Rightarrow> divergence_status option \<Rightarrow> real option \<Rightarrow> policy_decision" where
  "decision_for M decision_id now D i t r status narrative =
     (let scores = plan_score_list t (cast_adjusted r) status narrative (di_effects D);
          (action, rationale) = model_decide M (cast_verdict r) (cast_adjusted r) status narrative scores
            (aggregate_score scores) t
      in \<lparr>pd_decision_id = decision_id, pd_action = action, pd_rationale = rationale,
          pd_cast_id = cr_cast_id r, pd_suggested_intent = (if action = RESHAPE then Some i else None),
          pd_parent_cast_id = di_parent_cast_id D, pd_divergence_status = status,
          pd_narrative_coherence = narrative, pd_thresholds = t, pd_scores = scores,
          pd_explanation = Some (explanation_text scores), pd_model_name = model_name M,
          pd_model_version = Some ''1'', pd_timestamp = now\<rparr>)"

definition decide_thresholds :: "decide_input \<Rightarrow> policy_thresholds" where
  "decide_thresholds D = (case di_thresholds D of Some t \<Rightarrow> t | None \<Rightarrow> default_policy_thresholds)"

definition noted_cast :: "decide_input \<Rightarrow> real option \<Rightarrow> cast_result \<Rightarrow> cast_result" where
  "noted_cast D narrative r =
     (if narrative \<noteq> None \<or> di_causal_root_cast_id D \<noteq> None
      then with_narrative SRC_BASE narrative (di_causal_root_cast_id D) r else r)"

lemma noted_cast_keeps [simp]:
  "cr_verdict (noted_cast D n r) = cr_verdict r" "cr_sigil (noted_cast D n r) = cr_sigil r"
  "cr_cast_id (noted_cast D n r) = cr_cast_id r"
  by (simp_all add: noted_cast_def with_narrative_def Let_def)

lemma decide_Inr:
  "decide E M mexp did now b st stamps db D i = Inr (d, r') \<longleftrightarrow>
   (\<exists>r status narrative. plan_cast E mexp b st stamps D i = Inr r
      \<and> plan_divergence (eg_registry E) now db (di_parent_cast_id D) r = Inr status
      \<and> plan_narrative db (di_causal_root_cast_id D) = Inr narrative
      \<and> weights_ok (decide_thresholds D)
      \<and> d = decision_for M did now D i (decide_thresholds D) r status narrative
      \<and> mk_policy_decision d = Inr d \<and> r' = noted_cast D narrative r)"
  (is "?L \<longleftrightarrow> ?R")
proof
  assume ?L
  then obtain r status narrative scores where *: "plan_cast E mexp b st stamps D i = Inr r"
    "plan_divergence (eg_registry E) now db (di_parent_cast_id D) r = Inr status"
    "plan_narrative db (di_causal_root_cast_id D) = Inr narrative"
    "plan_scores (decide_thresholds D) (cast_adjusted r) status narrative (di_effects D) = Inr scores"
    by (auto simp: decide_def Let_def rbind_Inr_iff decide_thresholds_def)
  have u: "0 \<le> cast_adjusted r" "cast_adjusted r \<le> 1" "pred_option (\<lambda>n. 0 \<le> n \<and> n \<le> 1) narrative"
    using cast_adjusted_unit [OF plan_cast_verdict [OF *(1)]] plan_narrative_unit [OF *(3)] by auto
  have s: "weights_ok (decide_thresholds D)"
    "scores = plan_score_list (decide_thresholds D) (cast_adjusted r) status narrative (di_effects D)"
    using *(4) plan_scores_Inr [OF u] by auto
  have "mk_policy_decision (decision_for M did now D i (decide_thresholds D) r status narrative) = Inr d
      \<and> r' = noted_cast D narrative r"
    using \<open>?L\<close> *(1,2,3) *(4) unfolding decide_def Let_def decision_for_def s(2)
    by (auto simp: rbind_Inr_iff decide_thresholds_def noted_cast_def split: prod.splits)
  with * s show ?R by (auto simp: mk_policy_decision_def split: if_splits)
next
  assume ?R
  then obtain r status narrative where *: "plan_cast E mexp b st stamps D i = Inr r"
    "plan_divergence (eg_registry E) now db (di_parent_cast_id D) r = Inr status"
    "plan_narrative db (di_causal_root_cast_id D) = Inr narrative" "weights_ok (decide_thresholds D)"
    "d = decision_for M did now D i (decide_thresholds D) r status narrative"
    "mk_policy_decision d = Inr d" "r' = noted_cast D narrative r" by blast
  have u: "0 \<le> cast_adjusted r" "cast_adjusted r \<le> 1" "pred_option (\<lambda>n. 0 \<le> n \<and> n \<le> 1) narrative"
    using cast_adjusted_unit [OF plan_cast_verdict [OF *(1)]] plan_narrative_unit [OF *(3)] by auto
  have "plan_scores (decide_thresholds D) (cast_adjusted r) status narrative (di_effects D)
      = Inr (plan_score_list (decide_thresholds D) (cast_adjusted r) status narrative (di_effects D))"
    using plan_scores_Inr [OF u] *(4) by blast
  with * show ?L
    by (auto simp: decide_def Let_def decision_for_def decide_thresholds_def noted_cast_def split: prod.splits)
qed

section \<open>Decisions are always well-formed\<close>

definition model_thresholds :: "policy_model \<Rightarrow> policy_thresholds \<Rightarrow> policy_thresholds" where
  "model_thresholds M t = (case M of ThresholdTuned (Some t') \<Rightarrow> t' | _ \<Rightarrow> t)"

lemma model_decide_rule:
  "model_decide M vt a s n sc g t = rule_based vt a s n sc g (model_thresholds M t)"
  by (cases "(M, vt, a, s, n, sc, g, t)" rule: model_decide.cases)
    (auto simp: model_thresholds_def split: option.split)

definition inputs_ok :: "policy_model \<Rightarrow> decide_input \<Rightarrow> bool" where
  "inputs_ok M D \<longleftrightarrow> double_weights (decide_thresholds D)
     \<and> pred_option (\<lambda>m. 0 \<le> m \<and> m \<le> 1) (pt_effect_risk_min_score (model_thresholds M (decide_thresholds D)))"

lemma plan_weight_double: "double_weights t \<Longrightarrow> is_double (plan_weight t k)"
proof -
  assume t: "double_weights t"
  have "is_double w" if "dget (pt_scorer_weights t) k = Some w" for w
    using t that by (auto simp: double_weights_def list_all_iff dest!: map_of_SomeD)
  then show ?thesis
    by (auto simp: plan_weight_def scorer_weight_def max_def split: option.split)
qed

lemma plan_score_list_double:
  assumes "0 \<le> adjusted" "adjusted \<le> 1" "pred_option (\<lambda>n. 0 \<le> n \<and> n \<le> 1) narrative" "weights_ok t"
    and "double_weights t"
  shows "list_all (\<lambda>s. score_ok s \<and> is_double (sco_weight s)) (plan_score_list t adjusted status narrative effects)"
  using plan_score_list_ok [OF assms(1-4), of status effects] plan_weight_double [OF assms(5)]
  by (simp add: plan_score_list_def)

lemma explanation_length:
  assumes "list_all score_ok scores" "length scores = 4" "0 \<le> aggregate_score scores" "aggregate_score scores \<le> 1"
  shows "length (explanation_text scores) \<le> 500"
proof -
  have "length (sco_name s @ ''='' @ fmt_fixed 3 (sco_value s)) \<le> 18" if "score_ok s" for s
    using that length_fmt_unit [of "sco_value s"] by (auto simp: score_ok_def)
  then have "length (join '', '' (map (\<lambda>s. sco_name s @ ''='' @ fmt_fixed 3 (sco_value s)) scores))
      \<le> length scores * (18 + 2)"
    using length_join_le [of "map (\<lambda>s. sco_name s @ ''='' @ fmt_fixed 3 (sco_value s)) scores" 18 "'', ''"] assms(1)
    by (auto simp: list_all_iff)
  with length_fmt_unit [OF assms(3,4)] assms(2) show ?thesis by (simp add: explanation_text_def)
qed

lemma effect_gate_Some:
  "effect_gate t scores = Some (m, c) \<Longrightarrow>
   pt_effect_risk_min_score t = Some m \<and> c \<in> set scores \<and> sco_weight c > 0 \<and> sco_value c < m"
  by (auto simp: effect_gate_def dest: first_where_Some split: option.splits if_splits)

lemma decision_for_ok:
  assumes "cr_verdict r = evaluate E (cr_sigil r) i'" "pred_option (\<lambda>n. 0 \<le> n \<and> n \<le> 1) narrative"
    and "weights_ok (decide_thresholds D)" "inputs_ok M D"
  shows "mk_policy_decision (decision_for M did now D i (decide_thresholds D) r status narrative)
       = Inr (decision_for M did now D i (decide_thresholds D) r status narrative)"
proof -
  let ?t = "decide_thresholds D" and ?mt = "model_thresholds M (decide_thresholds D)"
  let ?sc = "plan_score_list ?t (cast_adjusted r) status narrative (di_effects D)"
  have u: "0 \<le> cast_adjusted r" "cast_adjusted r \<le> 1" using cast_adjusted_unit [OF assms(1)] by auto
  have ok: "list_all score_ok ?sc" using plan_score_list_ok [OF u assms(2,3)] .
  have agg: "0 \<le> aggregate_score ?sc" "aggregate_score ?sc \<le> 1"
    using aggregate_unit [OF plan_score_list_double [OF u assms(2,3)]] assms(4) by (auto simp: inputs_ok_def)
  have four: "length ?sc = 4" by (simp add: plan_score_list_def)
  have expl: "length (explanation_text ?sc) \<le> 500" by (rule explanation_length [OF ok four agg])
  define act rat where "act = fst (model_decide M (cast_verdict r) (cast_adjusted r) status narrative ?sc
      (aggregate_score ?sc) ?t)" and "rat = snd (model_decide M (cast_verdict r) (cast_adjusted r) status narrative ?sc
      (aggregate_score ?sc) ?t)"
  have "1 \<le> length rat \<and> length rat \<le> 500"
  proof (cases "effect_gate ?mt ?sc")
    case None
    with length_rationale [OF u assms(2) agg ok four] show ?thesis
      by (simp add: rat_def model_decide_rule rule_based_def Let_def)
  next
    case (Some mc)
    obtain m c where mc: "mc = (m, c)" by (cases mc)
    with Some effect_gate_Some have g: "pt_effect_risk_min_score ?mt = Some m" "c \<in> set ?sc" by blast+
    have c: "score_ok c" using ok g(2) by (simp only: list_all_iff)
    have "0 \<le> m" "m \<le> 1" using assms(4) g(1) by (simp_all add: inputs_ok_def)
    with c Some mc show ?thesis
      using length_fmt_unit [of m] length_fmt_unit [of "sco_value c"] length_verdict_name [of "cast_verdict r"]
      by (simp add: rat_def model_decide_rule rule_based_def score_ok_def)
  qed
  moreover have "1 \<le> length (model_name M) \<and> length (model_name M) \<le> 100"
    by (cases M rule: model_name.cases) simp_all
  ultimately show ?thesis
    using expl assms(2)
    unfolding decision_for_def Let_def mk_policy_decision_def rat_def [symmetric] act_def [symmetric]
    by (simp add: case_prod_beta rat_def)
qed

section \<open>Properties of decisions\<close>

lemma decision_for_sel:
  "pd_action (decision_for M did now D i t r status narrative) =
     fst (rule_based (cast_verdict r) (cast_adjusted r) status narrative
            (plan_score_list t (cast_adjusted r) status narrative (di_effects D))
            (aggregate_score (plan_score_list t (cast_adjusted r) status narrative (di_effects D)))
            (model_thresholds M t))"
  "pd_scores (decision_for M did now D i t r status narrative) =
     plan_score_list t (cast_adjusted r) status narrative (di_effects D)"
  "pd_divergence_status (decision_for M did now D i t r status narrative) = status"
  "pd_thresholds (decision_for M did now D i t r status narrative) = t"
  "pd_decision_id (decision_for M did now D i t r status narrative) = did"
  "pd_cast_id (decision_for M did now D i t r status narrative) = cr_cast_id r"
  "pd_suggested_intent (decision_for M did now D i t r status narrative) =
     (if pd_action (decision_for M did now D i t r status narrative) = RESHAPE then Some i else None)"
  by (simp_all add: decision_for_def Let_def model_decide_rule case_prod_beta)

lemma rule_action_cases:
  "rule_action vt adjusted status aggregate t = ALLOW \<longleftrightarrow>
     vt = V_COHERENT \<and> pt_allow_min_resonance t \<le> min adjusted aggregate \<and> drift_ok t status \<and> status \<noteq> Some DIVERGED"
  "rule_action vt adjusted status aggregate t = DENY \<longleftrightarrow> vt = V_INCOHERENT \<or> status = Some DIVERGED"
  by (auto simp: rule_action_def)

text \<open>
  C15. What a decision permits.  ALLOW is given exactly when the verdict is COHERENT, the drift from
  the parent is tolerated, both the adjusted resonance and the aggregate score reach the threshold,
  and the effect gate does not fire; DENY exactly when the verdict is INCOHERENT, the drift is
  DIVERGED or the gate fires.  An intent is suggested exactly for RESHAPE, and a sigil with a HARD
  contradiction is never allowed.
\<close>

theorem decide_permits:
  assumes "decide E M mexp did now b st stamps db D i = Inr (d, r)"
  shows "(let t = model_thresholds M (pd_thresholds d);
              gate = effect_gate t (pd_scores d) \<noteq> None;
              status = pd_divergence_status d
          in (pd_action d = ALLOW \<longleftrightarrow>
                \<not> gate \<and> cast_verdict r = V_COHERENT \<and> status \<noteq> Some DIVERGED \<and> drift_ok t status
                \<and> pt_allow_min_resonance t \<le> min (cast_adjusted r) (aggregate_score (pd_scores d)))
           \<and> (pd_action d = DENY \<longleftrightarrow> gate \<or> cast_verdict r = V_INCOHERENT \<or> status = Some DIVERGED)
           \<and> pd_suggested_intent d = (if pd_action d = RESHAPE then Some i else None)
           \<and> (sg_contradiction_severity (cr_sigil r) = SEV_HARD \<longrightarrow> pd_action d \<noteq> ALLOW))"
proof -
  obtain r0 status narrative where r0: "plan_cast E mexp b st stamps D i = Inr r0"
    and d: "d = decision_for M did now D i (decide_thresholds D) r0 status narrative"
    and r: "r = noted_cast D narrative r0"
    using assms unfolding decide_Inr by blast
  let ?t = "model_thresholds M (decide_thresholds D)"
  let ?sc = "plan_score_list (decide_thresholds D) (cast_adjusted r0) status narrative (di_effects D)"
  have act: "pd_action d = (if effect_gate ?t ?sc \<noteq> None then DENY
      else rule_action (cast_verdict r) (cast_adjusted r) status (aggregate_score ?sc) ?t)"
    by (auto simp: d r decision_for_sel rule_based_def Let_def split: option.split)
  have hard: "sg_contradiction_severity (cr_sigil r) = SEV_HARD \<Longrightarrow> cast_verdict r \<noteq> V_COHERENT"
    using hard_not_coherent [of "cr_sigil r" E i] plan_cast_verdict [OF r0] by (simp add: r)
  have sel: "pd_thresholds d = decide_thresholds D" "pd_scores d = ?sc" "pd_divergence_status d = status"
    "pd_suggested_intent d = (if pd_action d = RESHAPE then Some i else None)"
    by (simp_all add: d decision_for_sel)
  have 1: "pd_action d = ALLOW \<longleftrightarrow> effect_gate ?t ?sc = None \<and> cast_verdict r = V_COHERENT \<and>
      status \<noteq> Some DIVERGED \<and> drift_ok ?t status
      \<and> pt_allow_min_resonance ?t \<le> min (cast_adjusted r) (aggregate_score ?sc)"
    unfolding act by (cases "effect_gate ?t ?sc") (auto simp only: rule_action_cases if_True if_False
        option.simps policy_action.simps simp_thms)
  have 2: "pd_action d = DENY \<longleftrightarrow> effect_gate ?t ?sc \<noteq> None \<or> cast_verdict r = V_INCOHERENT \<or> status = Some DIVERGED"
    unfolding act by (simp add: rule_action_cases)
  show ?thesis
    unfolding Let_def sel(1-3)
    by (intro conjI impI) (simp only: 1 not_not, rule 2, rule sel(4), simp only: 1 hard simp_thms not_False_eq_True)
qed

text \<open>
  C16. Declaring more effects never makes a decision more permissive: with any superset of the
  effects, in any positions, the decision exists as well, is about the same cast, and its action is
  the same or stricter.
\<close>

theorem effects_only_restrict:
  assumes "decide E M mexp did now b st stamps db (D\<lparr>di_effects := es\<rparr>) i = Inr (d, r)"
    and "subseq es es'" "inputs_ok M D"
  shows "\<exists>d'. decide E M mexp did now b st stamps db (D\<lparr>di_effects := es'\<rparr>) i = Inr (d', r)
     \<and> pd_action d' \<le> pd_action d"
proof -
  let ?D = "D\<lparr>di_effects := es\<rparr>" and ?D' = "D\<lparr>di_effects := es'\<rparr>"
  have same [simp]: "decide_thresholds ?D = decide_thresholds D" "decide_thresholds ?D' = decide_thresholds D"
    "inputs_ok M ?D' = inputs_ok M D" "noted_cast ?D = noted_cast D" "noted_cast ?D' = noted_cast D"
    "plan_cast E mexp b st stamps ?D' i = plan_cast E mexp b st stamps D i"
    "plan_cast E mexp b st stamps ?D i = plan_cast E mexp b st stamps D i"
    by (simp_all add: decide_thresholds_def inputs_ok_def noted_cast_def fun_eq_iff plan_cast_def)
  obtain r0 status narrative where p: "plan_cast E mexp b st stamps D i = Inr r0"
    "plan_divergence (eg_registry E) now db (di_parent_cast_id D) r0 = Inr status"
    "plan_narrative db (di_causal_root_cast_id D) = Inr narrative" "weights_ok (decide_thresholds D)"
    "d = decision_for M did now ?D i (decide_thresholds D) r0 status narrative" "r = noted_cast D narrative r0"
    using assms(1) unfolding decide_Inr by auto
  let ?d' = "decision_for M did now ?D' i (decide_thresholds D) r0 status narrative"
  have "mk_policy_decision ?d' = Inr ?d'"
    using decision_for_ok [of r0 E i narrative ?D' M] plan_cast_verdict [OF p(1)] plan_narrative_unit [OF p(3)] p(4) assms(3)
    by simp
  then have "decide E M mexp did now b st stamps db ?D' i = Inr (?d', r)"
    unfolding decide_Inr using p by auto
  moreover have "pd_action ?d' \<le> pd_action d"
  proof -
    let ?t = "decide_thresholds D" and ?mt = "model_thresholds M (decide_thresholds D)"
    let ?sc = "plan_score_list ?t (cast_adjusted r0) status narrative es"
    let ?sc' = "plan_score_list ?t (cast_adjusted r0) status narrative es'"
    have v: "fsub 1 (effect_risk es') \<le> fsub 1 (effect_risk es)"
      using effect_risk_subseq [OF assms(2)] by (simp add: fsub_def fl_mono)
    then have agg: "aggregate_score ?sc' \<le> aggregate_score ?sc"
      by (intro aggregate_mono) (simp add: plan_score_list_def)
    have gate: "effect_gate ?mt ?sc \<noteq> None \<Longrightarrow> effect_gate ?mt ?sc' \<noteq> None"
      using v by (auto simp: effect_gate_def plan_score_list_def split: option.splits if_splits)
    have rule: "rule_action vt a s (aggregate_score ?sc') ?mt \<le> rule_action vt a s (aggregate_score ?sc) ?mt" for vt a s
      using agg by (auto simp: rule_action_def less_eq_policy_action_def)
    have deny: "DENY \<le> a" for a by (simp add: less_eq_policy_action_def)
    show ?thesis
      using gate rule deny by (auto simp: p(5) decision_for_sel rule_based_def Let_def split: option.splits)
  qed
  ultimately show ?thesis by blast
qed

text \<open>
  C17. The scores of a decision.  There are four, the aggregate lies in [0, 1], and the weight of a
  score is the configured one, except that a missing weight and a weight of zero both count as one
  and a negative weight as zero: a scorer cannot be switched off with a zero weight.
\<close>

theorem scores_weighted:
  assumes "decide E M mexp did now b st stamps db D i = Inr (d, r)" "inputs_ok M D"
  shows "map sco_name (pd_scores d) = [''resonance'', ''divergence'', ''narrative'', ''effect_risk'']
     \<and> 0 \<le> aggregate_score (pd_scores d) \<and> aggregate_score (pd_scores d) \<le> 1
     \<and> (\<forall>c \<in> set (pd_scores d). sco_weight c =
          (case dget (pt_scorer_weights (pd_thresholds d)) (sco_name c) of
             None \<Rightarrow> 1 | Some w \<Rightarrow> if w = 0 then 1 else max 0 w))"
proof -
  obtain r0 status narrative where r0: "plan_cast E mexp b st stamps D i = Inr r0"
    "plan_narrative db (di_causal_root_cast_id D) = Inr narrative" "weights_ok (decide_thresholds D)"
    and d: "d = decision_for M did now D i (decide_thresholds D) r0 status narrative"
    using assms(1) unfolding decide_Inr by blast
  let ?sc = "plan_score_list (decide_thresholds D) (cast_adjusted r0) status narrative (di_effects D)"
  have dd: "list_all (\<lambda>s. score_ok s \<and> is_double (sco_weight s)) ?sc"
    using cast_adjusted_unit [OF plan_cast_verdict [OF r0(1)]] plan_narrative_unit [OF r0(2)] r0(3) assms(2)
    by (intro plan_score_list_double) (auto simp: inputs_ok_def)
  have sel: "pd_scores d = ?sc" "pd_thresholds d = decide_thresholds D"
    by (simp_all only: d decision_for_sel)
  have w: "plan_weight t k = (case dget (pt_scorer_weights t) k of
             None \<Rightarrow> 1 | Some w \<Rightarrow> if w = 0 then 1 else max 0 w)" for t k
    by (simp add: plan_weight_def scorer_weight_def split: option.split)
  have "map sco_name ?sc = [''resonance'', ''divergence'', ''narrative'', ''effect_risk'']"
    by (simp add: plan_score_list_def)
  moreover have "\<forall>c \<in> set ?sc. sco_weight c = plan_weight (decide_thresholds D) (sco_name c)"
    by (simp add: plan_score_list_def)
  ultimately show ?thesis using aggregate_unit [OF dd] unfolding sel w by blast
qed

section \<open>The decide tool\<close>

lemma decide_valid:
  assumes "decide E M mexp did now b st stamps db D i = Inr (d, r)"
  shows "mk_policy_decision d = Inr d" "pd_decision_id d = did" "pd_cast_id d = cr_cast_id r"
    "pd_thresholds d = decide_thresholds D" "pd_suggested_intent d \<in> {None, Some i}"
  using assms unfolding decide_Inr by (auto simp: decision_for_sel)

lemma default_thresholds_valid: "mk_policy_thresholds default_policy_thresholds = Inr default_policy_thresholds"
  using lit_unit [of "0.45"] by (simp add: mk_policy_thresholds_def default_policy_thresholds_def)

lemma decide_arguments_Inr:
  assumes "decide_arguments R a = Inr (i, D)"
  shows "mk_intent (in_objective i) (in_scope i) (in_reversibility i) (in_side_effect_tolerance i) = Inr i"
    "mk_policy_thresholds (decide_thresholds D) = Inr (decide_thresholds D)"
proof -
  obtain t where "mk_intent (in_objective (da_intent a)) (in_scope (da_intent a)) (in_reversibility (da_intent a))
      (in_side_effect_tolerance (da_intent a)) = Inr i" "opt_result mk_policy_thresholds (da_thresholds a) = Inr t"
    "di_thresholds D = t"
    using assms by (auto simp: decide_arguments_def rbind_Inr_iff split: if_splits)
  then show "mk_intent (in_objective i) (in_scope i) (in_reversibility i) (in_side_effect_tolerance i) = Inr i"
    "mk_policy_thresholds (decide_thresholds D) = Inr (decide_thresholds D)"
    using default_thresholds_valid
    by (auto simp: mk_intent_def opt_result_def decide_thresholds_def mk_policy_thresholds_def rbind_Inr_iff
        split: if_splits option.splits)
qed

lemma store_cast_Inr:
  "store_cast R r G = Inr G' \<longleftrightarrow> \<not> dhas (gd_casts G) (cr_cast_id r)
     \<and> G' = G\<lparr>gd_casts := dset (cr_cast_id r) (serialize_cast_result R r) (gd_casts G)\<rparr>"
  by (auto simp: store_cast_def write_cast_def)

lemma tool_decide_cases:
  assumes "tool_decide E mexp rt did now b st stamps a S = (res, S')"
  shows "(\<exists>e. res = Inl e \<and> S' = S) \<or>
    (\<exists>i D M d r. decide_arguments (eg_registry E) a = Inr (i, D) \<and> res = Inr (d, r)
       \<and> decide E M mexp did now b st stamps (Some (dcs_graph S, dcs_thresholds S)) D i = Inr (d, r)
       \<and> \<not> dhas (gd_casts (dcs_graph S)) (cr_cast_id r)
       \<and> S' = S\<lparr>dcs_graph := (dcs_graph S)\<lparr>gd_casts := dset (cr_cast_id r)
                    (serialize_cast_result (eg_registry E) r) (gd_casts (dcs_graph S))\<rparr>,
               dcs_decisions := dreplace did (decision_to_row d) (dcs_decisions S)\<rparr>)"
proof (cases "decide_arguments (eg_registry E) a")
  case (Inl e)
  then show ?thesis using assms by (auto simp: tool_decide_def)
next
  case (Inr iD)
  then obtain i D where args: "decide_arguments (eg_registry E) a = Inr (i, D)" by (cases iD) auto
  obtain sel S1 where s1: "select_model rt a S = (sel, S1)" by (cases "select_model rt a S")
  then obtain m where S1: "S1 = S\<lparr>dcs_model := m\<rparr>"
    by (auto simp: select_model_def split: option.splits sum.splits) (metis decide_state.surjective decide_state.update_convs(4))+
  show ?thesis
  proof (cases sel)
    case (Inl e)
    then show ?thesis using assms args s1 S1 by (auto simp: tool_decide_def obind_def)
  next
    case [simp]: (Inr u)
    show ?thesis
    proof (cases "decide E m mexp did now b st stamps (Some (dcs_graph S, dcs_thresholds S)) D i")
      case (Inl e)
      then have "res = Inl e \<and> S' = S" using assms args s1 S1 by (auto simp: tool_decide_def obind_def)
      then show ?thesis by blast
    next
      case (Inr dr)
      then obtain d r where d: "decide E m mexp did now b st stamps (Some (dcs_graph S, dcs_thresholds S)) D i
          = Inr (d, r)" by (cases dr) auto
      show ?thesis
      proof (cases "store_cast (eg_registry E) r (dcs_graph S)")
        case (Inl e)
        then have "res = Inl e \<and> S' = S" using assms args s1 S1 d by (auto simp: tool_decide_def obind_def)
        then show ?thesis by blast
      next
        case (Inr G)
        then have G: "\<not> dhas (gd_casts (dcs_graph S)) (cr_cast_id r)"
          "G = (dcs_graph S)\<lparr>gd_casts := dset (cr_cast_id r) (serialize_cast_result (eg_registry E) r)
                               (gd_casts (dcs_graph S))\<rparr>"
          by (simp_all add: store_cast_Inr)
        with Inr assms args s1 S1 d decide_valid(2,3) [OF d]
        have "res = Inr (d, r)" "S' = S\<lparr>dcs_graph := G, dcs_decisions := dreplace did (decision_to_row d) (dcs_decisions S)\<rparr>"
          by (simp_all add: tool_decide_def obind_def write_policy_decision_def dict_simps)
        with G args d show ?thesis by blast
      qed
    qed
  qed
qed

lemma decision_row_roundtrip:
  assumes "mk_policy_decision d = Inr d" "mk_policy_thresholds (pd_thresholds d) = Inr (pd_thresholds d)"
    and "pred_option (\<lambda>i. mk_intent (in_objective i) (in_scope i) (in_reversibility i)
            (in_side_effect_tolerance i) = Inr i) (pd_suggested_intent d)"
  shows "decision_of_row (decision_to_row d) = Inr (d\<lparr>pd_scores := [], pd_explanation := None\<rparr>)"
  using assms
  by (cases "pd_suggested_intent d"; cases "pd_divergence_status d")
    (simp_all add: decision_of_row_def decision_to_row_def opt_result_def mk_policy_decision_def split: if_splits)

text \<open>
  C18. The decide tool is atomic and records what it answers.  When it raises, the state is as
  before, the policy model included.  When it answers, the model and the edges are as before, the
  cast is a new row, and the decision reads back under its id as itself without the scores and the
  explanation, which have no column; every other decision is untouched.
\<close>

theorem decide_recorded:
  "case tool_decide E mexp read_thresholds did now b st stamps a S of
     (Inl e, S') \<Rightarrow> S' = S
   | (Inr (d, r), S') \<Rightarrow>
       dcs_model S' = dcs_model S \<and> gd_edges (dcs_graph S') = gd_edges (dcs_graph S)
       \<and> \<not> dhas (gd_casts (dcs_graph S)) (cr_cast_id r)
       \<and> dget (gd_casts (dcs_graph S')) (cr_cast_id r) = Some (serialize_cast_result (eg_registry E) r)
       \<and> (\<forall>k. read_policy_decision k S' =
            (if k = did then Inr (d\<lparr>pd_scores := [], pd_explanation := None\<rparr>)
             else read_policy_decision k S))"
proof -
  obtain res S' where t: "tool_decide E mexp read_thresholds did now b st stamps a S = (res, S')"
    by (cases "tool_decide E mexp read_thresholds did now b st stamps a S")
  from tool_decide_cases [OF this] show ?thesis
  proof (elim disjE exE conjE)
    fix i D M d r
    assume args: "decide_arguments (eg_registry E) a = Inr (i, D)" and res: "res = Inr (d, r)"
      and d: "decide E M mexp did now b st stamps (Some (dcs_graph S, dcs_thresholds S)) D i = Inr (d, r)"
      and new: "\<not> dhas (gd_casts (dcs_graph S)) (cr_cast_id r)"
      and S': "S' = S\<lparr>dcs_graph := (dcs_graph S)\<lparr>gd_casts := dset (cr_cast_id r)
                    (serialize_cast_result (eg_registry E) r) (gd_casts (dcs_graph S))\<rparr>,
               dcs_decisions := dreplace did (decision_to_row d) (dcs_decisions S)\<rparr>"
    have "decision_of_row (decision_to_row d) = Inr (d\<lparr>pd_scores := [], pd_explanation := None\<rparr>)"
      using decide_valid [OF d] decide_arguments_Inr [OF args] by (intro decision_row_roundtrip) auto
    then show ?thesis
      unfolding t using new decide_valid(2) [OF d]
      by (simp add: res S' dict_simps read_policy_decision_def)
  qed (simp add: t)
qed

section \<open>Witnesses\<close>

definition sample_plan :: "effect list \<Rightarrow> decide_input" where
  "sample_plan es = \<lparr>di_aspects = None, di_vector = Some zero_vec, di_parent_cast_id = None,
     di_causal_root_cast_id = None, di_thresholds = None, di_effects = es\<rparr>"

definition sample_effect :: effect where
  "sample_effect = \<lparr>ef_type = EF_EXEC, ef_target = None, ef_reversible = False, ef_cost_hint = 0\<rparr>"

lemma default_weights_double: "double_weights default_policy_thresholds"
  using is_double_dyadic [of 1 1] by (simp add: double_weights_def default_policy_thresholds_def)

lemma default_weights_ok: "weights_ok default_policy_thresholds"
proof -
  have "lit 0.2 \<le> 1" "lit 0.1 \<le> 1" using lit_unit [of "0.2"] lit_unit [of "0.1"] by simp_all
  then show ?thesis
    by (simp add: weights_ok_def plan_weight_def default_policy_thresholds_def scorer_weight_def)
qed

lemma sample_plan_ok: "inputs_ok RuleBased (sample_plan es)"
  using default_weights_double
  by (simp add: inputs_ok_def decide_thresholds_def sample_plan_def model_thresholds_def
      default_policy_thresholds_def)

abbreviation sample_decide :: "effect list \<Rightarrow> (policy_decision \<times> cast_result) result" where
  "sample_decide es \<equiv> decide sample_engine RuleBased (\<lambda>x. fl (exp x)) ''d'' 0 ''b'' (''c1'', 0) [] None
     (sample_plan es) sample_intent"

lemma sample_decide_exists: "\<exists>d r. sample_decide es = Inr (d, r)"
proof -
  obtain r where r: "fluid_cast sample_engine (\<lambda>x. fl (exp x)) (''c1'', 0) zero_vec sample_intent = Inr r"
    using sample_fluid_cast by blast
  have t: "decide_thresholds (sample_plan es) = default_policy_thresholds"
    by (simp add: decide_thresholds_def sample_plan_def)
  have "mk_policy_decision (decision_for RuleBased ''d'' 0 (sample_plan es) sample_intent
      (decide_thresholds (sample_plan es)) r None None) = Inr (decision_for RuleBased ''d'' 0 (sample_plan es)
      sample_intent (decide_thresholds (sample_plan es)) r None None)"
    using fluid_cast_verdict [OF r] default_weights_ok sample_plan_ok by (intro decision_for_ok) (auto simp: t)
  with r default_weights_ok show ?thesis
    unfolding decide_Inr t
    by (auto simp: plan_cast_def plan_divergence_def plan_narrative_def sample_plan_def)
qed

lemma decide_permits_witness:
  "\<exists>d r. sample_decide [] = Inr (d, r) \<and> pd_suggested_intent d = (if pd_action d = RESHAPE then Some sample_intent else None)
     \<and> (pd_action d = ALLOW \<longrightarrow> cast_verdict r = V_COHERENT)"
proof -
  obtain d r where "sample_decide [] = Inr (d, r)" using sample_decide_exists by blast
  with decide_permits [OF this] show ?thesis by (auto simp: Let_def)
qed

lemma effects_only_restrict_witness:
  "\<exists>d r d'. sample_decide [] = Inr (d, r) \<and> sample_decide [sample_effect] = Inr (d', r)
     \<and> pd_action d' \<le> pd_action d"
proof -
  obtain d r where d: "sample_decide [] = Inr (d, r)" using sample_decide_exists by blast
  have u: "sample_plan es = (sample_plan [])\<lparr>di_effects := es\<rparr>" for es by (simp add: sample_plan_def)
  show ?thesis
    using effects_only_restrict [where D = "sample_plan []" and es = "[]" and es' = "[sample_effect]",
        folded u, OF d _ sample_plan_ok] d by auto
qed

lemma scores_weighted_witness:
  "\<exists>d r. sample_decide [sample_effect] = Inr (d, r)
     \<and> 0 \<le> aggregate_score (pd_scores d) \<and> aggregate_score (pd_scores d) \<le> 1 \<and> length (pd_scores d) = 4"
proof -
  obtain d r where d: "sample_decide [sample_effect] = Inr (d, r)" using sample_decide_exists by blast
  note w = scores_weighted [OF d sample_plan_ok]
  from arg_cong [OF conjunct1 [OF w], of length] have "length (pd_scores d) = 4" by simp
  with d w show ?thesis by blast
qed

end
