(* ===== verification/Programs.thy ===== *)
theory Programs
  imports Policy
begin

text \<open>
  Semantic programs: the node and program models of \<open>schema/_legacy.py\<close>, the validation of
  \<open>engine/operations/program_validation.py\<close>, compilation and execution of
  \<open>engine/operations/programs.py\<close>, the program and receipt repositories, and the tools of
  \<open>mcp/tools/programs.py\<close>.  Lengths and counts that the models keep non-negative are naturals.
\<close>

section \<open>Programs\<close>

datatype node_type = NT_CAST | NT_FLUID_CAST | NT_AUTO_CAST | NT_GATE | NT_MERGE

datatype program_status = PS_DRAFT | PS_COMPILED | PS_RUNNING | PS_COMPLETED | PS_FAILED

datatype rollback_strategy = RB_NONE | RB_COMPENSATE | RB_UNDO_LOG | RB_CHECKPOINT_RESTORE

datatype merge_strategy = FIRST_COHERENT | BEST_RESONANCE | MERGE_ALL

datatype cond_op = OP_EQ | OP_NEQ | OP_GT | OP_GTE | OP_LT | OP_LTE | OP_CONTAINS | OP_EXISTS

record condition_expr =
  cx_op :: cond_op
  cx_key :: string
  cx_value :: json

text \<open>Preconditions and postconditions have the same fields.\<close>

record condition =
  cd_predicate :: string
  cd_expr :: "condition_expr option"

record permission =
  pm_capability :: string
  pm_scope_predicate :: string

record retry_policy =
  rp_max_attempts :: nat
  rp_backoff_ms :: nat
  rp_retry_on :: "effect_type list"

record cast_node =
  cn_node_id :: string
  cn_node_type :: node_type
  cn_aspects :: "string list option"
  cn_vector :: "svec option"
  cn_intent :: intent
  cn_successors :: "string list"
  cn_gate_condition :: "verdict_type option"
  cn_merge_strategy :: "merge_strategy option"
  cn_preconditions :: "condition list option"
  cn_postconditions :: "condition list option"
  cn_effects :: "effect list option"
  cn_required_permissions :: "permission list option"
  cn_retry_policy :: "retry_policy option"
  cn_rollback :: "rollback_strategy option"
  cn_timeout_ms :: "nat option"

definition condition_ok :: "condition \<Rightarrow> bool" where
  "condition_ok c \<longleftrightarrow>
     1 \<le> length (cd_predicate c) \<and> length (cd_predicate c) \<le> 300
     \<and> pred_option (\<lambda>x. 1 \<le> length (cx_key x) \<and> length (cx_key x) \<le> 200) (cd_expr c)"

definition permission_ok :: "permission \<Rightarrow> bool" where
  "permission_ok p \<longleftrightarrow>
     1 \<le> length (pm_capability p) \<and> length (pm_capability p) \<le> 100
     \<and> 1 \<le> length (pm_scope_predicate p) \<and> length (pm_scope_predicate p) \<le> 300"

definition retry_ok :: "retry_policy \<Rightarrow> bool" where
  "retry_ok r \<longleftrightarrow> 1 \<le> rp_max_attempts r \<and> rp_max_attempts r \<le> 20 \<and> rp_backoff_ms r \<le> 60000"

text \<open>\<open>_validate_node_payload\<close>: each node type has the payload it needs.\<close>

definition payload_ok :: "cast_node \<Rightarrow> bool" where
  "payload_ok n =
     (case cn_node_type n of
        NT_CAST \<Rightarrow> cn_aspects n \<notin> {None, Some []} \<and> cn_vector n = None
      | NT_FLUID_CAST \<Rightarrow> cn_vector n \<noteq> None \<and> cn_aspects n = None
      | NT_AUTO_CAST \<Rightarrow> cn_vector n \<noteq> None \<and> cn_aspects n = None
      | NT_GATE \<Rightarrow> cn_gate_condition n \<noteq> None
      | NT_MERGE \<Rightarrow> cn_merge_strategy n \<noteq> None)"

definition node_ok :: "cast_node \<Rightarrow> bool" where
  "node_ok n \<longleftrightarrow>
     1 \<le> length (cn_node_id n) \<and> length (cn_node_id n) \<le> 200 \<and> payload_ok n
     \<and> pred_option (list_all condition_ok) (cn_preconditions n)
     \<and> pred_option (list_all condition_ok) (cn_postconditions n)
     \<and> pred_option (list_all (\<lambda>e. mk_effect e = Inr e)) (cn_effects n)
     \<and> pred_option (list_all permission_ok) (cn_required_permissions n)
     \<and> pred_option retry_ok (cn_retry_policy n)
     \<and> pred_option (\<lambda>t. 1 \<le> t \<and> t \<le> 3600000) (cn_timeout_ms n)"

record semantic_program =
  sp_program_id :: string
  sp_name :: string
  sp_status :: program_status
  sp_nodes :: "cast_node list"
  sp_entry_node_ids :: "string list"
  sp_metadata :: "(string, json) dict"
  sp_created_at :: int
  sp_updated_at :: int

definition mk_semantic_program :: "semantic_program \<Rightarrow> semantic_program result" where
  "mk_semantic_program p =
     (let ids = map cn_node_id (sp_nodes p) in
      if 1 \<le> length (sp_name p) \<and> length (sp_name p) \<le> 200 \<and> sp_nodes p \<noteq> [] \<and> sp_entry_node_ids p \<noteq> []
         \<and> list_all node_ok (sp_nodes p) \<and> distinct ids \<and> set (sp_entry_node_ids p) \<subseteq> set ids
      then Inr p else Inl (ValueError ''SemanticProgram''))"

section \<open>Validation\<close>

definition effect_type_name :: "effect_type \<Rightarrow> string" where
  "effect_type_name t =
     (case t of EF_READ \<Rightarrow> ''READ'' | EF_WRITE \<Rightarrow> ''WRITE'' | EF_NETWORK \<Rightarrow> ''NETWORK'' | EF_EXEC \<Rightarrow> ''EXEC''
      | EF_COMPUTE \<Rightarrow> ''COMPUTE'' | EF_OBSERVE \<Rightarrow> ''OBSERVE'' | EF_NONE \<Rightarrow> ''NONE'')"

definition node_table :: "semantic_program \<Rightarrow> (string, cast_node) dict" where
  "node_table p = foldl (\<lambda>d n. dset (cn_node_id n) n d) [] (sp_nodes p)"

definition or_empty :: "'a list option \<Rightarrow> 'a list" where
  "or_empty xs = (case xs of None \<Rightarrow> [] | Some ys \<Rightarrow> ys)"

record validation_report =
  vr_errors :: "string list"
  vr_warnings :: "string list"

definition effect_warnings :: "string \<Rightarrow> cast_node \<Rightarrow> string list" where
  "effect_warnings nid n =
     List.map_filter (\<lambda>e.
       if ef_type e \<in> {EF_WRITE, EF_EXEC, EF_NETWORK} \<and> cn_rollback n \<in> {None, Some RB_NONE}
          \<and> cn_node_type n \<noteq> NT_GATE
       then Some (''node '' @ nid @ '': destructive effect '' @ effect_type_name (ef_type e) @
                  '' without rollback strategy'') else None) (or_empty (cn_effects n))"

definition node_report :: "string \<Rightarrow> cast_node \<Rightarrow> validation_report" where
  "node_report nid n =
     \<lparr>vr_errors =
        (case cn_timeout_ms n of Some t \<Rightarrow>
           if t > 3600000 then [''node '' @ nid @ '': timeout_ms exceeds maximum (1h)''] else [] | None \<Rightarrow> []) @
        (case cn_retry_policy n of Some r \<Rightarrow>
           if rp_max_attempts r > 20 then [''node '' @ nid @ '': retry_policy.max_attempts too large''] else []
         | None \<Rightarrow> []),
      vr_warnings =
        (case cn_retry_policy n of Some r \<Rightarrow>
           if rp_backoff_ms r > 600000 then [''node '' @ nid @ '': very large backoff_ms''] else []
         | None \<Rightarrow> []) @
        effect_warnings nid n @
        (if card (cd_predicate ` set (or_empty (cn_postconditions n))) < length (or_empty (cn_postconditions n))
         then [''node '' @ nid @ '': duplicate postcondition keys''] else [])\<rparr>"

definition validate_program :: "semantic_program \<Rightarrow> validation_report" where
  "validate_program p =
     (let reports = map (\<lambda>(nid, n). node_report nid n) (node_table p) in
      \<lparr>vr_errors = concat (map vr_errors reports),
       vr_warnings = concat (map vr_warnings reports) @
         List.map_filter (\<lambda>(nid, n).
           if cn_node_type n = NT_GATE \<and> cn_successors n = []
           then Some (''node '' @ nid @ '': GATE with no successors (dead end)'') else None) (node_table p)\<rparr>)"

section \<open>Topological order\<close>

text \<open>
  \<open>for nxt in nodes[cur].successors\<close>: the indegree of each successor drops, and a successor without
  further predecessors becomes ready (the ready list is kept sorted).
\<close>

fun relax :: "string list \<Rightarrow> (string, int) dict \<times> string list \<Rightarrow> ((string, int) dict \<times> string list) result" where
  "relax [] (indegree, ready) = Inr (indegree, ready)"
| "relax (nxt # succs) (indegree, ready) =
     (case dget indegree nxt of
        None \<Rightarrow> Inl (KeyError nxt)
      | Some d \<Rightarrow> relax succs (dset nxt (d - 1) indegree, if d - 1 = 0 then sort (ready @ [nxt]) else ready))"

definition pending :: "(string, int) dict \<Rightarrow> nat" where
  "pending indegree = length (filter (\<lambda>(k, d). 0 < d) indegree)"

lemma pending_update:
  "dget indegree k = Some d \<Longrightarrow>
   pending (dset k (d - 1) indegree) + (if d = 1 then 1 else 0) \<le> pending indegree"
  by (induction indegree) (auto simp: pending_def split: if_splits)

lemma relax_pending:
  "relax succs (indegree, ready) = Inr (indegree', ready') \<Longrightarrow>
   length ready' + pending indegree' \<le> length ready + pending indegree"
proof (induction succs "(indegree, ready)" arbitrary: indegree ready rule: relax.induct)
  case (2 nxt succs indegree ready)
  then show ?case
    using pending_update [of indegree nxt]
    by (fastforce split: option.splits if_splits)
qed simp

text \<open>
  The loop ends whatever the graph: every round takes one node off the ready list, and a node enters
  it only when its indegree leaves the positive numbers.
\<close>

function topo_loop ::
  "(string, cast_node) dict \<Rightarrow> (string, int) dict \<Rightarrow> string list \<Rightarrow> string list \<Rightarrow> string list result" where
  "topo_loop nodes indegree [] out = Inr out"
| "topo_loop nodes indegree (cur # ready) out =
     (case dget nodes cur of
        None \<Rightarrow> Inl (KeyError cur)
      | Some n \<Rightarrow>
          (case relax (cn_successors n) (indegree, ready) of
             Inl e \<Rightarrow> Inl e
           | Inr (indegree', ready') \<Rightarrow> topo_loop nodes indegree' ready' (out @ [cur])))"
  by pat_completeness auto
termination
  by (relation "measure (\<lambda>(nodes, indegree, ready, out). length ready + pending indegree)")
    (auto dest: relax_pending)

definition topological_order ::
  "(string, cast_node) dict \<Rightarrow> (string, string list) dict \<Rightarrow> string list result" where
  "topological_order nodes predecessors =
     (let indegree = map (\<lambda>(nid, preds). (nid, int (length preds))) predecessors;
          ready = sort (map fst (filter (\<lambda>(nid, d). d = 0) indegree)) in
      rbind (topo_loop nodes indegree ready []) (\<lambda>out.
      if length out \<noteq> length nodes then Inl (ValueError ''semantic program contains a cycle'')
      else Inr out))"

text \<open>
  The predecessor lists.  Compilation reports an unknown successor, execution indexes the dictionary.
\<close>

fun add_edges ::
  "(string \<Rightarrow> string \<Rightarrow> py_exc) \<Rightarrow> string \<Rightarrow> string list \<Rightarrow> (string, string list) dict
     \<Rightarrow> (string, string list) dict result" where
  "add_edges err nid [] preds = Inr preds"
| "add_edges err nid (succ # succs) preds =
     (case dget preds succ of
        None \<Rightarrow> Inl (err nid succ)
      | Some ps \<Rightarrow> add_edges err nid succs (dset succ (ps @ [nid]) preds))"

fun predecessor_loop ::
  "(string \<Rightarrow> string \<Rightarrow> py_exc) \<Rightarrow> cast_node list \<Rightarrow> (string, string list) dict
     \<Rightarrow> (string, string list) dict result" where
  "predecessor_loop err [] preds = Inr preds"
| "predecessor_loop err (n # ns) preds =
     rbind (add_edges err (cn_node_id n) (cn_successors n) preds) (predecessor_loop err ns)"

definition predecessor_lists ::
  "(string \<Rightarrow> string \<Rightarrow> py_exc) \<Rightarrow> semantic_program \<Rightarrow> (string, string list) dict result" where
  "predecessor_lists err p = predecessor_loop err (sp_nodes p) (map (\<lambda>(nid, n). (nid, [])) (node_table p))"

definition unknown_successor :: "string \<Rightarrow> string \<Rightarrow> py_exc" where
  "unknown_successor nid succ = ValueError (''node '' @ nid @ '' references unknown successor '' @ succ)"

definition compile_program :: "int \<Rightarrow> semantic_program \<Rightarrow> semantic_program result" where
  "compile_program now p =
     (let report = validate_program p in
      if vr_errors report \<noteq> []
      then Inl (ValueError (''program validation failed: '' @ join ''; '' (vr_errors report)))
      else
        rbind (predecessor_lists unknown_successor p) (\<lambda>preds.
        rbind (topological_order (node_table p) preds) (\<lambda>_.
        Inr (p\<lparr>sp_status := PS_COMPILED, sp_updated_at := now\<rparr>))))"

section \<open>Conditions\<close>

text \<open>
  The values of a condition are JSON values.  Booleans compare as the numbers 0 and 1, numbers with
  numbers and strings with strings; any other comparison is a \<open>TypeError\<close>.
\<close>

fun py_num :: "json \<Rightarrow> real option" where
  "py_num (JBool b) = Some (if b then 1 else 0)"
| "py_num (JInt n) = Some (of_int n)"
| "py_num (JFloat x) = Some x"
| "py_num _ = None"

definition py_eq :: "json \<Rightarrow> json \<Rightarrow> bool" where
  "py_eq a b =
     (case (py_num a, py_num b) of
        (Some x, Some y) \<Rightarrow> x = y
      | (None, None) \<Rightarrow> a = b
      | _ \<Rightarrow> False)"

definition py_compare :: "(real \<Rightarrow> real \<Rightarrow> bool) \<Rightarrow> (string \<Rightarrow> string \<Rightarrow> bool) \<Rightarrow> json \<Rightarrow> json \<Rightarrow> bool result" where
  "py_compare num_cmp str_cmp a b =
     (case (py_num a, py_num b) of
        (Some x, Some y) \<Rightarrow> Inr (num_cmp x y)
      | _ \<Rightarrow> (case (a, b) of
               (JStr s, JStr t) \<Rightarrow> Inr (str_cmp s t)
             | _ \<Rightarrow> Inl (TypeError ''not supported between instances'')))"

fun py_in :: "json \<Rightarrow> json \<Rightarrow> bool result" where
  "py_in (JStr t) (JStr s) = Inr (sublist t s)"
| "py_in _ (JStr s) = Inl (TypeError ''in <string> requires string as left operand'')"
| "py_in _ _ = Inl (TypeError ''argument is not iterable'')"

text \<open>The context has only scalars; a missing key reads as \<open>None\<close>.\<close>

definition eval_condition :: "condition_expr option \<Rightarrow> (string, json) dict \<Rightarrow> bool result" where
  "eval_condition expr ctx =
     (case expr of
        None \<Rightarrow> Inr True
      | Some x \<Rightarrow>
          (let v = cx_value x; got = (case dget ctx (cx_key x) of Some j \<Rightarrow> j | None \<Rightarrow> JNull);
               guarded = (\<lambda>r. if got = JNull then Inr False else r) in
           if cx_key x = [] then Inr False
           else case cx_op x of
             OP_EXISTS \<Rightarrow> Inr (dhas ctx (cx_key x))
           | OP_EQ \<Rightarrow> Inr (py_eq got v)
           | OP_NEQ \<Rightarrow> Inr (\<not> py_eq got v)
           | OP_GT \<Rightarrow> guarded (py_compare (>) (>) got v)
           | OP_GTE \<Rightarrow> guarded (py_compare (\<ge>) (\<ge>) got v)
           | OP_LT \<Rightarrow> guarded (py_compare (<) (<) got v)
           | OP_LTE \<Rightarrow> guarded (py_compare (\<le>) (\<le>) got v)
           | OP_CONTAINS \<Rightarrow> guarded (py_in v got)))"

definition eval_conditions :: "condition list \<Rightarrow> (string, json) dict \<Rightarrow> (string \<times> bool) list result" where
  "eval_conditions conds ctx =
     rmap_list (\<lambda>c. rbind (eval_condition (cd_expr c) ctx) (\<lambda>ok. Inr (cd_predicate c, ok))) conds"

section \<open>Execution\<close>

datatype node_status = NS_SKIPPED | NS_RUNNING | NS_OK | NS_FAILED | NS_ROLLED_BACK

record node_receipt =
  nr_node_id :: string
  nr_status :: node_status
  nr_started_at :: int
  nr_duration_ms :: nat
  nr_preconditions :: "(string \<times> bool) list"
  nr_postconditions :: "(string \<times> bool) list"
  nr_retries :: nat
  nr_effect_summary :: "effect list"
  nr_error :: "string option"

record execution_receipt =
  er_receipt_id :: string
  er_execution_id :: string
  er_program_id :: string
  er_status :: program_status
  er_nodes :: "node_receipt list"
  er_started_at :: int
  er_completed_at :: "int option"
  er_signature :: "string option"
  er_signing_key_id :: "string option"
  er_correlation_id :: "string option"
  er_principal_id :: "string option"
  er_arcane_provenance :: "(string, json) dict option"

record program_execution =
  px_execution_id :: string
  px_program_id :: string
  px_status :: program_status
  px_node_results :: "(string, string) dict"
  px_started_at :: int
  px_completed_at :: "int option"
  px_branch_id :: string

text \<open>
  What an execution takes from its surroundings: fresh ids and the clock for each node and attempt,
  the request context, the signature (the identity when no key is configured) and the switch that
  denies warnings.
\<close>

record exec_env =
  xe_stamp :: "string \<Rightarrow> nat \<Rightarrow> stamp"
  xe_stamps :: "string \<Rightarrow> nat \<Rightarrow> stamp list"
  xe_chain_branch :: "string \<Rightarrow> nat \<Rightarrow> string"
  xe_times :: "string \<Rightarrow> int \<times> nat"
  xe_rollback_time :: "string \<Rightarrow> int"
  xe_branch_id :: string
  xe_execution_id :: string
  xe_receipt_id :: string
  xe_started_at :: int
  xe_completed_at :: int
  xe_correlation_id :: "string option"
  xe_principal_id :: "string option"
  xe_sign :: "execution_receipt \<Rightarrow> execution_receipt result"
  xe_deny_warnings :: "bool result"

record exec_state =
  es_blocked :: "string list"
  es_results :: "(string, cast_result) dict"
  es_node_results :: "(string, string) dict"
  es_receipts :: "node_receipt list"
  es_rollback :: "cast_node list"
  es_status :: program_status

text \<open>\<open>str(exc)\<close>: a \<open>KeyError\<close> prints the representation of its key.\<close>

fun exc_str :: "py_exc \<Rightarrow> string" where
  "exc_str (KeyError k) = repr_str k"
| "exc_str e = exc_text e"

definition run_cast_node ::
  "engine \<Rightarrow> (real \<Rightarrow> real) \<Rightarrow> exec_env \<Rightarrow> cast_node \<Rightarrow> nat \<Rightarrow> cast_result result" where
  "run_cast_node E mexp env n attempt =
     (let nid = cn_node_id n; st = xe_stamp env nid attempt in
      case cn_node_type n of
        NT_CAST \<Rightarrow>
          rbind (rmap_list (resolve (eg_registry E)) (or_empty (cn_aspects n))) (\<lambda>resolved.
          cast_op E st (remdups resolved) (cn_intent n))
      | NT_FLUID_CAST \<Rightarrow>
          (case cn_vector n of
             None \<Rightarrow> Inl (ValueError ''FLUID_CAST node missing vector'')
           | Some v \<Rightarrow> fluid_cast E mexp st v (cn_intent n))
      | NT_AUTO_CAST \<Rightarrow>
          (case cn_vector n of
             None \<Rightarrow> Inl (ValueError ''AUTO_CAST node missing vector'')
           | Some v \<Rightarrow>
               rbind (auto_cast E mexp (xe_chain_branch env nid attempt) (take 5 (xe_stamps env nid attempt))
                        v (cn_intent n) 0.75 (lit 0.35)) (\<lambda>(r, _, _). Inr r))
      | _ \<Rightarrow> Inl (ValueError ''unsupported node type''))"

text \<open>The attempts of a cast node: the result, the last error, and the retries counted.\<close>

fun attempts_loop ::
  "(nat \<Rightarrow> cast_result result) \<Rightarrow> nat \<Rightarrow> nat \<Rightarrow> string option \<Rightarrow> nat
     \<Rightarrow> cast_result option \<times> string option \<times> nat" where
  "attempts_loop run 0 attempt err retries = (None, err, retries)"
| "attempts_loop run (Suc left) attempt err retries =
     (case run attempt of
        Inr base \<Rightarrow> (Some base, err, attempt - 1)
      | Inl e \<Rightarrow> attempts_loop run left (Suc attempt) (Some (exc_str e)) (attempt - 1))"

definition node_attempts :: "cast_node \<Rightarrow> nat" where
  "node_attempts n = (case cn_retry_policy n of Some rp \<Rightarrow> rp_max_attempts rp | None \<Rightarrow> 1)"

definition node_receipt_of ::
  "exec_env \<Rightarrow> cast_node \<Rightarrow> node_status \<Rightarrow> (string \<times> bool) list \<Rightarrow> (string \<times> bool) list \<Rightarrow> nat
     \<Rightarrow> string option \<Rightarrow> node_receipt" where
  "node_receipt_of env n status pre post retries err =
     \<lparr>nr_node_id = cn_node_id n, nr_status = status, nr_started_at = fst (xe_times env (cn_node_id n)),
      nr_duration_ms = snd (xe_times env (cn_node_id n)), nr_preconditions = pre, nr_postconditions = post,
      nr_retries = retries, nr_effect_summary = or_empty (cn_effects n), nr_error = err\<rparr>"

fun rollback_text :: "rollback_strategy option \<Rightarrow> string" where
  "rollback_text None = ''rollback:none''"
| "rollback_text (Some RB_NONE) = ''rollback:none''"
| "rollback_text (Some RB_COMPENSATE) = ''rollback:compensate''"
| "rollback_text (Some RB_UNDO_LOG) = ''rollback:undo_log''"
| "rollback_text (Some RB_CHECKPOINT_RESTORE) = ''rollback:checkpoint_restore''"

definition rollback_receipt :: "exec_env \<Rightarrow> cast_node \<Rightarrow> node_receipt" where
  "rollback_receipt env n =
     \<lparr>nr_node_id = cn_node_id n, nr_status = NS_ROLLED_BACK,
      nr_started_at = xe_rollback_time env (cn_node_id n), nr_duration_ms = 0, nr_preconditions = [],
      nr_postconditions = [], nr_retries = 0, nr_effect_summary = [],
      nr_error = Some (rollback_text (cn_rollback n))\<rparr>"

definition add_receipt :: "node_receipt \<Rightarrow> exec_state \<Rightarrow> exec_state" where
  "add_receipt r s = s\<lparr>es_receipts := es_receipts s @ [r]\<rparr>"

definition block_nodes :: "string list \<Rightarrow> exec_state \<Rightarrow> exec_state" where
  "block_nodes succs s = s\<lparr>es_blocked := es_blocked s @ succs\<rparr>"

definition set_node_result :: "string \<Rightarrow> cast_result \<Rightarrow> exec_state \<Rightarrow> exec_state" where
  "set_node_result nid r s =
     s\<lparr>es_results := dset nid r (es_results s), es_node_results := dset nid (cr_cast_id r) (es_node_results s)\<rparr>"

definition exec_gate ::
  "exec_env \<Rightarrow> cast_node \<Rightarrow> cast_result list \<Rightarrow> (string \<times> bool) list \<Rightarrow> exec_state \<Rightarrow> exec_state" where
  "exec_gate env n pred_results pre s =
     (let gate_ok = list_ex (\<lambda>r. Some (cast_verdict r) = cn_gate_condition n) pred_results;
          s = (if gate_ok then s else block_nodes (cn_successors n) s)
      in add_receipt (node_receipt_of env n (if gate_ok then NS_OK else NS_SKIPPED) pre [] 0 None) s)"

definition best_result :: "cast_result \<Rightarrow> cast_result list \<Rightarrow> cast_result" where
  "best_result r rs = max_by cast_adjusted r rs"

definition exec_merge ::
  "exec_env \<Rightarrow> cast_node \<Rightarrow> cast_result list \<Rightarrow> (string \<times> bool) list \<Rightarrow> exec_state \<Rightarrow> exec_state" where
  "exec_merge env n pred_results pre s =
     (case pred_results of
        [] \<Rightarrow> s
      | r # rs \<Rightarrow>
          (let merged = (if cn_merge_strategy n = Some FIRST_COHERENT
                         then (case first_where (\<lambda>r. cast_verdict r = V_COHERENT) pred_results of
                                 Some c \<Rightarrow> c | None \<Rightarrow> r)
                         else best_result r rs)
           in add_receipt (node_receipt_of env n NS_OK pre [] 0 None)
                (set_node_result (cn_node_id n) merged s)))"

text \<open>A cast node: on failure the program fails and the finished cast nodes are rolled back.\<close>

definition post_context :: "cast_result \<Rightarrow> (string, json) dict" where
  "post_context r =
     [(''adjusted_resonance'', JFloat (cast_adjusted r)), (''verdict'', JStr (verdict_type_name (cast_verdict r)))]"

definition exec_cast ::
  "engine \<Rightarrow> (real \<Rightarrow> real) \<Rightarrow> exec_env \<Rightarrow> cast_node \<Rightarrow> cast_result list \<Rightarrow> (string \<times> bool) list
     \<Rightarrow> exec_state \<Rightarrow> (exec_state \<times> bool) result" where
  "exec_cast E mexp env n pred_results pre s =
     (case attempts_loop (run_cast_node E mexp env n) (node_attempts n) 1 None 0 of
        (None, err, retries) \<Rightarrow>
          Inr (s\<lparr>es_status := PS_FAILED,
                es_receipts := es_receipts s @
                  [node_receipt_of env n NS_FAILED pre [] retries
                     (Some (case err of Some (c # cs) \<Rightarrow> c # cs | _ \<Rightarrow> ''execution_failed''))] @
                  map (rollback_receipt env) (rev (es_rollback s))\<rparr>, True)
      | (Some base, err, retries) \<Rightarrow>
          rbind (case pred_results of
                   [] \<Rightarrow> Inr base
                 | r # rs \<Rightarrow> cast_result_with_lineage base (best_result r rs) (xe_branch_id env)) (\<lambda>result.
          rbind (eval_conditions (or_empty (cn_postconditions n)) (post_context result)) (\<lambda>post.
          Inr (add_receipt (node_receipt_of env n NS_OK pre post retries None)
                 ((set_node_result (cn_node_id n) result s)\<lparr>es_rollback := es_rollback s @ [n]\<rparr>), False))))"

definition pre_context :: "cast_result list \<Rightarrow> (string, json) dict" where
  "pre_context pred_results =
     [(''pred_count'', JInt (int (length pred_results))), (''has_parent'', JBool (pred_results \<noteq> []))]"

definition exec_node ::
  "engine \<Rightarrow> (real \<Rightarrow> real) \<Rightarrow> exec_env \<Rightarrow> (string, string list) dict \<Rightarrow> cast_node \<Rightarrow> exec_state
     \<Rightarrow> (exec_state \<times> bool) result" where
  "exec_node E mexp env preds n s =
     (let pred_ids = (case dget preds (cn_node_id n) of Some ps \<Rightarrow> ps | None \<Rightarrow> []);
          pred_results = List.map_filter (dget (es_results s)) pred_ids in
      rbind (eval_conditions (or_empty (cn_preconditions n)) (pre_context pred_results)) (\<lambda>pre.
      if \<not> list_all snd pre
      then Inr (add_receipt (node_receipt_of env n NS_SKIPPED pre [] 0 (Some ''precondition_failed''))
                  (block_nodes (cn_successors n) s), False)
      else case cn_node_type n of
        NT_GATE \<Rightarrow> Inr (exec_gate env n pred_results pre s, False)
      | NT_MERGE \<Rightarrow> Inr (exec_merge env n pred_results pre s, False)
      | _ \<Rightarrow> exec_cast E mexp env n pred_results pre s))"

fun exec_loop ::
  "engine \<Rightarrow> (real \<Rightarrow> real) \<Rightarrow> exec_env \<Rightarrow> (string, cast_node) dict \<Rightarrow> (string, string list) dict
     \<Rightarrow> string list \<Rightarrow> exec_state \<Rightarrow> exec_state result" where
  "exec_loop E mexp env nodes preds [] s = Inr s"
| "exec_loop E mexp env nodes preds (nid # order) s =
     (if nid \<in> set (es_blocked s) then exec_loop E mexp env nodes preds order s
      else case dget nodes nid of
        None \<Rightarrow> Inl (KeyError nid)
      | Some n \<Rightarrow>
          rbind (exec_node E mexp env preds n s) (\<lambda>(s', stop).
          if stop then Inr s' else exec_loop E mexp env nodes preds order s'))"

definition initial_exec :: exec_state where
  "initial_exec = \<lparr>es_blocked = [], es_results = [], es_node_results = [], es_receipts = [],
     es_rollback = [], es_status = PS_COMPLETED\<rparr>"

definition receipt_of :: "exec_env \<Rightarrow> semantic_program \<Rightarrow> exec_state \<Rightarrow> execution_receipt" where
  "receipt_of env c s =
     \<lparr>er_receipt_id = xe_receipt_id env, er_execution_id = xe_execution_id env,
      er_program_id = sp_program_id c, er_status = es_status s, er_nodes = es_receipts s,
      er_started_at = xe_started_at env, er_completed_at = Some (xe_completed_at env),
      er_signature = None, er_signing_key_id = None,
      er_correlation_id = xe_correlation_id env, er_principal_id = xe_principal_id env,
      er_arcane_provenance =
        (case dget (sp_metadata c) ''arcane'' of Some (JObj d) \<Rightarrow> Some d | _ \<Rightarrow> None)\<rparr>"

definition execution_of :: "exec_env \<Rightarrow> semantic_program \<Rightarrow> exec_state \<Rightarrow> program_execution" where
  "execution_of env c s =
     \<lparr>px_execution_id = xe_execution_id env, px_program_id = sp_program_id c,
      px_status = es_status s, px_node_results = es_node_results s,
      px_started_at = xe_started_at env, px_completed_at = Some (xe_completed_at env),
      px_branch_id = xe_branch_id env\<rparr>"

text \<open>
  \<open>xe_deny_warnings\<close> is \<open>VERMYTH_DENY_PROGRAM_VALIDATION_WARNINGS\<close> read as a number, which raises
  when it is none; it is read only when there are warnings.
\<close>

definition check_warnings :: "exec_env \<Rightarrow> validation_report \<Rightarrow> unit result" where
  "check_warnings env report =
     (if vr_warnings report = [] then Inr ()
      else rbind (xe_deny_warnings env) (\<lambda>deny.
        raise_if deny (ValueError (''program validation warnings: '' @ join ''; '' (vr_warnings report)))))"

definition execute_program ::
  "engine \<Rightarrow> (real \<Rightarrow> real) \<Rightarrow> exec_env \<Rightarrow> int \<Rightarrow> semantic_program
     \<Rightarrow> (program_execution \<times> execution_receipt) result" where
  "execute_program E mexp env now p =
     rbind (if sp_status p = PS_COMPILED then Inr p else compile_program now p) (\<lambda>c.
     rbind (check_warnings env (validate_program c)) (\<lambda>_.
     rbind (predecessor_lists (\<lambda>nid. KeyError) c) (\<lambda>preds.
     rbind (topological_order (node_table c) preds) (\<lambda>order.
     rbind (exec_loop E mexp env (node_table c) preds order initial_exec) (\<lambda>s.
     rbind (xe_sign env (receipt_of env c s)) (\<lambda>receipt.
     Inr (execution_of env c s, receipt)))))))"

section \<open>The program repository and the tools\<close>

text \<open>
  Nodes, metadata and receipts are stored as JSON dumps of the models, so the columns hold the values;
  a program is validated again when it is read.  \<open>pg_last_receipt\<close> is the attribute of the engine
  through which an execution hands over its receipt.
\<close>

record program_db =
  pg_programs :: "(string, semantic_program) dict"
  pg_executions :: "(string, program_execution) dict"
  pg_receipts :: "(string, execution_receipt) dict"
  pg_last_receipt :: "execution_receipt option"

definition write_program :: "semantic_program \<Rightarrow> program_db \<Rightarrow> program_db result" where
  "write_program p S = Inr (S\<lparr>pg_programs := dset (sp_program_id p) p (pg_programs S)\<rparr>)"

definition read_program :: "string \<Rightarrow> program_db \<Rightarrow> semantic_program result" where
  "read_program program_id S =
     rbind (of_option (KeyError program_id) (dget (pg_programs S) program_id)) mk_semantic_program"

definition query_programs :: "int \<Rightarrow> program_db \<Rightarrow> semantic_program list result" where
  "query_programs limit S =
     rbind (sql_int limit) (\<lambda>limit.
     rmap_list mk_semantic_program
       (sql_limit limit (sort_key (\<lambda>p. - sp_created_at p) (map snd (pg_programs S)))))"

definition write_execution :: "program_execution \<Rightarrow> program_db \<Rightarrow> program_db result" where
  "write_execution x S =
     (if dhas (pg_programs S) (px_program_id x)
      then Inr (S\<lparr>pg_executions := dset (px_execution_id x) x (pg_executions S)\<rparr>)
      else Inl (RuntimeError ''FOREIGN KEY constraint failed''))"

definition read_execution :: "string \<Rightarrow> program_db \<Rightarrow> program_execution result" where
  "read_execution execution_id S = of_option (KeyError execution_id) (dget (pg_executions S) execution_id)"

definition query_executions :: "string \<Rightarrow> int \<Rightarrow> program_db \<Rightarrow> program_execution list result" where
  "query_executions program_id limit S =
     rbind (sql_int limit) (\<lambda>limit.
     Inr (sql_limit limit (sort_key (\<lambda>x. - px_started_at x)
            (filter (\<lambda>x. px_program_id x = program_id) (map snd (pg_executions S))))))"

definition write_execution_receipt :: "execution_receipt \<Rightarrow> program_db \<Rightarrow> program_db result" where
  "write_execution_receipt r S = Inr (S\<lparr>pg_receipts := dset (er_receipt_id r) r (pg_receipts S)\<rparr>)"

definition read_execution_receipt :: "string \<Rightarrow> program_db \<Rightarrow> execution_receipt result" where
  "read_execution_receipt receipt_id S = of_option (KeyError receipt_id) (dget (pg_receipts S) receipt_id)"

definition read_execution_receipt_by_execution :: "string \<Rightarrow> program_db \<Rightarrow> execution_receipt result" where
  "read_execution_receipt_by_execution execution_id S =
     (case first_where (\<lambda>r. er_execution_id r = execution_id) (map snd (pg_receipts S)) of
        None \<Rightarrow> Inl (KeyError execution_id)
      | Some r \<Rightarrow> read_execution_receipt (er_receipt_id r) S)"

definition tool_compile_program ::
  "int \<Rightarrow> semantic_program \<Rightarrow> (program_db, semantic_program \<times> validation_report) op" where
  "tool_compile_program now payload S =
     (case rbind (mk_semantic_program payload) (compile_program now) of
        Inl e \<Rightarrow> (Inl e, S)
      | Inr c \<Rightarrow>
          (case write_program c S of
             Inl e \<Rightarrow> (Inl e, S)
           | Inr S' \<Rightarrow> (Inr (c, validate_program c), S')))"

definition tool_execute_program ::
  "engine \<Rightarrow> (real \<Rightarrow> real) \<Rightarrow> exec_env \<Rightarrow> int \<Rightarrow> string \<Rightarrow> (program_db, program_execution) op" where
  "tool_execute_program E mexp env now program_id S =
     (case rbind (read_program program_id S) (execute_program E mexp env now) of
        Inl e \<Rightarrow> (Inl e, S)
      | Inr (x, receipt) \<Rightarrow>
          (let S1 = S\<lparr>pg_last_receipt := Some receipt\<rparr> in
           case write_execution x S1 of
             Inl e \<Rightarrow> (Inl e, S1)
           | Inr S2 \<Rightarrow>
               (case pg_last_receipt S2 of
                  None \<Rightarrow> (Inr x, S2)
                | Some r \<Rightarrow>
                    (case write_execution_receipt r S2 of
                       Inl e \<Rightarrow> (Inl e, S2)
                     | Inr S3 \<Rightarrow> (Inr x, S3)))))"

section \<open>The order of a compiled program\<close>

definition edges :: "semantic_program \<Rightarrow> (string \<times> string) set" where
  "edges p = {(a, b). \<exists>n \<in> set (sp_nodes p). cn_node_id n = a \<and> b \<in> set (cn_successors n)}"

definition node_ids :: "semantic_program \<Rightarrow> string list" where
  "node_ids p = map cn_node_id (sp_nodes p)"

lemma dset_fresh: "k \<notin> fst ` set d \<Longrightarrow> dset k v d = d @ [(k, v)]"
  by (induction d) auto

lemma foldl_dset_nodes:
  "distinct (map fst d @ map cn_node_id ns) \<Longrightarrow>
   foldl (\<lambda>d n. dset (cn_node_id n) n d) d ns = d @ map (\<lambda>n. (cn_node_id n, n)) ns"
proof (induction ns arbitrary: d)
  case (Cons n ns)
  then have "dset (cn_node_id n) n d = d @ [(cn_node_id n, n)]"
    by (intro dset_fresh) auto
  with Cons show ?case by simp
qed simp

lemma node_table_eq: "distinct (node_ids p) \<Longrightarrow> node_table p = map (\<lambda>n. (cn_node_id n, n)) (sp_nodes p)"
  using foldl_dset_nodes [of "[]" "sp_nodes p"] by (simp add: node_table_def node_ids_def)

lemma dget_node_table:
  "distinct (node_ids p) \<Longrightarrow>
   dget (node_table p) k = Some n \<longleftrightarrow> n \<in> set (sp_nodes p) \<and> cn_node_id n = k"
  unfolding node_table_eq
  by (subst map_of_eq_Some_iff) (auto simp: node_ids_def comp_def)

text \<open>The predecessor lists: each edge once per mention of the successor.\<close>

lemma add_edges_ok:
  assumes "set succs \<subseteq> dom (dget preds)"
  shows "\<exists>preds'. add_edges err nid succs preds = Inr preds'
     \<and> (\<forall>b. dget preds' b = map_option (\<lambda>ps. ps @ replicate (count_list succs b) nid) (dget preds b))
     \<and> map fst preds' = map fst preds"
  using assms
proof (induction succs arbitrary: preds)
  case (Cons s succs)
  then obtain ps where ps: "dget preds s = Some ps" by auto
  let ?preds = "dset s (ps @ [nid]) preds"
  have keys: "map fst ?preds = map fst preds"
    using ps by (induction preds) (auto split: if_splits)
  have "set succs \<subseteq> dom (dget ?preds)" using Cons.prems by (auto simp: dict_simps)
  from Cons.IH [OF this] obtain preds' where *: "add_edges err nid succs ?preds = Inr preds'"
    "\<forall>b. dget preds' b = map_option (\<lambda>ps. ps @ replicate (count_list succs b) nid) (dget ?preds b)"
    "map fst preds' = map fst ?preds" by blast
  then show ?case using ps keys by (auto simp: dict_simps replicate_append_same [symmetric])
qed (simp add: option.map_ident)

lemma add_edges_fail:
  assumes "\<not> set succs \<subseteq> dom (dget preds)"
  shows "\<exists>e. add_edges err nid succs preds = Inl e"
  using assms
proof (induction succs arbitrary: preds)
  case (Cons s succs)
  show ?case
  proof (cases "dget preds s")
    case (Some ps)
    then have "\<not> set succs \<subseteq> dom (dget (dset s (ps @ [nid]) preds))"
      using Cons.prems Some by (auto simp: dict_simps dom_def split: if_splits)
    with Cons.IH Some show ?thesis by simp
  qed simp
qed simp

definition pred_list :: "cast_node list \<Rightarrow> string \<Rightarrow> string list" where
  "pred_list ns b = concat (map (\<lambda>n. replicate (count_list (cn_successors n) b) (cn_node_id n)) ns)"

lemma predecessor_loop_ok:
  assumes "\<forall>n \<in> set ns. set (cn_successors n) \<subseteq> dom (dget preds)"
  shows "\<exists>preds'. predecessor_loop err ns preds = Inr preds'
     \<and> (\<forall>b. dget preds' b = map_option (\<lambda>ps. ps @ pred_list ns b) (dget preds b))
     \<and> map fst preds' = map fst preds"
  using assms
proof (induction ns arbitrary: preds)
  case (Cons n ns)
  then obtain preds1 where 1: "add_edges err (cn_node_id n) (cn_successors n) preds = Inr preds1"
    "\<forall>b. dget preds1 b = map_option (\<lambda>ps. ps @ replicate (count_list (cn_successors n) b) (cn_node_id n)) (dget preds b)"
    "map fst preds1 = map fst preds"
    using add_edges_ok [of "cn_successors n" preds err "cn_node_id n"] by auto
  have "dom (dget preds1) = dom (dget preds)" using 1(3) by (simp add: dom_map_of_conv_image_fst flip: set_map)
  then obtain preds2 where 2: "predecessor_loop err ns preds1 = Inr preds2"
    "\<forall>b. dget preds2 b = map_option (\<lambda>ps. ps @ pred_list ns b) (dget preds1 b)"
    "map fst preds2 = map fst preds1"
    using Cons.IH [of preds1] Cons.prems by auto
  with 1 show ?case by (auto simp: pred_list_def option.map_comp comp_def)
qed (simp add: pred_list_def option.map_ident)

lemma predecessor_loop_fail:
  assumes "\<exists>n \<in> set ns. \<not> set (cn_successors n) \<subseteq> dom (dget preds)"
  shows "\<exists>e. predecessor_loop err ns preds = Inl e"
  using assms
proof (induction ns arbitrary: preds)
  case (Cons n ns)
  show ?case
  proof (cases "set (cn_successors n) \<subseteq> dom (dget preds)")
    case False
    with add_edges_fail [OF False, of err "cn_node_id n"] show ?thesis by auto
  next
    case True
    then obtain preds1 where 1: "add_edges err (cn_node_id n) (cn_successors n) preds = Inr preds1"
      "map fst preds1 = map fst preds"
      using add_edges_ok [of "cn_successors n" preds err "cn_node_id n"] by auto
    have "dom (dget preds1) = dom (dget preds)" using 1(2) by (simp add: dom_map_of_conv_image_fst flip: set_map)
    with Cons True 1 show ?thesis by auto
  qed
qed simp

lemma predecessor_lists_ok:
  assumes "distinct (node_ids p)"
  shows "edges p \<subseteq> UNIV \<times> set (node_ids p) \<Longrightarrow>
     \<exists>preds. predecessor_lists err p = Inr preds
        \<and> (\<forall>b. dget preds b = (if b \<in> set (node_ids p) then Some (pred_list (sp_nodes p) b) else None))
        \<and> map fst preds = node_ids p"
    and "\<not> edges p \<subseteq> UNIV \<times> set (node_ids p) \<Longrightarrow> \<exists>e. predecessor_lists err p = Inl e"
proof -
  let ?start = "map (\<lambda>(nid, n). (nid, [])) (node_table p) :: (string, string list) dict"
  have start: "map fst ?start = node_ids p"
    by (simp add: node_table_eq [OF assms] node_ids_def comp_def)
  have dom: "dom (dget ?start) = set (node_ids p)"
    unfolding dom_map_of_conv_image_fst set_map [symmetric] start ..
  have get: "dget ?start b = (if b \<in> set (node_ids p) then Some [] else None)" for b
  proof (cases "dget ?start b")
    case None
    then show ?thesis using dom by (auto simp: domIff)
  next
    case (Some ps)
    then have "ps = []" by (auto dest!: map_of_SomeD)
    with Some dom show ?thesis by (metis domI)
  qed
  have known: "edges p \<subseteq> UNIV \<times> set (node_ids p) \<longleftrightarrow>
      (\<forall>n \<in> set (sp_nodes p). set (cn_successors n) \<subseteq> dom (dget ?start))"
    unfolding dom by (auto simp: edges_def)
  show "\<exists>preds. predecessor_lists err p = Inr preds
        \<and> (\<forall>b. dget preds b = (if b \<in> set (node_ids p) then Some (pred_list (sp_nodes p) b) else None))
        \<and> map fst preds = node_ids p" if "edges p \<subseteq> UNIV \<times> set (node_ids p)"
  proof -
    from predecessor_loop_ok [of "sp_nodes p" ?start err] that obtain preds where
      "predecessor_lists err p = Inr preds"
      "\<forall>b. dget preds b = map_option (\<lambda>ps. ps @ pred_list (sp_nodes p) b) (dget ?start b)"
      "map fst preds = map fst ?start"
      unfolding known predecessor_lists_def by blast
    then show ?thesis unfolding start get by (intro exI [of _ preds]) simp
  qed
  show "\<exists>e. predecessor_lists err p = Inl e" if "\<not> edges p \<subseteq> UNIV \<times> set (node_ids p)"
    using predecessor_loop_fail [of "sp_nodes p" ?start err] that unfolding known predecessor_lists_def by blast
qed

lemma in_pred_list: "a \<in> set (pred_list (sp_nodes p) b) \<longleftrightarrow> (a, b) \<in> edges p"
  by (auto simp: pred_list_def edges_def set_replicate_conv_if count_list_0_iff split: if_splits)

lemma count_pred_list:
  "distinct (map cn_node_id ns) \<Longrightarrow> n \<in> set ns \<Longrightarrow>
   count_list (pred_list ns b) (cn_node_id n) = count_list (cn_successors n) b"
proof (induction ns)
  case (Cons m ns)
  have rep: "count_list (replicate k x) y = (if x = y then k else 0)" for k and x y :: string
    by (induction k) auto
  have none: "cn_node_id m \<notin> set (pred_list ns b)" if "cn_node_id m \<notin> cn_node_id ` set ns"
    using that by (auto simp: pred_list_def)
  from Cons none show ?case
    by (auto simp: pred_list_def rep count_list_0_iff)
qed simp

text \<open>One round: indegrees drop by the number of mentions, and exactly the exhausted nodes are added.\<close>

lemma relax_ok:
  assumes "\<forall>b \<in> set succs. \<exists>d. dget indegree b = Some d \<and> int (count_list succs b) \<le> d"
    and "distinct ready" "set ready \<inter> set succs = {}"
  shows "\<exists>indegree' ready'. relax succs (indegree, ready) = Inr (indegree', ready')
     \<and> (\<forall>b. dget indegree' b = map_option (\<lambda>d. d - int (count_list succs b)) (dget indegree b))
     \<and> distinct ready'
     \<and> set ready' = set ready \<union> {b \<in> set succs. dget indegree b = Some (int (count_list succs b))}"
  using assms
proof (induction succs arbitrary: indegree ready)
  case (Cons s succs)
  obtain d where d: "dget indegree s = Some d" "int (count_list succs s) + 1 \<le> d"
    using Cons.prems(1) by force
  let ?ind = "dset s (d - 1) indegree"
  let ?ready = "if d - 1 = 0 then sort (ready @ [s]) else ready"
  have p1: "\<forall>b \<in> set succs. \<exists>d. dget ?ind b = Some d \<and> int (count_list succs b) \<le> d"
    using Cons.prems(1) d by (force simp: dict_simps split: if_splits)
  have zero: "d - 1 = 0 \<Longrightarrow> s \<notin> set succs"
    using d(2) by (simp add: count_list_0_iff [symmetric])
  have p2: "distinct ?ready" "set ?ready \<inter> set succs = {}"
    using Cons.prems(2,3) zero by auto
  from Cons.IH [OF p1 p2] obtain ind' ready' where *:
    "relax succs (?ind, ?ready) = Inr (ind', ready')"
    "\<forall>b. dget ind' b = map_option (\<lambda>d. d - int (count_list succs b)) (dget ?ind b)" "distinct ready'"
    "set ready' = set ?ready \<union> {b \<in> set succs. dget ?ind b = Some (int (count_list succs b))}" by blast
  have "dget ind' b = map_option (\<lambda>d. d - int (count_list (s # succs) b)) (dget indegree b)" for b
    using *(2) d(1) by (auto simp: dict_simps)
  moreover have "set ready' = set ready \<union> {b \<in> set (s # succs). dget indegree b = Some (int (count_list (s # succs) b))}"
    unfolding *(4) using d zero Cons.prems(3) by (auto simp: dict_simps count_list_0_iff split: if_splits)
  ultimately show ?case using * d(1) by auto
qed (simp add: option.map_ident)

definition kahn :: "semantic_program \<Rightarrow> (string, int) dict \<Rightarrow> string list \<Rightarrow> string list \<Rightarrow> bool" where
  "kahn p indegree ready out \<longleftrightarrow>
     distinct (out @ ready) \<and> set (out @ ready) \<subseteq> set (node_ids p)
     \<and> (\<forall>b. dget indegree b = (if b \<in> set (node_ids p)
            then Some (int (length (filter (\<lambda>a. a \<notin> set out) (pred_list (sp_nodes p) b)))) else None))
     \<and> (\<forall>b \<in> set (node_ids p). b \<in> set (out @ ready) \<longleftrightarrow> dget indegree b = Some 0)
     \<and> (\<forall>i < length out. \<forall>a. (a, out ! i) \<in> edges p \<longrightarrow> a \<in> set (take i out))"

lemma length_filter_notin:
  "cur \<notin> set out \<Longrightarrow>
   length (filter (\<lambda>a. a \<notin> set out) ps) =
   length (filter (\<lambda>a. a \<notin> set (out @ [cur])) ps) + count_list ps cur"
  by (induction ps) auto

lemma kahn_step:
  assumes ids: "distinct (node_ids p)" and known: "edges p \<subseteq> UNIV \<times> set (node_ids p)"
    and inv: "kahn p indegree (cur # ready) out"
  shows "\<exists>n indegree' ready'. dget (node_table p) cur = Some n
     \<and> relax (cn_successors n) (indegree, ready) = Inr (indegree', ready') \<and> kahn p indegree' ready' (out @ [cur])"
proof -
  let ?P = "pred_list (sp_nodes p)"
  have cur: "cur \<in> set (node_ids p)" "cur \<notin> set out" "cur \<notin> set ready"
    and ready: "distinct (out @ ready)" "set (out @ ready) \<subseteq> set (node_ids p)"
    and ind: "\<And>b. dget indegree b = (if b \<in> set (node_ids p)
        then Some (int (length (filter (\<lambda>a. a \<notin> set out) (?P b)))) else None)"
    and zero: "\<And>b. b \<in> set (node_ids p) \<Longrightarrow> b \<in> set (out @ cur # ready) \<longleftrightarrow> dget indegree b = Some 0"
    and fwd: "\<And>i a. i < length out \<Longrightarrow> (a, out ! i) \<in> edges p \<Longrightarrow> a \<in> set (take i out)"
    using inv unfolding kahn_def by auto
  obtain n where n: "n \<in> set (sp_nodes p)" "cn_node_id n = cur" using cur(1) by (auto simp: node_ids_def)
  have cnt: "count_list (?P b) cur = count_list (cn_successors n) b" for b
    using count_pred_list [of "sp_nodes p" n b] ids n by (simp add: node_ids_def)
  have split: "length (filter (\<lambda>a. a \<notin> set out) (?P b)) =
      length (filter (\<lambda>a. a \<notin> set (out @ [cur])) (?P b)) + count_list (cn_successors n) b" for b
    using length_filter_notin [OF cur(2), of "?P b"] by (simp add: cnt)
  have succ: "set (cn_successors n) \<subseteq> set (node_ids p)" using known n by (auto simp: edges_def)
  have pre1: "\<forall>b \<in> set (cn_successors n). \<exists>d. dget indegree b = Some d \<and> int (count_list (cn_successors n) b) \<le> d"
    using succ by (auto simp: ind split)
  have not0: "b \<notin> set (out @ cur # ready)" if "b \<in> set (cn_successors n)" for b
  proof -
    have "0 < count_list (cn_successors n) b" using that count_list_0_iff [of "cn_successors n" b] by simp
    then have "dget indegree b \<noteq> Some 0" using that succ by (auto simp: ind split)
    with that succ zero show ?thesis by blast
  qed
  have pre2: "distinct ready" "set ready \<inter> set (cn_successors n) = {}" using ready(1) not0 by auto
  from relax_ok [OF pre1 pre2] obtain ind' ready' where r:
    "relax (cn_successors n) (indegree, ready) = Inr (ind', ready')"
    "\<And>b. dget ind' b = map_option (\<lambda>d. d - int (count_list (cn_successors n) b)) (dget indegree b)"
    "distinct ready'"
    "set ready' = set ready \<union> {b \<in> set (cn_successors n). dget indegree b = Some (int (count_list (cn_successors n) b))}"
    by blast
  have ind': "dget ind' b = (if b \<in> set (node_ids p)
      then Some (int (length (filter (\<lambda>a. a \<notin> set (out @ [cur])) (?P b)))) else None)" for b
    by (auto simp: r(2) ind split)
  have "kahn p ind' ready' (out @ [cur])"
    unfolding kahn_def
  proof (intro conjI allI impI ballI)
    show "distinct ((out @ [cur]) @ ready')"
      using r(3,4) ready(1) cur not0 by auto
    show "set ((out @ [cur]) @ ready') \<subseteq> set (node_ids p)"
      using r(4) ready(2) cur(1) succ by auto
    show "dget ind' b = (if b \<in> set (node_ids p)
      then Some (int (length (filter (\<lambda>a. a \<notin> set (out @ [cur])) (?P b)))) else None)" for b
      by (rule ind')
    show "b \<in> set ((out @ [cur]) @ ready') \<longleftrightarrow> dget ind' b = Some 0" if b: "b \<in> set (node_ids p)" for b
    proof -
      obtain d where d: "dget indegree b = Some d" "0 \<le> d" using b by (simp add: ind)
      have d': "dget ind' b = Some (d - int (count_list (cn_successors n) b))" by (simp add: r(2) d)
      have in': "b \<in> set ((out @ [cur]) @ ready') \<longleftrightarrow>
          b \<in> set (out @ cur # ready) \<or> b \<in> set (cn_successors n) \<and> d = int (count_list (cn_successors n) b)"
        using r(4) d by auto
      show ?thesis
        unfolding in' d' using zero [OF b] d not0 [of b] count_list_0_iff [of "cn_successors n" b]
        by (cases "b \<in> set (cn_successors n)") auto
    qed
    show "a \<in> set (take i (out @ [cur]))"
      if i: "i < length (out @ [cur])" and e: "(a, (out @ [cur]) ! i) \<in> edges p" for i a
    proof (cases "i < length out")
      case True
      with fwd [OF True] e show ?thesis by (simp add: nth_append)
    next
      case False
      then have e': "(a, cur) \<in> edges p" and i': "i = length out" using i e by (auto simp: nth_append)
      have "dget indegree cur = Some 0" using zero [OF cur(1)] by simp
      then have "\<forall>a \<in> set (?P cur). a \<in> set out" using cur(1) by (auto simp: ind filter_empty_conv)
      with e' i' show ?thesis by (simp add: in_pred_list)
    qed
  qed
  moreover have "dget (node_table p) cur = Some n" using dget_node_table [OF ids] n by simp
  ultimately show ?thesis using r(1) by blast
qed

lemma topo_loop_kahn:
  assumes "distinct (node_ids p)" "edges p \<subseteq> UNIV \<times> set (node_ids p)"
  shows "kahn p indegree ready out \<Longrightarrow>
    \<exists>out' indegree'. topo_loop (node_table p) indegree ready out = Inr out' \<and> kahn p indegree' [] out'"
proof (induction "node_table p" indegree ready out rule: topo_loop.induct)
  case (2 indegree cur ready out)
  from kahn_step [OF assms 2(2)] obtain n ind' ready' where
    n: "dget (node_table p) cur = Some n" "relax (cn_successors n) (indegree, ready) = Inr (ind', ready')"
       "kahn p ind' ready' (out @ [cur])" by blast
  from 2(1) [OF n(1) n(2) refl n(3)] n show ?case by simp
qed auto

text \<open>At the start no node is out, and at the end what is missing is a set of nodes with predecessors in it.\<close>

lemma kahn_start:
  assumes ids: "distinct (node_ids p)"
    and preds: "\<And>b. dget preds b = (if b \<in> set (node_ids p) then Some (pred_list (sp_nodes p) b) else None)"
    and keys: "map fst preds = node_ids p"
  defines "indegree \<equiv> map (\<lambda>(nid, ps). (nid, int (length ps))) preds"
  shows "kahn p indegree (sort (map fst (filter (\<lambda>(nid, d). d = 0) indegree))) []"
proof -
  have ind: "dget indegree b = map_option (\<lambda>ps. int (length ps)) (dget preds b)" for b
    unfolding indegree_def by (induction preds) auto
  have fst_ind: "map fst indegree = node_ids p"
    unfolding indegree_def keys [symmetric] by (simp add: comp_def case_prod_beta)
  have dist: "distinct (map fst indegree)" using ids fst_ind by simp
  then have dist': "distinct (map fst (filter (\<lambda>(nid, d). d = 0) indegree))"
    by (rule distinct_map_filter)
  have mem: "b \<in> set (map fst (filter (\<lambda>(nid, d). d = 0) indegree)) \<longleftrightarrow> dget indegree b = Some 0" for b
    using map_of_eq_Some_iff [OF dist, of b 0] by force
  have sub: "set (map fst (filter (\<lambda>(nid, d). d = 0) indegree)) \<subseteq> set (node_ids p)"
    unfolding fst_ind [symmetric] by auto
  show ?thesis
    unfolding kahn_def using dist' mem sub by (simp add: ind preds)
qed

lemma kahn_end:
  assumes ids: "distinct (node_ids p)" and known: "edges p \<subseteq> UNIV \<times> set (node_ids p)"
    and inv: "kahn p indegree [] out"
  shows "length out = length (node_ids p) \<longleftrightarrow> acyclic (edges p)"
proof
  have out: "distinct out" "set out \<subseteq> set (node_ids p)" using inv by (auto simp: kahn_def)
  have fwd: "\<And>i a. i < length out \<Longrightarrow> (a, out ! i) \<in> edges p \<Longrightarrow> a \<in> set (take i out)"
    using inv by (auto simp: kahn_def)
  have src: "edges p \<subseteq> set (node_ids p) \<times> UNIV" by (auto simp: edges_def node_ids_def)
  show "acyclic (edges p)" if len: "length out = length (node_ids p)"
  proof -
    have "set out = set (node_ids p)"
      using out len ids by (metis card_subset_eq distinct_card List.finite_set)
    then have pos: "\<exists>i < length out. out ! i = b" if "b \<in> set (node_ids p)" for b
      using that by (metis in_set_conv_nth)
    define idx where "idx b = (THE i. i < length out \<and> out ! i = b)" for b
    have idx: "idx (out ! i) = i" if "i < length out" for i
      unfolding idx_def using that out(1) by (auto simp: nth_eq_iff_index_eq)
    have "edges p \<subseteq> measure idx"
    proof
      fix e assume e: "e \<in> edges p"
      obtain a b where ab: "e = (a, b)" by (cases e)
      obtain i where i: "i < length out" "out ! i = b" using pos known e ab by blast
      with fwd e ab obtain j where "j < i" "out ! j = a" by (fastforce simp: in_set_conv_nth)
      then have "idx a < idx b" using idx [of i] idx [of j] i by auto
      then show "e \<in> measure idx" by (simp add: ab)
    qed
    then show ?thesis by (meson wf_acyclic wf_measure wf_subset)
  qed
  show "length out = length (node_ids p)" if ac: "acyclic (edges p)"
  proof -
    have "edges p = (\<Union>n \<in> set (sp_nodes p). Pair (cn_node_id n) ` set (cn_successors n))"
      by (auto simp: edges_def)
    then have "finite (edges p)" by simp
    then have wf: "wf (edges p)" using ac finite_acyclic_wf by blast
    have "set (node_ids p) - set out = {}"
    proof (rule ccontr)
      assume "set (node_ids p) - set out \<noteq> {}"
      then obtain b where b: "b \<in> set (node_ids p) - set out"
        and low: "\<And>a. (a, b) \<in> edges p \<Longrightarrow> a \<notin> set (node_ids p) - set out"
        using wfE_min [OF wf] by (metis all_not_in_conv)
      have "filter (\<lambda>a. a \<notin> set out) (pred_list (sp_nodes p) b) = []"
        using low src by (auto simp: filter_empty_conv in_pred_list)
      then have "dget indegree b = Some 0" using inv b by (simp add: kahn_def)
      then show False using inv b by (auto simp: kahn_def)
    qed
    then have "set out = set (node_ids p)" using out(2) by blast
    then show ?thesis using out(1) ids by (metis distinct_card)
  qed
qed

text \<open>An order of the nodes in which every edge points forward.\<close>

definition forward_order :: "semantic_program \<Rightarrow> string list \<Rightarrow> bool" where
  "forward_order p order \<longleftrightarrow> distinct order \<and> set order = set (node_ids p)
     \<and> (\<forall>i < length order. \<forall>a. (a, order ! i) \<in> edges p \<longrightarrow> a \<in> set (take i order))"

lemma topological_order_correct:
  assumes ids: "distinct (node_ids p)" and known: "edges p \<subseteq> UNIV \<times> set (node_ids p)"
    and preds: "predecessor_lists err p = Inr preds"
  shows "acyclic (edges p) \<Longrightarrow> \<exists>order. topological_order (node_table p) preds = Inr order \<and> forward_order p order"
    and "\<not> acyclic (edges p) \<Longrightarrow> topological_order (node_table p) preds = Inl (ValueError ''semantic program contains a cycle'')"
proof -
  have P: "dget preds b = (if b \<in> set (node_ids p) then Some (pred_list (sp_nodes p) b) else None)"
    "map fst preds = node_ids p" for b
    using predecessor_lists_ok(1) [OF ids known, of err] preds by auto
  let ?ind = "map (\<lambda>(nid, ps). (nid, int (length ps))) preds"
  obtain out ind where out: "topo_loop (node_table p) ?ind (sort (map fst (filter (\<lambda>(nid, d). d = 0) ?ind))) [] = Inr out"
    "kahn p ind [] out"
    using topo_loop_kahn [OF ids known kahn_start [OF ids P]] by blast
  have len: "length (node_table p) = length (node_ids p)" by (simp add: node_table_eq [OF ids] node_ids_def)
  have order: "topological_order (node_table p) preds =
      (if acyclic (edges p) then Inr out else Inl (ValueError ''semantic program contains a cycle''))"
    using kahn_end [OF ids known out(2)] out(1) by (simp add: topological_order_def len)
  show "topological_order (node_table p) preds = Inl (ValueError ''semantic program contains a cycle'')"
    if "\<not> acyclic (edges p)" using that order by simp
  show "\<exists>order. topological_order (node_table p) preds = Inr order \<and> forward_order p order" if ac: "acyclic (edges p)"
  proof -
    have "length out = length (node_ids p)" using kahn_end [OF ids known out(2)] ac by simp
    then have "set out = set (node_ids p)"
      using out(2) ids by (metis append_Nil2 card_subset_eq distinct_card List.finite_set kahn_def)
    then have "forward_order p out" using out(2) by (auto simp: forward_order_def kahn_def)
    then show ?thesis using order ac by simp
  qed
qed

section \<open>Compilation\<close>

lemma node_report_ok: "node_ok n \<Longrightarrow> vr_errors (node_report nid n) = []"
  by (auto simp: node_report_def node_ok_def retry_ok_def split: option.split)

lemma validate_ok:
  assumes "mk_semantic_program p = Inr p"
  shows "vr_errors (validate_program p) = []"
proof -
  have ids: "distinct (node_ids p)" and nodes: "\<And>n. n \<in> set (sp_nodes p) \<Longrightarrow> node_ok n"
    using assms by (auto simp: mk_semantic_program_def Let_def node_ids_def list_all_iff split: if_splits)
  show ?thesis
    unfolding validate_program_def Let_def node_table_eq [OF ids]
    using nodes node_report_ok by simp
qed

lemma compile_exact:
  assumes valid: "mk_semantic_program p = Inr p"
  shows "case compile_program now p of
      Inl e \<Rightarrow> \<not> (edges p \<subseteq> UNIV \<times> set (node_ids p) \<and> acyclic (edges p))
    | Inr c \<Rightarrow> edges p \<subseteq> UNIV \<times> set (node_ids p) \<and> acyclic (edges p)
        \<and> c = p\<lparr>sp_status := PS_COMPILED, sp_updated_at := now\<rparr>
        \<and> (\<exists>preds order. predecessor_lists unknown_successor p = Inr preds
              \<and> topological_order (node_table p) preds = Inr order \<and> forward_order p order)"
proof -
  have ids: "distinct (node_ids p)"
    using valid by (simp add: mk_semantic_program_def Let_def node_ids_def split: if_splits)
  show ?thesis
  proof (cases "edges p \<subseteq> UNIV \<times> set (node_ids p)")
    case False
    with predecessor_lists_ok(2) [OF ids False, of unknown_successor] validate_ok [OF valid]
    show ?thesis by (auto simp: compile_program_def Let_def)
  next
    case True
    obtain preds where p: "predecessor_lists unknown_successor p = Inr preds"
      using predecessor_lists_ok(1) [OF ids True] by blast
    show ?thesis
    proof (cases "acyclic (edges p)")
      case ac: True
      with topological_order_correct(1) [OF ids True p] p True validate_ok [OF valid]
      show ?thesis by (auto simp: compile_program_def Let_def)
    next
      case False
      with topological_order_correct(2) [OF ids True p] p validate_ok [OF valid]
      show ?thesis by (auto simp: compile_program_def Let_def)
    qed
  qed
qed

text \<open>
  C19. Compilation accepts exactly the sound graphs.  A valid program compiles if and only if every
  successor is a node and the edges are acyclic; the compiled program has the same nodes, and its
  execution order lists every node once with every edge pointing forward.
\<close>

theorem compile_iff_acyclic:
  assumes valid: "mk_semantic_program p = Inr p"
  shows "case compile_program now p of
      Inl e \<Rightarrow> \<not> (edges p \<subseteq> UNIV \<times> set (node_ids p) \<and> acyclic (edges p))
    | Inr c \<Rightarrow> edges p \<subseteq> UNIV \<times> set (node_ids p) \<and> acyclic (edges p)
        \<and> c = p\<lparr>sp_status := PS_COMPILED, sp_updated_at := now\<rparr>
        \<and> (\<exists>preds order. predecessor_lists unknown_successor p = Inr preds
              \<and> topological_order (node_table p) preds = Inr order \<and> forward_order p order)"
  using valid by (rule compile_exact)

section \<open>What an execution leaves behind\<close>

definition casts :: "cast_node \<Rightarrow> bool" where
  "casts n \<longleftrightarrow> cn_node_type n \<noteq> NT_GATE \<and> cn_node_type n \<noteq> NT_MERGE"

definition node_with :: "(cast_node \<Rightarrow> bool) \<Rightarrow> semantic_program \<Rightarrow> string \<Rightarrow> bool" where
  "node_with P p nid \<longleftrightarrow> (\<exists>n \<in> set (sp_nodes p). cn_node_id n = nid \<and> P n)"

definition finished :: "(cast_node \<Rightarrow> bool) \<Rightarrow> semantic_program \<Rightarrow> node_receipt list \<Rightarrow> string list" where
  "finished P p rs = map nr_node_id (filter (\<lambda>r. nr_status r = NS_OK \<and> node_with P p (nr_node_id r)) rs)"

text \<open>
  The state after the nodes of \<open>done\<close> were visited, the program having not failed: one receipt at most
  for each node, in the order of the visits; the rollback queue holds the finished cast nodes; the
  successors of a skipped node are blocked, and a blocked node has no receipt and no result.
\<close>

definition exec_inv :: "semantic_program \<Rightarrow> string list \<Rightarrow> exec_state \<Rightarrow> bool" where
  "exec_inv p visited s \<longleftrightarrow>
     es_status s = PS_COMPLETED
     \<and> list_all (\<lambda>r. nr_status r = NS_OK \<or> nr_status r = NS_SKIPPED) (es_receipts s)
     \<and> subseq (map nr_node_id (es_receipts s)) visited
     \<and> set (es_rollback s) \<subseteq> set (sp_nodes p)
     \<and> map cn_node_id (es_rollback s) = finished casts p (es_receipts s)
     \<and> es_node_results s = map (\<lambda>(nid, r). (nid, cr_cast_id r)) (es_results s)
     \<and> map fst (es_results s) = finished (\<lambda>n. cn_node_type n \<noteq> NT_GATE) p (es_receipts s)
     \<and> (\<forall>r \<in> set (es_receipts s). nr_status r = NS_SKIPPED \<longrightarrow>
          (\<forall>b. (nr_node_id r, b) \<in> edges p \<longrightarrow> b \<in> set (es_blocked s)))
     \<and> nr_node_id ` set (es_receipts s) \<inter> set (es_blocked s) = {}"

lemma exec_inv_initial: "exec_inv p [] initial_exec"
  by (simp add: exec_inv_def initial_exec_def finished_def)

lemma set_mono_subseq: "subseq xs ys \<Longrightarrow> set xs \<subseteq> set ys"
  by (auto elim: list_emb_set)

lemma exec_inv_visit: "exec_inv p visited s \<Longrightarrow> exec_inv p (visited @ [nid]) s"
  by (simp add: exec_inv_def subseq_rev_drop_many)

lemma node_with_node:
  "distinct (node_ids p) \<Longrightarrow> n \<in> set (sp_nodes p) \<Longrightarrow> node_with P p (cn_node_id n) \<longleftrightarrow> P n"
  by (auto simp: node_with_def node_ids_def distinct_map dest: inj_onD)

lemma finished_append [simp]: "finished P p (rs @ rs') = finished P p rs @ finished P p rs'"
  by (simp add: finished_def)

lemma finished_in_visited:
  "subseq (map nr_node_id rs) visited \<Longrightarrow> set (finished P p rs) \<subseteq> set visited"
  using set_mono_subseq [of "map nr_node_id rs" visited] by (auto simp: finished_def)

text \<open>One more receipt, with the node's result when it has one.\<close>

lemma exec_inv_receipt:
  assumes inv: "exec_inv p visited s" and ids: "distinct (node_ids p)"
    and n: "n \<in> set (sp_nodes p)" "cn_node_id n \<notin> set visited" "cn_node_id n \<notin> set (es_blocked s)"
    and r: "nr_node_id r = cn_node_id n" "nr_status r = NS_OK \<or> nr_status r = NS_SKIPPED"
    and new: "set bs \<inter> set (visited @ [cn_node_id n]) = {}"
      "nr_status r = NS_SKIPPED \<Longrightarrow> bs = cn_successors n" "nr_status r = NS_OK \<Longrightarrow> bs = []"
    and s': "es_status s' = PS_COMPLETED" "es_receipts s' = es_receipts s @ [r]" "es_blocked s' = es_blocked s @ bs"
    and rb: "es_rollback s' = (if casts n \<and> nr_status r = NS_OK then es_rollback s @ [n] else es_rollback s)"
    and res: "if cn_node_type n \<noteq> NT_GATE \<and> nr_status r = NS_OK
              then \<exists>c. es_results s' = dset (cn_node_id n) c (es_results s)
                     \<and> es_node_results s' = dset (cn_node_id n) (cr_cast_id c) (es_node_results s)
              else es_results s' = es_results s \<and> es_node_results s' = es_node_results s"
  shows "exec_inv p (visited @ [cn_node_id n]) s'"
proof -
  note inv' = inv [unfolded exec_inv_def]
  have sub: "subseq (map nr_node_id (es_receipts s)) visited" using inv' by blast
  have keys: "map fst (es_results s) = finished (\<lambda>n. cn_node_type n \<noteq> NT_GATE) p (es_receipts s)"
    "es_node_results s = map (\<lambda>(nid, r). (nid, cr_cast_id r)) (es_results s)"
    using inv' by blast+
  have fresh: "cn_node_id n \<notin> fst ` set (es_results s)"
    using finished_in_visited [OF sub, of "\<lambda>n. cn_node_type n \<noteq> NT_GATE" p] n(2) keys(1)
    by (metis image_set subsetD)
  then have fresh': "cn_node_id n \<notin> fst ` set (es_node_results s)"
    unfolding keys(2) by force
  have one: "finished P p [r] = (if nr_status r = NS_OK \<and> P n then [cn_node_id n] else [])" for P
    using node_with_node [OF ids n(1)] r(1) by (simp add: finished_def)
  have results: "map fst (es_results s') = finished (\<lambda>n. cn_node_type n \<noteq> NT_GATE) p (es_receipts s')
      \<and> es_node_results s' = map (\<lambda>(nid, r). (nid, cr_cast_id r)) (es_results s')"
    using res keys fresh fresh' unfolding s'(2) finished_append one
    by (auto simp: dset_fresh split: if_splits)
  have sub': "subseq (map nr_node_id (es_receipts s')) (visited @ [cn_node_id n])"
    unfolding s'(2) using sub r(1) by (simp add: list_emb_append_mono)
  have skipped: "b \<in> set (es_blocked s')"
    if "q \<in> set (es_receipts s')" "nr_status q = NS_SKIPPED" "(nr_node_id q, b) \<in> edges p" for q b
  proof (cases "q \<in> set (es_receipts s)")
    case True
    then show ?thesis using inv' that s'(3) by auto
  next
    case False
    then have q: "q = r" using that(1) s'(2) by simp
    have "b \<in> set (cn_successors n)"
      using that(3) n(1) ids unfolding q r(1) edges_def node_ids_def by (auto simp: distinct_map dest: inj_onD)
    then show ?thesis using new(2) that(2) q s'(3) by simp
  qed
  have disj: "nr_node_id ` set (es_receipts s') \<inter> set (es_blocked s') = {}"
  proof -
    have "nr_node_id ` set (es_receipts s) \<subseteq> set visited"
      using set_mono_subseq [OF sub] by simp
    then show ?thesis using inv' n(3) r(1) new(1) unfolding s'(2,3) by auto
  qed
  show ?thesis
    unfolding exec_inv_def
  proof (intro conjI ballI allI impI)
    show "list_all (\<lambda>r. nr_status r = NS_OK \<or> nr_status r = NS_SKIPPED) (es_receipts s')"
      using inv' r(2) by (simp add: s'(2))
    show "set (es_rollback s') \<subseteq> set (sp_nodes p)" using inv' n(1) by (auto simp: rb)
    show "map cn_node_id (es_rollback s') = finished casts p (es_receipts s')"
      using inv' unfolding s'(2) finished_append one rb by simp
  qed (use s'(1) sub' results skipped disj in blast)+
qed

text \<open>How a failed execution ends: the failed node's receipt, then the rollbacks in reverse order.\<close>

definition failed_from :: "exec_env \<Rightarrow> string \<Rightarrow> exec_state \<Rightarrow> exec_state \<Rightarrow> bool" where
  "failed_from env nid s s' \<longleftrightarrow>
     (\<exists>failed. nr_node_id failed = nid \<and> nr_status failed = NS_FAILED
        \<and> s' = s\<lparr>es_status := PS_FAILED,
                 es_receipts := es_receipts s @ failed # map (rollback_receipt env) (rev (es_rollback s))\<rparr>)"

lemma exec_cast_cases:
  assumes "exec_cast E mexp env n prs pre s = Inr (s', stop)"
  shows "(stop \<and> failed_from env (cn_node_id n) s s')
     \<or> (\<not> stop \<and> (\<exists>result post k. s' = add_receipt (node_receipt_of env n NS_OK pre post k None)
           ((set_node_result (cn_node_id n) result s)\<lparr>es_rollback := es_rollback s @ [n]\<rparr>)))"
proof (cases "attempts_loop (run_cast_node E mexp env n) (node_attempts n) 1 None 0")
  case (fields base err k)
  show ?thesis
  proof (cases base)
    case None
    define f where "f = node_receipt_of env n NS_FAILED pre [] k
        (Some (case err of Some (c # cs) \<Rightarrow> c # cs | _ \<Rightarrow> ''execution_failed''))"
    have "stop" "s' = s\<lparr>es_status := PS_FAILED,
        es_receipts := es_receipts s @ f # map (rollback_receipt env) (rev (es_rollback s))\<rparr>"
      using assms fields None by (auto simp: exec_cast_def f_def)
    moreover have "nr_node_id f = cn_node_id n" "nr_status f = NS_FAILED"
      by (simp_all add: f_def node_receipt_of_def)
    ultimately show ?thesis unfolding failed_from_def by blast
  next
    case (Some b)
    then show ?thesis using assms fields
      by (auto simp: exec_cast_def rbind_Inr_iff)
  qed
qed

lemma forward_successors:
  assumes "forward_order p (visited @ nid # rest)" "(nid, b) \<in> edges p"
    and "edges p \<subseteq> UNIV \<times> set (node_ids p)"
  shows "b \<notin> set (visited @ [nid])"
proof
  let ?o = "visited @ nid # rest"
  assume "b \<in> set (visited @ [nid])"
  then obtain j where "j < length (visited @ [nid])" "(visited @ [nid]) ! j = b"
    by (auto simp only: in_set_conv_nth)
  then have j: "j \<le> length visited" "?o ! j = b"
    using nth_append [of "visited @ [nid]" rest j] by simp_all
  have jl: "j < length ?o" using j(1) by simp
  have "(nid, ?o ! j) \<in> edges p" using assms(2) j(2) by simp
  with assms(1) jl have "nid \<in> set (take j ?o)" unfolding forward_order_def by blast
  then have "nid \<in> set visited" using j(1) by (auto simp: take_append dest: in_set_takeD)
  then show False using assms(1) by (auto simp: forward_order_def)
qed

lemma exec_node_step:
  assumes inv: "exec_inv p visited s" and ids: "distinct (node_ids p)"
    and known: "edges p \<subseteq> UNIV \<times> set (node_ids p)" and fwd: "forward_order p (visited @ cn_node_id n # rest)"
    and n: "n \<in> set (sp_nodes p)" "cn_node_id n \<notin> set (es_blocked s)"
    and step: "exec_node E mexp env preds n s = Inr (s', stop)"
  shows "if stop then failed_from env (cn_node_id n) s s' else exec_inv p (visited @ [cn_node_id n]) s'"
proof -
  let ?nid = "cn_node_id n"
  obtain prs pre where pre: "eval_conditions (or_empty (cn_preconditions n)) (pre_context prs) = Inr pre"
    and body: "(if \<not> list_all snd pre
      then Inr (add_receipt (node_receipt_of env n NS_SKIPPED pre [] 0 (Some ''precondition_failed''))
                  (block_nodes (cn_successors n) s), False)
      else case cn_node_type n of
        NT_GATE \<Rightarrow> Inr (exec_gate env n prs pre s, False)
      | NT_MERGE \<Rightarrow> Inr (exec_merge env n prs pre s, False)
      | _ \<Rightarrow> exec_cast E mexp env n prs pre s) = Inr (s', stop)"
    using step by (auto simp: exec_node_def Let_def rbind_Inr_iff)
  have vis: "?nid \<notin> set visited" using fwd by (auto simp: forward_order_def)
  have succ: "set (cn_successors n) \<inter> set (visited @ [?nid]) = {}"
    using forward_successors [OF fwd _ known] n(1) by (auto simp: edges_def)
  have comp: "es_status s = PS_COMPLETED" using inv by (simp add: exec_inv_def)
  note receipt = exec_inv_receipt [OF inv ids n(1) vis n(2)]
  show ?thesis
  proof (cases "list_all snd pre")
    case False
    then have s': "\<not> stop" "s' = add_receipt (node_receipt_of env n NS_SKIPPED pre [] 0 (Some ''precondition_failed''))
                  (block_nodes (cn_successors n) s)" using body by auto
    show ?thesis
      using succ comp s'(1)
      by (simp, intro receipt [where bs = "cn_successors n"
            and r = "node_receipt_of env n NS_SKIPPED pre [] 0 (Some ''precondition_failed'')"])
        (simp_all add: s'(2) add_receipt_def block_nodes_def node_receipt_of_def)
  next
    case True
    show ?thesis
    proof (cases "casts n")
      case True
      with body \<open>list_all snd pre\<close> have "exec_cast E mexp env n prs pre s = Inr (s', stop)"
        by (auto simp: casts_def split: node_type.splits)
      from exec_cast_cases [OF this] show ?thesis
      proof (elim disjE conjE exE)
        fix result post k
        assume s': "\<not> stop" "s' = add_receipt (node_receipt_of env n NS_OK pre post k None)
             ((set_node_result ?nid result s)\<lparr>es_rollback := es_rollback s @ [n]\<rparr>)"
        show ?thesis
          using comp s'(1) True
          by (simp, intro receipt [where bs = "[]" and r = "node_receipt_of env n NS_OK pre post k None"])
            (simp_all add: s'(2) add_receipt_def set_node_result_def node_receipt_of_def casts_def, blast?)
      qed simp
    next
      case gm: False
      then consider (gate) "cn_node_type n = NT_GATE" | (merge) "cn_node_type n = NT_MERGE"
        by (auto simp: casts_def)
      then show ?thesis
      proof cases
        case gate
        then have s': "\<not> stop" "s' = exec_gate env n prs pre s" using body True by auto
        define ok where "ok = list_ex (\<lambda>r. Some (cast_verdict r) = cn_gate_condition n) prs"
        define bs where "bs = (if ok then [] else cn_successors n)"
        define r where "r = node_receipt_of env n (if ok then NS_OK else NS_SKIPPED) pre [] 0 None"
        have r: "nr_node_id r = ?nid" "nr_status r = (if ok then NS_OK else NS_SKIPPED)"
          by (simp_all add: r_def node_receipt_of_def)
        have s'': "s' = add_receipt r (block_nodes bs s)"
          by (simp add: s'(2) exec_gate_def Let_def ok_def [symmetric] r_def bs_def block_nodes_def)
        have "exec_inv p (visited @ [?nid]) s'"
          by (rule receipt [where bs = bs and r = r])
            (use succ comp gate in \<open>auto simp: s'' r bs_def add_receipt_def block_nodes_def casts_def
               split: if_splits\<close>)
        then show ?thesis using s'(1) by simp
      next
        case merge
        then have s': "\<not> stop" "s' = exec_merge env n prs pre s" using body True by auto
        show ?thesis
        proof (cases prs)
          case Nil
          then show ?thesis using s' exec_inv_visit [OF inv] by (simp add: exec_merge_def)
        next
          case (Cons r rs)
          then obtain c where "s' = add_receipt (node_receipt_of env n NS_OK pre [] 0 None) (set_node_result ?nid c s)"
            using s'(2) by (auto simp: exec_merge_def Let_def)
          then show ?thesis
            using comp s'(1) merge
            by (simp, intro receipt [where bs = "[]" and r = "node_receipt_of env n NS_OK pre [] 0 None"])
              (simp_all add: add_receipt_def set_node_result_def node_receipt_of_def casts_def, blast?)
        qed
      qed
    qed
  qed
qed

lemma exec_loop_outcome:
  assumes ids: "distinct (node_ids p)" and known: "edges p \<subseteq> UNIV \<times> set (node_ids p)"
  shows "exec_loop E mexp env (node_table p) preds order s = Inr s' \<Longrightarrow> exec_inv p visited s \<Longrightarrow>
    forward_order p (visited @ order) \<Longrightarrow>
    \<exists>seen s1. prefix seen (visited @ order) \<and> exec_inv p seen s1 \<and>
       (s' = s1 \<or> (\<exists>nid. nid \<notin> set seen \<and> nid \<notin> set (es_blocked s1) \<and> failed_from env nid s1 s'))"
proof (induction order arbitrary: visited s)
  case Nil
  then show ?case by auto
next
  case (Cons nid order)
  show ?case
  proof (cases "nid \<in> set (es_blocked s)")
    case True
    then have l: "exec_loop E mexp env (node_table p) preds order s = Inr s'" using Cons.prems(1) by simp
    show ?thesis
      using Cons.IH [OF l exec_inv_visit [OF Cons.prems(2), of nid]] Cons.prems(3) by simp
  next
    case False
    then obtain n s2 stop where n: "n \<in> set (sp_nodes p)" "cn_node_id n = nid"
      and step: "exec_node E mexp env preds n s = Inr (s2, stop)"
      and rest: "(if stop then Inr s2 else exec_loop E mexp env (node_table p) preds order s2) = Inr s'"
      using Cons.prems(1) dget_node_table [OF ids] by (auto simp: rbind_Inr_iff split: option.splits)
    have fwd: "forward_order p (visited @ cn_node_id n # order)" using Cons.prems(3) n(2) by simp
    have blk: "cn_node_id n \<notin> set (es_blocked s)" using False n(2) by simp
    note st = exec_node_step [OF Cons.prems(2) ids known fwd n(1) blk step]
    show ?thesis
    proof (cases stop)
      case True
      have "nid \<notin> set visited" using Cons.prems(3) by (simp add: forward_order_def)
      with True st rest n(2) False Cons.prems(2) show ?thesis
        by (intro exI [of _ visited] exI [of _ s]) auto
    next
      case False
      with st rest n(2) Cons.IH [of s2 "visited @ [nid]"] Cons.prems(3) show ?thesis by simp
    qed
  qed
qed

section \<open>Properties of executions\<close>

text \<open>
  What signing does, when it does not raise: it adds the signature and changes no other field
  (theory Receipts proves it of the signing of the code).
\<close>

definition signs_only :: "exec_env \<Rightarrow> bool" where
  "signs_only env \<longleftrightarrow> (\<forall>r r'. xe_sign env r = Inr r' \<longrightarrow> (\<exists>sig key. r' = r\<lparr>er_signature := sig, er_signing_key_id := key\<rparr>))"

lemma compiled_ids:
  "mk_semantic_program p = Inr p \<Longrightarrow> distinct (node_ids p)"
  by (simp add: mk_semantic_program_def Let_def node_ids_def split: if_splits)

lemma compile_same_nodes:
  "compile_program now p = Inr c \<Longrightarrow> sp_nodes c = sp_nodes p \<and> sp_program_id c = sp_program_id p
     \<and> sp_metadata c = sp_metadata p"
  by (auto simp: compile_program_def Let_def rbind_Inr_iff split: if_splits)

lemma node_table_cong: "sp_nodes c = sp_nodes p \<Longrightarrow> node_table c = node_table p \<and> edges c = edges p
    \<and> node_ids c = node_ids p \<and> predecessor_lists err c = predecessor_lists err p"
  by (simp add: node_table_def edges_def node_ids_def predecessor_lists_def)

lemma execute_Inr:
  assumes valid: "mk_semantic_program p = Inr p" and run: "execute_program E mexp env now p = Inr (x, receipt)"
    and sign: "signs_only env"
  obtains preds order s where "predecessor_lists (\<lambda>nid. KeyError) p = Inr preds"
    "topological_order (node_table p) preds = Inr order" "forward_order p order"
    "edges p \<subseteq> UNIV \<times> set (node_ids p)"
    "exec_loop E mexp env (node_table p) preds order initial_exec = Inr s"
    "px_status x = es_status s" "px_node_results x = es_node_results s" "er_nodes receipt = es_receipts s"
proof -
  note ids = compiled_ids [OF valid]
  obtain c where c: "(if sp_status p = PS_COMPILED then Inr p else compile_program now p) = Inr c"
    and body: "rbind (predecessor_lists (\<lambda>nid. KeyError) c) (\<lambda>preds.
       rbind (topological_order (node_table c) preds) (\<lambda>order.
       rbind (exec_loop E mexp env (node_table c) preds order initial_exec) (\<lambda>s.
       rbind (xe_sign env (receipt_of env c s)) (\<lambda>receipt.
       Inr (execution_of env c s, receipt))))) = Inr (x, receipt)"
  proof (cases "if sp_status p = PS_COMPILED then Inr p else compile_program now p")
    case (Inl e)
    then show ?thesis using run unfolding execute_program_def by simp
  next
    case (Inr c)
    then show ?thesis
      using run that [of c] unfolding execute_program_def Inr rbind.simps rbind_Inr_iff by blast
  qed
  have same: "sp_nodes c = sp_nodes p"
    using c compile_same_nodes [of now p c] by (auto split: if_splits)
  note cong = node_table_cong [OF same]
  obtain preds order s where p: "predecessor_lists (\<lambda>nid. KeyError) p = Inr preds"
    "topological_order (node_table p) preds = Inr order"
    "exec_loop E mexp env (node_table p) preds order initial_exec = Inr s"
    and r: "xe_sign env (receipt_of env c s) = Inr receipt" and x: "x = execution_of env c s"
    using body unfolding rbind_Inr_iff by (simp add: cong) blast
  have known: "edges p \<subseteq> UNIV \<times> set (node_ids p)"
    using predecessor_lists_ok(2) [OF ids, of "\<lambda>nid. KeyError"] p(1) by fastforce
  have "acyclic (edges p)"
    using topological_order_correct(2) [OF ids known p(1)] p(2) by fastforce
  then have fwd: "forward_order p order"
    using topological_order_correct(1) [OF ids known p(1)] p(2) by auto
  obtain sig key where "receipt = (receipt_of env c s)\<lparr>er_signature := sig, er_signing_key_id := key\<rparr>"
    using sign r unfolding signs_only_def by blast
  then have "er_nodes receipt = es_receipts s" by (simp add: receipt_of_def)
  moreover have "px_status x = es_status s" "px_node_results x = es_node_results s"
    by (simp_all add: x execution_of_def)
  ultimately show ?thesis using that p known fwd by blast
qed

text \<open>
  C20. What an execution reports.  The receipts start with at most one for each node, OK or SKIPPED,
  in an order in which every edge points forward, and an execution that completed has no others.  An
  execution that failed has one receipt more, of the failed node, followed by a rollback for exactly
  the cast nodes that had finished, the last one first.  A direct successor of a skipped node has no
  receipt at all (the nodes two steps below it may run), and the nodes with a result are exactly the
  finished ones that are not gates.
\<close>

theorem execution_receipts:
  assumes "mk_semantic_program p = Inr p" "execute_program E mexp env now p = Inr (x, receipt)" "signs_only env"
  shows "\<exists>order ran tail queue. forward_order p order \<and> er_nodes receipt = ran @ tail
     \<and> subseq (map nr_node_id ran) order
     \<and> list_all (\<lambda>r. nr_status r = NS_OK \<or> nr_status r = NS_SKIPPED) ran
     \<and> map cn_node_id queue = finished casts p ran
     \<and> (px_status x = PS_COMPLETED \<and> tail = []
         \<or> px_status x = PS_FAILED
           \<and> (\<exists>failed. nr_status failed = NS_FAILED \<and> nr_node_id failed \<notin> nr_node_id ` set ran
                \<and> tail = failed # map (rollback_receipt env) (rev queue)))
     \<and> (\<forall>r \<in> set ran. nr_status r = NS_SKIPPED \<longrightarrow>
          (\<forall>b. (nr_node_id r, b) \<in> edges p \<longrightarrow> b \<notin> nr_node_id ` set (er_nodes receipt)))
     \<and> map fst (px_node_results x) = finished (\<lambda>n. cn_node_type n \<noteq> NT_GATE) p ran"
proof -
  obtain preds order s where p: "forward_order p order" "edges p \<subseteq> UNIV \<times> set (node_ids p)"
    "exec_loop E mexp env (node_table p) preds order initial_exec = Inr s"
    and x: "px_status x = es_status s" "px_node_results x = es_node_results s" "er_nodes receipt = es_receipts s"
    using execute_Inr [OF assms] by metis
  obtain seen s1 where seen: "prefix seen order" and inv: "exec_inv p seen s1"
    and s: "s = s1 \<or> (\<exists>nid. nid \<notin> set seen \<and> nid \<notin> set (es_blocked s1) \<and> failed_from env nid s1 s)"
    using exec_loop_outcome [OF compiled_ids [OF assms(1)] p(2,3) exec_inv_initial] p(1) by auto
  let ?ran = "es_receipts s1"
  note i = inv [unfolded exec_inv_def]
  have sub: "subseq (map nr_node_id ?ran) order"
    using i prefix_imp_subseq [OF seen] by (meson subseq_order.trans)
  have results: "map fst (px_node_results x) = finished (\<lambda>n. cn_node_type n \<noteq> NT_GATE) p ?ran"
  proof -
    have "es_node_results s = es_node_results s1" using s by (auto simp: failed_from_def)
    then show ?thesis using i x(2) by (simp add: comp_def case_prod_beta)
  qed
  have rb_ids: "cn_node_id ` set (es_rollback s1) \<subseteq> nr_node_id ` set ?ran"
  proof -
    have "cn_node_id ` set (es_rollback s1) = set (finished casts p ?ran)"
      using i by (metis set_map)
    then show ?thesis by (auto simp: finished_def)
  qed
  have tail: "\<exists>tail. er_nodes receipt = ?ran @ tail
      \<and> (px_status x = PS_COMPLETED \<and> tail = []
         \<or> px_status x = PS_FAILED
           \<and> (\<exists>failed. nr_status failed = NS_FAILED \<and> nr_node_id failed \<notin> nr_node_id ` set ?ran
                \<and> tail = failed # map (rollback_receipt env) (rev (es_rollback s1))))
      \<and> nr_node_id ` set (er_nodes receipt) \<inter> set (es_blocked s1) = {}"
    using s
  proof (elim disjE exE conjE)
    assume "s = s1"
    then show ?thesis using i x by auto
  next
    fix nid assume nid: "nid \<notin> set seen" "nid \<notin> set (es_blocked s1)" "failed_from env nid s1 s"
    then obtain failed where f: "nr_node_id failed = nid" "nr_status failed = NS_FAILED"
      "s = s1\<lparr>es_status := PS_FAILED,
           es_receipts := ?ran @ failed # map (rollback_receipt env) (rev (es_rollback s1))\<rparr>"
      unfolding failed_from_def by blast
    have new: "nid \<notin> nr_node_id ` set ?ran"
      using nid(1) i set_mono_subseq [of "map nr_node_id ?ran" seen] by auto
    have "nr_node_id ` set (er_nodes receipt) \<subseteq> insert nid (nr_node_id ` set ?ran)"
      using rb_ids by (auto simp: x(3) f(1,3) rollback_receipt_def)
    then have "nr_node_id ` set (er_nodes receipt) \<inter> set (es_blocked s1) = {}" using i nid(2) by blast
    with new f x show ?thesis by auto
  qed
  obtain tail where t: "er_nodes receipt = ?ran @ tail"
    "px_status x = PS_COMPLETED \<and> tail = []
       \<or> px_status x = PS_FAILED
         \<and> (\<exists>failed. nr_status failed = NS_FAILED \<and> nr_node_id failed \<notin> nr_node_id ` set ?ran
              \<and> tail = failed # map (rollback_receipt env) (rev (es_rollback s1)))"
    "nr_node_id ` set (er_nodes receipt) \<inter> set (es_blocked s1) = {}"
    using tail by blast
  have skipped: "\<forall>r \<in> set ?ran. nr_status r = NS_SKIPPED \<longrightarrow>
      (\<forall>b. (nr_node_id r, b) \<in> edges p \<longrightarrow> b \<notin> nr_node_id ` set (er_nodes receipt))"
    using i t(3) by blast
  show ?thesis
    by (rule exI [of _ order], rule exI [of _ ?ran], rule exI [of _ tail], rule exI [of _ "es_rollback s1"])
      (use p(1) sub i t skipped results in blast)
qed

section \<open>Every compiled program finishes\<close>

text \<open>
  Conditions that cannot raise: an ordering compares a number with a number, or the verdict with a
  string, and only the verdict is searched for a substring.
\<close>

definition numeric_cond :: "condition_expr \<Rightarrow> bool" where
  "numeric_cond x \<longleftrightarrow>
     (if cx_op x \<in> {OP_GT, OP_GTE, OP_LT, OP_LTE} then py_num (cx_value x) \<noteq> None else cx_op x \<noteq> OP_CONTAINS)"

definition textual_cond :: "condition_expr \<Rightarrow> bool" where
  "textual_cond x \<longleftrightarrow>
     (cx_op x \<in> {OP_GT, OP_GTE, OP_LT, OP_LTE, OP_CONTAINS} \<longrightarrow> (\<exists>t. cx_value x = JStr t))"

definition pre_typed :: "condition \<Rightarrow> bool" where
  "pre_typed c \<longleftrightarrow> pred_option (\<lambda>x. cx_key x \<in> {''pred_count'', ''has_parent''} \<longrightarrow> numeric_cond x) (cd_expr c)"

definition post_typed :: "condition \<Rightarrow> bool" where
  "post_typed c \<longleftrightarrow>
     pred_option (\<lambda>x. (cx_key x = ''adjusted_resonance'' \<longrightarrow> numeric_cond x)
                    \<and> (cx_key x = ''verdict'' \<longrightarrow> textual_cond x)) (cd_expr c)"

definition conditions_typed :: "semantic_program \<Rightarrow> bool" where
  "conditions_typed p \<longleftrightarrow>
     list_all (\<lambda>n. list_all pre_typed (or_empty (cn_preconditions n))
                 \<and> list_all post_typed (or_empty (cn_postconditions n))) (sp_nodes p)"

lemma py_compare_num: "py_num a \<noteq> None \<Longrightarrow> py_num b \<noteq> None \<Longrightarrow> \<exists>r. py_compare f g a b = Inr r"
  by (auto simp: py_compare_def)

lemma eval_number:
  assumes "py_num got = Some v" "dget ctx (cx_key x) = Some got" "numeric_cond x"
  shows "\<exists>b. eval_condition (Some x) ctx = Inr b"
proof -
  have "got \<noteq> JNull" using assms(1) by auto
  with assms py_compare_num [of got "cx_value x"] show ?thesis
    by (cases "cx_op x") (auto simp: eval_condition_def numeric_cond_def Let_def)
qed

lemma eval_text:
  assumes "dget ctx (cx_key x) = Some (JStr s)" "textual_cond x"
  shows "\<exists>b. eval_condition (Some x) ctx = Inr b"
  using assms by (cases "cx_op x") (auto simp: eval_condition_def textual_cond_def Let_def py_compare_def)

lemma eval_missing: "dget ctx (cx_key x) = None \<Longrightarrow> \<exists>b. eval_condition (Some x) ctx = Inr b"
  by (cases "cx_op x") (auto simp: eval_condition_def Let_def)

lemma eval_conditions_total:
  "\<forall>c \<in> set conds. \<exists>b. eval_condition (cd_expr c) ctx = Inr b \<Longrightarrow> \<exists>bs. eval_conditions conds ctx = Inr bs"
  unfolding eval_conditions_def by (induction conds) auto

lemma pre_total: "pre_typed c \<Longrightarrow> \<exists>b. eval_condition (cd_expr c) (pre_context prs) = Inr b"
proof (cases "cd_expr c")
  case (Some x)
  assume "pre_typed c"
  then have t: "cx_key x \<in> {''pred_count'', ''has_parent''} \<Longrightarrow> numeric_cond x"
    using Some by (auto simp: pre_typed_def)
  show ?thesis
  proof (cases "dget (pre_context prs) (cx_key x)")
    case None
    then show ?thesis using eval_missing Some by simp
  next
    case g: (Some got)
    then have "cx_key x \<in> {''pred_count'', ''has_parent''}" "py_num got \<noteq> None"
      by (auto simp: pre_context_def split: if_splits)
    with t g eval_number Some show ?thesis by auto
  qed
qed (auto simp: eval_condition_def)

lemma post_total: "post_typed c \<Longrightarrow> \<exists>b. eval_condition (cd_expr c) (post_context r) = Inr b"
proof (cases "cd_expr c")
  case (Some x)
  assume "post_typed c"
  then have t: "cx_key x = ''adjusted_resonance'' \<Longrightarrow> numeric_cond x" "cx_key x = ''verdict'' \<Longrightarrow> textual_cond x"
    using Some by (simp_all add: post_typed_def)
  consider "cx_key x = ''adjusted_resonance''" | "cx_key x = ''verdict''"
    | "dget (post_context r) (cx_key x) = None"
    by (cases "cx_key x = ''adjusted_resonance''"; cases "cx_key x = ''verdict''") (auto simp: post_context_def)
  then show ?thesis
  proof cases
    case 1
    then show ?thesis using eval_number [of "JFloat (cast_adjusted r)"] t(1) Some by (simp add: post_context_def)
  next
    case 2
    then show ?thesis using eval_text [of "post_context r"] t(2) Some by (simp add: post_context_def)
  next
    case 3
    then show ?thesis using eval_missing Some by simp
  qed
qed (auto simp: eval_condition_def)

text \<open>A parent's depth is at least one, so linking a result to its parent never fails.\<close>

definition depth_ok :: "cast_result \<Rightarrow> bool" where
  "depth_ok r \<longleftrightarrow> pred_option (\<lambda>l. 1 \<le> ln_depth l) (cr_lineage r)"

lemma mk_lineage_depth: "mk_lineage nb pid d b dv = Inr l \<Longrightarrow> 1 \<le> ln_depth l"
  by (auto simp: mk_lineage_def split: if_splits)

lemma next_depth_ok: "depth_ok r \<Longrightarrow> 1 \<le> next_depth r"
  by (auto simp: depth_ok_def next_depth_def split: option.split)

lemma fluid_depth: "fluid_cast E mexp st v i = Inr r \<Longrightarrow> depth_ok r"
  by (auto simp: fluid_cast_def rbind_Inr_iff mk_cast_result_def depth_ok_def)

lemma link_depth: "link_cast b chain base = Inr r \<Longrightarrow> depth_ok base \<Longrightarrow> depth_ok r"
  by (auto simp: link_cast_def rbind_Inr_iff Let_def depth_ok_def dest: mk_lineage_depth split: if_splits)

lemma auto_cast_loop_depth:
  "auto_cast_loop E mexp i target alpha branch sts current chain steps = Inr (chain', x) \<Longrightarrow>
   \<forall>r \<in> set chain. depth_ok r \<Longrightarrow> \<forall>r \<in> set chain'. depth_ok r"
proof (induction sts arbitrary: current chain steps)
  case (Cons st sts)
  obtain base r where b: "fluid_cast E mexp st current i = Inr base" "link_cast branch chain base = Inr r"
    using Cons.prems(1) by (auto simp: rbind_Inr_iff)
  then have d: "depth_ok r" using link_depth fluid_depth by blast
  show ?case
  proof (cases "cast_verdict r = V_COHERENT \<and> cast_adjusted r \<ge> target")
    case True
    with Cons.prems b d show ?thesis by (auto simp: Let_def)
  next
    case False
    obtain f :: sigil where f: "auto_cast_loop E mexp i target alpha branch sts
        (blend_toward (eg_registry E) current (sg_semantic_vector f) alpha) (chain @ [r])
        (steps @ [step_of alpha r]) = Inr (chain', x)"
      using Cons.prems(1) False b by (auto simp: rbind_Inr_iff Let_def)
    show ?thesis by (rule Cons.IH [OF f]) (use Cons.prems(2) d in simp)
  qed
qed simp

lemma auto_cast_depth: "auto_cast E mexp b sts v i t a = Inr (r, chain, d) \<Longrightarrow> depth_ok r"
proof -
  assume a: "auto_cast E mexp b sts v i t a = Inr (r, chain, d)"
  then obtain ch s ok where "auto_cast_loop E mexp i t a b sts v [] [] = Inr (ch, s, ok)" "ch \<noteq> []" "r = last ch"
    by (auto simp: auto_cast_def rbind_Inr_iff split: if_splits)
  with auto_cast_loop_depth [of E mexp i t a b sts v "[]" "[]" ch "(s, ok)"] show ?thesis by simp
qed

lemma run_cast_depth: "run_cast_node E mexp env n k = Inr r \<Longrightarrow> depth_ok r"
  using fluid_depth auto_cast_depth
  by (auto simp: run_cast_node_def Let_def rbind_Inr_iff cast_op_def mk_cast_result_def depth_ok_def
      split: node_type.splits option.splits)

lemma attempts_result:
  "attempts_loop run m k err rt = (Some base, e, j) \<Longrightarrow> \<exists>i. run i = Inr base"
  by (induction run m k err rt rule: attempts_loop.induct) (auto split: sum.splits)

definition results_ok :: "exec_state \<Rightarrow> bool" where
  "results_ok s \<longleftrightarrow> (\<forall>(k, r) \<in> set (es_results s). depth_ok r)"

lemma results_ok_set:
  "results_ok s \<Longrightarrow> depth_ok r \<Longrightarrow> results_ok (set_node_result k r s)"
  by (auto simp: results_ok_def set_node_result_def dest: in_set_dset)

lemma results_ok_simps [simp]:
  "results_ok (add_receipt x s) = results_ok s" "results_ok (block_nodes bs s) = results_ok s"
  "results_ok (s\<lparr>es_rollback := q\<rparr>) = results_ok s"
  "results_ok (s\<lparr>es_status := st, es_receipts := rs\<rparr>) = results_ok s"
  by (simp_all add: results_ok_def add_receipt_def block_nodes_def)

lemma exec_cast_total:
  assumes "results_ok s" "\<forall>r \<in> set prs. depth_ok r" "list_all post_typed (or_empty (cn_postconditions n))"
  shows "\<exists>s' stop. exec_cast E mexp env n prs pre s = Inr (s', stop) \<and> results_ok s'"
proof (cases "attempts_loop (run_cast_node E mexp env n) (node_attempts n) 1 None 0")
  case (fields base err k)
  show ?thesis
  proof (cases base)
    case None
    then show ?thesis using fields assms(1) by (auto simp: exec_cast_def)
  next
    case (Some b)
    then have "depth_ok b" using attempts_result run_cast_depth fields by blast
    moreover have "depth_ok (best_result r rs)" if "prs = r # rs" for r rs
      using that assms(2) max_by_in [of cast_adjusted r rs] by (auto simp: best_result_def)
    ultimately obtain res where res: "(case prs of [] \<Rightarrow> Inr b
        | r # rs \<Rightarrow> cast_result_with_lineage b (best_result r rs) (xe_branch_id env)) = Inr res" "depth_ok res"
      by (cases prs) (auto simp: cast_result_with_lineage_def mk_lineage_def next_depth_ok depth_ok_def)
    obtain post where "eval_conditions (or_empty (cn_postconditions n)) (post_context res) = Inr post"
      using eval_conditions_total [of "or_empty (cn_postconditions n)"] post_total assms(3)
      unfolding list_all_iff by meson
    with res fields Some assms(1) show ?thesis
      by (auto simp: exec_cast_def results_ok_set)
  qed
qed

lemma in_set_map_filter: "y \<in> set (List.map_filter f xs) \<longleftrightarrow> (\<exists>x \<in> set xs. f x = Some y)"
  by (induction xs) (auto simp: List.map_filter_simps split: option.splits)

lemma exec_node_total:
  assumes "results_ok s" "list_all pre_typed (or_empty (cn_preconditions n))"
    and "list_all post_typed (or_empty (cn_postconditions n))"
  shows "\<exists>s' stop. exec_node E mexp env preds n s = Inr (s', stop) \<and> results_ok s'"
proof -
  define prs where "prs = List.map_filter (dget (es_results s))
      (case dget preds (cn_node_id n) of Some ps \<Rightarrow> ps | None \<Rightarrow> [])"
  have prs: "\<forall>r \<in> set prs. depth_ok r"
    using assms(1) by (auto simp: prs_def in_set_map_filter results_ok_def dest!: map_of_SomeD)
  obtain pre where pre: "eval_conditions (or_empty (cn_preconditions n)) (pre_context prs) = Inr pre"
    using eval_conditions_total [of "or_empty (cn_preconditions n)"] pre_total assms(2)
    unfolding list_all_iff by meson
  have gate: "results_ok (exec_gate env n prs pre s)" using assms(1) by (simp add: exec_gate_def Let_def)
  have first: "depth_ok c" if "first_where Q prs = Some c" for Q c
    using first_where_Some [OF that] prs by blast
  have best: "depth_ok (best_result r rs)" if "prs = r # rs" for r rs
    using that prs max_by_in [of cast_adjusted r rs] by (auto simp: best_result_def)
  have merge: "results_ok (exec_merge env n prs pre s)"
  proof (cases prs)
    case (Cons r rs)
    then show ?thesis
      using assms(1) first [of "\<lambda>r. cast_verdict r = V_COHERENT"] best prs
      by (auto simp: exec_merge_def Let_def intro!: results_ok_set split: option.split)
  qed (simp add: exec_merge_def assms(1))
  obtain s' stop where c: "exec_cast E mexp env n prs pre s = Inr (s', stop)" "results_ok s'"
    using exec_cast_total [OF assms(1) prs assms(3)] by blast
  show ?thesis
    unfolding exec_node_def Let_def prs_def [symmetric] pre rbind.simps
    using assms(1) gate merge c by (cases "list_all snd pre"; cases "cn_node_type n") auto
qed

lemma exec_loop_total:
  assumes ids: "distinct (node_ids p)" and typed: "conditions_typed p"
  shows "set order \<subseteq> set (node_ids p) \<Longrightarrow> results_ok s \<Longrightarrow>
    \<exists>s'. exec_loop E mexp env (node_table p) preds order s = Inr s'"
proof (induction order arbitrary: s)
  case (Cons nid order)
  obtain n where n: "n \<in> set (sp_nodes p)" "cn_node_id n = nid" using Cons.prems(1) by (auto simp: node_ids_def)
  then have get: "dget (node_table p) nid = Some n" using dget_node_table [OF ids] by simp
  have t: "list_all pre_typed (or_empty (cn_preconditions n))" "list_all post_typed (or_empty (cn_postconditions n))"
    using typed n(1) by (simp_all add: conditions_typed_def list_all_iff)
  obtain s' stop where step: "exec_node E mexp env preds n s = Inr (s', stop)" "results_ok s'"
    using exec_node_total [OF Cons.prems(2) t] by blast
  have sub: "set order \<subseteq> set (node_ids p)" using Cons.prems(1) by simp
  obtain s1 s2 where "exec_loop E mexp env (node_table p) preds order s = Inr s1"
    "exec_loop E mexp env (node_table p) preds order s' = Inr s2"
    using Cons.IH [OF sub] Cons.prems(2) step(2) by blast
  with get step(1) show ?case by (cases stop) simp_all
qed simp

lemma mk_semantic_program_same: "mk_semantic_program q = Inr q' \<Longrightarrow> q' = q"
  by (auto simp: mk_semantic_program_def Let_def split: if_splits)

lemma compiled_stored:
  assumes "mk_semantic_program p = Inr p" "compile_program now p = Inr c"
  shows "mk_semantic_program c = Inr c" "sp_program_id c = sp_program_id p" "sp_status c = PS_COMPILED"
  using assms compile_exact [OF assms(1), of now]
  by (auto simp: mk_semantic_program_def Let_def split: if_splits)

lemma compiled_executes:
  assumes valid: "mk_semantic_program p = Inr p" and comp: "compile_program now p = Inr c"
    and typed: "conditions_typed p" and warn: "check_warnings env (validate_program c) = Inr ()"
  obtains s where "mk_semantic_program c = Inr c" "sp_nodes c = sp_nodes p" "sp_program_id c = sp_program_id p"
    "execute_program E mexp env now' c =
       rbind (xe_sign env (receipt_of env c s)) (\<lambda>receipt. Inr (execution_of env c s, receipt))"
    "es_status s = PS_COMPLETED \<or> es_status s = PS_FAILED"
proof -
  note ids = compiled_ids [OF valid]
  have c: "c = p\<lparr>sp_status := PS_COMPILED, sp_updated_at := now\<rparr>"
    and graph: "edges p \<subseteq> UNIV \<times> set (node_ids p)" "acyclic (edges p)"
    using compile_exact [OF valid, of now] comp by auto
  have nodes: "sp_nodes c = sp_nodes p" "sp_program_id c = sp_program_id p" by (simp_all add: c)
  obtain preds where preds: "predecessor_lists (\<lambda>nid. KeyError) p = Inr preds"
    using predecessor_lists_ok(1) [OF ids graph(1)] by blast
  obtain order where order: "topological_order (node_table p) preds = Inr order" "forward_order p order"
    using topological_order_correct(1) [OF ids graph(1) preds graph(2)] by blast
  obtain s where s: "exec_loop E mexp env (node_table p) preds order initial_exec = Inr s"
    using exec_loop_total [OF ids typed, of order initial_exec E mexp env preds] order(2)
    by (auto simp: forward_order_def results_ok_def initial_exec_def)
  have c_valid: "mk_semantic_program c = Inr c"
    using valid by (simp add: mk_semantic_program_def c Let_def split: if_splits)
  have run: "execute_program E mexp env now' c =
      rbind (xe_sign env (receipt_of env c s)) (\<lambda>receipt. Inr (execution_of env c s, receipt))"
    using preds order(1) s warn node_table_cong [OF nodes(1)]
    by (simp add: execute_program_def c)
  have "es_status s = PS_COMPLETED \<or> es_status s = PS_FAILED"
  proof -
    obtain seen s1 where "exec_inv p seen s1" "s = s1 \<or> (\<exists>nid. failed_from env nid s1 s)"
      using exec_loop_outcome [OF ids graph(1) s exec_inv_initial] order(2) by auto
    then show ?thesis by (auto simp: exec_inv_def failed_from_def)
  qed
  with c_valid nodes run that show ?thesis by (simp add: receipt_of_def)
qed

text \<open>
  C21. Compiled programs run to an end.  Take a program that was compiled and stored by the compile
  tool and whose conditions compare like with like.  When the report of its compilation has warnings
  and \<open>VERMYTH_DENY_PROGRAM_VALIDATION_WARNINGS\<close> denies them, the execute tool raises and stores nothing.
  Otherwise, whatever the casts do, either the signing of the receipt raises, which the tool passes on
  with nothing stored, or it answers with an execution that is COMPLETED or FAILED, which reads back
  under its id, as its receipt does, which names the execution and its status.  (Signing adds its own
  fields only: \<open>signing_signs_only\<close> in the theory Receipts.)
\<close>

theorem program_runs:
  assumes "tool_compile_program now p S = (Inr (c, report), S1)" "conditions_typed p" "signs_only env"
  shows "case check_warnings env report of
      Inl e \<Rightarrow> vr_warnings report \<noteq> [] \<and> xe_deny_warnings env \<noteq> Inr False
        \<and> tool_execute_program E mexp env now' (sp_program_id p) S1 = (Inl e, S1)
    | Inr _ \<Rightarrow>
        (\<exists>e r. xe_sign env r = Inl e \<and> tool_execute_program E mexp env now' (sp_program_id p) S1 = (Inl e, S1))
      \<or> (\<exists>x receipt S2. tool_execute_program E mexp env now' (sp_program_id p) S1 = (Inr x, S2)
           \<and> (px_status x = PS_COMPLETED \<or> px_status x = PS_FAILED)
           \<and> read_execution (xe_execution_id env) S2 = Inr x
           \<and> read_execution_receipt (xe_receipt_id env) S2 = Inr receipt
           \<and> er_execution_id receipt = xe_execution_id env \<and> er_status receipt = px_status x)"
proof -
  have valid: "mk_semantic_program p = Inr p" and comp: "compile_program now p = Inr c"
    and S1: "S1 = S\<lparr>pg_programs := dset (sp_program_id c) c (pg_programs S)\<rparr>"
    and report: "report = validate_program c"
    using assms(1) mk_semantic_program_same [of p]
    by (auto simp: tool_compile_program_def write_program_def rbind_Inr_iff split: sum.splits)
  note c = compiled_stored [OF valid comp]
  have read: "read_program (sp_program_id p) S1 = Inr c"
    using c by (simp add: read_program_def S1 dict_simps)
  show ?thesis
  proof (cases "check_warnings env report")
    case (Inl e)
    then have "execute_program E mexp env now' c = Inl e" using c by (simp add: execute_program_def report)
    then have "tool_execute_program E mexp env now' (sp_program_id p) S1 = (Inl e, S1)"
      using read by (simp add: tool_execute_program_def)
    then show ?thesis using Inl by (auto simp: check_warnings_def raise_if_def split: if_splits)
  next
    case (Inr u)
    then have "check_warnings env (validate_program c) = Inr ()" using report by simp
    then obtain s where run: "execute_program E mexp env now' c =
        rbind (xe_sign env (receipt_of env c s)) (\<lambda>receipt. Inr (execution_of env c s, receipt))"
      and st: "es_status s = PS_COMPLETED \<or> es_status s = PS_FAILED"
      using compiled_executes [OF valid comp assms(2)] by metis
    show ?thesis
    proof (cases "xe_sign env (receipt_of env c s)")
      case (Inl e)
      then show ?thesis using run read Inr by (auto simp: tool_execute_program_def)
    next
      case (Inr receipt)
      then obtain sig key where r: "receipt = (receipt_of env c s)\<lparr>er_signature := sig, er_signing_key_id := key\<rparr>"
        using assms(3) unfolding signs_only_def by blast
      show ?thesis
        using \<open>check_warnings env report = Inr u\<close> run Inr st read
        by (simp add: r receipt_of_def tool_execute_program_def Let_def write_execution_def S1 execution_of_def
            dict_simps write_execution_receipt_def read_execution_def read_execution_receipt_def)
    qed
  qed
qed

section \<open>Witnesses\<close>

definition sample_node :: "string \<Rightarrow> node_type \<Rightarrow> string list \<Rightarrow> cast_node" where
  "sample_node nid ty succs =
     \<lparr>cn_node_id = nid, cn_node_type = ty, cn_aspects = None,
      cn_vector = (if ty = NT_FLUID_CAST then Some zero_vec else None), cn_intent = sample_intent,
      cn_successors = succs, cn_gate_condition = None, cn_merge_strategy = Some FIRST_COHERENT,
      cn_preconditions = None, cn_postconditions = None, cn_effects = None,
      cn_required_permissions = None, cn_retry_policy = None, cn_rollback = None, cn_timeout_ms = None\<rparr>"

definition sample_program :: semantic_program where
  "sample_program =
     \<lparr>sp_program_id = ''p'', sp_name = ''n'', sp_status = PS_DRAFT,
      sp_nodes = [sample_node ''a'' NT_FLUID_CAST [''b''], sample_node ''b'' NT_MERGE []],
      sp_entry_node_ids = [''a''], sp_metadata = [], sp_created_at = 0, sp_updated_at = 0\<rparr>"

definition sample_env :: exec_env where
  "sample_env =
     \<lparr>xe_stamp = (\<lambda>nid k. (nid, 0)), xe_stamps = (\<lambda>nid k. []), xe_chain_branch = (\<lambda>nid k. ''b''),
      xe_times = (\<lambda>nid. (0, 0)), xe_rollback_time = (\<lambda>nid. 0), xe_branch_id = ''b'',
      xe_execution_id = ''x'', xe_receipt_id = ''r'', xe_started_at = 0, xe_completed_at = 1,
      xe_correlation_id = None, xe_principal_id = None, xe_sign = Inr, xe_deny_warnings = Inr False\<rparr>"

lemma sample_program_valid: "mk_semantic_program sample_program = Inr sample_program"
  by (simp add: mk_semantic_program_def sample_program_def sample_node_def node_ok_def payload_ok_def)

lemma sample_program_graph:
  "edges sample_program \<subseteq> UNIV \<times> set (node_ids sample_program)" "acyclic (edges sample_program)"
proof -
  have e: "edges sample_program = {(''a'', ''b'')}"
    by (auto simp: edges_def sample_program_def sample_node_def)
  show "edges sample_program \<subseteq> UNIV \<times> set (node_ids sample_program)" "acyclic (edges sample_program)"
    unfolding e using acyclic_def [of "{} :: (string \<times> string) set"]
    by (simp_all add: node_ids_def sample_program_def sample_node_def acyclic_insert)
qed

lemma sample_typed: "conditions_typed sample_program"
  by (simp add: conditions_typed_def sample_program_def sample_node_def or_empty_def)

lemma sample_env_ok: "signs_only sample_env" "check_warnings sample_env report = Inr ()"
proof -
  show "signs_only sample_env" unfolding signs_only_def
  proof (intro allI impI)
    fix r r' assume "xe_sign sample_env r = Inr r'"
    then have "r' = r\<lparr>er_signature := er_signature r, er_signing_key_id := er_signing_key_id r\<rparr>"
      by (simp add: sample_env_def)
    then show "\<exists>sig key. r' = r\<lparr>er_signature := sig, er_signing_key_id := key\<rparr>" by blast
  qed
qed (simp add: sample_env_def check_warnings_def raise_if_def)

lemma sample_compiles: "\<exists>c. compile_program 0 sample_program = Inr c"
  using compile_exact [OF sample_program_valid, of 0] sample_program_graph by (auto split: sum.splits)

lemma compile_iff_acyclic_witness:
  "compile_program 0 sample_program = Inr (sample_program\<lparr>sp_status := PS_COMPILED, sp_updated_at := 0\<rparr>)"
proof -
  note t = compile_iff_acyclic [OF sample_program_valid, of 0]
  show ?thesis
  proof (cases "compile_program 0 sample_program")
    case (Inl e)
    then show ?thesis using t sample_program_graph by simp
  next
    case (Inr c)
    then show ?thesis using t by simp
  qed
qed

lemma execution_receipts_witness:
  "\<exists>x receipt ran tail. execute_program sample_engine (\<lambda>x. fl (exp x)) sample_env 0
       (sample_program\<lparr>sp_status := PS_COMPILED, sp_updated_at := 0\<rparr>) = Inr (x, receipt)
     \<and> er_nodes receipt = ran @ tail \<and> (px_status x = PS_COMPLETED \<and> tail = [] \<or> px_status x = PS_FAILED)"
proof -
  obtain c where c: "compile_program 0 sample_program = Inr c" using sample_compiles by blast
  then have c': "c = sample_program\<lparr>sp_status := PS_COMPILED, sp_updated_at := 0\<rparr>"
    using compile_exact [OF sample_program_valid, of 0] by simp
  have sign: "xe_sign sample_env r = Inr r" for r by (simp add: sample_env_def)
  obtain s where r: "mk_semantic_program c = Inr c"
    "execute_program sample_engine (\<lambda>x. fl (exp x)) sample_env 0 c
       = Inr (execution_of sample_env c s, receipt_of sample_env c s)"
    using compiled_executes [OF sample_program_valid c sample_typed sample_env_ok(2), of sample_engine "\<lambda>x. fl (exp x)" 0]
    unfolding sign rbind.simps by metis
  from execution_receipts [OF r sample_env_ok(1)] r(2) show ?thesis unfolding c' by blast
qed

lemma program_runs_witness:
  "\<exists>S1 x S2. tool_execute_program sample_engine (\<lambda>x. fl (exp x)) sample_env 0 ''p'' S1 = (Inr x, S2)
     \<and> read_execution ''x'' S2 = Inr x"
proof -
  let ?S = "\<lparr>pg_programs = [], pg_executions = [], pg_receipts = [], pg_last_receipt = None\<rparr>"
  obtain c where c: "compile_program 0 sample_program = Inr c" using sample_compiles by blast
  then obtain S1 where S1: "tool_compile_program 0 sample_program ?S = (Inr (c, validate_program c), S1)"
    using sample_program_valid by (auto simp: tool_compile_program_def write_program_def)
  have ids: "xe_execution_id sample_env = ''x''" "sp_program_id sample_program = ''p''"
    by (simp_all add: sample_env_def sample_program_def)
  have sign: "xe_sign sample_env r \<noteq> Inl e" for r e by (simp add: sample_env_def)
  from program_runs [OF S1 sample_typed sample_env_ok(1), of sample_engine "\<lambda>x. fl (exp x)" 0]
  show ?thesis unfolding ids sample_env_ok(2) sum.case using sign by blast
qed

end
