(* ===== verification/CastTools.thy ===== *)
theory CastTools
  imports Programs
begin

text \<open>
  The casting tools of \<open>src/vermyth/mcp/tools/casting/_legacy.py\<close> (cast, fluid cast, auto cast and
  geometric cast) over the grimoire: the casts, channels, seeds, crystallised sigils and divergence
  reports they read and write, step by step and in the order of the code, so that what a failing
  call leaves behind is visible. The geometric packets of \<open>src/vermyth/mcp/geometric.py\<close> and the
  transcript of \<open>src/vermyth/arcane/presentation/transcript.py\<close> are here too. Identities and times
  come in as a record of fresh values; \<open>isof\<close> prints a timestamp.
\<close>

section \<open>State\<close>

text \<open>
  The tables the tools use, the cache of divergence reports and the active thresholds.
\<close>

record cast_state =
  ct_graph :: graph_db
  ct_seeds :: seed_table
  ct_crystals :: crystal_table
  ct_channels :: channel_table
  ct_reports :: report_table
  ct_cache :: "(string, divergence_report) dict"
  ct_thresholds :: divergence_thresholds

text \<open>A query of one table, and a write to one table.\<close>

definition query_table :: "('s \<Rightarrow> 't) \<Rightarrow> ('t \<Rightarrow> 'a result) \<Rightarrow> ('s, 'a) op" where
  "query_table table q S = (q (table S), S)"

definition write_table :: "('s \<Rightarrow> 't) \<Rightarrow> ('t \<Rightarrow> 's \<Rightarrow> 's) \<Rightarrow> ('t \<Rightarrow> 't result) \<Rightarrow> ('s, unit) op" where
  "write_table table update w S =
     (case w (table S) of Inl e \<Rightarrow> (Inl e, S) | Inr T \<Rightarrow> (Inr (), update T S))"

abbreviation graph_write :: "(graph_db \<Rightarrow> graph_db result) \<Rightarrow> (cast_state, unit) op" where
  "graph_write \<equiv> write_table ct_graph (\<lambda>T. ct_graph_update (\<lambda>_. T))"

abbreviation seed_write :: "(seed_table \<Rightarrow> seed_table result) \<Rightarrow> (cast_state, unit) op" where
  "seed_write \<equiv> write_table ct_seeds (\<lambda>T. ct_seeds_update (\<lambda>_. T))"

abbreviation crystal_write :: "(crystal_table \<Rightarrow> crystal_table result) \<Rightarrow> (cast_state, unit) op" where
  "crystal_write \<equiv> write_table ct_crystals (\<lambda>T. ct_crystals_update (\<lambda>_. T))"

abbreviation channel_write :: "(channel_table \<Rightarrow> channel_table result) \<Rightarrow> (cast_state, unit) op" where
  "channel_write \<equiv> write_table ct_channels (\<lambda>T. ct_channels_update (\<lambda>_. T))"

abbreviation report_write :: "(report_table \<Rightarrow> report_table result) \<Rightarrow> (cast_state, unit) op" where
  "report_write \<equiv> write_table ct_reports (\<lambda>T. ct_reports_update (\<lambda>_. T))"

definition read_parent :: "registry \<Rightarrow> string \<Rightarrow> (cast_state, cast_result) op" where
  "read_parent R cast_id = query_table ct_graph (\<lambda>G. read_cast R cast_id (gd_casts G))"

text \<open>
  The fresh values one call draws: the identity of the cast, the ids of a new channel, branch and
  seed, and the time of the report and of a crystallisation.
\<close>

record fresh =
  fr_stamp :: stamp
  fr_channel :: string
  fr_branch :: string
  fr_seed :: string
  fr_now :: int

section \<open>Responses\<close>

definition reversibility_members :: "(string, reversibility_class) dict" where
  "reversibility_members =
     [(''REVERSIBLE'', REVERSIBLE), (''PARTIAL'', REV_PARTIAL), (''IRREVERSIBLE'', IRREVERSIBLE)]"

definition tolerance_members :: "(string, side_effect_tolerance) dict" where
  "tolerance_members =
     [(''NONE'', TOL_NONE), (''LOW'', TOL_LOW), (''MEDIUM'', TOL_MEDIUM), (''HIGH'', TOL_HIGH)]"

fun source_text :: "cast_source \<Rightarrow> string" where
  "source_text SRC_BASE = ''base''"
| "source_text SRC_CRYSTALLIZED = ''crystallized''"
| "source_text SRC_FLUID = ''fluid''"

fun opt_json :: "('a \<Rightarrow> json) \<Rightarrow> 'a option \<Rightarrow> json" where
  "opt_json f None = JNull"
| "opt_json f (Some x) = f x"

definition rounded :: "nat \<Rightarrow> real \<Rightarrow> json" where
  "rounded d x = JFloat (py_round x d)"

definition rounded_vector :: "svec \<Rightarrow> json" where
  "rounded_vector v = JList (map (rounded 6) (comps v))"

text \<open>The report of a cast: the cached one, else the stored one, else none (any exception).\<close>

definition known_report :: "cast_state \<Rightarrow> string \<Rightarrow> divergence_report option" where
  "known_report S cast_id =
     (case dget (ct_cache S) cast_id of
        Some r \<Rightarrow> Some r
      | None \<Rightarrow> (case read_divergence_report cast_id (ct_reports S) of Inr r \<Rightarrow> Some r | Inl _ \<Rightarrow> None))"

definition divergence_json :: "divergence_report \<Rightarrow> json" where
  "divergence_json r =
     JObj [(''l2_magnitude'', rounded 6 (dr_l2_magnitude r)),
       (''cosine_distance'', rounded 6 (dr_cosine_distance r)),
       (''status'', JStr (enum_name divergence_members (dr_status r)))]"

definition lineage_json :: "lineage \<Rightarrow> divergence_report option \<Rightarrow> json" where
  "lineage_json l report =
     JObj ([(''parent_cast_id'', JStr (ln_parent_cast_id l)), (''depth'', JInt (ln_depth l)),
        (''branch_id'', JStr (ln_branch_id l))]
       @ (case ln_divergence_vector l of
            None \<Rightarrow> [] | Some v \<Rightarrow> [(''divergence_vector'', rounded_vector v)])
       @ (case report of None \<Rightarrow> [] | Some r \<Rightarrow> [(''divergence'', divergence_json r)]))"

definition drift_warnings :: "divergence_report option \<Rightarrow> string list" where
  "drift_warnings report =
     (case report of
        None \<Rightarrow> []
      | Some r \<Rightarrow>
          if dr_status r = STABLE then []
          else [enum_name divergence_members (dr_status r) @
                '': parent-child semantic drift exceeded thresholds''])"

definition provenance_json :: "cast_provenance \<Rightarrow> json" where
  "provenance_json p =
     JObj [(''source'', JStr (source_text (cp_source p))),
       (''crystallized_sigil_name'', opt_str (cp_crystallized_sigil_name p)),
       (''generation'', opt_json JInt (cp_generation p)),
       (''narrative_coherence'', opt_json JFloat (cp_narrative_coherence p)),
       (''causal_root_cast_id'', opt_str (cp_causal_root_cast_id p))]"

definition cast_result_to_dict ::
  "(int \<Rightarrow> string) \<Rightarrow> cast_state \<Rightarrow> cast_result \<Rightarrow> (string, json) dict" where
  "cast_result_to_dict isof S r =
     (let report = (if cr_lineage r = None then None else known_report S (cr_cast_id r));
          v = cr_verdict r; s = cr_sigil r; iv = vd_intent_vector v;
          warnings = drift_warnings report
      in [(''cast_id'', JStr (cr_cast_id r)),
          (''timestamp'', JStr (isof (cr_timestamp r))),
          (''verdict'', JStr (enum_name verdict_members (vd_verdict_type v))),
          (''resonance'', rounded 4 (cast_adjusted r)),
          (''effect_class'', JStr (enum_name effect_class_members (sg_effect_class s))),
          (''sigil_name'', JStr (sg_name s)),
          (''sigil_aspects'', JList (map JStr (sort (map aspect_name (sg_aspects s))))),
          (''effect_description'', JStr (vd_effect_description v)),
          (''casting_note'', JStr (vd_casting_note v)),
          (''incoherence_reason'', opt_str (vd_incoherence_reason v)),
          (''proof'', JStr (rsc_proof (vd_resonance v))),
          (''projection_method'', JStr (enum_name projection_members (iv_projection_method iv))),
          (''intent_confidence'', rounded 4 (iv_confidence iv)),
          (''semantic_vector'', rounded_vector (sg_semantic_vector s)),
          (''intent_vector'', rounded_vector (iv_vector iv)),
          (''lineage'', opt_json (\<lambda>l. lineage_json l report) (cr_lineage r)),
          (''glyph_seed_id'', opt_str (cr_glyph_seed_id r)),
          (''provenance'', opt_json provenance_json (cr_provenance r))]
         @ (if warnings = [] then [] else [(''warnings'', JList (map JStr warnings))]))"

definition arcane_transcript_for_cast_result :: "(int \<Rightarrow> string) \<Rightarrow> cast_result \<Rightarrow> json" where
  "arcane_transcript_for_cast_result isof r =
     (let i = cr_intent r; s = cr_sigil r; v = cr_verdict r; iv = vd_intent_vector v in
      JObj [(''kind'', JStr ''arcane_transcript''), (''version'', JInt 1),
        (''presentation_only'', JBool True),
        (''phases'', JList
          [JObj [(''phase'', JStr ''attunement''),
             (''mundane_anchor'', JStr ''intent_and_projection''),
             (''detail'', JObj
                [(''objective'', JStr (in_objective i)), (''scope'', JStr (in_scope i)),
                 (''reversibility'', JStr (enum_name reversibility_members (in_reversibility i))),
                 (''side_effect_tolerance'',
                    JStr (enum_name tolerance_members (in_side_effect_tolerance i))),
                 (''projection_method'', JStr (enum_name projection_members (iv_projection_method iv))),
                 (''intent_confidence'', JFloat (iv_confidence iv))])],
           JObj [(''phase'', JStr ''warding''), (''applicable'', JBool False),
             (''mundane_anchor'', JStr ''policy_threshold_merge''),
             (''note'', JStr (''No ward merge is attached to CastResult alone; '' @
                ''bundles / decide merge wards into PolicyThresholds.''))],
           JObj [(''phase'', JStr ''casting''),
             (''mundane_anchor'', JStr ''composition_and_resonance''),
             (''detail'', JObj
                [(''sigil_name'', JStr (sg_name s)),
                 (''effect_class'', JStr (enum_name effect_class_members (sg_effect_class s))),
                 (''contradiction_severity'',
                    JStr (enum_name severity_members (sg_contradiction_severity s))),
                 (''resonance_adjusted'', JFloat (cast_adjusted r)),
                 (''resonance_raw'', JFloat (rsc_raw (vd_resonance v))),
                 (''ceiling_applied'', JBool (rsc_ceiling_applied (vd_resonance v)))])],
           JObj [(''phase'', JStr ''verification''), (''mundane_anchor'', JStr ''verdict_bands''),
             (''detail'', JObj
                [(''verdict_type'', JStr (enum_name verdict_members (vd_verdict_type v))),
                 (''incoherence_reason'', opt_str (vd_incoherence_reason v))])],
           JObj [(''phase'', JStr ''residue''),
             (''mundane_anchor'', JStr ''identifiers_and_lineage''),
             (''detail'', JObj
                [(''cast_id'', JStr (cr_cast_id r)), (''timestamp'', JStr (isof (cr_timestamp r))),
                 (''lineage_parent_cast_id'', opt_str (map_option ln_parent_cast_id (cr_lineage r))),
                 (''lineage_depth'', opt_json JInt (map_option ln_depth (cr_lineage r))),
                 (''branch_id'', opt_str (map_option ln_branch_id (cr_lineage r))),
                 (''provenance_source'',
                    opt_str (map_option (\<lambda>p. source_text (cp_source p)) (cr_provenance r)))])]])])"

definition transcript_if_requested :: "(int \<Rightarrow> string) \<Rightarrow> cast_result \<Rightarrow> bool \<Rightarrow> (string, json) dict" where
  "transcript_if_requested isof r requested =
     (if requested then [(''arcane_transcript'', arcane_transcript_for_cast_result isof r)] else [])"

section \<open>The shared steps\<close>

text \<open>
  A child of a stored cast: its lineage carries the component-wise difference of the sigil vectors,
  one level below the parent, on the given branch, else the parent's, else a fresh one. The report
  of the pair is written and cached.
\<close>

definition record_divergence ::
  "int \<Rightarrow> string \<Rightarrow> cast_result \<Rightarrow> cast_result \<Rightarrow> (cast_state, unit) op" where
  "record_divergence now parent_id par r =
     obind (query_table ct_thresholds (\<lambda>t.
              classify (cr_cast_id r) parent_id (sg_semantic_vector (cr_sigil par))
                (sg_semantic_vector (cr_sigil r)) t now)) (\<lambda>report.
     obind (report_write (write_divergence_report report)) (\<lambda>_.
     modify (\<lambda>S. S\<lparr>ct_cache := dset (cr_cast_id r) report (ct_cache S)\<rparr>)))"

definition lineage_branch :: "string option \<Rightarrow> cast_result \<Rightarrow> string option" where
  "lineage_branch branch par =
     (case branch of Some b \<Rightarrow> Some b | None \<Rightarrow> map_option ln_branch_id (cr_lineage par))"

definition attach_parent ::
  "registry \<Rightarrow> fresh \<Rightarrow> string option \<Rightarrow> string option \<Rightarrow> cast_result \<Rightarrow> (cast_state, cast_result) op" where
  "attach_parent R fr parent_id branch r =
     (case parent_id of
        None \<Rightarrow> ret r
      | Some pid \<Rightarrow>
          obind (read_parent R pid) (\<lambda>par.
          obind (lift (mk_svec (comps (divergence_vector r par)) None)) (\<lambda>dv.
          obind (lift (mk_lineage (fr_branch fr) pid (next_depth par) (lineage_branch branch par)
                         (Some dv))) (\<lambda>l.
          obind (record_divergence (fr_now fr) pid par r) (\<lambda>_.
          ret (r\<lparr>cr_lineage := Some l\<rparr>))))))"

text \<open>
  Seeds: \<open>accumulate\<close> continues the first seed of the pattern, while the id that is kept is that
  of the last one (the dictionary comprehension over the seeds).
\<close>

definition keep_seed_id :: "glyph_seed list \<Rightarrow> glyph_seed \<Rightarrow> glyph_seed" where
  "keep_seed_id seeds s =
     (case first_where (\<lambda>p. same_aspects (gs_aspect_pattern p) (gs_aspect_pattern s)) (rev seeds) of
        None \<Rightarrow> s | Some prev \<Rightarrow> s\<lparr>gs_seed_id := gs_seed_id prev\<rparr>)"

definition accumulate_seed ::
  "registry \<Rightarrow> fresh \<Rightarrow> aspect list \<Rightarrow> cast_result \<Rightarrow> (cast_state, glyph_seed option) op" where
  "accumulate_seed R fr pat r =
     obind (query_table ct_seeds (query_seeds R (Some pat) None)) (\<lambda>seeds.
     obind (lift (accumulate R (fr_seed fr) r seeds)) (\<lambda>seed.
     case seed of
       None \<Rightarrow> ret None
     | Some s \<Rightarrow>
         (let s = keep_seed_id seeds s in obind (seed_write (write_seed s)) (\<lambda>_. ret (Some s)))))"

definition reset_seed :: "glyph_seed \<Rightarrow> glyph_seed" where
  "reset_seed s =
     s\<lparr>gs_observed_count := 0, gs_mean_resonance := 0, gs_coherence_rate := 0, gs_crystallized := False,
       gs_generation := (if gs_generation s = 0 then 1 else gs_generation s) + 1\<rparr>"

definition crystallize_seed ::
  "engine \<Rightarrow> fresh \<Rightarrow> glyph_seed option \<Rightarrow> (cast_state, sigil option) op" where
  "crystallize_seed E fr seed =
     (case seed of
        None \<Rightarrow> ret None
      | Some s \<Rightarrow>
          obind (lift (crystallize E s)) (\<lambda>sig.
          case sig of
            None \<Rightarrow> ret None
          | Some g \<Rightarrow>
              obind (lift (mk_crystallized_sigil
                \<lparr>cz_name = sg_name g, cz_sigil = g, cz_source_seed_id = gs_seed_id s,
                 cz_crystallized_at = fr_now fr,
                 cz_generation = (if gs_generation s = 0 then 1 else gs_generation s)\<rparr>)) (\<lambda>row.
              obind (crystal_write (write_crystallized_sigil row)) (\<lambda>_.
              obind (seed_write (write_seed (reset_seed s))) (\<lambda>_. ret (Some g))))))"

definition crystal_entry :: "sigil option \<Rightarrow> (string, json) dict" where
  "crystal_entry sig =
     (case sig of
        None \<Rightarrow> []
      | Some g \<Rightarrow>
          [(''crystallized_sigil'', JObj
             [(''name'', JStr (sg_name g)),
              (''effect_class'', JStr (enum_name effect_class_members (sg_effect_class g))),
              (''resonance_ceiling'', JFloat (sg_resonance_ceiling g))])])"

text \<open>The tail of \<open>tool_cast\<close> and \<open>tool_fluid_cast\<close>: the cast itself is written last.\<close>

definition finish_cast ::
  "engine \<Rightarrow> (int \<Rightarrow> string) \<Rightarrow> fresh \<Rightarrow> string option \<Rightarrow> string option \<Rightarrow> bool \<Rightarrow> aspect list \<Rightarrow> cast_result
     \<Rightarrow> (cast_state, (string, json) dict) op" where
  "finish_cast E isof fr parent_id branch transcript pat base =
     (let R = eg_registry E in
      obind (attach_parent R fr parent_id branch base) (\<lambda>r.
      obind (accumulate_seed R fr pat r) (\<lambda>seed.
      obind get_state (\<lambda>S.
      obind (crystallize_seed E fr seed) (\<lambda>sig.
      obind (graph_write (store_cast R r)) (\<lambda>_.
      ret (cast_result_to_dict isof S r @ crystal_entry sig @ transcript_if_requested isof r transcript)))))))"

text \<open>\<open>ValueError\<close> (pydantic's \<open>ValidationError\<close> included) and \<open>KeyError\<close> pass; the rest is wrapped.\<close>

fun wrap_exc :: "string \<Rightarrow> py_exc \<Rightarrow> py_exc" where
  "wrap_exc tool (ValueError m) = ValueError m"
| "wrap_exc tool (KeyError m) = KeyError m"
| "wrap_exc tool e = RuntimeError (tool @ '' failed: '' @ exc_text e)"

definition wrapped :: "string \<Rightarrow> ('s, 'a) op \<Rightarrow> ('s, 'a) op" where
  "wrapped tool m S = (case m S of (Inl e, S') \<Rightarrow> (Inl (wrap_exc tool e), S') | (Inr x, S') \<Rightarrow> (Inr x, S'))"

section \<open>The cast tool\<close>

record intent_args =
  ia_objective :: string
  ia_scope :: string
  ia_reversibility :: string
  ia_side_effect_tolerance :: string

definition intent_of_args :: "intent_args \<Rightarrow> intent result" where
  "intent_of_args a =
     (case (dget reversibility_members (ia_reversibility a),
            dget tolerance_members (ia_side_effect_tolerance a)) of
        (Some rv, Some tol) \<Rightarrow> mk_intent (ia_objective a) (ia_scope a) rv tol
      | _ \<Rightarrow> Inl (ValueError ''Intent''))"

record cast_args =
  ca_intent :: intent_args
  ca_parent_cast_id :: "string option"
  ca_branch_id :: "string option"
  ca_chained :: bool
  ca_force :: bool
  ca_include_transcript :: bool

definition base_provenance :: cast_provenance where
  "base_provenance =
     \<lparr>cp_source = SRC_BASE, cp_crystallized_sigil_name = None, cp_generation = None,
      cp_narrative_coherence = None, cp_causal_root_cast_id = None\<rparr>"

definition crystal_provenance :: "crystallized_sigil \<Rightarrow> cast_provenance result" where
  "crystal_provenance c =
     (if cz_generation c < 1 then Inl (ValueError ''CastProvenance'')
      else Inr \<lparr>cp_source = SRC_CRYSTALLIZED, cp_crystallized_sigil_name = Some (cz_name c),
                cp_generation = Some (cz_generation c), cp_narrative_coherence = None,
                cp_causal_root_cast_id = None\<rparr>)"

text \<open>A channel that is not stored counts as none; other exceptions pass.\<close>

definition find_channel :: "string option \<Rightarrow> (cast_state, channel_state option) op" where
  "find_channel branch S =
     (case branch of
        None \<Rightarrow> (Inr None, S)
      | Some b \<Rightarrow>
          (case read_channel_state b (ct_channels S) of
             Inr c \<Rightarrow> (Inr (Some c), S)
           | Inl (KeyError _) \<Rightarrow> (Inr None, S)
           | Inl e \<Rightarrow> (Inl e, S)))"

definition chained_base ::
  "engine \<Rightarrow> fresh \<Rightarrow> string option \<Rightarrow> bool \<Rightarrow> aspect list \<Rightarrow> intent \<Rightarrow> (cast_state, cast_result) op" where
  "chained_base E fr branch force A i =
     obind (find_channel branch) (\<lambda>chan.
     obind (lift (chained_cast E (fr_stamp fr) (fr_channel fr) A i chan force)) (\<lambda>(r, updated).
     let named = (case (branch, chan) of
                    (Some b, None) \<Rightarrow> updated\<lparr>cs_branch_id := b\<rparr> | _ \<Rightarrow> updated) in
     obind (channel_write (write_channel_state (eg_registry E) named)) (\<lambda>_.
     ret (r\<lparr>cr_provenance := Some base_provenance\<rparr>))))"

definition plain_base ::
  "engine \<Rightarrow> fresh \<Rightarrow> aspect list \<Rightarrow> intent \<Rightarrow> (cast_state, cast_result) op" where
  "plain_base E fr A i =
     obind (query_table ct_crystals (crystallized_for_aspects (eg_registry E) A)) (\<lambda>crystal.
     case crystal of
       Some c \<Rightarrow>
         obind (lift (crystal_provenance c)) (\<lambda>p.
         ret (mk_cast_result (fr_stamp fr) i (cz_sigil c) (evaluate E (cz_sigil c) i) None (Some p)))
     | None \<Rightarrow>
         obind (lift (cast_op E (fr_stamp fr) A i)) (\<lambda>r.
         ret (r\<lparr>cr_provenance := Some base_provenance\<rparr>)))"

definition tool_cast ::
  "engine \<Rightarrow> (int \<Rightarrow> string) \<Rightarrow> fresh \<Rightarrow> string list \<Rightarrow> cast_args \<Rightarrow> (cast_state, (string, json) dict) op" where
  "tool_cast E isof fr names a =
     wrapped ''cast''
       (obind (lift (rmap_list (resolve_aspect_arg (eg_registry E)) names)) (\<lambda>resolved.
        let A = remdups resolved in
        obind (lift (intent_of_args (ca_intent a))) (\<lambda>i.
        obind (if ca_chained a then chained_base E fr (ca_branch_id a) (ca_force a) A i
               else plain_base E fr A i) (\<lambda>r.
        finish_cast E isof fr (ca_parent_cast_id a) (ca_branch_id a) (ca_include_transcript a) A r))))"

section \<open>Fluid and automatic casts\<close>

definition vector_argument :: "real list \<Rightarrow> svec result" where
  "vector_argument xs =
     (if length xs < 6 then Inl (ValueError ''vector must contain at least 6 floats'')
      else if \<not> list_all (\<lambda>x. -1 \<le> x \<and> x \<le> 1) (take 6 xs)
      then Inl (ValueError ''vector components must be between -1.0 and 1.0'')
      else mk_svec xs None)"

definition tool_fluid_cast ::
  "engine \<Rightarrow> (real \<Rightarrow> real) \<Rightarrow> (int \<Rightarrow> string) \<Rightarrow> fresh \<Rightarrow> real list \<Rightarrow> cast_args
     \<Rightarrow> (cast_state, (string, json) dict) op" where
  "tool_fluid_cast E mexp isof fr xs a =
     wrapped ''fluid_cast''
       (obind (lift (vector_argument xs)) (\<lambda>vec.
        obind (lift (intent_of_args (ca_intent a))) (\<lambda>i.
        obind (lift (fluid_cast E mexp (fr_stamp fr) vec i)) (\<lambda>r.
        finish_cast E isof fr (ca_parent_cast_id a) (ca_branch_id a) (ca_include_transcript a)
          (sg_aspects (cr_sigil r)) r))))"

definition write_fluid_result :: "engine \<Rightarrow> fresh \<Rightarrow> cast_result \<Rightarrow> (cast_state, unit) op" where
  "write_fluid_result E fr r =
     (let R = eg_registry E in
      obind (case cr_lineage r of
               None \<Rightarrow> ret ()
             | Some l \<Rightarrow>
                 obind (read_parent R (ln_parent_cast_id l)) (\<lambda>par.
                 record_divergence (fr_now fr) (ln_parent_cast_id l) par r)) (\<lambda>_.
      obind (accumulate_seed R fr (sg_aspects (cr_sigil r)) r) (\<lambda>seed.
      obind (crystallize_seed E fr seed) (\<lambda>_.
      graph_write (store_cast R r)))))"

definition write_each ::
  "engine \<Rightarrow> (int \<Rightarrow> string) \<Rightarrow> (cast_result \<Rightarrow> fresh) \<Rightarrow> cast_result list \<Rightarrow> (cast_state, json list) op" where
  "write_each E isof fresh_of =
     omap_list (\<lambda>r.
       obind (write_fluid_result E (fresh_of r) r) (\<lambda>_.
       obind get_state (\<lambda>S. ret (JObj (cast_result_to_dict isof S r)))))"

definition diagnostics_json :: "auto_cast_diagnostics \<Rightarrow> json" where
  "diagnostics_json d =
     JObj [(''steps'', JList (map (\<lambda>s. JObj [(''adjusted'', JFloat (ds_adjusted s)),
              (''raw'', JFloat (ds_raw s)), (''blend_alpha'', JFloat (ds_blend_alpha s))]) (ad_steps d))),
       (''converged'', JBool (ad_converged d)), (''final_adjusted'', JFloat (ad_final_adjusted d))]"

record auto_args =
  aa_intent :: intent_args
  aa_target_resonance :: real
  aa_blend_alpha :: real
  aa_include_diagnostics :: bool
  aa_include_transcript :: bool

text \<open>
  \<open>stamps\<close> has one identity per round, so its length is \<open>max_depth\<close> (none when that is not
  positive); \<open>fresh_of\<close> gives the fresh values used while a cast of the chain is written.
\<close>

definition tool_auto_cast ::
  "engine \<Rightarrow> (real \<Rightarrow> real) \<Rightarrow> (int \<Rightarrow> string) \<Rightarrow> string \<Rightarrow> stamp list \<Rightarrow> (cast_result \<Rightarrow> fresh) \<Rightarrow> real list
     \<Rightarrow> auto_args \<Rightarrow> (cast_state, (string, json) dict) op" where
  "tool_auto_cast E mexp isof branch stamps fresh_of xs a =
     obind (lift (vector_argument xs)) (\<lambda>vec.
     obind (lift (intent_of_args (aa_intent a))) (\<lambda>i.
     obind (lift (auto_cast E mexp branch stamps vec i (aa_target_resonance a) (aa_blend_alpha a)))
       (\<lambda>(final, chain, diagnostics).
     obind (write_each E isof fresh_of chain) (\<lambda>dicts.
     obind get_state (\<lambda>S.
     ret (cast_result_to_dict isof S (last chain)
       @ [(''auto_cast_chain'', JList dicts), (''auto_cast_depth'', JInt (int (length chain)))]
       @ (if aa_include_diagnostics a then [(''diagnostics'', diagnostics_json diagnostics)] else [])
       @ transcript_if_requested isof (last chain) (aa_include_transcript a)))))))"

section \<open>Geometric packets\<close>

record geometric_packet =
  gp_payload :: "real list"
  gp_version :: int

definition mk_geometric_packet :: "real list \<Rightarrow> int \<Rightarrow> geometric_packet result" where
  "mk_geometric_packet payload version =
     (if version < 1 then Inl (ValueError ''version'')
      else if version \<noteq> 1 then Inl (ValueError ''unsupported geometric packet version'')
      else if length payload < 6 + 4 + 4 + 1
      then Inl (ValueError ''payload too short for geometric packet v1'')
      else Inr \<lparr>gp_payload = payload, gp_version = version\<rparr>)"

definition aspect_components :: "geometric_packet \<Rightarrow> real list" where
  "aspect_components p = take 6 (gp_payload p)"

definition intent_encoding :: "geometric_packet \<Rightarrow> real list" where
  "intent_encoding p = take 4 (drop 6 (gp_payload p))"

definition lineage_hash :: "geometric_packet \<Rightarrow> real list" where
  "lineage_hash p = take 4 (drop 10 (gp_payload p))"

definition proof_hash :: "geometric_packet \<Rightarrow> real" where
  "proof_hash p = last (gp_payload p)"

text \<open>The dot product of the first four aspect components and the intent encoding.\<close>

definition proof_dot :: "real list \<Rightarrow> real list \<Rightarrow> real" where
  "proof_dot a i =
     fadd (fadd (fadd (fmul (a ! 0) (i ! 0)) (fmul (a ! 1) (i ! 1))) (fmul (a ! 2) (i ! 2)))
       (fmul (a ! 3) (i ! 3))"

definition geometric_proof_ok :: "geometric_packet \<Rightarrow> bool" where
  "geometric_proof_ok p \<longleftrightarrow>
     \<bar>fsub (proof_dot (take 4 (gp_payload p)) (intent_encoding p)) (proof_hash p)\<bar> \<le> lit (1 / 10 ^ 4)"

fun reversibility_code :: "reversibility_class \<Rightarrow> real" where
  "reversibility_code REVERSIBLE = -1"
| "reversibility_code REV_PARTIAL = 0"
| "reversibility_code IRREVERSIBLE = 1"

fun tolerance_code :: "side_effect_tolerance \<Rightarrow> real" where
  "tolerance_code TOL_NONE = 0"
| "tolerance_code TOL_LOW = lit 0.33"
| "tolerance_code TOL_MEDIUM = lit 0.66"
| "tolerance_code TOL_HIGH = 1"

definition reversibility_of_code :: "real \<Rightarrow> reversibility_class" where
  "reversibility_of_code x =
     (if x \<le> - (1 / 2) then REVERSIBLE else if x \<ge> 1 / 2 then IRREVERSIBLE else REV_PARTIAL)"

definition tolerance_of_code :: "real \<Rightarrow> side_effect_tolerance" where
  "tolerance_of_code x =
     (if x \<le> lit 0.20 then TOL_NONE else if x \<le> 1 / 2 then TOL_LOW
      else if x \<le> lit 0.85 then TOL_MEDIUM else TOL_HIGH)"

definition hash4 :: "string \<Rightarrow> real list" where
  "hash4 t =
     map (\<lambda>b. fsub (fmul (fdiv (of_int (uint b)) 255) 2) 1) (take 4 (sha256 (encode_str t)))"

definition geometric_encode_packet :: "svec \<Rightarrow> intent \<Rightarrow> lineage option \<Rightarrow> int \<Rightarrow> geometric_packet result" where
  "geometric_encode_packet v i lin version =
     (let a = take 6 (comps v) @ replicate (6 - length (take 6 (comps v))) 0;
          intent4 = [reversibility_code (in_reversibility i), tolerance_code (in_side_effect_tolerance i),
            min 1 (max 0 (fdiv (of_int (int (length (in_scope i)))) 200)),
            min 1 (max 0 (fdiv (of_int (int (length (in_objective i)))) 500))];
          lineage4 = (case lin of None \<Rightarrow> [0, 0, 0, 0] | Some l \<Rightarrow> hash4 (ln_parent_cast_id l))
      in mk_geometric_packet (a @ intent4 @ lineage4 @ [proof_dot a intent4]) version)"

definition geometric_decode_packet ::
  "string \<Rightarrow> geometric_packet \<Rightarrow> (svec \<times> intent \<times> lineage option) result" where
  "geometric_decode_packet new_branch p =
     rbind (mk_svec (aspect_components p) None) (\<lambda>vec.
     rbind (mk_intent ''geometric_packet'' ''geometric_packet''
              (reversibility_of_code (intent_encoding p ! 0)) (tolerance_of_code (intent_encoding p ! 1))) (\<lambda>i.
     rbind (if list_ex (\<lambda>x. \<bar>x\<bar> > lit (1 / 10 ^ 12)) (lineage_hash p)
            then rbind (mk_lineage new_branch ''HASHED_PARENT'' 1 None None) (\<lambda>l. Inr (Some l))
            else Inr None) (\<lambda>lin.
     Inr (vec, i, lin))))"

record geometric_response =
  gr_verdict_vector :: svec
  gr_resonance :: real
  gr_channel_delta :: "svec option"
  gr_proof_hash :: real

definition geometric_encode_response :: "svec \<Rightarrow> real \<Rightarrow> svec option \<Rightarrow> geometric_response result" where
  "geometric_encode_response v resonance delta =
     (if 0 \<le> resonance \<and> resonance \<le> 1
      then Inr \<lparr>gr_verdict_vector = v, gr_resonance = resonance, gr_channel_delta = delta,
                gr_proof_hash = fmul (if comps v = [] then 0 else hd (comps v)) resonance\<rparr>
      else Inl (ValueError ''GeometricResponse''))"

section \<open>The geometric cast tool\<close>

definition channel_blend :: "svec \<Rightarrow> channel_state option \<Rightarrow> svec result" where
  "channel_blend vec channel =
     (case Option.bind channel cs_constraint_vector of
        None \<Rightarrow> Inr vec
      | Some constraint \<Rightarrow>
          (let d = max (length (comps vec)) (length (comps constraint));
               blended = map (\<lambda>j. fadd (fmul (comp_at (comps vec) j) (lit 0.80))
                                        (fmul (comp_at (comps constraint) j) (lit 0.20))) [0..<d];
               n = fsqrt (fsum (map (\<lambda>x. fmul x x) blended))
           in mk_svec (if n > 0 then map (\<lambda>x. fdiv x n) blended else blended) None))"

definition fresh_channel :: "string \<Rightarrow> int \<Rightarrow> channel_state" where
  "fresh_channel branch now =
     \<lparr>cs_branch_id = branch, cs_cast_count = 0, cs_cumulative_resonance = 0, cs_mean_resonance = 0,
      cs_coherence_streak = 0, cs_last_verdict_type = V_PARTIAL, cs_status = CH_COHERENT,
      cs_last_cast_id = [], cs_constraint_vector = None, cs_updated_at = now\<rparr>"

definition geometric_channel ::
  "string \<Rightarrow> int \<Rightarrow> channel_state option \<Rightarrow> cast_result \<Rightarrow> channel_state result" where
  "geometric_channel branch now channel r =
     (let c = (case channel of Some c \<Rightarrow> c | None \<Rightarrow> fresh_channel branch now);
          new_count = cs_cast_count c + 1;
          new_cum = fadd (cs_cumulative_resonance c) (cast_adjusted r);
          new_mean = fdiv new_cum (fl (of_int new_count))
      in mk_channel_state
           \<lparr>cs_branch_id = branch, cs_cast_count = new_count, cs_cumulative_resonance = new_cum,
            cs_mean_resonance = new_mean,
            cs_coherence_streak = (if cast_verdict r = V_COHERENT then cs_coherence_streak c + 1 else 0),
            cs_last_verdict_type = cast_verdict r,
            cs_status = (if new_mean \<ge> lit 0.65 then CH_COHERENT
                         else if new_mean \<ge> lit 0.40 then CH_STRAINED else CH_DECOHERENT),
            cs_last_cast_id = cr_cast_id r,
            cs_constraint_vector = Some (sg_semantic_vector (cr_sigil r)), cs_updated_at = now\<rparr>)"

definition update_geometric_channel ::
  "registry \<Rightarrow> int \<Rightarrow> string option \<Rightarrow> channel_state option \<Rightarrow> cast_result \<Rightarrow> (cast_state, svec option) op" where
  "update_geometric_channel R now branch channel r =
     (case branch of
        None \<Rightarrow> ret None
      | Some b \<Rightarrow>
          obind (lift (geometric_channel b now channel r)) (\<lambda>updated.
          obind (channel_write (write_channel_state R updated)) (\<lambda>_.
          ret (cs_constraint_vector updated))))"

text \<open>Here the cast is written before its channel; no lineage, report or seed is recorded.\<close>

definition tool_geometric_cast ::
  "engine \<Rightarrow> (real \<Rightarrow> real) \<Rightarrow> fresh \<Rightarrow> real list \<Rightarrow> int \<Rightarrow> string option \<Rightarrow> bool
     \<Rightarrow> (cast_state, (string, json) dict) op" where
  "tool_geometric_cast E mexp fr payload version branch force =
     obind (lift (mk_geometric_packet payload version)) (\<lambda>packet.
     if \<not> geometric_proof_ok packet then raise_exc (ValueError ''invalid geometric packet proof'')
     else
     obind (lift (geometric_decode_packet (fr_branch fr) packet)) (\<lambda>(vec, i, _).
     obind (find_channel branch) (\<lambda>channel.
     if (case channel of Some c \<Rightarrow> cs_status c = CH_DECOHERENT | None \<Rightarrow> False) \<and> \<not> force
     then raise_exc (ValueError ''channel is DECOHERENT; sync required'')
     else
     obind (lift (channel_blend vec channel)) (\<lambda>blended.
     obind (lift (fluid_cast E mexp (fr_stamp fr) blended i)) (\<lambda>r.
     obind (graph_write (store_cast (eg_registry E) r)) (\<lambda>_.
     obind (update_geometric_channel (eg_registry E) (fr_now fr) branch channel r) (\<lambda>delta.
     obind (lift (geometric_encode_response (sg_semantic_vector (cr_sigil r)) (cast_adjusted r) delta)) (\<lambda>resp.
     ret [(''verdict_vector'', rounded_vector (gr_verdict_vector resp)),
          (''resonance'', rounded 6 (gr_resonance resp)),
          (''channel_delta'', opt_json rounded_vector (gr_channel_delta resp)),
          (''proof_hash'', JFloat (gr_proof_hash resp)),
          (''cast_id'', JStr (cr_cast_id r))]))))))))"

section \<open>Every cast an operation builds can be stored\<close>

text \<open>The two halves of \<open>cast_valid\<close>: the sigil and the verdict.\<close>

definition sigil_valid :: "registry \<Rightarrow> sigil \<Rightarrow> bool" where
  "sigil_valid R s \<longleftrightarrow> set (sg_aspects s) \<subseteq> set (full_aspect_order R) \<and> distinct (sg_aspects s)
     \<and> 6 \<le> length (comps (sg_semantic_vector s))"

definition iv_valid :: "intent_vector \<Rightarrow> bool" where
  "iv_valid iv \<longleftrightarrow> 6 \<le> length (comps (iv_vector iv)) \<and> 6 \<le> length (comps (iv_constraint_component iv))
     \<and> (\<forall>c. iv_semantic_component iv = Some c \<longrightarrow> 6 \<le> length (comps c))
     \<and> mk_intent_vector (iv_vector iv) (iv_projection_method iv) (iv_constraint_component iv)
          (iv_semantic_component iv) (iv_confidence iv) = Inr iv"

definition verdict_valid :: "verdict \<Rightarrow> bool" where
  "verdict_valid v \<longleftrightarrow> iv_valid (vd_intent_vector v)
     \<and> (let q = vd_resonance v in
        mk_resonance_score (rsc_raw q) (rsc_adjusted q) (rsc_ceiling_applied q) (rsc_proof q) = Inr q)
     \<and> mk_verdict (vd_verdict_type v) (vd_resonance v) (vd_effect_description v)
          (vd_incoherence_reason v) (vd_casting_note v) (vd_intent_vector v) = Inr v"

lemma cast_valid_halves:
  "cast_valid R r \<longleftrightarrow> sigil_valid R (cr_sigil r) \<and> verdict_valid (cr_verdict r)"
  by (auto simp: cast_valid_def sigil_valid_def verdict_valid_def iv_valid_def Let_def)

lemma cast_valid_update [simp]:
  "cast_valid R (r\<lparr>cr_lineage := l\<rparr>) = cast_valid R r"
  "cast_valid R (r\<lparr>cr_provenance := p\<rparr>) = cast_valid R r"
  "cast_valid R (r\<lparr>cr_lineage := l, cr_provenance := p\<rparr>) = cast_valid R r"
  by (simp_all add: cast_valid_halves)

lemma cast_valid_mk [simp]:
  "cast_valid R (mk_cast_result st i s v l p) \<longleftrightarrow> sigil_valid R s \<and> verdict_valid v"
  by (simp add: cast_valid_halves mk_cast_result_def)

lemma length_from_aspects [simp]: "length (comps (from_aspects R A)) = dimensionality R"
  by (simp add: from_aspects_def dimensionality_def)

lemma compose_sigil_valid:
  "compose R C A = Inr s \<Longrightarrow> set A \<subseteq> set (full_aspect_order R) \<Longrightarrow> distinct A \<Longrightarrow> sigil_valid R s"
  using dimensionality_ge_6 [of R] by (auto simp: sigil_valid_def dest: compose_Inr)

subsection \<open>Interpolated sigils\<close>

lemma canonical_in_order [simp]: "Canonical a \<in> set (full_aspect_order R)"
  by (auto simp: full_aspect_order_def)

definition canonical_set :: "aspect list \<Rightarrow> bool" where
  "canonical_set A \<longleftrightarrow> distinct A \<and> (\<exists>ids. A = map Canonical ids)"

lemma canonical_aspect_in: "aspect_in (Canonical a) (map Canonical ids) \<longleftrightarrow> a \<in> set ids"
  by (auto simp: aspect_in_def list_ex_iff)

lemma canonical_set_add:
  assumes "canonical_set A" "canonical_set B"
  shows "canonical_set (add_aspects A B)"
proof -
  from assms obtain as bs where A: "A = map Canonical as" "distinct as" and B: "B = map Canonical bs" "distinct bs"
    by (auto simp: canonical_set_def distinct_map)
  have "add_aspects A B = map Canonical (as @ filter (\<lambda>b. b \<notin> set as) bs)"
    by (simp add: A B add_aspects_def filter_map comp_def canonical_aspect_in)
  moreover have "distinct (map Canonical (as @ filter (\<lambda>b. b \<notin> set as) bs))"
    using A(2) B(2) by (auto simp: distinct_map inj_on_def)
  ultimately show ?thesis unfolding canonical_set_def by metis
qed

lemma anchor_aspects_canonical: "anchor_aspects raw = Some A \<Longrightarrow> canonical_set A"
  by (auto simp: anchor_aspects_def canonical_set_def distinct_map inj_on_def
      split: option.splits json.splits sum.splits if_splits)

lemma score_anchors_canonical:
  "score_anchors R vec rows = Inr scored \<Longrightarrow> (s, key, raw, A) \<in> set scored \<Longrightarrow> canonical_set A"
  by (induction R vec rows arbitrary: scored rule: score_anchors.induct)
    (auto simp: rbind_Inr_iff anchor_aspects_canonical split: option.splits)

lemma blend_canonical:
  "blend_neighbours C ws b = Inr b' \<Longrightarrow> canonical_set (bl_union b)
   \<Longrightarrow> \<forall>(w, s, key, raw, A) \<in> set ws. canonical_set A \<Longrightarrow> canonical_set (bl_union b')"
  by (induction C ws b rule: blend_neighbours.induct)
    (auto simp: rbind_Inr_iff Let_def canonical_set_add)

lemma interpolate_sigil_valid:
  assumes "interpolate R C mexp v k = Inr s" "6 \<le> length (comps v)"
  shows "sigil_valid R s"
proof -
  define N where "N scored = nearest_anchors (nat k) scored" for scored
  obtain scored b raw A sim key i where sc: "score_anchors R (comp_normalize_unit v) (cm_table C) = Inr scored"
    and ne: "scored \<noteq> []" and k: "1 \<le> k"
    and at: "N scored ! max_by ((!) (softmax mexp (map fst (N scored)))) 0 [1..<length (N scored)] = (sim, key, raw, A)"
    and bl: "blend_neighbours C (zip (softmax mexp (map fst (N scored))) (N scored))
       \<lparr>bl_weights = [], bl_union = [], bl_ceiling = 0, bl_severity = SEV_NONE\<rparr> = Inr b"
    and s: "sg_aspects s = (if length (bl_union b) > 3 then A else bl_union b)"
      "sg_semantic_vector s = comp_normalize_unit v"
    using assms(1) unfolding N_def
    by (auto simp: interpolate_def Let_def rbind_Inr_iff mk_fluid_sigil_def split: if_splits prod.splits)
  have sub: "set (N scored) \<subseteq> set scored"
    by (auto simp: N_def nearest_anchors_def dest: in_set_takeD)
  have "length (N scored) > 0" using ne k by (simp add: N_def nearest_anchors_def)
  then have "N scored \<noteq> []" by simp
  then have "max_by ((!) (softmax mexp (map fst (N scored)))) 0 [1..<length (N scored)] < length (N scored)"
    using max_by_in [of "(!) (softmax mexp (map fst (N scored)))" 0 "[1..<length (N scored)]"] by auto
  from nth_mem [OF this] have "(sim, key, raw, A) \<in> set (N scored)" by (simp only: at)
  with sub have "(sim, key, raw, A) \<in> set scored" by (rule subsetD)
  then have "canonical_set A" by (rule score_anchors_canonical [OF sc])
  moreover have "canonical_set (bl_union b)"
  proof (rule blend_canonical [OF bl])
    show "canonical_set (bl_union \<lparr>bl_weights = [], bl_union = [], bl_ceiling = 0, bl_severity = SEV_NONE\<rparr>)"
      by (simp add: canonical_set_def)
    show "\<forall>(w, s, key, raw, A) \<in> set (zip (softmax mexp (map fst (N scored))) (N scored)). canonical_set A"
      using sub by (auto dest!: set_zip_rightD intro: score_anchors_canonical [OF sc])
  qed
  ultimately have "canonical_set (sg_aspects s)" using s(1) by simp
  then show ?thesis
    using assms(2) s(2)
    by (auto simp: sigil_valid_def canonical_set_def comp_normalize_unit_def unit_components_def Let_def)
qed

subsection \<open>Verdicts\<close>

lemma length_normalize_unit [simp]: "length (comps (normalize_unit R xs)) = length xs"
  by (simp add: normalize_unit_def scale_unit_def Let_def)

lemma backend_floats_length: "backend_floats raw = Some xs \<Longrightarrow> length xs = length raw"
  by (induction raw arbitrary: xs rule: backend_floats.induct) (auto split: json.splits if_splits)

lemma semantic_length: "build_semantic_vector E i = Some v \<Longrightarrow> 6 \<le> length (comps v)"
  by (auto simp: build_semantic_vector_def Let_def dest: backend_floats_length
      split: option.splits sum.splits json.splits if_splits)

lemma mk_intent_vector_again:
  "mk_intent_vector v m c s conf = Inr iv \<Longrightarrow>
   mk_intent_vector (iv_vector iv) (iv_projection_method iv) (iv_constraint_component iv)
     (iv_semantic_component iv) (iv_confidence iv) = Inr iv
   \<and> iv_vector iv = v \<and> iv_constraint_component iv = c \<and> iv_semantic_component iv = s"
  by (auto simp: mk_intent_vector_def split: if_splits)

lemma build_intent_vector_valid:
  assumes "build_intent_vector E i = Inr iv"
  shows "iv_valid iv"
proof -
  let ?c = "build_constraint_vector (eg_registry E) i" and ?s = "build_semantic_vector E i"
  have c: "6 \<le> length (comps ?c)"
    using dimensionality_ge_6 [of "eg_registry E"] by (simp add: build_constraint_vector_def Let_def)
  obtain v m conf where cv: "combine_vectors ?c ?s = (v, m, conf)" by (cases "combine_vectors ?c ?s") auto
  have v: "6 \<le> length (comps v)"
    using c cv by (auto simp: combine_vectors_def Let_def split: option.splits if_splits)
  have "mk_intent_vector v m ?c ?s conf = Inr iv" using assms cv by (simp add: build_intent_vector_def)
  from mk_intent_vector_again [OF this] c v show ?thesis by (auto simp: iv_valid_def semantic_length)
qed

lemma mk_resonance_again:
  "mk_resonance_score a b c d = Inr q \<Longrightarrow>
   mk_resonance_score (rsc_raw q) (rsc_adjusted q) (rsc_ceiling_applied q) (rsc_proof q) = Inr q"
  by (auto simp: mk_resonance_score_def split: if_splits)

lemma evaluate_with_valid:
  assumes "evaluate_with_intent_vector E s i iv = Inr v" "iv_valid iv"
  shows "verdict_valid v"
proof -
  obtain q c vt ed ir cn where q: "compute_resonance s iv = Inr (q, c)"
    and v: "mk_verdict vt q ed ir cn iv = Inr v"
    using assms(1) by (auto simp: evaluate_with_intent_vector_def rbind_Inr_iff Let_def)
  obtain used shown where "rbind (mk_resonance_score (raw_of s iv) (adjusted_of s iv) used shown)
      (\<lambda>score. Inr (score, cosine_core (sg_semantic_vector s) (iv_vector iv))) = Inr (q, c)"
    using compute_resonance_eq [of s iv] q by auto
  then have "mk_resonance_score (raw_of s iv) (adjusted_of s iv) used shown = Inr q"
    by (auto simp: rbind_Inr_iff)
  from mk_resonance_again [OF this] v assms(2) show ?thesis
    by (auto simp: verdict_valid_def Let_def mk_verdict_def split: if_splits)
qed

lemma lit_mid: "0 \<le> lit 0.60 \<and> lit 0.60 \<le> lit 0.65 \<and> lit 0.60 \<le> 1"
  using lit_unit [of "0.60"] lit_mono [of "0.60" "0.65"] by auto

lemma fallback_valid: "verdict_valid (fallback_verdict R)"
  using dimensionality_ge_6 [of R] lit_mid
  by (simp add: fallback_verdict_def Let_def verdict_valid_def iv_valid_def mk_intent_vector_def
      mk_resonance_score_def mk_verdict_def)

lemma evaluate_valid [simp, intro!]: "verdict_valid (evaluate E s i)"
proof (cases "rbind (build_intent_vector E i) (evaluate_with_intent_vector E s i)")
  case (Inl e)
  then show ?thesis by (simp add: evaluate_def fallback_valid)
next
  case (Inr v)
  then show ?thesis
    by (auto simp: evaluate_def rbind_Inr_iff intro: evaluate_with_valid build_intent_vector_valid)
qed

subsection \<open>The casting operations\<close>

lemma cast_op_valid:
  "cast_op E st A i = Inr r \<Longrightarrow> set A \<subseteq> set (full_aspect_order (eg_registry E)) \<Longrightarrow> distinct A
   \<Longrightarrow> cast_valid (eg_registry E) r"
  by (auto simp: cast_op_def rbind_Inr_iff intro: compose_sigil_valid)

lemma fluid_cast_valid:
  "fluid_cast E mexp st v i = Inr r \<Longrightarrow> 6 \<le> length (comps v) \<Longrightarrow> cast_valid (eg_registry E) r"
  by (auto simp: fluid_cast_def rbind_Inr_iff intro: interpolate_sigil_valid)

lemma chained_cast_valid:
  assumes "chained_cast E st nb A i chan force = Inr (r, c)"
    and A: "set A \<subseteq> set (full_aspect_order (eg_registry E))" "distinct A"
  shows "cast_valid (eg_registry E) r"
proof -
  from assms(1) obtain s iv0 v where s: "compose (eg_registry E) (eg_composition E) A = Inr s"
    and iv0: "build_intent_vector E i = Inr iv0"
    and v: "evaluate_with_intent_vector E s i
       (case chan of None \<Rightarrow> iv0 | Some c \<Rightarrow> (case cs_constraint_vector c of None \<Rightarrow> iv0
          | Some k \<Rightarrow> blend_constraint (eg_registry E) iv0 k)) = Inr v"
    and r: "r = mk_cast_result st i s v None None"
    by (auto simp: chained_cast_def rbind_Inr_iff Let_def split: if_splits)
  have "iv_valid (blend_constraint R iv0 k)" for R k
    using build_intent_vector_valid [OF iv0]
    by (auto simp: iv_valid_def blend_constraint_def Let_def mk_intent_vector_def split: if_splits)
  with build_intent_vector_valid [OF iv0] have "verdict_valid v"
    using evaluate_with_valid [OF v] by (auto split: option.splits)
  with compose_sigil_valid [OF s A] show ?thesis by (simp add: r)
qed

lemma link_cast_valid: "link_cast b chain base = Inr r \<Longrightarrow> cast_valid R base \<Longrightarrow> cast_valid R r"
  by (auto simp: link_cast_def Let_def rbind_Inr_iff split: if_splits)

lemma length_blend_toward: "6 \<le> length (comps v) \<Longrightarrow> 6 \<le> length (comps (blend_toward R v t a))"
  by (simp add: blend_toward_def Let_def)

lemma auto_cast_loop_valid:
  "auto_cast_loop E mexp i target alpha b sts v chain steps = Inr (chain', x) \<Longrightarrow> 6 \<le> length (comps v)
   \<Longrightarrow> \<forall>r \<in> set chain. cast_valid (eg_registry E) r \<Longrightarrow> \<forall>r \<in> set chain'. cast_valid (eg_registry E) r"
proof (induction E mexp i target alpha b sts v chain steps arbitrary: chain' x rule: auto_cast_loop.induct)
  case (2 E mexp i target alpha b st sts v chain steps)
  from "2.prems"(1) obtain base r where base: "fluid_cast E mexp st v i = Inr base"
    and r: "link_cast b chain base = Inr r"
    by (auto simp: rbind_Inr_iff)
  have valid: "cast_valid (eg_registry E) r"
    by (rule link_cast_valid [OF r fluid_cast_valid [OF base "2.prems"(2)]])
  show ?case
  proof (cases "cast_verdict r = V_COHERENT \<and> target \<le> cast_adjusted r")
    case True
    with "2.prems" base r valid show ?thesis by (auto simp: Let_def)
  next
    case False
    with "2.prems"(1) base r obtain f where f: "interpolate (eg_registry E) (eg_composition E) mexp v 3 = Inr f"
      and l: "auto_cast_loop E mexp i target alpha b sts
        (blend_toward (eg_registry E) v (sg_semantic_vector f) alpha) (chain @ [r]) (steps @ [step_of alpha r])
        = Inr (chain', x)"
      by (auto simp: rbind_Inr_iff Let_def)
    show ?thesis
      using "2.IH" [OF refl refl False l length_blend_toward [OF "2.prems"(2)]] "2.prems"(3) valid False
      by auto
  qed
qed simp

lemma auto_cast_valid:
  assumes "auto_cast E mexp b sts v i t a = Inr (r, chain, d)" "6 \<le> length (comps v)"
  shows "\<forall>r \<in> set chain. cast_valid (eg_registry E) r"
proof -
  obtain steps ok where "auto_cast_loop E mexp i t a b sts v [] [] = Inr (chain, steps, ok)"
    using assms(1) by (auto simp: auto_cast_def rbind_Inr_iff split: if_splits)
  from auto_cast_loop_valid [OF this assms(2)] show ?thesis by simp
qed

lemma crystal_sigil_valid:
  assumes "crystal_sigil_of_row R row = Inr s" "registry_ok R"
  shows "sigil_valid R s"
proof -
  obtain doc A xs v b where A: "resolve_pattern R doc = Inr A" and v: "mk_svec xs (Some b) = Inr v"
    and s: "sg_aspects s = A" "sg_semantic_vector s = v"
    using assms(1) by (auto simp: crystal_sigil_of_row_def Let_def rbind_Inr_iff)
  have "rmap_list (resolve R) names = Inr B \<Longrightarrow> set B \<subseteq> set (full_aspect_order R)" for names B
    using assms(2)
    by (induction names arbitrary: B) (auto simp: rbind_Inr_iff resolve_def registry_ok_def)
  with A have "set A \<subseteq> set (full_aspect_order R)" "distinct A"
    by (auto simp: resolve_pattern_def rbind_Inr_iff subset_iff)
  moreover have "6 \<le> length (comps v)" using v by (auto simp: mk_svec_def split: if_splits)
  ultimately show ?thesis using s by (simp add: sigil_valid_def)
qed

lemma crystallized_for_aspects_valid:
  "crystallized_for_aspects R A T = Inr (Some c) \<Longrightarrow> registry_ok R \<Longrightarrow> sigil_valid R (cz_sigil c)"
  by (auto simp: crystallized_for_aspects_def deserialize_crystallized_sigil_def rbind_Inr_iff
      intro: crystal_sigil_valid split: list.splits)

section \<open>What the tools keep of the store\<close>

text \<open>An operation that only returns values with a property; the rule that passes it on.\<close>

definition returns :: "('a \<Rightarrow> bool) \<Rightarrow> ('s, 'a) op \<Rightarrow> bool" where
  "returns Q m \<longleftrightarrow> (\<forall>S x S'. m S = (Inr x, S') \<longrightarrow> Q x)"

lemma returns_lift: "(\<And>x. r = Inr x \<Longrightarrow> Q x) \<Longrightarrow> returns Q (lift r)"
  by (simp add: returns_def)

lemma returns_ret [simp]: "returns Q (ret x) = Q x"
  by (auto simp: returns_def)

lemma returns_obind: "(\<And>x. returns Q (f x)) \<Longrightarrow> returns Q (obind m f)"
  by (auto simp: returns_def obind_Inr_iff)

lemma returns_obind_lift: "(\<And>x. r = Inr x \<Longrightarrow> returns Q (f x)) \<Longrightarrow> returns Q (obind (lift r) f)"
  by (auto simp: returns_def obind_Inr_iff)

lemma returns_obind_query: "(\<And>x T. q T = Inr x \<Longrightarrow> returns Q (f x)) \<Longrightarrow> returns Q (obind (query_table table q) f)"
  unfolding returns_def obind_Inr_iff query_table_def by blast

lemma preserves_obind_lift: "(\<And>x. r = Inr x \<Longrightarrow> preserves I (f x)) \<Longrightarrow> preserves I (obind (lift r) f)"
  by (cases r) (simp_all add: preserves_def obind_def lift_def)

lemma preserves_obind_returns:
  "preserves I m \<Longrightarrow> returns Q m \<Longrightarrow> (\<And>x. Q x \<Longrightarrow> preserves I (f x)) \<Longrightarrow> preserves I (obind m f)"
  by (fastforce simp: preserves_def returns_def obind_def split: prod.splits sum.splits)

lemma preserves_query [intro!, simp]: "preserves I (query_table table q)"
  by (simp add: preserves_def query_table_def)

lemma preserves_write:
  "(\<And>S T. I S \<Longrightarrow> w (table S) = Inr T \<Longrightarrow> I (update T S)) \<Longrightarrow> preserves I (write_table table update w)"
  by (auto simp: preserves_def write_table_def split: sum.splits)

lemma preserves_find_channel [intro!, simp]: "preserves I (find_channel b)"
  by (auto simp: preserves_def find_channel_def split: option.splits sum.splits py_exc.splits)

lemma preserves_wrapped [intro]: "preserves I m \<Longrightarrow> preserves I (wrapped t m)"
  by (auto simp: preserves_def wrapped_def split: prod.splits sum.splits)

definition casts_typed :: "registry \<Rightarrow> cast_state \<Rightarrow> bool" where
  "casts_typed R S \<longleftrightarrow> casts_ok R (gd_casts (ct_graph S))"

lemma casts_typed_tables [simp]:
  "casts_typed R (S\<lparr>ct_seeds := a\<rparr>) = casts_typed R S"
  "casts_typed R (S\<lparr>ct_crystals := b\<rparr>) = casts_typed R S"
  "casts_typed R (S\<lparr>ct_channels := c\<rparr>) = casts_typed R S"
  "casts_typed R (S\<lparr>ct_reports := d\<rparr>) = casts_typed R S"
  "casts_typed R (S\<lparr>ct_cache := e\<rparr>) = casts_typed R S"
  by (simp_all add: casts_typed_def)

lemma typed_store:
  "cast_valid R r \<Longrightarrow> preserves (casts_typed R) (graph_write (store_cast R r))"
  by (rule preserves_write)
    (auto simp: casts_typed_def store_cast_def rbind_Inr_iff intro: write_cast_casts_ok)

lemma typed_other_writes [intro!, simp]:
  "preserves (casts_typed R) (seed_write w1)" "preserves (casts_typed R) (crystal_write w2)"
  "preserves (casts_typed R) (channel_write w3)" "preserves (casts_typed R) (report_write w4)"
  by (auto intro!: preserves_write)

lemma typed_steps [intro!, simp]:
  "preserves (casts_typed R) (record_divergence now pid par r)"
  "preserves (casts_typed R) (attach_parent R' fr pid' b r)"
  "preserves (casts_typed R) (accumulate_seed R' fr pat r)"
  "preserves (casts_typed R) (crystallize_seed E fr seed)"
  "preserves (casts_typed R) (update_geometric_channel R' now b c r)"
  unfolding record_divergence_def attach_parent_def accumulate_seed_def crystallize_seed_def
    update_geometric_channel_def read_parent_def Let_def
  by (auto intro!: preserves_obind preserves_modify split: option.splits)

lemma attach_parent_returns:
  "cast_valid R r \<Longrightarrow> returns (cast_valid R) (attach_parent R fr pid b r)"
  by (auto simp: returns_def attach_parent_def obind_Inr_iff split: option.splits)

lemma typed_finish_cast:
  assumes "cast_valid (eg_registry E) r"
  shows "preserves (casts_typed (eg_registry E)) (finish_cast E isof fr pid b t pat r)"
  unfolding finish_cast_def Let_def
  by (rule preserves_obind_returns [OF _ attach_parent_returns [OF assms]])
    (auto intro!: preserves_obind typed_store)

lemma typed_write_each:
  "\<forall>r \<in> set rs. cast_valid (eg_registry E) r \<Longrightarrow>
   preserves (casts_typed (eg_registry E)) (write_each E isof fresh_of rs)"
  unfolding write_each_def write_fluid_result_def read_parent_def Let_def
  by (induction rs) (auto intro!: preserves_obind typed_store split: option.splits)

lemma resolved_names:
  "rmap_list (resolve_aspect_arg R) names = Inr A \<Longrightarrow> registry_ok R \<Longrightarrow> set A \<subseteq> set (full_aspect_order R)"
  by (induction names arbitrary: A)
    (auto simp: rbind_Inr_iff resolve_aspect_arg_def resolve_def registry_ok_def
      split: option.splits sum.splits py_exc.splits)

lemma bases_return_valid:
  assumes "set A \<subseteq> set (full_aspect_order (eg_registry E))" "distinct A" "registry_ok (eg_registry E)"
  shows "returns (cast_valid (eg_registry E)) (chained_base E fr b force A i)"
    and "returns (cast_valid (eg_registry E)) (plain_base E fr A i)"
proof -
  show "returns (cast_valid (eg_registry E)) (chained_base E fr b force A i)"
    unfolding chained_base_def Let_def
    by (intro returns_obind returns_obind_lift) (auto simp: chained_cast_valid assms intro!: returns_obind)
  show "returns (cast_valid (eg_registry E)) (plain_base E fr A i)"
    unfolding plain_base_def
    by (intro returns_obind_query)
      (auto split: option.split intro!: returns_obind_lift
        simp: crystallized_for_aspects_valid cast_op_valid assms)
qed

lemma typed_bases [intro!, simp]:
  "preserves (casts_typed R) (chained_base E fr b force A i)"
  "preserves (casts_typed R) (plain_base E fr A i)"
  unfolding chained_base_def plain_base_def Let_def
  by (auto intro!: preserves_obind split: option.splits prod.splits)

lemma typed_tool_cast: "preserves (casts_typed (eg_registry E)) (tool_cast E isof fr names a)"
proof (cases "registry_ok (eg_registry E)")
  case True
  show ?thesis
    unfolding tool_cast_def Let_def
  proof (intro preserves_wrapped preserves_obind_lift)
    fix A i assume A: "rmap_list (resolve_aspect_arg (eg_registry E)) names = Inr A"
    note valid = bases_return_valid [OF _ _ True, of "remdups A"]
    show "preserves (casts_typed (eg_registry E))
      (obind (if ca_chained a then chained_base E fr (ca_branch_id a) (ca_force a) (remdups A) i
              else plain_base E fr (remdups A) i)
        (finish_cast E isof fr (ca_parent_cast_id a) (ca_branch_id a) (ca_include_transcript a) (remdups A)))"
      by (rule preserves_obind_returns [where Q = "cast_valid (eg_registry E)"])
        (use resolved_names [OF A True] valid in \<open>auto intro: typed_finish_cast\<close>)
  qed
qed (simp add: preserves_def casts_typed_def casts_ok_def)

lemma vector_argument_length: "vector_argument xs = Inr v \<Longrightarrow> 6 \<le> length (comps v)"
  by (auto simp: vector_argument_def mk_svec_def split: if_splits)

lemma typed_tool_fluid_cast:
  "preserves (casts_typed (eg_registry E)) (tool_fluid_cast E mexp isof fr xs a)"
  unfolding tool_fluid_cast_def
  by (intro preserves_wrapped preserves_obind_lift typed_finish_cast)
    (auto intro: fluid_cast_valid vector_argument_length)

lemma typed_tool_auto_cast:
  "preserves (casts_typed (eg_registry E)) (tool_auto_cast E mexp isof b sts fresh_of xs a)"
  unfolding tool_auto_cast_def
proof (intro preserves_obind_lift)
  fix v i x assume v: "vector_argument xs = Inr v"
    and x: "auto_cast E mexp b sts v i (aa_target_resonance a) (aa_blend_alpha a) = Inr x"
  obtain r chain d where [simp]: "x = (r, chain, d)" by (cases x)
  have "\<forall>r \<in> set chain. cast_valid (eg_registry E) r"
    using auto_cast_valid [OF x [simplified]] vector_argument_length [OF v] by simp
  from typed_write_each [OF this] show "preserves (casts_typed (eg_registry E))
     (case x of (final, chain, diagnostics) \<Rightarrow>
        obind (write_each E isof fresh_of chain) (\<lambda>dicts.
        obind get_state (\<lambda>S.
        ret (cast_result_to_dict isof S (last chain)
          @ [(''auto_cast_chain'', JList dicts), (''auto_cast_depth'', JInt (int (length chain)))]
          @ (if aa_include_diagnostics a then [(''diagnostics'', diagnostics_json diagnostics)] else [])
          @ transcript_if_requested isof (last chain) (aa_include_transcript a)))))"
    by (auto intro!: preserves_obind)
qed

lemma channel_blend_length: "channel_blend v c = Inr w \<Longrightarrow> 6 \<le> length (comps v) \<Longrightarrow> 6 \<le> length (comps w)"
  by (auto simp: channel_blend_def Let_def mk_svec_def split: option.splits if_splits)

lemma decode_length: "geometric_decode_packet b p = Inr (v, x) \<Longrightarrow> 6 \<le> length (comps v)"
  by (auto simp: geometric_decode_packet_def rbind_Inr_iff mk_svec_def split: if_splits)

lemma typed_tool_geometric_cast:
  "preserves (casts_typed (eg_registry E)) (tool_geometric_cast E mexp fr payload version branch force)"
  unfolding tool_geometric_cast_def
  by (rule preserves_obind_lift)
    (auto intro!: preserves_obind_lift preserves_obind typed_store split: option.splits prod.splits
      intro: fluid_cast_valid [OF _ channel_blend_length [OF _ decode_length]])

text \<open>
  The calls of the four tools as steps of the grimoire, whether they return or raise.
\<close>

inductive tool_step :: "engine \<Rightarrow> cast_state \<Rightarrow> cast_state \<Rightarrow> bool" for E :: engine where
  cast_step: "tool_cast E isof fr names a S = (res, S') \<Longrightarrow> tool_step E S S'"
| fluid_step: "tool_fluid_cast E mexp isof fr xs a S = (res, S') \<Longrightarrow> tool_step E S S'"
| auto_step: "tool_auto_cast E mexp isof b sts fresh_of xs aa S = (res, S') \<Longrightarrow> tool_step E S S'"
| geometric_step: "tool_geometric_cast E mexp fr payload version b force S = (res, S') \<Longrightarrow> tool_step E S S'"

lemma tool_step_typed:
  "tool_step E S S' \<Longrightarrow> casts_typed (eg_registry E) S \<Longrightarrow> casts_typed (eg_registry E) S'"
  by (induction rule: tool_step.induct)
    (blast intro: preservesD [OF typed_tool_cast] preservesD [OF typed_tool_fluid_cast]
      preservesD [OF typed_tool_auto_cast] preservesD [OF typed_tool_geometric_cast])+

lemma tool_steps_typed:
  "(tool_step E)\<^sup>*\<^sup>* S S' \<Longrightarrow> casts_typed (eg_registry E) S \<Longrightarrow> casts_typed (eg_registry E) S'"
  by (induction rule: rtranclp_induct) (auto intro: tool_step_typed)

lemma casts_typed_read:
  assumes "casts_typed R S" "dhas (gd_casts (ct_graph S)) k"
  shows "\<exists>r. read_cast R k (gd_casts (ct_graph S)) = Inr r \<and> cr_cast_id r = k \<and> sigil_valid R (cr_sigil r)
     \<and> 0 \<le> cast_adjusted r \<and> cast_adjusted r \<le> 1"
proof -
  from assms(2) obtain row where row: "dget (gd_casts (ct_graph S)) k = Some row" by auto
  then have "(k, row) \<in> set (gd_casts (ct_graph S))" by (rule map_of_SomeD)
  with assms(1) obtain r where R: "registry_ok R" and r: "cast_valid R r" "row = serialize_cast_result R r"
    "k = cr_cast_id r"
    unfolding casts_typed_def casts_ok_def by (fastforce simp: serialize_cast_result_def)
  have "sigil_valid R (cr_sigil (restored (dimensionality R) r))"
    using r(1) by (simp add: cast_valid_halves sigil_valid_def restored_def with_basis_def)
  moreover have "0 \<le> cast_adjusted r \<and> cast_adjusted r \<le> 1"
    using r(1) by (auto simp: cast_valid_def Let_def mk_resonance_score_def split: if_splits)
  ultimately show ?thesis
    using deserialize_serialize [OF R r(1)] row r
    by (intro exI [of _ "restored (dimensionality R) r"]) (simp add: read_cast_def restored_def)
qed

text \<open>
  C22. The casting tools are type-safe for the store: after any sequence of calls of the cast, fluid
  cast, auto cast and geometric cast tools, returning or raising, on an empty or well-typed grimoire,
  every stored cast can be read back under its id, with aspects of the registry that are distinct, a
  vector of at least six components and a resonance in [0, 1].
\<close>

theorem tools_store_readable_casts:
  assumes "(tool_step E)\<^sup>*\<^sup>* S S'" "casts_ok (eg_registry E) (gd_casts (ct_graph S))"
    and "dhas (gd_casts (ct_graph S')) k"
  shows "\<exists>r. read_cast (eg_registry E) k (gd_casts (ct_graph S')) = Inr r \<and> cr_cast_id r = k
    \<and> set (sg_aspects (cr_sigil r)) \<subseteq> set (full_aspect_order (eg_registry E))
    \<and> distinct (sg_aspects (cr_sigil r)) \<and> 6 \<le> length (comps (sg_semantic_vector (cr_sigil r)))
    \<and> 0 \<le> cast_adjusted r \<and> cast_adjusted r \<le> 1"
  using casts_typed_read [OF tool_steps_typed [OF assms(1)] assms(3)] assms(2)
  by (auto simp: casts_typed_def sigil_valid_def)

section \<open>What one call of the cast tool does\<close>

text \<open>The steps before the last write leave the casts alone, and the seed steps the reports.\<close>

definition keeps :: "('s \<Rightarrow> 'p) \<Rightarrow> ('s, 'a) op \<Rightarrow> bool" where
  "keeps part m \<longleftrightarrow> (\<forall>v. preserves (\<lambda>S. part S = v) m)"

lemma keepsD: "keeps part m \<Longrightarrow> m S = (r, S') \<Longrightarrow> part S' = part S"
  by (auto simp: keeps_def dest: preservesD)

lemma keeps_graph [simp]:
  "keeps ct_graph (attach_parent R fr pid b r)" "keeps ct_graph (accumulate_seed R fr pat r)"
  "keeps ct_graph (crystallize_seed E fr seed)" "keeps ct_graph (chained_base E fr b force A i)"
  "keeps ct_graph (plain_base E fr A i)"
  unfolding keeps_def record_divergence_def attach_parent_def accumulate_seed_def
    crystallize_seed_def read_parent_def chained_base_def plain_base_def Let_def
  by (auto intro!: preserves_obind preserves_modify preserves_write split: option.splits prod.splits)

lemma keeps_reports [simp]:
  "keeps ct_reports (accumulate_seed R fr pat r)" "keeps ct_reports (crystallize_seed E fr seed)"
  "keeps ct_cache (accumulate_seed R fr pat r)" "keeps ct_cache (crystallize_seed E fr seed)"
  "keeps ct_thresholds (chained_base E fr b force A i)" "keeps ct_thresholds (plain_base E fr A i)"
  unfolding keeps_def accumulate_seed_def crystallize_seed_def chained_base_def plain_base_def Let_def
  by (auto intro!: preserves_obind preserves_write split: option.splits prod.splits)

lemma sum_squares_nonneg:
  "0 \<le> acc \<Longrightarrow> 0 \<le> foldl (\<lambda>s i. let d = f i in fadd s (fmul d d)) acc xs"
  by (induction xs arbitrary: acc) (simp_all add: Let_def fadd_def fmul_def fl_nonneg)

lemma l2_diff_nonneg: "0 \<le> l2_diff p c"
  unfolding l2_diff_def fsqrt_def by (intro fl_nonneg real_sqrt_ge_zero sum_squares_nonneg) simp

lemma classify_report_valid: "classify k pid v w t now = Inr rep \<Longrightarrow> report_valid rep"
  by (auto simp: classify_def report_valid_def mk_divergence_report_def rbind_Inr_iff Let_def l2_diff_nonneg
      split: prod.splits)

lemma table_Inr_iff:
  "query_table table q S = (Inr x, S') \<longleftrightarrow> q (table S) = Inr x \<and> S' = S"
  "write_table table upd w S = (Inr u, S') \<longleftrightarrow> (\<exists>T. w (table S) = Inr T \<and> S' = upd T S)"
  by (auto simp: query_table_def write_table_def split: sum.splits)

text \<open>What attaching a parent does when it succeeds.\<close>

lemma attach_parent_Inr:
  assumes "attach_parent R fr (Some pid) b r0 S = (Inr r, S1)"
  shows "\<exists>par l rep. read_cast R pid (gd_casts (ct_graph S)) = Inr par \<and> r = r0\<lparr>cr_lineage := Some l\<rparr>
     \<and> ln_parent_cast_id l = pid \<and> ln_depth l = next_depth par \<and> 1 \<le> ln_depth l
     \<and> ln_branch_id l = (case lineage_branch b par of Some x \<Rightarrow> x | None \<Rightarrow> fr_branch fr)
     \<and> classify (cr_cast_id r0) pid (sg_semantic_vector (cr_sigil par))
          (sg_semantic_vector (cr_sigil r0)) (ct_thresholds S) (fr_now fr) = Inr rep
     \<and> read_divergence_report (cr_cast_id r0) (ct_reports S1) = Inr (report_view rep)
     \<and> dget (ct_cache S1) (cr_cast_id r0) = Some rep"
proof -
  from assms obtain par dv l rep T where par: "read_cast R pid (gd_casts (ct_graph S)) = Inr par"
    and l: "mk_lineage (fr_branch fr) pid (next_depth par) (lineage_branch b par) (Some dv) = Inr l"
    and rep: "classify (cr_cast_id r0) pid (sg_semantic_vector (cr_sigil par))
          (sg_semantic_vector (cr_sigil r0)) (ct_thresholds S) (fr_now fr) = Inr rep"
    and T: "write_divergence_report rep (ct_reports S) = Inr T"
    and r: "r = r0\<lparr>cr_lineage := Some l\<rparr>"
    and S1: "S1 = S\<lparr>ct_reports := T, ct_cache := dset (cr_cast_id r0) rep (ct_cache S)\<rparr>"
    by (auto simp: attach_parent_def record_divergence_def read_parent_def table_Inr_iff obind_Inr_iff)
  have k: "dr_cast_id rep = cr_cast_id r0" using rep by (auto simp: classify_def rbind_Inr_iff Let_def split: prod.splits)
  have "read_divergence_report (cr_cast_id r0) T = Inr (report_view rep)"
    using reports.fetch_put [OF classify_report_valid [OF rep] T] k by simp
  with par l rep r S1 show ?thesis
    by (auto simp: mk_lineage_def dict_simps split: if_splits)
qed

lemma finish_cast_cases:
  assumes "finish_cast E isof fr pid b t pat r0 S = (res, S')"
  shows "(\<exists>e. res = Inl e \<and> ct_graph S' = ct_graph S) \<or>
    (\<exists>out r S1. res = Inr out \<and> attach_parent (eg_registry E) fr pid b r0 S = (Inr r, S1)
       \<and> store_cast (eg_registry E) r (ct_graph S) = Inr (ct_graph S')
       \<and> ct_reports S' = ct_reports S1 \<and> ct_cache S' = ct_cache S1
       \<and> dget out ''cast_id'' = Some (JStr (cr_cast_id r)))"
proof -
  let ?R = "eg_registry E"
  obtain x S1 where a: "attach_parent ?R fr pid b r0 S = (x, S1)" by (cases "attach_parent ?R fr pid b r0 S")
  note g1 = keepsD [OF keeps_graph(1) a]
  show ?thesis
  proof (cases x)
    case (Inl e)
    with assms a g1 show ?thesis by (auto simp: finish_cast_def Let_def obind_def)
  next
    case r: (Inr r)
    obtain y S2 where ac: "accumulate_seed ?R fr pat r S1 = (y, S2)" by (cases "accumulate_seed ?R fr pat r S1")
    note g2 = keepsD [OF keeps_graph(2) ac] keepsD [OF keeps_reports(1) ac] keepsD [OF keeps_reports(3) ac]
    show ?thesis
    proof (cases y)
      case (Inl e)
      with assms a r ac g1 g2 show ?thesis by (auto simp: finish_cast_def Let_def obind_def)
    next
      case seed: (Inr seed)
      obtain z S3 where cz: "crystallize_seed E fr seed S2 = (z, S3)" by (cases "crystallize_seed E fr seed S2")
      note g3 = keepsD [OF keeps_graph(3) cz] keepsD [OF keeps_reports(2) cz] keepsD [OF keeps_reports(4) cz]
      show ?thesis
      proof (cases z)
        case (Inl e)
        with assms a r ac seed cz g1 g2 g3 show ?thesis
          by (auto simp: finish_cast_def Let_def obind_def get_state_def)
      next
        case (Inr sig)
        with assms a r ac seed cz g1 g2 g3 show ?thesis
          by (auto simp: finish_cast_def Let_def obind_def get_state_def write_table_def ret_def
              cast_result_to_dict_def split: sum.splits)
      qed
    qed
  qed
qed

lemma bases_fresh:
  "returns (\<lambda>r. cr_cast_id r = fst (fr_stamp fr) \<and> cr_lineage r = None) (chained_base E fr b force A i)"
  "returns (\<lambda>r. cr_cast_id r = fst (fr_stamp fr) \<and> cr_lineage r = None) (plain_base E fr A i)"
proof -
  show "returns (\<lambda>r. cr_cast_id r = fst (fr_stamp fr) \<and> cr_lineage r = None) (chained_base E fr b force A i)"
    unfolding chained_base_def Let_def
    by (intro returns_obind returns_obind_lift)
      (auto simp: chained_cast_def rbind_Inr_iff Let_def mk_cast_result_def intro!: returns_obind split: if_splits)
  show "returns (\<lambda>r. cr_cast_id r = fst (fr_stamp fr) \<and> cr_lineage r = None) (plain_base E fr A i)"
    unfolding plain_base_def
    by (intro returns_obind)
      (auto split: option.split intro!: returns_obind_lift simp: cast_op_def rbind_Inr_iff mk_cast_result_def)
qed

lemma wrap_exc_kinds: "\<exists>m. wrap_exc t e \<in> {ValueError m, KeyError m, RuntimeError m}"
  by (cases e) auto

text \<open>
  C23. A call of the cast tool stores exactly one cast or none. When it raises - only a \<open>ValueError\<close>,
  a \<open>KeyError\<close> or a \<open>RuntimeError\<close> - the casts and the causal edges are as before. When it returns,
  the response names the fresh cast, which has been added to the casts that were there; without a
  parent it has no lineage, and with one its lineage is one level below the parent, on the requested
  branch or the parent's, and the divergence report of the pair under the active thresholds is both
  stored and cached.
\<close>

theorem cast_tool_outcome:
  "case tool_cast E isof fr names a S of
     (Inl e, S') \<Rightarrow> ct_graph S' = ct_graph S \<and> (\<exists>m. e \<in> {ValueError m, KeyError m, RuntimeError m})
   | (Inr out, S') \<Rightarrow>
       \<exists>r. dget out ''cast_id'' = Some (JStr (cr_cast_id r)) \<and> cr_cast_id r = fst (fr_stamp fr)
         \<and> store_cast (eg_registry E) r (ct_graph S) = Inr (ct_graph S')
         \<and> (case ca_parent_cast_id a of
              None \<Rightarrow> cr_lineage r = None
            | Some pid \<Rightarrow>
                \<exists>par l rep. read_cast (eg_registry E) pid (gd_casts (ct_graph S)) = Inr par
                  \<and> cr_lineage r = Some l \<and> ln_parent_cast_id l = pid \<and> ln_depth l = next_depth par
                  \<and> 1 \<le> ln_depth l
                  \<and> ln_branch_id l = (case lineage_branch (ca_branch_id a) par of
                                         Some b \<Rightarrow> b | None \<Rightarrow> fr_branch fr)
                  \<and> classify (cr_cast_id r) pid (sg_semantic_vector (cr_sigil par))
                       (sg_semantic_vector (cr_sigil r)) (ct_thresholds S) (fr_now fr) = Inr rep
                  \<and> read_divergence_report (cr_cast_id r) (ct_reports S') = Inr (report_view rep)
                  \<and> dget (ct_cache S') (cr_cast_id r) = Some rep)"
proof -
  define base where "base A i = (if ca_chained a then chained_base E fr (ca_branch_id a) (ca_force a) A i
    else plain_base E fr A i)" for A i
  note base_keeps = keeps_graph(4,5) keeps_reports(5,6)
  obtain res S' where run: "tool_cast E isof fr names a S = (res, S')" by (cases "tool_cast E isof fr names a S")
  have tc: "tool_cast E isof fr names a = wrapped ''cast''
       (obind (lift (rmap_list (resolve_aspect_arg (eg_registry E)) names)) (\<lambda>resolved.
        obind (lift (intent_of_args (ca_intent a))) (\<lambda>i.
        obind (base (remdups resolved) i)
          (finish_cast E isof fr (ca_parent_cast_id a) (ca_branch_id a) (ca_include_transcript a) (remdups resolved)))))"
    by (simp add: tool_cast_def base_def Let_def)
  have base: "returns (\<lambda>r. cr_cast_id r = fst (fr_stamp fr) \<and> cr_lineage r = None) (base A i)" for A i
    using bases_fresh by (simp add: base_def)
  have kept: "ct_graph S1 = ct_graph S \<and> ct_thresholds S1 = ct_thresholds S" if "base A i S = (x, S1)" for A i x S1
    using that keepsD [OF base_keeps(1)] keepsD [OF base_keeps(2)] keepsD [OF base_keeps(3)]
      keepsD [OF base_keeps(4)] by (auto simp: base_def split: if_splits)
  show ?thesis
  proof (cases res)
    case (Inl e)
    have "ct_graph S' = ct_graph S"
      using run Inl unfolding tc wrapped_def
      by (auto simp: obind_Inl_iff split: prod.splits sum.splits
          dest!: kept finish_cast_cases)
    moreover have "\<exists>m. e \<in> {ValueError m, KeyError m, RuntimeError m}"
      using run Inl wrap_exc_kinds unfolding tc wrapped_def by (fastforce split: prod.splits sum.splits)
    ultimately show ?thesis using run Inl by simp
  next
    case (Inr out)
    from run Inr obtain A i r0 S1 where b: "base A i S = (Inr r0, S1)"
      and f: "finish_cast E isof fr (ca_parent_cast_id a) (ca_branch_id a) (ca_include_transcript a) A r0 S1 = (Inr out, S')"
      unfolding tc wrapped_def by (auto simp: obind_Inr_iff split: prod.splits sum.splits)
    from base [of A i] b have r0: "cr_cast_id r0 = fst (fr_stamp fr)" "cr_lineage r0 = None"
      unfolding returns_def by blast+
    from finish_cast_cases [OF f] obtain r S2 where
      at: "attach_parent (eg_registry E) fr (ca_parent_cast_id a) (ca_branch_id a) r0 S1 = (Inr r, S2)"
      and st: "store_cast (eg_registry E) r (ct_graph S1) = Inr (ct_graph S')"
      and S': "ct_reports S' = ct_reports S2" "ct_cache S' = ct_cache S2"
      and out: "dget out ''cast_id'' = Some (JStr (cr_cast_id r))" by auto
    show ?thesis
    proof (cases "ca_parent_cast_id a")
      case None
      with at have "r = r0" by (simp add: attach_parent_def)
      with r0 st out kept [OF b] run Inr None show ?thesis
        by (auto intro!: exI [of _ r0])
    next
      case (Some pid)
      from attach_parent_Inr [OF at [unfolded Some]] obtain par l rep where
        p: "read_cast (eg_registry E) pid (gd_casts (ct_graph S1)) = Inr par" "r = r0\<lparr>cr_lineage := Some l\<rparr>"
          "ln_parent_cast_id l = pid" "ln_depth l = next_depth par" "1 \<le> ln_depth l"
          "ln_branch_id l = (case lineage_branch (ca_branch_id a) par of Some x \<Rightarrow> x | None \<Rightarrow> fr_branch fr)"
          "classify (cr_cast_id r0) pid (sg_semantic_vector (cr_sigil par))
             (sg_semantic_vector (cr_sigil r0)) (ct_thresholds S1) (fr_now fr) = Inr rep"
          "read_divergence_report (cr_cast_id r0) (ct_reports S2) = Inr (report_view rep)"
          "dget (ct_cache S2) (cr_cast_id r0) = Some rep" by auto
      then show ?thesis
        using r0 st out kept [OF b] run Inr Some S' by (auto intro!: exI [of _ r])
    qed
  qed
qed

section \<open>Geometric packets round-trip\<close>

lemma tolerance_codes: "tolerance_of_code (tolerance_code t) = t"
proof -
  have d: "is_double (1/4)" "is_double (5/16)" "is_double (1/2)" "is_double (5/8)" "is_double (3/4)"
    "is_double (7/8)"
    using is_double_dyadic [of 1 2] is_double_dyadic [of 5 4] is_double_dyadic [of 1 1]
      is_double_dyadic [of 5 3] is_double_dyadic [of 3 2] is_double_dyadic [of 7 3] by simp_all
  have "lit 0.20 \<le> 1/4" "5/16 \<le> lit 0.33" "lit 0.33 \<le> 1/2" "5/8 \<le> lit 0.66" "lit 0.66 \<le> 3/4"
    "3/4 \<le> lit 0.85" "lit 0.85 \<le> 7/8" "0 \<le> lit 0.20"
    unfolding lit_def
    by (rule fl_le [OF _ d(1)] fl_ge [OF _ d(2)] fl_le [OF _ d(3)] fl_ge [OF _ d(4)]
        fl_le [OF _ d(5)] fl_ge [OF _ d(5)] fl_le [OF _ d(6)] fl_nonneg; simp)+
  then show ?thesis by (cases t) (simp_all add: tolerance_of_code_def)
qed

lemma length_hash4: "length (hash4 t) = 4"
  by (simp add: hash4_def length_sha256)

text \<open>
  An encoded packet carries a valid proof, and decoding it gives back the aspect components (padded
  to six) and the two enumerations of the intent; objective and scope are lost.
\<close>

lemma geometric_roundtrip:
  "\<exists>p w j lin'. geometric_encode_packet v i lin 1 = Inr p \<and> geometric_proof_ok p
     \<and> geometric_decode_packet b p = Inr (w, j, lin')
     \<and> comps w = take 6 (comps v) @ replicate (6 - length (comps v)) 0
     \<and> in_reversibility j = in_reversibility i \<and> in_side_effect_tolerance j = in_side_effect_tolerance i"
proof -
  define a where "a = take 6 (comps v) @ replicate (6 - length (take 6 (comps v))) 0"
  define l4 where "l4 = (case lin of None \<Rightarrow> [0, 0, 0, 0] | Some l \<Rightarrow> hash4 (ln_parent_cast_id l))"
  define i4 where "i4 = [reversibility_code (in_reversibility i), tolerance_code (in_side_effect_tolerance i),
            min 1 (max 0 (fdiv (of_int (int (length (in_scope i)))) 200)),
            min 1 (max 0 (fdiv (of_int (int (length (in_objective i)))) 500))]"
  define p where "p = \<lparr>gp_payload = a @ i4 @ l4 @ [proof_dot a i4], gp_version = 1\<rparr>"
  have len: "length a = 6" "length l4 = 4" "length i4 = 4"
    by (simp_all add: a_def l4_def i4_def length_hash4 split: option.splits)
  have enc: "geometric_encode_packet v i lin 1 = Inr p"
    unfolding geometric_encode_packet_def Let_def a_def [symmetric] l4_def [symmetric] i4_def [symmetric]
    using len by (simp add: mk_geometric_packet_def p_def)
  have ie: "intent_encoding p = i4" "aspect_components p = a" "proof_hash p = proof_dot a i4"
    using len by (simp_all add: intent_encoding_def aspect_components_def proof_hash_def p_def)
  have "proof_dot (take 4 (gp_payload p)) i4 = proof_dot a i4"
    using len by (simp add: proof_dot_def p_def nth_append)
  then have ok: "geometric_proof_ok p"
    using lit_unit [of "1 / 10 ^ 4"] by (simp add: geometric_proof_ok_def ie fsub_def)
  have "reversibility_of_code (reversibility_code r) = r" for r
    by (cases r) (simp_all add: reversibility_of_code_def)
  moreover obtain lin' where "(if list_ex (\<lambda>x. \<bar>x\<bar> > lit (1 / 10 ^ 12)) (lineage_hash p)
      then rbind (mk_lineage b ''HASHED_PARENT'' 1 None None) (\<lambda>l. Inr (Some l)) else Inr None) = Inr lin'"
    by (cases "list_ex (\<lambda>x. \<bar>x\<bar> > lit (1 / 10 ^ 12)) (lineage_hash p)") (simp_all add: mk_lineage_def)
  ultimately obtain w j lin' where "geometric_decode_packet b p = Inr (w, j, lin')" "comps w = a"
      "in_reversibility j = in_reversibility i" "in_side_effect_tolerance j = in_side_effect_tolerance i"
    using len(1) by (auto simp: geometric_decode_packet_def ie mk_svec_def mk_intent_def i4_def
        tolerance_codes rbind_Inr_iff)
  with enc ok show ?thesis by (auto simp: a_def min_def)
qed

section \<open>Sample runs\<close>

definition empty_state :: cast_state where
  "empty_state = \<lparr>ct_graph = \<lparr>gd_casts = [], gd_edges = []\<rparr>, ct_seeds = [], ct_crystals = [],
     ct_channels = [], ct_reports = [], ct_cache = [], ct_thresholds = default_divergence_thresholds\<rparr>"

definition sample_fresh :: fresh where
  "sample_fresh = \<lparr>fr_stamp = (''c1'', 0), fr_channel = ''n'', fr_branch = ''b'', fr_seed = ''s'', fr_now = 0\<rparr>"

lemma sample_geometric_run:
  "\<exists>out S'. tool_geometric_cast sample_engine (\<lambda>x. fl (exp x)) sample_fresh (replicate 15 0) 1 None False empty_state
     = (Inr out, S') \<and> dhas (gd_casts (ct_graph S')) ''c1''"
proof -
  let ?p = "\<lparr>gp_payload = replicate 15 (0::real), gp_version = 1\<rparr>"
  have "mk_geometric_packet (replicate 15 0) 1 = Inr ?p" by (simp add: mk_geometric_packet_def)
  moreover have "geometric_proof_ok ?p"
    using lit_unit [of "1 / 10 ^ 4"]
    by (simp add: geometric_proof_ok_def proof_dot_def intent_encoding_def proof_hash_def fadd_def fmul_def
        fsub_def numeral_eq_Suc)
  moreover obtain i where "geometric_decode_packet ''b'' ?p = Inr (zero_vec, i, None)"
    using lit_unit [of "1 / 10 ^ 12"]
    by (simp add: geometric_decode_packet_def mk_svec_def mk_intent_def aspect_components_def
        lineage_hash_def zero_vec_def numeral_eq_Suc)
  moreover obtain r where r: "fluid_cast sample_engine (\<lambda>x. fl (exp x)) (''c1'', 0) zero_vec i = Inr r"
    using sample_fluid_cast by blast
  moreover have "0 \<le> cast_adjusted r \<and> cast_adjusted r \<le> 1"
    using fluid_cast_valid [OF r] by (auto simp: zero_vec_def cast_valid_def Let_def mk_resonance_score_def split: if_splits)
  moreover have "cr_cast_id r = ''c1''"
    using r by (auto simp: fluid_cast_def rbind_Inr_iff mk_cast_result_def)
  ultimately show ?thesis
    by (simp add: tool_geometric_cast_def obind_def lift_def sample_fresh_def find_channel_def channel_blend_def
        store_cast_def write_cast_def empty_state_def write_table_def update_geometric_channel_def ret_def
        geometric_encode_response_def dict_simps)
qed

lemma tools_store_readable_casts_witness:
  "\<exists>S' r. (tool_step sample_engine)\<^sup>*\<^sup>* empty_state S'
     \<and> read_cast empty_registry ''c1'' (gd_casts (ct_graph S')) = Inr r \<and> cr_cast_id r = ''c1''"
proof -
  obtain out S' where run: "tool_geometric_cast sample_engine (\<lambda>x. fl (exp x)) sample_fresh (replicate 15 0) 1 None
      False empty_state = (Inr out, S')" and has: "dhas (gd_casts (ct_graph S')) ''c1''"
    using sample_geometric_run by blast
  have steps: "(tool_step sample_engine)\<^sup>*\<^sup>* empty_state S'"
    by (rule r_into_rtranclp) (rule geometric_step [OF run])
  have "casts_ok (eg_registry sample_engine) (gd_casts (ct_graph empty_state))"
    using registry_ok_empty by (simp add: casts_ok_def empty_state_def sample_engine_def)
  from tools_store_readable_casts [OF steps this has] steps show ?thesis
    by (auto simp: sample_engine_def)
qed

end
