(* ===== verification/Genesis.thy ===== *)
theory Genesis
  imports CastTools
begin

text \<open>
  Growing the basis: registered aspects and sigils with their tables
  (\<open>src/vermyth/grimoire/repositories/registry.py\<close>, \<open>basis_versions.py\<close>,
  \<open>src/vermyth/mcp/tools/registry.py\<close>), emergent aspects proposed from the cast history, reviewed,
  accepted or rejected (\<open>src/vermyth/engine/operations/genesis.py\<close>,
  \<open>src/vermyth/grimoire/repositories/genesis.py\<close>, \<open>src/vermyth/mcp/tools/genesis.py\<close>), and the
  restart that loads the tables again (\<open>src/vermyth/bootstrap.py\<close>).
\<close>

section \<open>Tables\<close>

record aspect_row =
  ar_aspect :: registered_aspect
  ar_ordinal :: int

record basis_row =
  bv_dimensionality :: int
  bv_aspect_order :: "string list"
  bv_created_at :: int

record basis_version_info =
  bi_version :: int
  bi_dimensionality :: int
  bi_aspect_order :: "string list"

record sigil_row =
  srw_name :: string
  srw_aspects :: "string list"
  srw_effect_class :: string
  srw_resonance_ceiling :: real
  srw_contradiction_severity :: string
  srw_is_override :: bool
  srw_registered_at :: int

datatype genesis_status = GS_PROPOSED | GS_ACCEPTED | GS_REJECTED | GS_INTEGRATED

definition genesis_members :: "(string, genesis_status) dict" where
  "genesis_members =
     [(''PROPOSED'', GS_PROPOSED), (''ACCEPTED'', GS_ACCEPTED), (''REJECTED'', GS_REJECTED),
      (''INTEGRATED'', GS_INTEGRATED)]"

record emergent_aspect =
  ea_genesis_id :: string
  ea_proposed_name :: string
  ea_derived_polarity :: int
  ea_derived_entropy :: real
  ea_proposed_symbol :: string
  ea_centroid_vector :: svec
  ea_support_count :: int
  ea_mean_resonance :: real
  ea_coherence_rate :: real
  ea_status :: genesis_status
  ea_proposed_at :: int
  ea_decided_at :: "int option"
  ea_reviewed_by :: "string option"
  ea_reviewed_at :: "int option"
  ea_review_note :: "string option"
  ea_evidence_cast_ids :: "string list"

definition mk_emergent_aspect :: "emergent_aspect \<Rightarrow> emergent_aspect result" where
  "mk_emergent_aspect a =
     (if length (ea_proposed_name a) < 1 \<or> 30 < length (ea_proposed_name a)
         \<or> \<not> name_pattern (ea_proposed_name a)
      then Inl (ValueError ''proposed_name'')
      else if ea_derived_polarity a \<noteq> -1 \<and> ea_derived_polarity a \<noteq> 1
      then Inl (ValueError ''derived_polarity must be -1 or 1'')
      else if ea_derived_entropy a < 0 \<or> 1 < ea_derived_entropy a \<or> length (ea_proposed_symbol a) \<noteq> 1
         \<or> ea_support_count a < 1 \<or> ea_mean_resonance a < 0 \<or> 1 < ea_mean_resonance a
         \<or> ea_coherence_rate a < 0 \<or> 1 < ea_coherence_rate a
         \<or> \<not> pred_option (\<lambda>n. length n \<le> 500) (ea_review_note a)
      then Inl (ValueError ''EmergentAspect'')
      else Inr a)"

record emergent_row =
  emr_aspect :: emergent_aspect
  emr_status :: string
  emr_centroid_vector :: json
  emr_basis_version :: nat

text \<open>
  The registry of the process, its composition engine, and the tables.
\<close>

record genesis_state =
  gn_registry :: registry
  gn_composition :: composition
  gn_aspects :: "(string, aspect_row) dict"
  gn_sigils :: "(string, sigil_row) dict"
  gn_bases :: "(int, basis_row) dict"
  gn_emergent :: "(string, emergent_row) dict"
  gn_casts :: cast_table

section \<open>The registry repository\<close>

definition max_version :: "(int, basis_row) dict \<Rightarrow> int" where
  "max_version bases = (case bases of [] \<Rightarrow> 0 | b # bs \<Rightarrow> max_by (\<lambda>v. v) (fst b) (map fst bs))"

text \<open>
  The row is inserted, the basis of the current registry gets the next version, and the registry
  takes that version over. A name that is there already is an \<open>IntegrityError\<close>.
\<close>

definition write_registered_aspect :: "int \<Rightarrow> registered_aspect \<Rightarrow> int \<Rightarrow> (genesis_state, unit) op" where
  "write_registered_aspect now a ordinal S =
     (if dhas (gn_aspects S) (ra_name a)
      then (Inl (ValueError (''Aspect '' @ repr_str (ra_name a) @ '' already exists'')), S)
      else
        let next_basis = max_version (gn_bases S) + 1 in
        (Inr (), S\<lparr>gn_aspects := dset (ra_name a) \<lparr>ar_aspect = a, ar_ordinal = ordinal\<rparr> (gn_aspects S),
           gn_bases := dreplace next_basis
             \<lparr>bv_dimensionality = ordinal + 1,
              bv_aspect_order = map aspect_name (full_aspect_order (gn_registry S)),
              bv_created_at = now\<rparr> (gn_bases S),
           gn_registry := set_basis_version next_basis (gn_registry S)\<rparr>))"

definition query_registered_aspects :: "(string, aspect_row) dict \<Rightarrow> (registered_aspect \<times> int) list result" where
  "query_registered_aspects T =
     rmap_list (\<lambda>row. let a = ar_aspect row in
         rbind (mk_registered_aspect (ra_name a) (ra_polarity a) (ra_entropy a) (ra_symbol a)) (\<lambda>a.
         Inr (a, ar_ordinal row)))
       (sort_key ar_ordinal (map snd T))"

definition write_registered_sigil :: "sigil_row \<Rightarrow> (string, sigil_row) dict \<Rightarrow> (string, sigil_row) dict" where
  "write_registered_sigil row T = dreplace (srw_name row) row T"

definition read_registered_sigil :: "string \<Rightarrow> (string, sigil_row) dict \<Rightarrow> sigil_row result" where
  "read_registered_sigil name T = of_option (KeyError name) (dget T name)"

definition query_registered_sigils :: "(string, sigil_row) dict \<Rightarrow> sigil_row list" where
  "query_registered_sigils T = sort_key (\<lambda>row. - srw_registered_at row) (map snd T)"

section \<open>Basis versions\<close>

definition mk_basis_version :: "int \<Rightarrow> int \<Rightarrow> string list \<Rightarrow> basis_version_info result" where
  "mk_basis_version version d order =
     (if 0 \<le> version \<and> 6 \<le> d \<and> 6 \<le> length order
      then Inr \<lparr>bi_version = version, bi_dimensionality = d, bi_aspect_order = order\<rparr>
      else Inl (ValueError ''BasisVersion''))"

definition write_basis_version :: "int \<Rightarrow> basis_version_info \<Rightarrow> (int, basis_row) dict \<Rightarrow> (int, basis_row) dict result" where
  "write_basis_version now b T =
     rbind (sql_int (bi_version b)) (\<lambda>v. rbind (sql_int (bi_dimensionality b)) (\<lambda>d.
     Inr (dreplace v \<lparr>bv_dimensionality = d, bv_aspect_order = bi_aspect_order b, bv_created_at = now\<rparr> T)))"

definition read_basis_version :: "int \<Rightarrow> (int, basis_row) dict \<Rightarrow> basis_version_info result" where
  "read_basis_version version T =
     rbind (of_option (KeyError (int_text version)) (dget T version)) (\<lambda>row.
     mk_basis_version version (bv_dimensionality row) (bv_aspect_order row))"

definition read_latest_basis_version :: "(int, basis_row) dict \<Rightarrow> basis_version_info result" where
  "read_latest_basis_version T =
     (case sort_key (\<lambda>b. - fst b) T of
        [] \<Rightarrow> mk_basis_version 0 6 (map id_name all_aspect_ids)
      | (version, row) # _ \<Rightarrow> mk_basis_version version (bv_dimensionality row) (bv_aspect_order row))"

section \<open>The registry tools\<close>

definition register_in_memory :: "registered_aspect \<Rightarrow> (genesis_state, unit) op" where
  "register_in_memory a S =
     (case registry_register a (gn_registry S) of
        Inl e \<Rightarrow> (Inl e, S) | Inr R \<Rightarrow> (Inr (), S\<lparr>gn_registry := R\<rparr>))"

definition aspect_json :: "registered_aspect \<Rightarrow> int \<Rightarrow> json" where
  "aspect_json a ordinal =
     JObj [(''name'', JStr (ra_name a)), (''polarity'', JInt (ra_polarity a)),
       (''entropy_coefficient'', JFloat (ra_entropy a)), (''symbol'', JStr (ra_symbol a)),
       (''ordinal'', JInt ordinal)]"

definition tool_register_aspect ::
  "int \<Rightarrow> string \<Rightarrow> int \<Rightarrow> real \<Rightarrow> string \<Rightarrow> (genesis_state, json) op" where
  "tool_register_aspect now name polarity entropy symbol =
     obind (lift (mk_registered_aspect name polarity entropy symbol)) (\<lambda>a.
     obind (register_in_memory a) (\<lambda>_.
     obind get_state (\<lambda>S.
     let ordinal = int (dimensionality (gn_registry S)) - 1 in
     obind (write_registered_aspect now a ordinal) (\<lambda>_. ret (aspect_json a ordinal)))))"

text \<open>
  The arguments of \<open>register_sigil\<close>: name, aspects, effect class, severity, ceiling and override
  flag, in the order the code reads them.
\<close>

definition sigil_arguments ::
  "registry \<Rightarrow> (string, json) dict \<Rightarrow> (sigil \<times> bool) result" where
  "sigil_arguments R payload =
     (let name = strip_text (py_str (dget_or payload ''name'' (JStr []))) in
      rbind (raise_if (name = []) (ValueError ''name is required'')) (\<lambda>_.
      rbind (case dget payload ''aspects'' of
               Some (JList (x # xs)) \<Rightarrow> Inr (x # xs)
             | _ \<Rightarrow> Inl (ValueError ''aspects must be a non-empty list of aspect names'')) (\<lambda>items.
      rbind (rmap_list (\<lambda>n. case n of
                 JStr n \<Rightarrow> resolve_aspect_arg R n
               | _ \<Rightarrow> Inl (ValueError ''aspects must be a list of strings'')) items) (\<lambda>resolved.
      rbind (enum_lookup effect_class_members
               (py_str (dget_or payload ''effect_class'' (JStr [])))) (\<lambda>ec.
      rbind (enum_lookup severity_members
               (py_str (dget_or payload ''contradiction_severity'' (JStr ''NONE'')))) (\<lambda>sev.
      rbind (py_float (dget_or payload ''resonance_ceiling'' (JFloat 1))) (\<lambda>rc.
      rbind (mk_sigil R name (remdups resolved) ec rc sev) (\<lambda>s.
      Inr (s, truthy (dget_or payload ''allow_override'' (JBool False)))))))))))"

definition sigil_entry :: "sigil \<Rightarrow> entry" where
  "sigil_entry s =
     [(''name'', JStr (sg_name s)), (''aspects'', pattern_json (sg_aspects s)),
      (''effect_class'', JStr (enum_name effect_class_members (sg_effect_class s))),
      (''resonance_ceiling'', JFloat (sg_resonance_ceiling s))]"

definition sigil_row_of :: "int \<Rightarrow> sigil \<Rightarrow> bool \<Rightarrow> sigil_row" where
  "sigil_row_of now s override =
     \<lparr>srw_name = sg_name s, srw_aspects = map aspect_name (sg_aspects s),
      srw_effect_class = enum_name effect_class_members (sg_effect_class s),
      srw_resonance_ceiling = sg_resonance_ceiling s,
      srw_contradiction_severity = enum_name severity_members (sg_contradiction_severity s),
      srw_is_override = override, srw_registered_at = now\<rparr>"

definition tool_register_sigil :: "int \<Rightarrow> (string, json) dict \<Rightarrow> (genesis_state, json) op" where
  "tool_register_sigil now payload S =
     (case rbind (sigil_arguments (gn_registry S) payload) (\<lambda>(s, override).
             rbind (register_sigil_entry (gn_registry S) (sg_aspects s) (sigil_entry s) override
                      (gn_composition S)) (\<lambda>C. Inr (s, override, C))) of
        Inl e \<Rightarrow> (Inl e, S)
      | Inr (s, override, C) \<Rightarrow>
          (Inr (JObj
             [(''name'', JStr (sg_name s)),
              (''aspects'', JList (map JStr (sort (map aspect_name (sg_aspects s))))),
              (''effect_class'', JStr (enum_name effect_class_members (sg_effect_class s))),
              (''resonance_ceiling'', JFloat (sg_resonance_ceiling s)),
              (''contradiction_severity'',
                 JStr (enum_name severity_members (sg_contradiction_severity s))),
              (''allow_override'', JBool override)]),
           S\<lparr>gn_composition := C,
             gn_sigils := write_registered_sigil (sigil_row_of now s override) (gn_sigils S)\<rparr>))"

definition tool_registered_aspects :: "registry \<Rightarrow> json list" where
  "tool_registered_aspects R =
     List.map_filter (\<lambda>(idx, a). case a of Registered r \<Rightarrow> Some (aspect_json r idx) | _ \<Rightarrow> None)
       (zip (map int [0..<dimensionality R]) (full_aspect_order R))"

section \<open>Emergent aspects: the repository\<close>

definition centroid_document :: "svec \<Rightarrow> json" where
  "centroid_document v =
     JObj [(''components'', floats_json v),
       (''basis_version'', case basis v of None \<Rightarrow> JNull | Some b \<Rightarrow> JInt (int b))]"

definition write_emergent_aspect ::
  "emergent_aspect \<Rightarrow> (string, emergent_row) dict \<Rightarrow> (string, emergent_row) dict result" where
  "write_emergent_aspect a T =
     rbind (sql_int (ea_support_count a)) (\<lambda>_.
     if list_ex (\<lambda>(k, row). k \<noteq> ea_genesis_id a \<and> ea_proposed_name (emr_aspect row) = ea_proposed_name a) T
     then Inl (RuntimeError ''UNIQUE constraint failed: emergent_aspects.proposed_name'')
     else Inr (dset (ea_genesis_id a)
       \<lparr>emr_aspect = a, emr_status = enum_name genesis_members (ea_status a),
        emr_centroid_vector = centroid_document (ea_centroid_vector a),
        emr_basis_version = normalized_basis_version (ea_centroid_vector a)\<rparr> T))"

text \<open>\<open>_centroid_payload\<close>: the stored vector with its own basis version, else that of the row.\<close>

definition centroid_payload :: "json \<Rightarrow> nat \<Rightarrow> svec result" where
  "centroid_payload doc b =
     rbind (case doc of
              JObj d \<Rightarrow>
                (case dget d ''basis_version'' of
                   None \<Rightarrow> Inr (dget_or d ''components'' (JList []), int b)
                 | Some JNull \<Rightarrow> Inr (dget_or d ''components'' (JList []), int b)
                 | Some v \<Rightarrow> rbind (py_int v) (\<lambda>n. Inr (dget_or d ''components'' (JList []), n)))
            | _ \<Rightarrow> Inr (doc, int b)) (\<lambda>(source, n).
     rbind (j_items source) (\<lambda>items.
     rbind (rmap_list py_float items) (\<lambda>xs.
     if n < 0 then Inl (ValueError ''basis_version'') else mk_svec xs (Some (nat n)))))"

definition nonempty_text :: "string option \<Rightarrow> string option" where
  "nonempty_text t = (if t = Some [] then None else t)"

definition emergent_of_row :: "emergent_row \<Rightarrow> emergent_aspect result" where
  "emergent_of_row row =
     rbind (centroid_payload (emr_centroid_vector row) (emr_basis_version row)) (\<lambda>v.
     rbind (enum_lookup genesis_members (emr_status row)) (\<lambda>st.
     let a = emr_aspect row in
     mk_emergent_aspect (a\<lparr>ea_centroid_vector := v, ea_status := st,
       ea_reviewed_by := nonempty_text (ea_reviewed_by a),
       ea_review_note := nonempty_text (ea_review_note a)\<rparr>)))"

definition read_emergent_aspect :: "string \<Rightarrow> (string, emergent_row) dict \<Rightarrow> emergent_aspect result" where
  "read_emergent_aspect genesis_id T =
     rbind (of_option (KeyError genesis_id) (dget T genesis_id)) emergent_of_row"

definition query_emergent_aspects ::
  "string option \<Rightarrow> int \<Rightarrow> (string, emergent_row) dict \<Rightarrow> emergent_aspect list result" where
  "query_emergent_aspects status limit T =
     rbind (sql_int limit) (\<lambda>limit.
     rmap_list emergent_of_row
       (sql_limit limit (sort_key (\<lambda>row. - ea_proposed_at (emr_aspect row))
          (filter (\<lambda>row. pred_option (\<lambda>s. emr_status row = s) status) (map snd T)))))"

abbreviation emergent_write ::
  "((string, emergent_row) dict \<Rightarrow> (string, emergent_row) dict result) \<Rightarrow> (genesis_state, unit) op" where
  "emergent_write \<equiv> write_table gn_emergent (\<lambda>T. gn_emergent_update (\<lambda>_. T))"

text \<open>
  A reviewed proposal is accepted whatever its status: its aspect is registered and stored unless
  the name is registered already, then the decision is written.
\<close>

definition accept_emergent_aspect :: "int \<Rightarrow> string \<Rightarrow> (genesis_state, emergent_aspect) op" where
  "accept_emergent_aspect now genesis_id =
     obind (query_table gn_emergent (read_emergent_aspect genesis_id)) (\<lambda>a.
     if ea_reviewed_at a = None
     then raise_exc (RuntimeError ''genesis proposal must be reviewed before acceptance'')
     else
     let accepted = a\<lparr>ea_status := GS_ACCEPTED, ea_decided_at := Some now\<rparr> in
     obind (lift (mk_registered_aspect (ea_proposed_name a) (ea_derived_polarity a)
                    (ea_derived_entropy a) (ea_proposed_symbol a))) (\<lambda>reg.
     obind get_state (\<lambda>S.
     obind (if is_registered (gn_registry S) (ra_name reg) then ret ()
            else obind (register_in_memory reg) (\<lambda>_.
                 obind get_state (\<lambda>S.
                 write_registered_aspect now reg (int (dimensionality (gn_registry S)) - 1)))) (\<lambda>_.
     obind (emergent_write (write_emergent_aspect accepted)) (\<lambda>_. ret accepted)))))"

definition reject_emergent_aspect :: "int \<Rightarrow> string \<Rightarrow> (genesis_state, emergent_aspect) op" where
  "reject_emergent_aspect now genesis_id =
     obind (query_table gn_emergent (read_emergent_aspect genesis_id)) (\<lambda>a.
     let rejected = a\<lparr>ea_status := GS_REJECTED, ea_decided_at := Some now\<rparr> in
     obind (emergent_write (write_emergent_aspect rejected)) (\<lambda>_. ret rejected))"

definition review_emergent_aspect ::
  "int \<Rightarrow> string \<Rightarrow> string \<Rightarrow> string option \<Rightarrow> (genesis_state, emergent_aspect) op" where
  "review_emergent_aspect now genesis_id reviewer note =
     obind (query_table gn_emergent (read_emergent_aspect genesis_id)) (\<lambda>a.
     let reviewed = a\<lparr>ea_reviewed_by := Some reviewer, ea_reviewed_at := Some now, ea_review_note := note\<rparr> in
     obind (emergent_write (write_emergent_aspect reviewed)) (\<lambda>_. ret reviewed))"

section \<open>Proposing aspects from the history\<close>

text \<open>
  The clusters in the order of their first member, keyed by the index of the dominant component.
\<close>

definition dominant_index :: "real list \<Rightarrow> nat" where
  "dominant_index cs = max_by (\<lambda>i. \<bar>cs ! i\<bar>) 0 [1..<length cs]"

definition genesis_clusters :: "cast_result list \<Rightarrow> (nat, cast_result list) dict" where
  "genesis_clusters history =
     foldl (\<lambda>d c. let idx = dominant_index (comps (sg_semantic_vector (cr_sigil c))) in
              dset idx ((case dget d idx of None \<Rightarrow> [] | Some cs \<Rightarrow> cs) @ [c]) d) []
       (filter (\<lambda>c. cast_verdict c = V_COHERENT \<and> cast_adjusted c \<ge> 3 / 4) history)"

definition cluster_centroid :: "nat \<Rightarrow> cast_result list \<Rightarrow> real list" where
  "cluster_centroid d members =
     map (\<lambda>i. fdiv (foldl (\<lambda>acc c. fadd acc (comp_at (comps (sg_semantic_vector (cr_sigil c))) i)) 0 members)
                (of_int (int (length members)))) [0..<d]"

definition unexplained_variance :: "real list \<Rightarrow> real" where
  "unexplained_variance centroid =
     (let total = fsum (map abs centroid) in
      fsub 1 (fdiv (Max (set (map abs (take 6 centroid)))) (if total = 0 then 1 else total)))"

definition cluster_entropy :: "nat \<Rightarrow> real \<Rightarrow> cast_result list \<Rightarrow> real" where
  "cluster_entropy idx dominant members =
     (let spread = foldl (\<lambda>s c. let d = fsub (comp_at (comps (sg_semantic_vector (cr_sigil c))) idx) dominant
                                in fadd s (fmul d d)) 0 members
      in max 0 (min 1 \<bar>fsqrt (fdiv spread (of_int (int (length members))))\<bar>))"

text \<open>The eight ornaments, outside the 8-bit characters, are stood for by the codes 128 to 135.\<close>

definition genesis_symbols :: "string list" where
  "genesis_symbols = map (\<lambda>n. [char_of (n :: nat)]) [128..<136]"

text \<open>\<open>ids\<close> gives the fresh identity of the proposal of a cluster; a skipped cluster gives none.\<close>

definition propose_cluster ::
  "registry \<Rightarrow> (nat \<Rightarrow> string) \<Rightarrow> int \<Rightarrow> int \<Rightarrow> real \<Rightarrow> real \<Rightarrow> nat \<times> cast_result list
     \<Rightarrow> emergent_aspect option result" where
  "propose_cluster R ids now min_cluster_size min_unexplained min_coherence = (\<lambda>(idx, members).
     let n = int (length members);
         centroid = cluster_centroid (dimensionality R) members;
         mean_res = fdiv (foldl (\<lambda>acc c. fadd acc (cast_adjusted c)) 0 members) (of_int n);
         coherence = (if n > 0 then fdiv (of_int (int (length
             (filter (\<lambda>c. cast_verdict c = V_COHERENT) members)))) (of_int n) else 0);
         dominant = comp_at centroid idx in
     if n < min_cluster_size \<or> coherence < min_coherence
        \<or> (idx < 6 \<and> unexplained_variance centroid < min_unexplained)
     then Inr None
     else rbind (mk_svec centroid None) (\<lambda>v.
          rbind (mk_emergent_aspect
            \<lparr>ea_genesis_id = ids idx,
             ea_proposed_name = ''GENESIS_'' @ nat_text idx @ ''_'' @ nat_text (length members),
             ea_derived_polarity = (if dominant \<ge> 0 then 1 else -1),
             ea_derived_entropy = cluster_entropy idx dominant members,
             ea_proposed_symbol = genesis_symbols ! (idx mod length genesis_symbols),
             ea_centroid_vector = v, ea_support_count = n,
             ea_mean_resonance = max 0 (min 1 mean_res), ea_coherence_rate = max 0 (min 1 coherence),
             ea_status = GS_PROPOSED, ea_proposed_at = now, ea_decided_at = None,
             ea_reviewed_by = None, ea_reviewed_at = None, ea_review_note = None,
             ea_evidence_cast_ids = map cr_cast_id (take 10 members)\<rparr>) (\<lambda>a. Inr (Some a))))"

definition propose_genesis ::
  "registry \<Rightarrow> (nat \<Rightarrow> string) \<Rightarrow> int \<Rightarrow> cast_result list \<Rightarrow> int \<Rightarrow> real \<Rightarrow> real \<Rightarrow> emergent_aspect list result" where
  "propose_genesis R ids now history min_cluster_size min_unexplained min_coherence =
     rbind (rmap_list (propose_cluster R ids now min_cluster_size min_unexplained min_coherence)
              (genesis_clusters history)) (\<lambda>ps. Inr (List.map_filter (\<lambda>p. p) ps))"

section \<open>The genesis tools\<close>

definition emergent_aspect_to_dict :: "(int \<Rightarrow> string) \<Rightarrow> emergent_aspect \<Rightarrow> json" where
  "emergent_aspect_to_dict isof a =
     JObj [(''genesis_id'', JStr (ea_genesis_id a)), (''proposed_name'', JStr (ea_proposed_name a)),
       (''derived_polarity'', JInt (ea_derived_polarity a)),
       (''derived_entropy'', JFloat (ea_derived_entropy a)),
       (''proposed_symbol'', JStr (ea_proposed_symbol a)),
       (''centroid_vector'', floats_json (ea_centroid_vector a)),
       (''support_count'', JInt (ea_support_count a)),
       (''mean_resonance'', JFloat (ea_mean_resonance a)),
       (''coherence_rate'', JFloat (ea_coherence_rate a)),
       (''status'', JStr (enum_name genesis_members (ea_status a))),
       (''proposed_at'', JStr (isof (ea_proposed_at a))),
       (''decided_at'', opt_json (\<lambda>t. JStr (isof t)) (ea_decided_at a)),
       (''reviewed_by'', opt_str (ea_reviewed_by a)),
       (''reviewed_at'', opt_json (\<lambda>t. JStr (isof t)) (ea_reviewed_at a)),
       (''review_note'', opt_str (ea_review_note a)),
       (''evidence_cast_ids'', JList (map JStr (ea_evidence_cast_ids a)))]"

record propose_args =
  pa_history_limit :: nat
  pa_min_cluster_size :: int
  pa_min_unexplained_variance :: real
  pa_min_coherence_rate :: real

definition history_query :: "nat \<Rightarrow> semantic_query result" where
  "history_query limit =
     mk_semantic_query
       \<lparr>sq_aspect_filter = None, sq_verdict_filter = None, sq_min_resonance = None,
        sq_effect_class_filter = None, sq_branch_id = None, sq_proximity_to = None,
        sq_proximity_threshold = None, sq_limit = limit\<rparr>"

definition tool_propose_genesis ::
  "(int \<Rightarrow> string) \<Rightarrow> (nat \<Rightarrow> string) \<Rightarrow> int \<Rightarrow> propose_args \<Rightarrow> (genesis_state, json list) op" where
  "tool_propose_genesis isof ids now a =
     obind (lift (history_query (pa_history_limit a))) (\<lambda>q.
     obind get_state (\<lambda>S.
     obind (lift (query_casts (gn_registry S) q (gn_casts S))) (\<lambda>history.
     obind (lift (propose_genesis (gn_registry S) ids now history (pa_min_cluster_size a)
                    (pa_min_unexplained_variance a) (pa_min_coherence_rate a))) (\<lambda>proposals.
     obind (omap_list (\<lambda>p. emergent_write (write_emergent_aspect p)) proposals) (\<lambda>_.
     ret (map (emergent_aspect_to_dict isof) proposals))))))"

definition tool_genesis_proposals ::
  "(int \<Rightarrow> string) \<Rightarrow> string option \<Rightarrow> int \<Rightarrow> (genesis_state, json list) op" where
  "tool_genesis_proposals isof status limit =
     obind (query_table gn_emergent (query_emergent_aspects status limit)) (\<lambda>rows.
     ret (map (emergent_aspect_to_dict isof) rows))"

definition tool_accept_genesis :: "(int \<Rightarrow> string) \<Rightarrow> int \<Rightarrow> string \<Rightarrow> (genesis_state, json) op" where
  "tool_accept_genesis isof now genesis_id =
     obind (accept_emergent_aspect now genesis_id) (\<lambda>a. ret (emergent_aspect_to_dict isof a))"

definition tool_reject_genesis :: "(int \<Rightarrow> string) \<Rightarrow> int \<Rightarrow> string \<Rightarrow> (genesis_state, json) op" where
  "tool_reject_genesis isof now genesis_id =
     obind (reject_emergent_aspect now genesis_id) (\<lambda>a. ret (emergent_aspect_to_dict isof a))"

definition tool_review_genesis ::
  "(int \<Rightarrow> string) \<Rightarrow> int \<Rightarrow> string \<Rightarrow> string \<Rightarrow> string option \<Rightarrow> (genesis_state, json) op" where
  "tool_review_genesis isof now genesis_id reviewer note =
     obind (review_emergent_aspect now genesis_id reviewer note) (\<lambda>a. ret (emergent_aspect_to_dict isof a))"

section \<open>Restarting\<close>

text \<open>
  \<open>build_tools\<close> in a new process: the registered aspects in the order of their ordinals, the latest
  basis version, then the registered sigils, newest first, over the composition engine of the files.
\<close>

fun register_all :: "registered_aspect list \<Rightarrow> registry \<Rightarrow> registry result" where
  "register_all [] R = Inr R"
| "register_all (a # as) R = rbind (registry_register a R) (register_all as)"

definition load_registry :: "genesis_state \<Rightarrow> registry result" where
  "load_registry S =
     rbind (read_latest_basis_version (gn_bases S)) (\<lambda>latest.
     rbind (query_registered_aspects (gn_aspects S)) (\<lambda>rows.
     rbind (register_all (map fst rows) empty_registry) (\<lambda>R.
     Inr (set_basis_version (bi_version latest) R))))"

definition load_sigil :: "registry \<Rightarrow> sigil_row \<Rightarrow> composition \<Rightarrow> composition result" where
  "load_sigil R row C =
     rbind (rmap_list (resolve R) (srw_aspects row)) (\<lambda>resolved.
     rbind (enum_lookup effect_class_members (srw_effect_class row)) (\<lambda>ec.
     rbind (enum_lookup severity_members (srw_contradiction_severity row)) (\<lambda>sev.
     rbind (mk_sigil R (srw_name row) (remdups resolved) ec (srw_resonance_ceiling row) sev) (\<lambda>s.
     register_sigil_entry R (sg_aspects s)
       (sigil_entry s @ [(''contradiction_severity'', JStr (enum_name severity_members sev))])
       (srw_is_override row) C))))"

fun load_sigils :: "registry \<Rightarrow> sigil_row list \<Rightarrow> composition \<Rightarrow> composition result" where
  "load_sigils R [] C = Inr C"
| "load_sigils R (row # rows) C = rbind (load_sigil R row C) (load_sigils R rows)"

definition build_tools :: "composition \<Rightarrow> genesis_state \<Rightarrow> (registry \<times> composition) result" where
  "build_tools C0 S =
     rbind (load_registry S) (\<lambda>R.
     rbind (load_sigils R (query_registered_sigils (gn_sigils S)) C0) (\<lambda>C. Inr (R, C)))"

section \<open>The tables mirror the registry\<close>

definition aspect_rows :: "registered_aspect list \<Rightarrow> (string, aspect_row) dict" where
  "aspect_rows rs =
     map (\<lambda>i. (ra_name (rs ! i), \<lparr>ar_aspect = rs ! i, ar_ordinal = 6 + int i\<rparr>)) [0..<length rs]"

lemma aspect_rows_append:
  "aspect_rows (rs @ [a]) = aspect_rows rs @ [(ra_name a, \<lparr>ar_aspect = a, ar_ordinal = 6 + int (length rs)\<rparr>)]"
  by (auto simp: aspect_rows_def nth_append)

lemma keys_aspect_rows [simp]: "map fst (aspect_rows rs) = map ra_name rs"
  by (rule nth_equalityI) (simp_all add: aspect_rows_def)

definition valid_aspect :: "registered_aspect \<Rightarrow> bool" where
  "valid_aspect a \<longleftrightarrow> mk_registered_aspect (ra_name a) (ra_polarity a) (ra_entropy a) (ra_symbol a) = Inr a"

lemma mk_registered_valid: "mk_registered_aspect n p e s = Inr a \<Longrightarrow> valid_aspect a"
  by (auto simp: mk_registered_aspect_def valid_aspect_def split: if_splits)

definition synced :: "genesis_state \<Rightarrow> bool" where
  "synced S \<longleftrightarrow>
     (let R = gn_registry S; rs = registered R in
      R = registry_init rs (basis_version R) \<and> registry_ok R \<and> list_all valid_aspect rs
      \<and> gn_aspects S = aspect_rows rs \<and> distinct (map fst (gn_bases S))
      \<and> (\<forall>v \<in> fst ` set (gn_bases S). v \<le> int (basis_version R))
      \<and> (\<exists>t. (int (basis_version R), \<lparr>bv_dimensionality = int (dimensionality R),
               bv_aspect_order = map aspect_name (full_aspect_order R), bv_created_at = t\<rparr>) \<in> set (gn_bases S)))"

lemma synced_other [simp]:
  "synced (S\<lparr>gn_emergent := e\<rparr>) = synced S" "synced (S\<lparr>gn_sigils := g\<rparr>) = synced S"
  "synced (S\<lparr>gn_composition := c\<rparr>) = synced S"
  "synced (S\<lparr>gn_composition := c, gn_sigils := g\<rparr>) = synced S"
  by (simp_all add: synced_def)

lemma max_version_greatest:
  assumes "(v, row) \<in> set T" "\<forall>w \<in> fst ` set T. w \<le> v"
  shows "max_version T = v"
proof -
  obtain b bs where T: "T = b # bs" using assms(1) by (cases T) auto
  have "max_by (\<lambda>v. v) (fst b) (map fst bs) \<in> fst ` set T"
    using max_by_in [of "\<lambda>v. v" "fst b" "map fst bs"] T by auto
  moreover have "v \<in> set (fst b # map fst bs)" using assms(1) T by force
  from max_by_ge [OF this, of "\<lambda>v. v"] have "v \<le> max_by (\<lambda>v. v) (fst b) (map fst bs)" by simp
  ultimately have "max_by (\<lambda>v. v) (fst b) (map fst bs) = v"
    using assms(2) by (intro order_antisym) auto
  then show ?thesis by (simp add: max_version_def T)
qed

lemma latest_row:
  fixes v :: int
  assumes "(v, row) \<in> set T" "\<forall>w \<in> fst ` set T. w \<le> v" "distinct (map fst T)"
  shows "\<exists>rest. sort_key (\<lambda>b. - fst b) T = (v, row) # rest"
proof -
  obtain b rest where s: "sort_key (\<lambda>b. - fst b) T = b # rest"
    using assms(1) by (cases "sort_key (\<lambda>b. - fst b) T") (auto dest: arg_cong [of _ _ set])
  have "sorted (map (\<lambda>b. - fst b) (b # rest))" using sorted_sort_key [of "\<lambda>b. - fst b" T] s by simp
  moreover have "(v, row) \<in> set (b # rest)" using assms(1) s by (metis set_sort)
  ultimately have le: "v \<le> fst b" by fastforce
  have b: "b \<in> set T" using s by (metis list.set_intros(1) set_sort)
  then have "fst b \<le> v" using assms(2) by auto
  with le have "fst b = v" by simp
  with b assms(1,3) have "b = (v, row)" by (auto simp: distinct_map inj_on_def)
  with s show ?thesis by blast
qed

lemma latest_synced:
  assumes "synced S"
  shows "read_latest_basis_version (gn_bases S) =
     Inr \<lparr>bi_version = int (basis_version (gn_registry S)),
          bi_dimensionality = int (dimensionality (gn_registry S)),
          bi_aspect_order = map aspect_name (full_aspect_order (gn_registry S))\<rparr>"
proof -
  from assms obtain t rest where "sort_key (\<lambda>b. - fst b) (gn_bases S) =
      (int (basis_version (gn_registry S)), \<lparr>bv_dimensionality = int (dimensionality (gn_registry S)),
        bv_aspect_order = map aspect_name (full_aspect_order (gn_registry S)), bv_created_at = t\<rparr>) # rest"
    using latest_row by (fastforce simp: synced_def Let_def)
  then show ?thesis
    using dimensionality_ge_6 [of "gn_registry S"]
    by (simp add: read_latest_basis_version_def mk_basis_version_def flip: dimensionality_def)
qed

lemma registry_init_append:
  "registry_init (rs @ [a]) v = \<lparr>registered = rs @ [a], basis_version = v,
     by_name = dset (ra_name a) (Registered a) (by_name (registry_init rs w))\<rparr>"
  by (simp add: registry_init_def)

lemma register_all_init:
  "distinct (map ra_name (ps @ rs)) \<Longrightarrow> (\<forall>a \<in> set rs. ra_name a \<notin> range id_name) \<Longrightarrow>
   register_all rs (registry_init ps v) = Inr (registry_init (ps @ rs) (v + length rs))"
proof (induction rs arbitrary: ps v)
  case (Cons a rs)
  have "registry_register a (registry_init ps v) = Inr (registry_init (ps @ [a]) (v + 1))"
    using Cons.prems
    by (auto simp: registry_register_def register_aspect_def registry_init_append [of ps a "v + 1" v]
        registry_init_def list_ex_iff) (metis image_eqI)
  with Cons.IH [of "ps @ [a]" "v + 1"] Cons.prems show ?case by simp
qed (simp add: registry_init_def)

lemma query_aspect_rows:
  assumes "list_all valid_aspect rs"
  shows "\<exists>rows. query_registered_aspects (aspect_rows rs) = Inr rows \<and> map fst rows = rs"
proof -
  let ?rows = "map snd (aspect_rows rs)"
  have "sorted (map ar_ordinal ?rows)"
    by (auto simp: aspect_rows_def sorted_iff_nth_mono comp_def)
  then have sk: "sort_key ar_ordinal ?rows = ?rows" by (simp add: sorted_sort_id sort_key_id_if_sorted)
  have "rmap_list (\<lambda>row. rbind (mk_registered_aspect (ra_name (ar_aspect row)) (ra_polarity (ar_aspect row))
         (ra_entropy (ar_aspect row)) (ra_symbol (ar_aspect row))) (\<lambda>a. Inr (a, ar_ordinal row))) ?rows
      = Inr (map (\<lambda>row. (ar_aspect row, ar_ordinal row)) ?rows)"
    by (rule rmap_list_total) (use assms in \<open>auto simp: aspect_rows_def valid_aspect_def list_all_iff\<close>)
  moreover have "map ar_aspect ?rows = rs" by (simp add: aspect_rows_def comp_def map_nth)
  ultimately show ?thesis unfolding query_registered_aspects_def sk Let_def by (simp add: comp_def)
qed

lemma load_synced:
  assumes "synced S"
  shows "load_registry S = Inr (gn_registry S)"
proof -
  let ?R = "gn_registry S"
  from assms have R: "?R = registry_init (registered ?R) (basis_version ?R)" and ok: "registry_ok ?R"
    and v: "list_all valid_aspect (registered ?R)" and T: "gn_aspects S = aspect_rows (registered ?R)"
    by (auto simp: synced_def Let_def)
  obtain rows where q: "query_registered_aspects (gn_aspects S) = Inr rows" "map fst rows = registered ?R"
    using query_aspect_rows [OF v] T by auto
  have "distinct (map aspect_name (full_aspect_order ?R))" using ok by (simp add: registry_ok_def)
  then have "distinct (map ra_name ([] @ registered ?R))" "\<forall>a \<in> set (registered ?R). ra_name a \<notin> range id_name"
    by (auto simp: full_aspect_order_def comp_def)
  from register_all_init [OF this, of 0] have
    "register_all (registered ?R) empty_registry = Inr (registry_init (registered ?R) (length (registered ?R)))"
    by (simp add: empty_registry_def)
  moreover have "set_basis_version (int (basis_version ?R)) (registry_init (registered ?R) n) = ?R" for n
    by (subst (3) R) (simp add: set_basis_version_def registry_init_def)
  ultimately show ?thesis by (simp add: load_registry_def latest_synced [OF assms] q)
qed

section \<open>Registering keeps the mirror\<close>

lemma set_dreplace: "set (dreplace k v d) = {(k', v') \<in> set d. k' \<noteq> k} \<union> {(k, v)}"
  by (auto simp: dreplace_def AList.delete_eq)

lemma keys_dreplace: "distinct (map fst d) \<Longrightarrow> distinct (map fst (dreplace k v d))"
  using AList.distinct_delete [of d k] by (auto simp: dreplace_def AList.delete_eq)

text \<open>Registering a valid aspect and storing it: the pair of steps of the tool and of an acceptance.\<close>

definition register_and_store :: "int \<Rightarrow> registered_aspect \<Rightarrow> (genesis_state, unit) op" where
  "register_and_store now a =
     obind (register_in_memory a) (\<lambda>_.
     obind get_state (\<lambda>S. write_registered_aspect now a (int (dimensionality (gn_registry S)) - 1)))"

lemma register_and_store_synced:
  assumes "synced S" "valid_aspect a" "register_and_store now a S = (r, S')"
  shows "synced S' \<and> (r = Inr () \<and> registered (gn_registry S') = registered (gn_registry S) @ [a]
      \<and> basis_version (gn_registry S') = basis_version (gn_registry S) + 1
    \<or> (\<exists>m. r = Inl (ValueError m)) \<and> S' = S)"
proof (cases "registry_register a (gn_registry S)")
  case (Inl e)
  then show ?thesis using assms
    by (auto simp: register_and_store_def register_in_memory_def obind_def registry_register_def
        register_aspect_def rbind_Inl_iff split: if_splits)
next
  case (Inr R')
  let ?R = "gn_registry S" and ?n = "int (basis_version (gn_registry S)) + 1"
  note D = registry_registerD [OF Inr]
  from assms(1) have R: "?R = registry_init (registered ?R) (basis_version ?R)" and ok: "registry_ok ?R"
    and v: "list_all valid_aspect (registered ?R)" and T: "gn_aspects S = aspect_rows (registered ?R)"
    and db: "distinct (map fst (gn_bases S))" and le: "\<forall>v \<in> fst ` set (gn_bases S). v \<le> int (basis_version ?R)"
    and row: "\<exists>row. (int (basis_version ?R), row) \<in> set (gn_bases S)"
    by (auto simp: synced_def Let_def)
  have mv: "max_version (gn_bases S) = int (basis_version ?R)" using row le max_version_greatest by blast
  have fresh: "ra_name a \<notin> set (map fst (gn_aspects S))" using D(3) by (simp add: T image_iff)
  then have nh: "\<not> dhas (gn_aspects S) (ra_name a)" by (simp add: map_of_eq_None_iff)
  have R': "set_basis_version ?n R' = R'" "basis_version R' = basis_version ?R + 1"
    "registered R' = registered ?R @ [a]"
    by (simp_all add: D(1) set_basis_version_def nat_add_distrib)
  have init: "R' = registry_init (registered R') (basis_version R')"
    by (subst D(1), subst R) (simp add: D(1) registry_init_def)
  have dim: "int (dimensionality R') - 1 = 6 + int (length (registered ?R))"
    by (simp add: dimensionality_eq R')
  define row' where "row' = \<lparr>bv_dimensionality = int (dimensionality R'),
     bv_aspect_order = map aspect_name (full_aspect_order R'), bv_created_at = now\<rparr>"
  have S': "r = Inr ()" "S' = S\<lparr>gn_registry := R', gn_aspects := aspect_rows (registered R'),
      gn_bases := dreplace ?n row' (gn_bases S)\<rparr>"
    using assms(3) nh Inr
    by (auto simp: register_and_store_def register_in_memory_def obind_def get_state_def
        write_registered_aspect_def Let_def mv R' dim T dset_fresh [OF fresh [unfolded T set_map]] aspect_rows_append
        row'_def dimensionality_eq)
  have "synced S'"
    unfolding synced_def Let_def S'(2)
  proof (intro conjI, goal_cases)
    case 1
    then show ?case by simp (rule init)
  next
    case 2
    then show ?case using registry_register_ok [OF Inr ok] by simp
  next
    case 3
    then show ?case using v assms(2) by (simp add: R')
  next
    case 5
    then show ?case using keys_dreplace [OF db] by simp
  qed (use le in \<open>auto simp: R' set_dreplace row'_def intro!: exI [of _ now]\<close>)
  then show ?thesis using S' R' by simp
qed

lemma synced_register_and_store: "valid_aspect a \<Longrightarrow> preserves synced (register_and_store now a)"
  using register_and_store_synced by (auto simp: preserves_def) (metis prod.collapse)

lemma synced_register_aspect: "preserves synced (tool_register_aspect now n p e sy)"
  unfolding tool_register_aspect_def
proof (rule preserves_obind_lift)
  fix a assume "mk_registered_aspect n p e sy = Inr a"
  have same: "snd (obind (register_in_memory a) (\<lambda>_. obind get_state (\<lambda>S.
     let ordinal = int (dimensionality (gn_registry S)) - 1 in
     obind (write_registered_aspect now a ordinal) (\<lambda>_. ret (aspect_json a ordinal)))) S)
     = snd (register_and_store now a S)" for S
    by (simp add: register_and_store_def obind_def get_state_def ret_def Let_def split: prod.split sum.split)
  from synced_register_and_store [OF mk_registered_valid [OF \<open>mk_registered_aspect n p e sy = Inr a\<close>]]
  show "preserves synced (obind (register_in_memory a) (\<lambda>_. obind get_state (\<lambda>S.
     let ordinal = int (dimensionality (gn_registry S)) - 1 in
     obind (write_registered_aspect now a ordinal) (\<lambda>_. ret (aspect_json a ordinal)))))"
    unfolding preserves_def same .
qed

lemma synced_emergent_write [intro!, simp]: "preserves synced (emergent_write w)"
  by (auto intro!: preserves_write)

lemma synced_genesis_tools:
  "preserves synced (tool_accept_genesis isof now gid)" "preserves synced (tool_reject_genesis isof now gid)"
  "preserves synced (tool_review_genesis isof now gid reviewer note)"
  "preserves synced (tool_propose_genesis isof ids now pa)"
proof -
  show "preserves synced (tool_accept_genesis isof now gid)"
    unfolding tool_accept_genesis_def accept_emergent_aspect_def register_and_store_def [symmetric] Let_def
    by (intro preserves_obind preserves_query preserves_ret)
      (auto intro!: preserves_obind_lift preserves_obind synced_register_and_store dest: mk_registered_valid)
  show "preserves synced (tool_reject_genesis isof now gid)"
    "preserves synced (tool_review_genesis isof now gid reviewer note)"
    "preserves synced (tool_propose_genesis isof ids now pa)"
    unfolding tool_reject_genesis_def reject_emergent_aspect_def tool_review_genesis_def
      review_emergent_aspect_def tool_propose_genesis_def Let_def
    by (auto intro!: preserves_obind)
qed

lemma synced_register_sigil: "preserves synced (tool_register_sigil now payload)"
  by (auto simp: preserves_def tool_register_sigil_def split: sum.splits prod.splits)

text \<open>The calls that change the registry, the sigils or the proposals, returning or raising.\<close>

inductive genesis_step :: "genesis_state \<Rightarrow> genesis_state \<Rightarrow> bool" where
  aspect_step: "tool_register_aspect now n p e sy S = (r, S') \<Longrightarrow> genesis_step S S'"
| sigil_step: "tool_register_sigil now payload S = (r, S') \<Longrightarrow> genesis_step S S'"
| propose_step: "tool_propose_genesis isof ids now pa S = (rs, S') \<Longrightarrow> genesis_step S S'"
| review_step: "tool_review_genesis isof now gid reviewer note S = (r, S') \<Longrightarrow> genesis_step S S'"
| accept_step: "tool_accept_genesis isof now gid S = (r, S') \<Longrightarrow> genesis_step S S'"
| reject_step: "tool_reject_genesis isof now gid S = (r, S') \<Longrightarrow> genesis_step S S'"

definition new_grimoire :: "int \<Rightarrow> composition \<Rightarrow> cast_table \<Rightarrow> genesis_state" where
  "new_grimoire now C ctab =
     \<lparr>gn_registry = empty_registry, gn_composition = C, gn_aspects = [], gn_sigils = [],
      gn_bases = [(0, \<lparr>bv_dimensionality = 6, bv_aspect_order = map id_name all_aspect_ids, bv_created_at = now\<rparr>)],
      gn_emergent = [], gn_casts = ctab\<rparr>"

lemma synced_new: "synced (new_grimoire now C ctab)"
  using registry_ok_empty
  by (auto simp: synced_def Let_def new_grimoire_def empty_registry_def registry_init_def aspect_rows_def
      dimensionality_eq full_aspect_order_def comp_def)

lemma genesis_step_synced: "genesis_step S S' \<Longrightarrow> synced S \<Longrightarrow> synced S'"
  by (induction rule: genesis_step.induct)
    (blast intro: preservesD [OF synced_register_aspect] preservesD [OF synced_register_sigil]
      preservesD [OF synced_genesis_tools(1)] preservesD [OF synced_genesis_tools(2)]
      preservesD [OF synced_genesis_tools(3)] preservesD [OF synced_genesis_tools(4)])+

lemma reachable_synced: "genesis_step\<^sup>*\<^sup>* (new_grimoire now C ctab) S \<Longrightarrow> synced S"
  by (induction rule: rtranclp_induct) (auto intro: synced_new genesis_step_synced)

text \<open>
  C24. A restart restores the registry: whatever sequence of registrations, proposals, reviews,
  acceptances and rejections (failing ones included) a new grimoire has seen, loading its tables in
  a new process yields exactly the registry of the running one - the same aspects in the same order,
  the same name index and basis version - and the latest basis row describes that registry.
\<close>

theorem restart_restores_registry:
  assumes "genesis_step\<^sup>*\<^sup>* (new_grimoire now C ctab) S"
  shows "load_registry S = Inr (gn_registry S) \<and> registry_ok (gn_registry S)
    \<and> read_latest_basis_version (gn_bases S) =
        Inr \<lparr>bi_version = int (basis_version (gn_registry S)),
             bi_dimensionality = int (dimensionality (gn_registry S)),
             bi_aspect_order = map aspect_name (full_aspect_order (gn_registry S))\<rparr>
    \<and> (\<forall>name. is_registered (gn_registry S) name \<longleftrightarrow> dhas (gn_aspects S) name)"
proof -
  let ?R = "gn_registry S"
  have s: "synced S" by (rule reachable_synced [OF assms])
  then have ok: "registry_ok ?R" and T: "gn_aspects S = aspect_rows (registered ?R)"
    by (simp_all add: synced_def Let_def)
  have "is_registered ?R name \<longleftrightarrow> name \<in> ra_name ` set (registered ?R)" for name
  proof
    assume "is_registered ?R name"
    then obtain r where "dget (by_name ?R) name = Some (Registered r)"
      by (auto simp: is_registered_def split: option.splits aspect.splits)
    with ok show "name \<in> ra_name ` set (registered ?R)"
      by (auto simp: registry_ok_def full_aspect_order_def)
  next
    assume "name \<in> ra_name ` set (registered ?R)"
    then obtain r where "r \<in> set (registered ?R)" "name = ra_name r" by auto
    with ok have "dget (by_name ?R) name = Some (Registered r)"
      by (simp add: registry_ok_def full_aspect_order_def)
    then show "is_registered ?R name" by (simp add: is_registered_def)
  qed
  moreover have "dhas (gn_aspects S) name \<longleftrightarrow> name \<in> ra_name ` set (registered ?R)" for name
    using keys_aspect_rows [of "registered ?R"] by (metis T map_of_eq_None_iff list.set_map)
  ultimately show ?thesis using ok load_synced [OF s] latest_synced [OF s] by simp
qed

section \<open>Overridden sigils and the restart\<close>

lemma register_entry_keys:
  "register_sigil_entry R A e ov C = Inr C' \<Longrightarrow>
   dhas (cm_table C') k \<longleftrightarrow> k = canonical_aspect_key R A \<or> dhas (cm_table C) k"
  by (auto simp: register_sigil_entry_def Let_def dict_simps split: if_splits)

lemma load_sigil_keys:
  assumes "load_sigil R row C = Inr C'"
  shows "dhas (cm_table C) k \<Longrightarrow> dhas (cm_table C') k"
proof -
  obtain A e ov where "register_sigil_entry R A e ov C = Inr C'"
    using assms by (auto simp: load_sigil_def rbind_Inr_iff)
  from register_entry_keys [OF this, of k] show "dhas (cm_table C) k \<Longrightarrow> dhas (cm_table C') k" by simp
qed

lemma load_sigils_keys:
  "load_sigils R rows C = Inr C' \<Longrightarrow> dhas (cm_table C) k \<Longrightarrow> dhas (cm_table C') k"
  by (induction rows arbitrary: C) (auto simp: rbind_Inr_iff dest: load_sigil_keys)

text \<open>A row stored for a set of known aspects is loaded under the key of that set.\<close>

lemma load_sigil_row:
  assumes "registry_ok R" "set (sg_aspects s) \<subseteq> set (full_aspect_order R)" "distinct (sg_aspects s)"
    and "load_sigil R (sigil_row_of now s ov) C = Inr C'"
  shows "dhas (cm_table C') (canonical_aspect_key R (sg_aspects s))"
    and "\<not> ov \<Longrightarrow> \<not> dhas (cm_table C) (canonical_aspect_key R (sg_aspects s))"
  using assms(4)
  by (auto simp: load_sigil_def sigil_row_of_def resolve_names [OF assms(1,2)] distinct_remdups_id [OF assms(3)]
      rbind_Inr_iff mk_sigil_def register_sigil_entry_def Let_def dict_simps split: if_splits)

lemma older_row_clashes:
  assumes R: "registry_ok R" "set (sg_aspects s1) \<subseteq> set (full_aspect_order R)" "distinct (sg_aspects s1)"
      "set (sg_aspects s2) \<subseteq> set (full_aspect_order R)" "distinct (sg_aspects s2)"
    and key: "canonical_aspect_key R (sg_aspects s1) = canonical_aspect_key R (sg_aspects s2)"
    and rows: "rows = xs @ sigil_row_of t1 s1 False # ys" "sigil_row_of t2 s2 ov \<in> set xs"
  shows "\<exists>e. load_sigils R rows C = Inl e"
proof (rule ccontr)
  assume "\<nexists>e. load_sigils R rows C = Inl e"
  then obtain C' where C': "load_sigils R rows C = Inr C'" by (cases "load_sigils R rows C") auto
  have app: "load_sigils R (as @ bs) D = Inr D' \<longleftrightarrow>
      (\<exists>E. load_sigils R as D = Inr E \<and> load_sigils R bs E = Inr D')" for as bs D D'
    by (induction as arbitrary: D) (auto simp: rbind_Inr_iff)
  obtain us vs where xs: "xs = us @ sigil_row_of t2 s2 ov # vs" using rows(2) by (auto simp: in_set_conv_decomp)
  from C' obtain D1 D2 D3 D4 where "load_sigil R (sigil_row_of t2 s2 ov) D1 = Inr D2"
    and l2: "load_sigils R vs D2 = Inr D3" and l1: "load_sigil R (sigil_row_of t1 s1 False) D3 = Inr D4"
    by (auto simp: rows(1) xs app rbind_Inr_iff)
  from load_sigil_row(1) [OF R(1,4,5) this(1)] have "dhas (cm_table D3) (canonical_aspect_key R (sg_aspects s2))"
    by (rule load_sigils_keys [OF l2])
  with load_sigil_row(2) [OF R(1-3) l1] key show False by simp
qed

lemma sigil_arguments_aspects:
  assumes "sigil_arguments R payload = Inr (s, ov)" "registry_ok R"
  shows "set (sg_aspects s) \<subseteq> set (full_aspect_order R)" "distinct (sg_aspects s)"
proof -
  have r: "rmap_list (\<lambda>n. case n of JStr n \<Rightarrow> resolve_aspect_arg R n
       | _ \<Rightarrow> Inl (ValueError ''aspects must be a list of strings'')) items = Inr A \<Longrightarrow>
     set A \<subseteq> set (full_aspect_order R)" for items A
    using assms(2)
    by (induction items arbitrary: A)
      (auto simp: rbind_Inr_iff resolve_aspect_arg_def resolve_def registry_ok_def
        split: json.splits option.splits sum.splits py_exc.splits)
  from assms(1) obtain items A where "rmap_list (\<lambda>n. case n of JStr n \<Rightarrow> resolve_aspect_arg R n
       | _ \<Rightarrow> Inl (ValueError ''aspects must be a list of strings'')) items = Inr A" "sg_aspects s = remdups A"
    by (auto simp: sigil_arguments_def Let_def rbind_Inr_iff mk_sigil_def split: if_splits)
  with r show "set (sg_aspects s) \<subseteq> set (full_aspect_order R)" "distinct (sg_aspects s)" by auto
qed

lemma sort_key_before:
  assumes "a \<in> set xs" "b \<in> set xs" "f b < f a"
  shows "\<exists>us vs. sort_key f xs = us @ a # vs \<and> b \<in> set us"
proof -
  obtain us vs where s: "sort_key f xs = us @ a # vs"
    using assms(1) by (metis set_sort split_list)
  have "sorted (map f (us @ a # vs))" using sorted_sort_key [of f xs] s by simp
  then have "\<forall>c \<in> set vs. f a \<le> f c" by (simp add: sorted_append)
  moreover have "b \<in> set us \<union> {a} \<union> set vs" using assms(2) s by (metis UnCI UnE insertE insert_is_Un list.set(2) set_append set_sort Un_assoc)
  ultimately have "b \<in> set us" using assms(3) by auto
  with s show ?thesis by blast
qed

lemma register_sigil_row:
  assumes "tool_register_sigil now payload S = (Inr out, S')"
  obtains s ov where "sigil_arguments (gn_registry S) payload = Inr (s, ov)" "gn_registry S' = gn_registry S"
    "gn_sigils S' = dreplace (sg_name s) (sigil_row_of now s ov) (gn_sigils S)"
  using assms
  by (auto simp: tool_register_sigil_def rbind_Inr_iff write_registered_sigil_def sigil_row_of_def
      split: sum.splits)

text \<open>
  C38. An override breaks the restart: after a sigil was registered without override and, right
  after it, another name for the same aspects (which only an override allows), loading the grimoire then in
  a new process always raises, whatever was done before the two - the rows come newest first, so the older one
  meets the combination already taken.
\<close>

theorem override_breaks_restart:
  assumes "genesis_step\<^sup>*\<^sup>* (new_grimoire now C ctab) S"
    and "tool_register_sigil t1 p1 S = (Inr out1, S1)" "tool_register_sigil t2 p2 S1 = (Inr out2, S2)"
    and "sigil_arguments (gn_registry S) p1 = Inr (s1, False)" "sigil_arguments (gn_registry S) p2 = Inr (s2, ov)"
    and "t1 < t2" "sg_name s1 \<noteq> sg_name s2"
    and "canonical_aspect_key (gn_registry S) (sg_aspects s1) = canonical_aspect_key (gn_registry S) (sg_aspects s2)"
  shows "\<exists>e. build_tools C0 S2 = Inl e"
proof -
  let ?R = "gn_registry S" and ?f = "\<lambda>row. - srw_registered_at row"
  have "synced S" by (rule reachable_synced [OF assms(1)])
  then have ok: "registry_ok ?R" by (simp add: synced_def Let_def)
  from assms(2-5) have R: "gn_registry S1 = ?R" "gn_registry S2 = ?R" and rows: "gn_sigils S2 =
      dreplace (sg_name s2) (sigil_row_of t2 s2 ov) (dreplace (sg_name s1) (sigil_row_of t1 s1 False) (gn_sigils S))"
    by (auto elim!: register_sigil_row)
  have "sigil_row_of t1 s1 False \<in> set (map snd (gn_sigils S2))" "sigil_row_of t2 s2 ov \<in> set (map snd (gn_sigils S2))"
    using assms(7) unfolding rows by (force simp: set_dreplace)+
  moreover have "?f (sigil_row_of t2 s2 ov) < ?f (sigil_row_of t1 s1 False)"
    using assms(6) by (simp add: sigil_row_of_def)
  ultimately obtain us vs where q: "query_registered_sigils (gn_sigils S2) = us @ sigil_row_of t1 s1 False # vs"
    and m: "sigil_row_of t2 s2 ov \<in> set us"
    using sort_key_before [of _ _ _ ?f] unfolding query_registered_sigils_def by blast
  note a1 = sigil_arguments_aspects [OF assms(4) ok] and a2 = sigil_arguments_aspects [OF assms(5) ok]
  obtain e where "load_sigils ?R (query_registered_sigils (gn_sigils S2)) C0 = Inl e"
    using older_row_clashes [OF ok a1 a2 assms(8) q m] by blast
  moreover have "synced S2"
    using \<open>synced S\<close> assms(2,3) preservesD [OF synced_register_sigil] by metis
  ultimately show ?thesis using load_synced [of S2] R by (simp add: build_tools_def)
qed

section \<open>Genesis needs a review, and cannot be repeated\<close>

lemma register_and_store_registers:
  "register_and_store now a S = (Inr u, S') \<Longrightarrow> is_registered (gn_registry S') (ra_name a)"
  by (auto simp: register_and_store_def register_in_memory_def obind_def get_state_def
      write_registered_aspect_def Let_def is_registered_def set_basis_version_def dict_simps
      dest!: registry_registerD(1) split: sum.splits if_splits)

lemma accept_needs_review:
  assumes "accept_emergent_aspect now gid S = (Inr a, S')"
  shows "\<exists>a0. read_emergent_aspect gid (gn_emergent S) = Inr a0 \<and> ea_reviewed_at a0 \<noteq> None
    \<and> a = a0\<lparr>ea_status := GS_ACCEPTED, ea_decided_at := Some now\<rparr>
    \<and> is_registered (gn_registry S') (ea_proposed_name a0) \<and> dhas (gn_emergent S') (ea_genesis_id a0)"
proof -
  from assms obtain a0 reg S1 T where a0: "read_emergent_aspect gid (gn_emergent S) = Inr a0" "ea_reviewed_at a0 \<noteq> None"
    and a: "a = a0\<lparr>ea_status := GS_ACCEPTED, ea_decided_at := Some now\<rparr>"
    and reg: "mk_registered_aspect (ea_proposed_name a0) (ea_derived_polarity a0)
                    (ea_derived_entropy a0) (ea_proposed_symbol a0) = Inr reg"
    and S1: "(if is_registered (gn_registry S) (ra_name reg) then ret () else register_and_store now reg) S = (Inr (), S1)"
    and T: "write_emergent_aspect a (gn_emergent S1) = Inr T" "S' = S1\<lparr>gn_emergent := T\<rparr>"
    unfolding accept_emergent_aspect_def register_and_store_def [symmetric] Let_def
    by (auto simp: obind_Inr_iff table_Inr_iff guard_Inr_iff)
  have n: "ra_name reg = ea_proposed_name a0" using reg by (auto simp: mk_registered_aspect_def split: if_splits)
  have "is_registered (gn_registry S1) (ra_name reg)"
    using S1 register_and_store_registers [of now reg S "()" S1] by (auto split: if_splits)
  moreover have "dhas T (ea_genesis_id a0)"
    using T(1) by (auto simp: write_emergent_aspect_def rbind_Inr_iff a dict_simps split: if_splits)
  ultimately show ?thesis using a0 a T(2) n by auto
qed

text \<open>The default of 500 casts is above the limit of a query, so a call with the defaults raises.\<close>

lemma default_history_refused:
  "pa_history_limit pa = 500 \<Longrightarrow>
   tool_propose_genesis isof ids now pa S = (Inl (ValueError ''SemanticQuery''), S)"
  by (simp add: tool_propose_genesis_def history_query_def mk_semantic_query_def obind_def lift_def)

text \<open>Witnesses.\<close>

definition sample_payload :: "string \<Rightarrow> bool \<Rightarrow> (string, json) dict" where
  "sample_payload name override =
     [(''name'', JStr name), (''aspects'', JList [JStr ''VOID'']), (''effect_class'', JStr ''FORCE''),
      (''resonance_ceiling'', JFloat 1), (''contradiction_severity'', JStr ''NONE''),
      (''allow_override'', JBool override)]"

lemma sample_arguments:
  "\<exists>s. sigil_arguments empty_registry (sample_payload [c] ov) = Inr (s, ov) \<and> sg_name s = [c] \<and> sg_aspects s = [Canonical VOID]"
  if "\<not> is_space c"
  using that
  by (simp add: sigil_arguments_def sample_payload_def dget_or_def py_str_def strip_text_def raise_if_def
      resolve_aspect_arg_def resolve_def empty_registry_def registry_init_def canonical_by_name_def
      all_aspect_ids_def enum_lookup_def effect_class_members_def severity_members_def mk_sigil_def)

lemma sample_registrations:
  "\<exists>out1 S1 out2 S2. tool_register_sigil 1 (sample_payload ''A'' False) (new_grimoire 0 sample_composition []) = (Inr out1, S1)
     \<and> tool_register_sigil 2 (sample_payload ''B'' True) S1 = (Inr out2, S2)"
proof -
  have k: "canonical_aspect_key empty_registry [Canonical VOID] = ''VOID''"
    by (simp add: canonical_aspect_key_def)
  obtain s1 where s1: "sigil_arguments empty_registry (sample_payload ''A'' False) = Inr (s1, False)"
    "sg_aspects s1 = [Canonical VOID]"
    using sample_arguments [of "CHR ''A''" False] by (auto simp: is_space_def)
  obtain s2 where s2: "sigil_arguments empty_registry (sample_payload ''B'' True) = Inr (s2, True)"
    using sample_arguments [of "CHR ''B''" True] by (auto simp: is_space_def)
  show ?thesis
    by (simp add: tool_register_sigil_def new_grimoire_def s1 s2 register_sigil_entry_def k s1(2) sample_composition_def Let_def)
qed

lemma override_breaks_restart_witness:
  "\<exists>out1 S1 out2 S2 e. tool_register_sigil 1 (sample_payload ''A'' False) (new_grimoire 0 sample_composition []) = (Inr out1, S1)
     \<and> tool_register_sigil 2 (sample_payload ''B'' True) S1 = (Inr out2, S2)
     \<and> build_tools sample_composition S2 = Inl e"
proof -
  obtain out1 S1 out2 S2 where t: "tool_register_sigil 1 (sample_payload ''A'' False) (new_grimoire 0 sample_composition []) = (Inr out1, S1)"
    "tool_register_sigil 2 (sample_payload ''B'' True) S1 = (Inr out2, S2)" using sample_registrations by blast
  obtain s1 where s1: "sigil_arguments empty_registry (sample_payload ''A'' False) = Inr (s1, False)"
    "sg_name s1 = ''A''" "sg_aspects s1 = [Canonical VOID]"
    using sample_arguments [of "CHR ''A''" False] by (auto simp: is_space_def)
  obtain s2 where s2: "sigil_arguments empty_registry (sample_payload ''B'' True) = Inr (s2, True)"
    "sg_name s2 = ''B''" "sg_aspects s2 = [Canonical VOID]"
    using sample_arguments [of "CHR ''B''" True] by (auto simp: is_space_def)
  have g: "gn_registry (new_grimoire 0 sample_composition []) = empty_registry" by (simp add: new_grimoire_def)
  from override_breaks_restart [OF rtranclp.rtrancl_refl t, of s1 s2 True sample_composition] s1 s2 t
  show ?thesis by (auto simp: g)
qed

lemma sample_register:
  "\<exists>out S'. tool_register_aspect 1 ''TIME'' 1 (1/2) ''T'' (new_grimoire 0 sample_composition []) = (Inr out, S')
     \<and> registered (gn_registry S') = [\<lparr>ra_name = ''TIME'', ra_polarity = 1, ra_entropy = 1/2, ra_symbol = ''T''\<rparr>]"
proof -
  have "is_upper (CHR ''T'')" "is_upper (CHR ''I'')" "is_upper (CHR ''M'')" "is_upper (CHR ''E'')"
    by (simp_all add: is_upper_def less_eq_char_def)
  then show ?thesis
    by (simp add: tool_register_aspect_def mk_registered_aspect_def name_pattern_def obind_def lift_def
        register_in_memory_def registry_register_def register_aspect_def new_grimoire_def empty_registry_def
        registry_init_def all_aspect_ids_def get_state_def write_registered_aspect_def Let_def ret_def
        set_basis_version_def)
qed

lemma restart_restores_registry_witness:
  "\<exists>out S'. tool_register_aspect 1 ''TIME'' 1 (1/2) ''T'' (new_grimoire 0 sample_composition []) = (Inr out, S')
     \<and> load_registry S' = Inr (gn_registry S') \<and> registered (gn_registry S') \<noteq> []"
proof -
  obtain out S' where t: "tool_register_aspect 1 ''TIME'' 1 (1/2) ''T'' (new_grimoire 0 sample_composition []) = (Inr out, S')"
    and r: "registered (gn_registry S') \<noteq> []" using sample_register by fastforce
  have "genesis_step\<^sup>*\<^sup>* (new_grimoire 0 sample_composition []) S'"
    by (rule r_into_rtranclp) (rule aspect_step [OF t])
  from restart_restores_registry [OF this] t r show ?thesis by blast
qed

end
