(* ===== verification/GrimoireTools.thy ===== *)
theory GrimoireTools
  imports Genesis
begin

text \<open>
  The tools that read the grimoire and steer channels and swarms: \<open>src/vermyth/mcp/tools/query.py\<close>,
  \<open>seeds.py\<close>, \<open>drift.py\<close> and \<open>swarm.py\<close>, with the serialisers of \<open>src/vermyth/mcp/tools/facade.py\<close>.
\<close>

section \<open>State\<close>

record tool_state =
  tl_cast :: cast_state
  tl_swarms :: swarm_db
  tl_thresholds :: thresholds_table

definition on_cast :: "(cast_state, 'a) op \<Rightarrow> (tool_state, 'a) op" where
  "on_cast m S = (case m (tl_cast S) of (r, C) \<Rightarrow> (r, S\<lparr>tl_cast := C\<rparr>))"

abbreviation swarm_write :: "(swarm_db \<Rightarrow> swarm_db result) \<Rightarrow> (tool_state, unit) op" where
  "swarm_write \<equiv> write_table tl_swarms (\<lambda>T. tl_swarms_update (\<lambda>_. T))"

text \<open>\<open>str(exc)\<close>: a \<open>KeyError\<close> prints the representation of its key.\<close>

fun str_exc :: "py_exc \<Rightarrow> string" where
  "str_exc (KeyError k) = repr_str k"
| "str_exc e = exc_text e"

text \<open>An exception handler that lets some classes pass and wraps the rest.\<close>

definition wrap_except :: "(py_exc \<Rightarrow> bool) \<Rightarrow> string \<Rightarrow> 'a result \<Rightarrow> 'a result" where
  "wrap_except passes tool r =
     (case r of
        Inl e \<Rightarrow> Inl (if passes e then e else RuntimeError (tool @ '' failed: '' @ str_exc e))
      | Inr x \<Rightarrow> Inr x)"

fun is_value_error :: "py_exc \<Rightarrow> bool" where
  "is_value_error (ValueError _) = True"
| "is_value_error _ = False"

fun is_key_error :: "py_exc \<Rightarrow> bool" where
  "is_key_error (KeyError _) = True"
| "is_key_error _ = False"

section \<open>Queries\<close>

definition cast_dicts :: "(int \<Rightarrow> string) \<Rightarrow> cast_state \<Rightarrow> cast_result list \<Rightarrow> json list" where
  "cast_dicts isof C rs = map (\<lambda>r. JObj (cast_result_to_dict isof C r)) rs"

definition given :: "(string, json) dict \<Rightarrow> string \<Rightarrow> json option" where
  "given d k = (case dget d k of Some JNull \<Rightarrow> None | v \<Rightarrow> v)"

definition query_filters :: "(string, json) dict \<Rightarrow> semantic_query result" where
  "query_filters f =
     rbind (case given f ''verdict_filter'' of
              None \<Rightarrow> Inr None
            | Some v \<Rightarrow> rbind (enum_json_lookup verdict_members v) (\<lambda>x. Inr (Some x))) (\<lambda>vf.
     rbind (case given f ''min_resonance'' of
              None \<Rightarrow> Inr None | Some v \<Rightarrow> rbind (py_float v) (\<lambda>x. Inr (Some x))) (\<lambda>mr.
     rbind (case given f ''limit'' of None \<Rightarrow> Inr 20 | Some v \<Rightarrow> py_int v) (\<lambda>limit.
     if limit < 0 then Inl (ValueError ''SemanticQuery'')
     else mk_semantic_query
       \<lparr>sq_aspect_filter = None, sq_verdict_filter = vf, sq_min_resonance = mr,
        sq_effect_class_filter = None, sq_branch_id = map_option py_str (given f ''branch_id''),
        sq_proximity_to = None, sq_proximity_threshold = None, sq_limit = nat limit\<rparr>)))"

definition tool_query ::
  "registry \<Rightarrow> (int \<Rightarrow> string) \<Rightarrow> (string, json) dict \<Rightarrow> cast_state \<Rightarrow> json list result" where
  "tool_query R isof filters C =
     wrap_except is_value_error ''query''
       (rbind (query_filters filters) (\<lambda>q.
        rbind (query_casts R q (gd_casts (ct_graph C))) (\<lambda>rows. Inr (cast_dicts isof C rows))))"

definition tool_semantic_search ::
  "registry \<Rightarrow> (int \<Rightarrow> string) \<Rightarrow> real list \<Rightarrow> real \<Rightarrow> nat \<Rightarrow> cast_state \<Rightarrow> json list result" where
  "tool_semantic_search R isof proximity threshold limit C =
     wrap_except is_value_error ''semantic_search''
       (if length proximity \<noteq> 6 then Inl (ValueError ''proximity_vector must have exactly 6 elements'')
        else if \<not> list_all (\<lambda>x. -1 \<le> x \<and> x \<le> 1) proximity
        then Inl (ValueError ''proximity_vector components must be between -1.0 and 1.0'')
        else if threshold < 0 \<or> threshold > 1
        then Inl (ValueError ''threshold must be between 0.0 and 1.0'')
        else
        rbind (mk_svec proximity None) (\<lambda>v.
        rbind (mk_semantic_query
          \<lparr>sq_aspect_filter = None, sq_verdict_filter = None, sq_min_resonance = None,
           sq_effect_class_filter = None, sq_branch_id = None, sq_proximity_to = Some v,
           sq_proximity_threshold = Some threshold, sq_limit = limit\<rparr>) (\<lambda>q.
        rbind (semantic_search R q (gd_casts (ct_graph C))) (\<lambda>rows. Inr (cast_dicts isof C rows)))))"

definition tool_inspect :: "registry \<Rightarrow> (int \<Rightarrow> string) \<Rightarrow> string \<Rightarrow> cast_state \<Rightarrow> json result" where
  "tool_inspect R isof cast_id C =
     wrap_except is_key_error ''inspect''
       (rbind (read_cast R cast_id (gd_casts (ct_graph C))) (\<lambda>r.
        Inr (JObj (cast_result_to_dict isof C r))))"

text \<open>
  The walk to the root: the cast, its parent, and so on, at most \<open>n\<close> casts. The tools reverse it.
\<close>

fun walk_lineage :: "registry \<Rightarrow> nat \<Rightarrow> string \<Rightarrow> cast_table \<Rightarrow> cast_result list result" where
  "walk_lineage R 0 cur T = Inr []"
| "walk_lineage R (Suc n) cur T =
     rbind (read_cast R cur T) (\<lambda>r.
     case cr_lineage r of
       None \<Rightarrow> Inr [r]
     | Some l \<Rightarrow> rbind (walk_lineage R n (ln_parent_cast_id l) T) (\<lambda>rest. Inr (r # rest)))"

definition tool_lineage ::
  "registry \<Rightarrow> (int \<Rightarrow> string) \<Rightarrow> string \<Rightarrow> int \<Rightarrow> cast_state \<Rightarrow> json list result" where
  "tool_lineage R isof cast_id max_depth C =
     wrap_except is_key_error ''lineage''
       (rbind (walk_lineage R (nat max_depth) cast_id (gd_casts (ct_graph C))) (\<lambda>chain_rev.
        Inr (cast_dicts isof C (rev chain_rev))))"

section \<open>Seeds and crystallised sigils\<close>

definition seed_to_dict :: "glyph_seed \<Rightarrow> json" where
  "seed_to_dict s =
     JObj [(''seed_id'', JStr (gs_seed_id s)),
       (''aspects'', JList (map JStr (sort (map aspect_name (gs_aspect_pattern s))))),
       (''observed_count'', JInt (gs_observed_count s)),
       (''mean_resonance'', rounded 4 (gs_mean_resonance s)),
       (''coherence_rate'', rounded 4 (gs_coherence_rate s)),
       (''candidate_effect_class'',
          opt_json (\<lambda>c. JStr (enum_name effect_class_members c)) (gs_candidate_effect_class s)),
       (''crystallized'', JBool (gs_crystallized s)),
       (''generation'', JInt (if gs_generation s = 0 then 1 else gs_generation s)),
       (''semantic_vector'', rounded_vector (gs_semantic_vector s))]"

definition crystallized_sigil_to_dict :: "(int \<Rightarrow> string) \<Rightarrow> crystallized_sigil \<Rightarrow> json" where
  "crystallized_sigil_to_dict isof c =
     (let s = cz_sigil c in
      JObj [(''name'', JStr (cz_name c)), (''generation'', JInt (cz_generation c)),
        (''crystallized_at'', JStr (isof (cz_crystallized_at c))),
        (''source_seed_id'', JStr (cz_source_seed_id c)),
        (''sigil'', JObj
           [(''name'', JStr (sg_name s)),
            (''aspects'', JList (map JStr (sort (map aspect_name (sg_aspects s))))),
            (''effect_class'', JStr (enum_name effect_class_members (sg_effect_class s))),
            (''resonance_ceiling'', JFloat (sg_resonance_ceiling s)),
            (''contradiction_severity'',
               JStr (enum_name severity_members (sg_contradiction_severity s))),
            (''semantic_vector'', rounded_vector (sg_semantic_vector s))])])"

definition tool_crystallized_sigils ::
  "registry \<Rightarrow> (int \<Rightarrow> string) \<Rightarrow> cast_state \<Rightarrow> json list result" where
  "tool_crystallized_sigils R isof C =
     wrap_except (\<lambda>_. False) ''crystallized_sigils''
       (rbind (query_crystallized_sigils R (ct_crystals C)) (\<lambda>rows.
        Inr (map (crystallized_sigil_to_dict isof) rows)))"

definition tool_seeds :: "registry \<Rightarrow> bool option \<Rightarrow> cast_state \<Rightarrow> json list result" where
  "tool_seeds R crystallized C =
     wrap_except (\<lambda>_. False) ''seeds''
       (rbind (query_seeds R None crystallized (ct_seeds C)) (\<lambda>rows. Inr (map seed_to_dict rows)))"

section \<open>Channels\<close>

definition channel_state_to_dict :: "(int \<Rightarrow> string) \<Rightarrow> channel_state \<Rightarrow> json" where
  "channel_state_to_dict isof c =
     JObj [(''branch_id'', JStr (cs_branch_id c)), (''cast_count'', JInt (cs_cast_count c)),
       (''cumulative_resonance'', rounded 6 (cs_cumulative_resonance c)),
       (''mean_resonance'', rounded 6 (cs_mean_resonance c)),
       (''coherence_streak'', JInt (cs_coherence_streak c)),
       (''last_verdict_type'', JStr (enum_name verdict_members (cs_last_verdict_type c))),
       (''status'', JStr (enum_name channel_status_members (cs_status c))),
       (''last_cast_id'', JStr (cs_last_cast_id c)),
       (''constraint_vector'', opt_json rounded_vector (cs_constraint_vector c)),
       (''updated_at'', JStr (isof (cs_updated_at c)))]"

definition tool_channel_status :: "(int \<Rightarrow> string) \<Rightarrow> string \<Rightarrow> cast_state \<Rightarrow> json result" where
  "tool_channel_status isof branch C =
     rbind (read_channel_state branch (ct_channels C)) (\<lambda>c. Inr (channel_state_to_dict isof c))"

definition tool_sync_channel ::
  "engine \<Rightarrow> (int \<Rightarrow> string) \<Rightarrow> int \<Rightarrow> string \<Rightarrow> (cast_state, json) op" where
  "tool_sync_channel E isof now branch =
     obind (query_table ct_channels (read_channel_state branch)) (\<lambda>c.
     obind (query_table ct_seeds (query_seeds (eg_registry E) None None)) (\<lambda>seeds.
     obind (lift (sync_channel E now c seeds)) (\<lambda>synced.
     obind (channel_write (write_channel_state (eg_registry E) synced)) (\<lambda>_.
     ret (channel_state_to_dict isof synced)))))"

section \<open>Drift\<close>

definition thresholds_json :: "divergence_thresholds \<Rightarrow> json" where
  "thresholds_json t =
     JObj [(''l2_stable_max'', JFloat (l2_stable_max t)), (''l2_diverged_min'', JFloat (l2_diverged_min t)),
       (''cosine_stable_max'', JFloat (cosine_stable_max t)),
       (''cosine_diverged_min'', JFloat (cosine_diverged_min t))]"

definition report_json :: "(int \<Rightarrow> string) \<Rightarrow> divergence_report \<Rightarrow> json" where
  "report_json isof r =
     JObj [(''cast_id'', JStr (dr_cast_id r)), (''parent_cast_id'', JStr (dr_parent_cast_id r)),
       (''status'', JStr (enum_name divergence_members (dr_status r))),
       (''l2_magnitude'', rounded 6 (dr_l2_magnitude r)),
       (''cosine_distance'', rounded 6 (dr_cosine_distance r)),
       (''computed_at'', JStr (isof (dr_computed_at r)))]"

definition tool_divergence :: "(int \<Rightarrow> string) \<Rightarrow> string \<Rightarrow> cast_state \<Rightarrow> json result" where
  "tool_divergence isof cast_id C =
     rbind (read_divergence_report cast_id (ct_reports C)) (\<lambda>r.
     Inr (JObj
       [(''cast_id'', JStr (dr_cast_id r)), (''parent_cast_id'', JStr (dr_parent_cast_id r)),
        (''l2_magnitude'', rounded 6 (dr_l2_magnitude r)),
        (''cosine_distance'', rounded 6 (dr_cosine_distance r)),
        (''status'', JStr (enum_name divergence_members (dr_status r))),
        (''computed_at'', JStr (isof (dr_computed_at r)))]))"

text \<open>A threshold that is not in the payload keeps its active value.\<close>

definition thresholds_argument ::
  "(string, json) dict \<Rightarrow> divergence_thresholds \<Rightarrow> divergence_thresholds result" where
  "thresholds_argument payload t =
     rbind (py_float (dget_or payload ''l2_stable_max'' (JFloat (l2_stable_max t)))) (\<lambda>a.
     rbind (py_float (dget_or payload ''l2_diverged_min'' (JFloat (l2_diverged_min t)))) (\<lambda>b.
     rbind (py_float (dget_or payload ''cosine_stable_max'' (JFloat (cosine_stable_max t)))) (\<lambda>c.
     rbind (py_float (dget_or payload ''cosine_diverged_min'' (JFloat (cosine_diverged_min t)))) (\<lambda>d.
     mk_divergence_thresholds a b c d))))"

definition tool_set_divergence_thresholds :: "(string, json) dict \<Rightarrow> (tool_state, json) op" where
  "tool_set_divergence_thresholds payload S =
     (case thresholds_argument payload (ct_thresholds (tl_cast S)) of
        Inl e \<Rightarrow> (Inl e, S)
      | Inr t \<Rightarrow>
          (Inr (thresholds_json t),
           S\<lparr>tl_thresholds := write_divergence_thresholds t (tl_thresholds S),
             tl_cast := (tl_cast S)\<lparr>ct_thresholds := t\<rparr>\<rparr>))"

definition tool_divergence_thresholds :: "cast_state \<Rightarrow> json" where
  "tool_divergence_thresholds C = thresholds_json (ct_thresholds C)"

text \<open>\<open>fromiso\<close> is \<open>datetime.fromisoformat\<close>.\<close>

definition tool_divergence_reports ::
  "(int \<Rightarrow> string) \<Rightarrow> (string \<Rightarrow> int result) \<Rightarrow> string option \<Rightarrow> int \<Rightarrow> string option \<Rightarrow> cast_state \<Rightarrow> json list result"
where
  "tool_divergence_reports isof fromiso status limit since C =
     rbind (case status of
              None \<Rightarrow> Inr None
            | Some n \<Rightarrow> rbind (enum_lookup divergence_members n) (\<lambda>x. Inr (Some x))) (\<lambda>st.
     rbind (case since of None \<Rightarrow> Inr None | Some t \<Rightarrow> rbind (fromiso t) (\<lambda>x. Inr (Some x))) (\<lambda>dt.
     rbind (query_divergence_reports st limit dt (ct_reports C)) (\<lambda>rows.
     Inr (map (report_json isof) rows))))"

definition branch_json :: "(int \<Rightarrow> string) \<Rightarrow> branch_drift \<Rightarrow> json" where
  "branch_json isof d =
     JObj [(''branch_id'', JStr (bd_branch_id d)),
       (''casts_with_divergence'', JInt (int (bd_casts_with_divergence d))),
       (''diverged_count'', JInt (int (bd_diverged_count d))),
       (''drifting_count'', JInt (int (bd_drifting_count d))),
       (''max_l2'', rounded 6 (bd_max_l2 d)),
       (''max_cosine_distance'', rounded 6 (bd_max_cosine_distance d)),
       (''latest_computed_at'', JStr (isof (bd_latest_computed_at d)))]"

definition tool_drift_branches :: "(int \<Rightarrow> string) \<Rightarrow> int \<Rightarrow> cast_state \<Rightarrow> json list result" where
  "tool_drift_branches isof limit C =
     rbind (drift_branches limit (gd_casts (ct_graph C)) (ct_reports C)) (\<lambda>rows.
     Inr (map (branch_json isof) rows))"

text \<open>
  The drift along a lineage. Each hop uses the stored report, else one computed now, else none; its
  top contributors are the largest components of the stored difference vector.
\<close>

definition hop_report :: "registry \<Rightarrow> int \<Rightarrow> cast_state \<Rightarrow> cast_result \<Rightarrow> lineage \<Rightarrow> divergence_report option" where
  "hop_report R now C r l =
     (case read_divergence_report (cr_cast_id r) (ct_reports C) of
        Inr rep \<Rightarrow> Some rep
      | Inl _ \<Rightarrow>
          (case rbind (read_cast R (ln_parent_cast_id l) (gd_casts (ct_graph C))) (\<lambda>par.
                  classify (cr_cast_id r) (ln_parent_cast_id l) (sg_semantic_vector (cr_sigil par))
                    (sg_semantic_vector (cr_sigil r)) (ct_thresholds C) now) of
             Inr rep \<Rightarrow> Some rep | Inl _ \<Rightarrow> None))"

definition component_name :: "registry \<Rightarrow> nat \<Rightarrow> string" where
  "component_name R i =
     (if i < dimensionality R then aspect_name (full_aspect_order R ! i) else ''DIM_'' @ nat_text i)"

definition scored_components :: "registry \<Rightarrow> svec \<Rightarrow> (real \<times> string) list" where
  "scored_components R v =
     map (\<lambda>i. (\<bar>comps v ! i\<bar>, component_name R i)) [0..<length (comps v)]"

definition add_contribution :: "real \<times> string \<Rightarrow> (string, real) dict \<Rightarrow> (string, real) dict" where
  "add_contribution = (\<lambda>(m, name) d.
     dset name (fadd (case dget d name of None \<Rightarrow> 0 | Some x \<Rightarrow> x) m) d)"

record drift_sums =
  dt_hops :: "json list"
  dt_l2 :: real
  dt_cos :: real
  dt_max_l2 :: real
  dt_max_cos :: real
  dt_contrib :: "(string, real) dict"

definition drift_hop ::
  "registry \<Rightarrow> int \<Rightarrow> cast_state \<Rightarrow> int \<Rightarrow> drift_sums \<Rightarrow> cast_result \<Rightarrow> drift_sums" where
  "drift_hop R now C top_k a r =
     (case cr_lineage r of
        None \<Rightarrow> a
      | Some l \<Rightarrow>
          let rep = hop_report R now C r l;
              l2 = (case rep of None \<Rightarrow> 0 | Some x \<Rightarrow> dr_l2_magnitude x);
              cos = (case rep of None \<Rightarrow> 0 | Some x \<Rightarrow> dr_cosine_distance x);
              scored = (case ln_divergence_vector l of None \<Rightarrow> [] | Some v \<Rightarrow> scored_components R v);
              top = map (\<lambda>(m, name). JObj [(''aspect'', JStr name), (''abs_delta'', rounded 6 m)])
                      (take (nat top_k) (sort_key (\<lambda>t. - fst t) scored))
          in \<lparr>dt_hops = dt_hops a @
                [JObj [(''cast_id'', JStr (cr_cast_id r)),
                   (''parent_cast_id'', JStr (ln_parent_cast_id l)), (''branch_id'', JStr (ln_branch_id l)),
                   (''status'', JStr (case rep of None \<Rightarrow> ''UNKNOWN''
                                     | Some x \<Rightarrow> enum_name divergence_members (dr_status x))),
                   (''l2_magnitude'', rounded 6 l2), (''cosine_distance'', rounded 6 cos),
                   (''top_contributors'', JList top)]],
              dt_l2 = fadd (dt_l2 a) l2, dt_cos = fadd (dt_cos a) cos,
              dt_max_l2 = max (dt_max_l2 a) l2, dt_max_cos = max (dt_max_cos a) cos,
              dt_contrib = fold add_contribution scored (dt_contrib a)\<rparr>)"

definition tool_lineage_drift ::
  "registry \<Rightarrow> int \<Rightarrow> string \<Rightarrow> int \<Rightarrow> int \<Rightarrow> cast_state \<Rightarrow> json result" where
  "tool_lineage_drift R now cast_id max_depth top_k C =
     rbind (walk_lineage R (nat max_depth) cast_id (gd_casts (ct_graph C))) (\<lambda>chain_rev.
     let tot = foldl (drift_hop R now C top_k)
           \<lparr>dt_hops = [], dt_l2 = 0, dt_cos = 0, dt_max_l2 = 0, dt_max_cos = 0, dt_contrib = []\<rparr>
           (rev chain_rev)
     in Inr (JObj
       [(''cast_id'', JStr cast_id), (''chain_length'', JInt (int (length chain_rev))),
        (''hops'', JList (dt_hops tot)), (''cumulative_l2'', rounded 6 (dt_l2 tot)),
        (''cumulative_cosine_distance'', rounded 6 (dt_cos tot)),
        (''max_l2'', rounded 6 (dt_max_l2 tot)),
        (''max_cosine_distance'', rounded 6 (dt_max_cos tot)),
        (''top_contributors'', JList (map (\<lambda>(name, m). JObj [(''aspect'', JStr name), (''abs_delta_sum'', rounded 6 m)])
           (take (nat top_k) (sort_key (\<lambda>kv. - snd kv) (dt_contrib tot)))))]))"

section \<open>Swarms\<close>

text \<open>Joining makes the swarm when it is missing, and (re)sets the member to a zero vector and streak.\<close>

definition tool_swarm_join ::
  "registry \<Rightarrow> int \<Rightarrow> string \<Rightarrow> string \<Rightarrow> real \<Rightarrow> (tool_state, json) op" where
  "tool_swarm_join R now swarm_id session_id threshold =
     obind (lift (mk_svec (replicate (dimensionality R) 0) None)) (\<lambda>zero.
     obind get_state (\<lambda>S.
     obind (case read_swarm_state swarm_id (tl_swarms S) of
              Inr _ \<Rightarrow> ret ()
            | Inl (KeyError _) \<Rightarrow>
                obind (lift (mk_swarm_state
                  \<lparr>sws_swarm_id = swarm_id, sws_consensus_threshold = threshold, sws_status = SW_STRAINED,
                   sws_aggregated_vector = zero, sws_last_cast_id = None, sws_updated_at = now\<rparr>)) (\<lambda>s.
                swarm_write (write_swarm_state s))
            | Inl e \<Rightarrow> raise_exc e) (\<lambda>_.
     obind (swarm_write (upsert_swarm_member swarm_id session_id zero 0)) (\<lambda>_.
     ret (JObj [(''swarm_id'', JStr swarm_id), (''session_id'', JStr session_id),
                (''joined'', JBool True)])))))"

definition swarm_inputs :: "string \<Rightarrow> svec \<Rightarrow> member list \<Rightarrow> member list" where
  "swarm_inputs session_id vec raw =
     (let by_session = foldl (\<lambda>d (sid, v, streak). dset sid (v, streak) d) [] raw;
          updated = dset session_id (vec, case dget by_session session_id of
                                            None \<Rightarrow> 0 | Some (_, streak) \<Rightarrow> streak) by_session
      in sort_key fst updated)"

text \<open>
  The streaks are written first, then the swarm (whose threshold is only checked here), then the cast.
\<close>

definition tool_swarm_cast ::
  "engine \<Rightarrow> (real \<Rightarrow> real) \<Rightarrow> fresh \<Rightarrow> string \<Rightarrow> string \<Rightarrow> real list \<Rightarrow> intent_args \<Rightarrow> real option
     \<Rightarrow> (tool_state, json) op" where
  "tool_swarm_cast E mexp fr swarm_id session_id xs ia threshold =
     obind (lift (if length xs < 6 then Inl (ValueError ''vector must contain at least 6 floats'')
                  else mk_svec xs None)) (\<lambda>vec.
     obind (lift (intent_of_args ia)) (\<lambda>i.
     obind (query_table tl_swarms (read_swarm_state swarm_id)) (\<lambda>state.
     let thr = (case threshold of None \<Rightarrow> sws_consensus_threshold state | Some t \<Rightarrow> t) in
     obind (query_table tl_swarms (\<lambda>D. Inr (query_swarm_members swarm_id D))) (\<lambda>raw.
     let members = swarm_inputs session_id vec raw in
     obind (lift (swarm_cast E mexp (fr_stamp fr) i members thr)) (\<lambda>(r, agg, status, streaks).
     obind (omap_list (\<lambda>(sid, streak).
              swarm_write (upsert_swarm_member swarm_id sid
                (if sid = session_id then vec
                 else case map_of members sid of Some (v, _) \<Rightarrow> v | None \<Rightarrow> vec) streak)) streaks) (\<lambda>_.
     obind (lift (mk_swarm_state
        \<lparr>sws_swarm_id = swarm_id, sws_consensus_threshold = thr, sws_status = status,
         sws_aggregated_vector = agg, sws_last_cast_id = Some (cr_cast_id r),
         sws_updated_at = fr_now fr\<rparr>)) (\<lambda>s.
     obind (swarm_write (write_swarm_state s)) (\<lambda>_.
     obind (on_cast (graph_write (store_cast (eg_registry E) r))) (\<lambda>_.
     ret (JObj [(''cast_id'', JStr (cr_cast_id r)),
       (''verdict'', JStr (enum_name verdict_members (cast_verdict r))),
       (''resonance'', rounded 4 (cast_adjusted r)),
       (''swarm_status'', JStr (enum_name swarm_status_members status)),
       (''aggregated_vector'', rounded_vector agg),
       (''member_streaks'', JObj (map (\<lambda>(sid, n). (sid, JInt n)) streaks))]))))))))))"

definition tool_swarm_status :: "string \<Rightarrow> tool_state \<Rightarrow> json result" where
  "tool_swarm_status swarm_id S =
     rbind (read_swarm_state swarm_id (tl_swarms S)) (\<lambda>s.
     Inr (JObj [(''swarm_id'', JStr (sws_swarm_id s)),
       (''status'', JStr (enum_name swarm_status_members (sws_status s))),
       (''consensus_threshold'', JFloat (sws_consensus_threshold s)),
       (''last_cast_id'', opt_str (sws_last_cast_id s)),
       (''aggregated_vector'', rounded_vector (sws_aggregated_vector s)),
       (''members'', JList (map (\<lambda>(sid, v, streak).
          JObj [(''session_id'', JStr sid), (''coherence_streak'', JInt streak),
                (''vector'', rounded_vector v)]) (query_swarm_members swarm_id (tl_swarms S))))]))"

section \<open>Lineages lead back to a root\<close>

text \<open>
  Every stored cast with a lineage has its parent in the table, one level above it.
\<close>

definition parent_stored :: "registry \<Rightarrow> cast_table \<Rightarrow> cast_result \<Rightarrow> bool" where
  "parent_stored R T r \<longleftrightarrow>
     (\<forall>l. cr_lineage r = Some l \<longrightarrow> 1 \<le> ln_depth l
        \<and> (\<exists>p. read_cast R (ln_parent_cast_id l) T = Inr p \<and> ln_depth l = next_depth p))"

definition lineage_closed :: "registry \<Rightarrow> cast_table \<Rightarrow> bool" where
  "lineage_closed R T \<longleftrightarrow> (\<forall>k r. read_cast R k T = Inr r \<longrightarrow> parent_stored R T r)"

lemma write_cast_read:
  assumes "write_cast R r T = Inr T'"
  shows "read_cast R k T' = (if k = cr_cast_id r then deserialize_cast_result R (serialize_cast_result R r)
           else read_cast R k T)"
    and "read_cast R (cr_cast_id r) T = Inl (KeyError (cr_cast_id r))"
  using assms by (auto simp: write_cast_def read_cast_def dict_simps split: if_splits)

lemma write_cast_keeps:
  "write_cast R r T = Inr T' \<Longrightarrow> read_cast R k T = Inr p \<Longrightarrow> read_cast R k T' = Inr p"
  using write_cast_read [of R r T T'] by (metis Inl_Inr_False)

lemma parent_stored_write:
  "write_cast R r T = Inr T' \<Longrightarrow> parent_stored R T q \<Longrightarrow> parent_stored R T' q"
  unfolding parent_stored_def by (meson write_cast_keeps)

lemma restored_lineage [simp]: "cr_lineage (restored n r) = cr_lineage r" "cr_cast_id (restored n r) = cr_cast_id r"
  by (simp_all add: restored_def)

lemma next_depth_restored [simp]: "next_depth (restored n r) = next_depth r"
  by (simp add: next_depth_def)

lemma lineage_closed_write:
  assumes "write_cast R r T = Inr T'" "lineage_closed R T" "registry_ok R" "cast_valid R r" "parent_stored R T r"
  shows "lineage_closed R T'"
  unfolding lineage_closed_def
proof (intro allI impI)
  fix k q assume q: "read_cast R k T' = Inr q"
  show "parent_stored R T' q"
  proof (cases "k = cr_cast_id r")
    case True
    with q write_cast_read(1) [OF assms(1)] deserialize_serialize [OF assms(3,4)]
    have "q = restored (dimensionality R) r" by simp
    with parent_stored_write [OF assms(1,5)] show ?thesis by (simp add: parent_stored_def)
  next
    case False
    with q write_cast_read(1) [OF assms(1)] assms(2) have "parent_stored R T q"
      by (simp add: lineage_closed_def)
    then show ?thesis by (rule parent_stored_write [OF assms(1)])
  qed
qed

text \<open>The casts of a graph, and of a state: typed and closed under parents.\<close>

definition lineage_ok :: "registry \<Rightarrow> graph_db \<Rightarrow> bool" where
  "lineage_ok R G \<longleftrightarrow> casts_ok R (gd_casts G) \<and> lineage_closed R (gd_casts G)"

definition lineage_inv :: "registry \<Rightarrow> cast_state \<Rightarrow> bool" where
  "lineage_inv R S \<longleftrightarrow> lineage_ok R (ct_graph S)"

lemma store_cast_write:
  assumes "store_cast R r G = Inr G'"
  shows "write_cast R r (gd_casts G) = Inr (gd_casts G')"
proof -
  from assms obtain T where "write_cast R r (gd_casts G) = Inr T" "G' = G\<lparr>gd_casts := T\<rparr>"
    unfolding store_cast_def rbind_Inr_iff by (metis Inr_inject)
  then show ?thesis by simp
qed

lemma lineage_ok_store:
  assumes "lineage_ok R G" "store_cast R r G = Inr G'" "cast_valid R r" "parent_stored R (gd_casts G) r"
  shows "lineage_ok R G'"
proof -
  note w = store_cast_write [OF assms(2)]
  from assms(1) have S: "casts_ok R (gd_casts G)" "lineage_closed R (gd_casts G)"
    by (simp_all add: lineage_ok_def)
  then have "registry_ok R" by (simp add: casts_ok_def)
  with write_cast_casts_ok [OF S(1) assms(3) w] lineage_closed_write [OF w S(2) _ assms(3,4)]
  show ?thesis by (simp add: lineage_ok_def)
qed

lemma lineage_inv_store:
  "lineage_inv R S \<Longrightarrow> store_cast R r (ct_graph S) = Inr (ct_graph S') \<Longrightarrow> cast_valid R r \<Longrightarrow>
   parent_stored R (gd_casts (ct_graph S)) r \<Longrightarrow> lineage_inv R S'"
  unfolding lineage_inv_def by (rule lineage_ok_store)

lemma lineage_keeps: "keeps ct_graph m \<Longrightarrow> preserves (lineage_inv R) m"
  unfolding keeps_def preserves_def by (simp add: lineage_inv_def)

lemma finish_cast_lineage:
  assumes "finish_cast E isof fr pid b t pat r0 S = (res, S')" "lineage_inv (eg_registry E) S"
    and r0: "cast_valid (eg_registry E) r0" "cr_lineage r0 = None"
  shows "lineage_inv (eg_registry E) S'"
proof -
  let ?R = "eg_registry E"
  from finish_cast_cases [OF assms(1)] show ?thesis
  proof (elim disjE exE conjE)
    fix e assume "ct_graph S' = ct_graph S"
    with assms(2) show ?thesis by (simp add: lineage_inv_def)
  next
    fix out r S1
    assume at: "attach_parent ?R fr pid b r0 S = (Inr r, S1)"
      and st: "store_cast ?R r (ct_graph S) = Inr (ct_graph S')"
    have "cast_valid ?R r" using attach_parent_returns [OF r0(1)] at unfolding returns_def by blast
    moreover have "parent_stored ?R (gd_casts (ct_graph S)) r"
    proof (cases pid)
      case None
      with at r0(2) show ?thesis by (simp add: attach_parent_def parent_stored_def)
    next
      case (Some p)
      from attach_parent_Inr [OF at [unfolded Some]] show ?thesis by (auto simp: parent_stored_def)
    qed
    ultimately show ?thesis by (rule lineage_inv_store [OF assms(2) st])
  qed
qed

lemma lineage_finish:
  "cast_valid (eg_registry E) r0 \<and> cr_lineage r0 = None \<Longrightarrow>
   preserves (lineage_inv (eg_registry E)) (finish_cast E isof fr pid b t pat r0)"
  unfolding preserves_def by (metis finish_cast_lineage prod.collapse)

lemma returns_conj: "returns P m \<Longrightarrow> returns Q m \<Longrightarrow> returns (\<lambda>x. P x \<and> Q x) m"
  by (simp add: returns_def)

lemma returns_mono: "returns P m \<Longrightarrow> (\<And>x. P x \<Longrightarrow> Q x) \<Longrightarrow> returns Q m"
  unfolding returns_def by blast

lemma lineage_tool_cast: "preserves (lineage_inv (eg_registry E)) (tool_cast E isof fr names a)"
proof (cases "registry_ok (eg_registry E)")
  case True
  show ?thesis
    unfolding tool_cast_def Let_def
  proof (intro preserves_wrapped preserves_obind_lift)
    fix A i assume A: "rmap_list (resolve_aspect_arg (eg_registry E)) names = Inr A"
    let ?base = "if ca_chained a then chained_base E fr (ca_branch_id a) (ca_force a) (remdups A) i
              else plain_base E fr (remdups A) i"
    have "set (remdups A) \<subseteq> set (full_aspect_order (eg_registry E))" using resolved_names [OF A True] by simp
    note valid = bases_return_valid [OF this distinct_remdups True]
    have "returns (\<lambda>r. cast_valid (eg_registry E) r \<and> cr_lineage r = None) ?base"
      using returns_conj [OF valid(1) returns_mono [OF bases_fresh(1)]] returns_conj [OF valid(2) returns_mono [OF bases_fresh(2)]]
      by simp
    then show "preserves (lineage_inv (eg_registry E))
      (obind ?base (finish_cast E isof fr (ca_parent_cast_id a) (ca_branch_id a) (ca_include_transcript a) (remdups A)))"
      by (rule preserves_obind_returns [rotated]) (simp_all add: lineage_finish lineage_keeps)
  qed
qed (simp add: preserves_def lineage_inv_def lineage_ok_def casts_ok_def)

lemma fluid_cast_root: "fluid_cast E mexp st v i = Inr r \<Longrightarrow> cr_lineage r = None"
  by (auto simp: fluid_cast_def rbind_Inr_iff mk_cast_result_def)

lemma lineage_tool_fluid_cast:
  "preserves (lineage_inv (eg_registry E)) (tool_fluid_cast E mexp isof fr xs a)"
  unfolding tool_fluid_cast_def
  by (intro preserves_wrapped preserves_obind_lift lineage_finish)
    (auto intro: fluid_cast_valid vector_argument_length fluid_cast_root)

lemma lineage_store_root:
  assumes "cast_valid R r" "cr_lineage r = None"
  shows "preserves (lineage_inv R) (graph_write (store_cast R r))"
proof (rule preserves_write)
  fix S T assume "lineage_inv R S" "store_cast R r (ct_graph S) = Inr T"
  with lineage_inv_store [of R S r "S\<lparr>ct_graph := T\<rparr>"] assms show "lineage_inv R (S\<lparr>ct_graph := T\<rparr>)"
    by (simp add: parent_stored_def)
qed

lemma lineage_update_channel: "preserves (lineage_inv R) (update_geometric_channel R' now b c r)"
proof (rule lineage_keeps)
  show "keeps ct_graph (update_geometric_channel R' now b c r)"
    unfolding keeps_def update_geometric_channel_def
    by (auto intro!: preserves_obind preserves_write split: option.splits)
qed

lemma lineage_tool_geometric_cast:
  "preserves (lineage_inv (eg_registry E)) (tool_geometric_cast E mexp fr payload version branch force)"
  unfolding tool_geometric_cast_def
  by (rule preserves_obind_lift)
    (auto intro!: preserves_obind_lift preserves_obind lineage_store_root lineage_update_channel
      split: option.splits prod.splits
      intro: fluid_cast_valid [OF _ channel_blend_length [OF _ decode_length]] fluid_cast_root)

text \<open>A chain of casts in which each is one level below the one before it.\<close>

definition child_of :: "cast_result \<Rightarrow> cast_result \<Rightarrow> bool" where
  "child_of p r \<longleftrightarrow> (\<exists>l. cr_lineage r = Some l \<and> ln_parent_cast_id l = cr_cast_id p
      \<and> ln_depth l = next_depth p \<and> 1 \<le> ln_depth l)"

lemma linked_child_of:
  assumes "linked b chain" shows "successively child_of chain"
  unfolding successively_conv_nth
proof (intro allI impI)
  fix k assume k: "Suc k < length chain"
  have "next_depth (chain ! k) = int (Suc k)"
  proof (cases k)
    case 0
    then show ?thesis using assms k by (auto simp: linked_def next_depth_def)
  next
    case (Suc j)
    with assms k have "\<exists>l. cr_lineage (chain ! k) = Some l \<and> ln_depth l = int k"
      unfolding linked_def by (metis Suc_lessD zero_less_Suc)
    then show ?thesis by (auto simp: next_depth_def)
  qed
  moreover have "\<exists>l. cr_lineage (chain ! Suc k) = Some l \<and> ln_parent_cast_id l = cr_cast_id (chain ! k)
     \<and> ln_depth l = int (Suc k)"
    using assms k unfolding linked_def by (metis diff_Suc_1 zero_less_Suc)
  ultimately show "child_of (chain ! k) (chain ! Suc k)" by (auto simp: child_of_def)
qed

lemma lineage_write_result:
  assumes "write_fluid_result E fr r S = (res, S')" "lineage_inv (eg_registry E) S"
    and "cast_valid (eg_registry E) r" "parent_stored (eg_registry E) (gd_casts (ct_graph S)) r"
  shows "lineage_inv (eg_registry E) S'
     \<and> (\<forall>u. res = Inr u \<longrightarrow> store_cast (eg_registry E) r (ct_graph S) = Inr (ct_graph S'))"
proof -
  let ?R = "eg_registry E"
  define pre where "pre = (case cr_lineage r of
               None \<Rightarrow> ret ()
             | Some l \<Rightarrow>
                 obind (read_parent ?R (ln_parent_cast_id l)) (\<lambda>par.
                 record_divergence (fr_now fr) (ln_parent_cast_id l) par r))"
  have k: "keeps ct_graph pre"
    unfolding pre_def keeps_def record_divergence_def read_parent_def Let_def
    by (auto intro!: preserves_obind preserves_write preserves_modify split: option.splits)
  obtain x S1 where s1: "pre S = (x, S1)" by (cases "pre S")
  note g1 = keepsD [OF k s1]
  show ?thesis
  proof (cases x)
    case (Inl e)
    with assms(1,2) s1 g1 show ?thesis
      by (auto simp: write_fluid_result_def Let_def pre_def [symmetric] obind_def lineage_inv_def)
  next
    case x: (Inr u)
    obtain y S2 where s2: "accumulate_seed ?R fr (sg_aspects (cr_sigil r)) r S1 = (y, S2)"
      by (cases "accumulate_seed ?R fr (sg_aspects (cr_sigil r)) r S1")
    note g2 = keepsD [OF keeps_graph(2) s2]
    show ?thesis
    proof (cases y)
      case (Inl e)
      with assms(1,2) s1 s2 x g1 g2 show ?thesis
        by (auto simp: write_fluid_result_def Let_def pre_def [symmetric] obind_def lineage_inv_def)
    next
      case y: (Inr seed)
      obtain z S3 where s3: "crystallize_seed E fr seed S2 = (z, S3)" by (cases "crystallize_seed E fr seed S2")
      note g3 = keepsD [OF keeps_graph(3) s3]
      have eq: "write_fluid_result E fr r S = (case z of Inl e \<Rightarrow> (Inl e, S3) | Inr _ \<Rightarrow> graph_write (store_cast ?R r) S3)"
        using s1 s2 s3 x y by (simp add: write_fluid_result_def Let_def pre_def [symmetric] obind_def)
      have g: "ct_graph S3 = ct_graph S" using g1 g2 g3 by simp
      show ?thesis
      proof (cases "store_cast ?R r (ct_graph S)")
        case (Inl e)
        with eq g assms(1,2) show ?thesis
          by (auto simp: write_table_def lineage_inv_def split: sum.splits)
      next
        case (Inr G)
        have "lineage_ok ?R G"
          using lineage_ok_store [OF _ Inr assms(3,4)] assms(2) by (simp add: lineage_inv_def)
        with eq g assms(1,2) Inr show ?thesis
          by (auto simp: write_table_def lineage_inv_def split: sum.splits)
      qed
    qed
  qed
qed

lemma child_stored:
  assumes "store_cast R p G = Inr G'" "lineage_ok R G" "cast_valid R p" "child_of p r"
  shows "parent_stored R (gd_casts G') r"
proof -
  have ok: "registry_ok R" using assms(2) by (simp add: lineage_ok_def casts_ok_def)
  have "read_cast R (cr_cast_id p) (gd_casts G') = Inr (restored (dimensionality R) p)"
    using write_cast_read(1) [OF store_cast_write [OF assms(1)]] deserialize_serialize [OF ok assms(3)] by simp
  with assms(4) show ?thesis by (auto simp: child_of_def parent_stored_def)
qed

lemma lineage_write_each:
  assumes "write_each E isof fresh_of rs S = (res, S')" "lineage_inv (eg_registry E) S"
    and "\<forall>r \<in> set rs. cast_valid (eg_registry E) r" "successively child_of rs"
    and "rs \<noteq> [] \<longrightarrow> parent_stored (eg_registry E) (gd_casts (ct_graph S)) (hd rs)"
  shows "lineage_inv (eg_registry E) S'"
  using assms
proof (induction rs arbitrary: S res S')
  case Nil
  then show ?case by (simp add: write_each_def ret_def)
next
  case (Cons r rs)
  obtain x S1 where w: "write_fluid_result E (fresh_of r) r S = (x, S1)"
    by (cases "write_fluid_result E (fresh_of r) r S")
  have inv: "lineage_inv (eg_registry E) S1"
    and st: "\<And>u. x = Inr u \<Longrightarrow> store_cast (eg_registry E) r (ct_graph S) = Inr (ct_graph S1)"
    using lineage_write_result [OF w Cons.prems(2)] Cons.prems(3,5) by auto
  show ?case
  proof (cases x)
    case (Inl e)
    with Cons.prems(1) w inv show ?thesis by (simp add: write_each_def obind_def)
  next
    case (Inr u)
    obtain y S2 where y: "write_each E isof fresh_of rs S1 = (y, S2)" by (cases "write_each E isof fresh_of rs S1")
    have "S' = S2"
      using Cons.prems(1) w Inr y
      by (auto simp: write_each_def obind_def get_state_def ret_def split: sum.splits)
    moreover have "rs \<noteq> [] \<longrightarrow> parent_stored (eg_registry E) (gd_casts (ct_graph S1)) (hd rs)"
      using child_stored [OF st [OF Inr]] Cons.prems(2,3,4)
      by (cases rs) (simp_all add: lineage_inv_def)
    moreover have "successively child_of rs" using Cons.prems(4) by (cases rs) simp_all
    ultimately show ?thesis using Cons.IH [OF y inv] Cons.prems(3) by simp
  qed
qed

lemma lineage_tool_auto_cast:
  assumes "tool_auto_cast E mexp isof b sts fresh_of xs a S = (res, S')" "lineage_inv (eg_registry E) S"
  shows "lineage_inv (eg_registry E) S'"
proof -
  have "preserves (lineage_inv (eg_registry E)) (tool_auto_cast E mexp isof b sts fresh_of xs a)"
    unfolding tool_auto_cast_def
  proof (intro preserves_obind_lift)
    fix v i x assume v: "vector_argument xs = Inr v"
      and x: "auto_cast E mexp b sts v i (aa_target_resonance a) (aa_blend_alpha a) = Inr x"
    obtain r chain d where [simp]: "x = (r, chain, d)" by (cases x)
    have ok: "\<forall>r \<in> set chain. cast_valid (eg_registry E) r"
      using auto_cast_valid [OF x [simplified]] vector_argument_length [OF v] by simp
    have lk: "linked b chain" using auto_cast_props [OF x [simplified]] by simp
    then have hd: "chain \<noteq> [] \<longrightarrow> parent_stored R T (hd chain)" for R T
      by (simp add: linked_def parent_stored_def hd_conv_nth)
    have "preserves (lineage_inv (eg_registry E)) (write_each E isof fresh_of chain)"
      unfolding preserves_def
      using lineage_write_each [OF _ _ ok linked_child_of [OF lk] hd] by (metis prod.collapse)
    then show "preserves (lineage_inv (eg_registry E))
     (case x of (final, chain, diagnostics) \<Rightarrow>
        obind (write_each E isof fresh_of chain) (\<lambda>dicts.
        obind get_state (\<lambda>S.
        ret (cast_result_to_dict isof S (last chain)
          @ [(''auto_cast_chain'', JList dicts), (''auto_cast_depth'', JInt (int (length chain)))]
          @ (if aa_include_diagnostics a then [(''diagnostics'', diagnostics_json diagnostics)] else [])
          @ transcript_if_requested isof (last chain) (aa_include_transcript a)))))"
      by (auto intro!: preserves_obind)
  qed
  with assms show ?thesis unfolding preserves_def by (metis prod.sel(2))
qed

lemma tool_step_lineage:
  "tool_step E S S' \<Longrightarrow> lineage_inv (eg_registry E) S \<Longrightarrow> lineage_inv (eg_registry E) S'"
  by (induction rule: tool_step.induct)
    (blast intro: preservesD [OF lineage_tool_cast] preservesD [OF lineage_tool_fluid_cast]
      lineage_tool_auto_cast preservesD [OF lineage_tool_geometric_cast])+

lemma stored_id:
  assumes "casts_ok R T" "read_cast R k T = Inr r"
  shows "cr_cast_id r = k"
proof -
  let ?S = "empty_state\<lparr>ct_graph := \<lparr>gd_casts = T, gd_edges = []\<rparr>\<rparr>"
  have "dhas T k" using assms(2) by (cases "dget T k") (auto simp: read_cast_def)
  with assms casts_typed_read [of R ?S k] show ?thesis by (auto simp: casts_typed_def)
qed

lemma next_depth_pos:
  assumes "lineage_ok R G" "read_cast R k (gd_casts G) = Inr r"
  shows "1 \<le> next_depth r"
proof -
  from assms have "parent_stored R (gd_casts G) r" by (auto simp: lineage_ok_def lineage_closed_def)
  then show ?thesis by (auto simp: parent_stored_def next_depth_def split: option.splits)
qed

lemma walk_lineage_chain:
  assumes "lineage_ok R G" "read_cast R k (gd_casts G) = Inr r"
  shows "\<exists>chain. length chain = nat (next_depth r) \<and> hd chain = r \<and> cr_lineage (last chain) = None
     \<and> successively (\<lambda>a p. child_of p a) chain
     \<and> (\<forall>n. walk_lineage R n k (gd_casts G) = Inr (take n chain))"
  using assms(2)
proof (induction "nat (next_depth r)" arbitrary: k r)
  case 0
  with next_depth_pos [OF assms(1) "0.prems"] show ?case by simp
next
  case (Suc m)
  show ?case
  proof (cases "cr_lineage r")
    case None
    have "walk_lineage R n k (gd_casts G) = Inr (take n [r])" for n
      using Suc.prems None by (cases n) simp_all
    with None show ?thesis by (intro exI [of _ "[r]"]) (simp add: next_depth_def)
  next
    case (Some l)
    with assms(1) Suc.prems obtain p where p: "read_cast R (ln_parent_cast_id l) (gd_casts G) = Inr p"
      "ln_depth l = next_depth p" "1 \<le> ln_depth l"
      unfolding lineage_ok_def lineage_closed_def parent_stored_def by blast
    have d: "next_depth r = next_depth p + 1" using Some p by (simp add: next_depth_def)
    with Suc.hyps(2) have m: "m = nat (next_depth p)" by simp
    from Suc.hyps(1) [OF m p(1)] obtain chain where c: "length chain = nat (next_depth p)" "hd chain = p"
      "cr_lineage (last chain) = None" "successively (\<lambda>a p. child_of p a) chain"
      "\<And>n. walk_lineage R n (ln_parent_cast_id l) (gd_casts G) = Inr (take n chain)" by auto
    have ne: "chain \<noteq> []" using c(1) p(2,3) by auto
    have id: "cr_cast_id p = ln_parent_cast_id l"
      using stored_id [OF _ p(1)] assms(1) by (simp add: lineage_ok_def)
    have "child_of p r" using Some p id by (simp add: child_of_def)
    then have "successively (\<lambda>a p. child_of p a) (r # chain)"
      using c(2,4) ne by (simp add: successively_Cons)
    moreover have "walk_lineage R n k (gd_casts G) = Inr (take n (r # chain))" for n
      using Suc.prems Some c(5) by (cases n) simp_all
    ultimately show ?thesis
      using c ne d p(2,3) by (intro exI [of _ "r # chain"]) (simp add: nat_add_distrib)
  qed
qed

lemma tool_steps_lineage:
  "(tool_step E)\<^sup>*\<^sup>* S S' \<Longrightarrow> lineage_inv (eg_registry E) S \<Longrightarrow> lineage_inv (eg_registry E) S'"
  by (induction rule: rtranclp_induct) (auto intro: tool_step_lineage)

lemma lineage_ok_empty: "registry_ok R \<Longrightarrow> gd_casts G = [] \<Longrightarrow> lineage_ok R G"
  by (simp add: lineage_ok_def casts_ok_def lineage_closed_def read_cast_def)

text \<open>
  C25. However the casting tools have been called on a grimoire without casts, the lineage tool finds
  the whole ancestry of every stored cast: there is a chain of stored casts that starts at the cast,
  ends at one without a lineage, has one cast per level and links each cast to its parent, and the
  tool returns its first \<open>max_depth\<close> casts, the oldest first; it never raises.
\<close>

theorem lineage_reaches_root:
  assumes "(tool_step E)\<^sup>*\<^sup>* S S'" "registry_ok (eg_registry E)" "gd_casts (ct_graph S) = []"
    and "read_cast (eg_registry E) k (gd_casts (ct_graph S')) = Inr r"
  shows "\<exists>chain. length chain = nat (next_depth r) \<and> 1 \<le> next_depth r \<and> hd chain = r
    \<and> cr_lineage (last chain) = None \<and> successively (\<lambda>a p. child_of p a) chain
    \<and> (\<forall>isof d. tool_lineage (eg_registry E) isof k d S'
         = Inr (cast_dicts isof S' (rev (take (nat d) chain))))"
proof -
  have "lineage_ok (eg_registry E) (ct_graph S')"
    using tool_steps_lineage [OF assms(1)] lineage_ok_empty assms(2,3) by (simp add: lineage_inv_def)
  from walk_lineage_chain [OF this assms(4)] next_depth_pos [OF this assms(4)] show ?thesis
    by (auto simp: tool_lineage_def wrap_except_def)
qed

lemma lineage_reaches_root_witness:
  "\<exists>S' r. (tool_step sample_engine)\<^sup>*\<^sup>* empty_state S'
     \<and> read_cast (eg_registry sample_engine) ''c1'' (gd_casts (ct_graph S')) = Inr r
     \<and> (\<exists>chain. length chain = nat (next_depth r) \<and> 1 \<le> next_depth r \<and> hd chain = r
          \<and> (\<forall>isof d. tool_lineage (eg_registry sample_engine) isof ''c1'' d S'
               = Inr (cast_dicts isof S' (rev (take (nat d) chain)))))"
proof -
  obtain out S' where run: "tool_geometric_cast sample_engine (\<lambda>x. fl (exp x)) sample_fresh (replicate 15 0) 1 None
      False empty_state = (Inr out, S')" and has: "dhas (gd_casts (ct_graph S')) ''c1''"
    using sample_geometric_run by blast
  have steps: "(tool_step sample_engine)\<^sup>*\<^sup>* empty_state S'"
    by (rule r_into_rtranclp) (rule geometric_step [OF run])
  have reg: "registry_ok (eg_registry sample_engine)" using registry_ok_empty by (simp add: sample_engine_def)
  have empty: "gd_casts (ct_graph empty_state) = []" by (simp add: empty_state_def)
  have "casts_typed (eg_registry sample_engine) S'"
    using tool_steps_typed [OF steps] reg empty by (simp add: casts_typed_def casts_ok_def)
  from casts_typed_read [OF this has] obtain r where
    r: "read_cast (eg_registry sample_engine) ''c1'' (gd_casts (ct_graph S')) = Inr r" by blast
  from lineage_reaches_root [OF steps reg empty r] obtain chain where
    "length chain = nat (next_depth r)" "1 \<le> next_depth r" "hd chain = r"
    "\<forall>isof d. tool_lineage (eg_registry sample_engine) isof ''c1'' d S'
       = Inr (cast_dicts isof S' (rev (take (nat d) chain)))"
    by (elim exE conjE)
  with steps r show ?thesis by (intro exI conjI) assumption+
qed

end
