(* ===== verification/Arcane.thy ===== *)
theory Arcane
  imports GrimoireTools
begin

text \<open>
  The arcane layer of \<open>src/vermyth/arcane\<close>: wards, rituals and semantic bundles (\<open>types.py\<close>,
  \<open>bundles.py\<close>), their compilation into plain tool calls (\<open>compiler.py\<close>, \<open>invoke.py\<close>), the catalogue
  (\<open>discovery.py\<close>) and the recommendations (\<open>recommend.py\<close>), with the tools of \<open>mcp/tools/arcane.py\<close>.
\<close>

section \<open>Types\<close>

record ward_spec =
  wd_allow_min_resonance :: "real option"
  wd_reshape_min_resonance :: "real option"
  wd_max_drift_status :: "divergence_status option"
  wd_effect_risk_min_score :: "real option"
  wd_scorer_weights :: "(string, real) dict option"

definition mk_ward_spec :: "ward_spec \<Rightarrow> ward_spec result" where
  "mk_ward_spec w =
     (if list_all (pred_option (\<lambda>x. 0 \<le> x \<and> x \<le> 1))
           [wd_allow_min_resonance w, wd_reshape_min_resonance w, wd_effect_risk_min_score w]
      then Inr w else Inl (ValueError ''WardSpec''))"

record divination_spec =
  dn_require_causal_context :: bool
  dn_thresholds :: "ward_spec option"

record banishment_spec =
  bn_default_rollback :: rollback_strategy
  bn_strict :: bool
  bn_quarantine_effect_types :: "effect_type list"

definition default_banishment :: banishment_spec where
  "default_banishment = \<lparr>bn_default_rollback = RB_COMPENSATE, bn_strict = False,
     bn_quarantine_effect_types = [EF_WRITE, EF_EXEC, EF_NETWORK]\<rparr>"

record ritual_spec =
  rt_ritual_id :: string
  rt_program :: semantic_program
  rt_ward :: "ward_spec option"
  rt_divination :: "divination_spec option"
  rt_banishment :: "banishment_spec option"

definition mk_ritual_spec :: "ritual_spec \<Rightarrow> ritual_spec result" where
  "mk_ritual_spec r =
     (if 1 \<le> length (rt_ritual_id r) \<and> length (rt_ritual_id r) \<le> 120 then Inr r
      else Inl (ValueError ''RitualSpec''))"

record recommendation_rule =
  rr_op :: string
  rr_value :: json
  rr_path :: "string option"
  rr_field :: "string option"
  rr_negate :: bool
  rr_min_len :: "nat option"
  rr_max_len :: "nat option"
  rr_rule_id :: "string option"

datatype match_kind = MK_EXACT | MK_STRONG | MK_ADVISORY

definition match_kind_members :: "(string, match_kind) dict" where
  "match_kind_members = [(''exact'', MK_EXACT), (''strong'', MK_STRONG), (''advisory'', MK_ADVISORY)]"

record recommendation_tier =
  rc_match_kind :: match_kind
  rc_strength :: real
  rc_require_all :: "recommendation_rule list"

record bundle_recommendation =
  br_target_skills :: "string list"
  br_why_better :: string
  br_tiers :: "recommendation_tier list"

datatype bundle_kind = BK_DECIDE | BK_CAST | BK_COMPILE_PROGRAM

definition bundle_kind_members :: "(string, bundle_kind) dict" where
  "bundle_kind_members =
     [(''decide'', BK_DECIDE), (''cast'', BK_CAST), (''compile_program'', BK_COMPILE_PROGRAM)]"

record bundle_manifest =
  bm_id :: string
  bm_version :: int
  bm_kind :: bundle_kind
  bm_template :: "(string, json) dict"
  bm_param_keys :: "string list"
  bm_summary :: "string option"
  bm_description :: "string option"
  bm_recommended_for :: "string list"
  bm_stability :: "string option"
  bm_library :: "string option"
  bm_recommendation :: "bundle_recommendation option"

definition mk_bundle_manifest :: "bundle_manifest \<Rightarrow> bundle_manifest result" where
  "mk_bundle_manifest m =
     (if 1 \<le> length (bm_id m) \<and> length (bm_id m) \<le> 120 \<and> 1 \<le> bm_version m
         \<and> pred_option (\<lambda>s. s \<in> {''stable'', ''experimental''}) (bm_stability m)
         \<and> pred_option (\<lambda>s. s \<in> {''canonical'', ''extended''}) (bm_library m)
         \<and> pred_option (\<lambda>r. br_why_better r \<noteq> [] \<and> br_tiers r \<noteq> []
             \<and> list_all (\<lambda>t. 0 \<le> rc_strength t \<and> rc_strength t \<le> 1
                 \<and> list_all (\<lambda>u. rr_op u \<noteq> []) (rc_require_all t)) (br_tiers r)) (bm_recommendation m)
      then Inr m else Inl (ValueError ''SemanticBundleManifest''))"

record compiled_invocation =
  ci_skill_id :: string
  ci_input :: "(string, json) dict"
  ci_arcane_provenance :: "(string, json) dict"

text \<open>The documents \<open>model_dump(mode="json")\<close> makes of them.\<close>

definition weights_json :: "(string, real) dict \<Rightarrow> json" where
  "weights_json ws = JObj (map (\<lambda>(k, x). (k, JFloat x)) ws)"

definition thresholds_dump :: "policy_thresholds \<Rightarrow> json" where
  "thresholds_dump t =
     JObj [(''allow_min_resonance'', JFloat (pt_allow_min_resonance t)),
       (''reshape_min_resonance'', JFloat (pt_reshape_min_resonance t)),
       (''max_drift_status'', JStr (enum_name divergence_members (pt_max_drift_status t))),
       (''scorer_weights'', weights_json (pt_scorer_weights t)),
       (''effect_risk_min_score'', opt_json JFloat (pt_effect_risk_min_score t))]"

definition ward_dump :: "ward_spec \<Rightarrow> json" where
  "ward_dump w =
     JObj [(''allow_min_resonance'', opt_json JFloat (wd_allow_min_resonance w)),
       (''reshape_min_resonance'', opt_json JFloat (wd_reshape_min_resonance w)),
       (''max_drift_status'', opt_json (\<lambda>s. JStr (enum_name divergence_members s)) (wd_max_drift_status w)),
       (''effect_risk_min_score'', opt_json JFloat (wd_effect_risk_min_score w)),
       (''scorer_weights'', opt_json weights_json (wd_scorer_weights w))]"

definition divination_dump :: "divination_spec \<Rightarrow> json" where
  "divination_dump d =
     JObj [(''require_causal_context'', JBool (dn_require_causal_context d)),
       (''thresholds'', opt_json ward_dump (dn_thresholds d))]"

fun rollback_name :: "rollback_strategy \<Rightarrow> string" where
  "rollback_name RB_NONE = ''NONE''"
| "rollback_name RB_COMPENSATE = ''COMPENSATE''"
| "rollback_name RB_UNDO_LOG = ''UNDO_LOG''"
| "rollback_name RB_CHECKPOINT_RESTORE = ''CHECKPOINT_RESTORE''"

definition banishment_dump :: "banishment_spec \<Rightarrow> json" where
  "banishment_dump b =
     JObj [(''default_rollback'', JStr (rollback_name (bn_default_rollback b))),
       (''strict'', JBool (bn_strict b)),
       (''quarantine_effect_types'',
          JList (map (\<lambda>e. JStr (effect_type_name e)) (bn_quarantine_effect_types b)))]"

definition rule_dump :: "recommendation_rule \<Rightarrow> json" where
  "rule_dump r =
     JObj [(''op'', JStr (rr_op r)), (''value'', rr_value r), (''path'', opt_str (rr_path r)),
       (''field'', opt_str (rr_field r)), (''negate'', JBool (rr_negate r)),
       (''min_len'', opt_json (\<lambda>n. JInt (int n)) (rr_min_len r)),
       (''max_len'', opt_json (\<lambda>n. JInt (int n)) (rr_max_len r)),
       (''rule_id'', opt_str (rr_rule_id r))]"

definition tier_dump :: "recommendation_tier \<Rightarrow> json" where
  "tier_dump t =
     JObj [(''match_kind'', JStr (enum_name match_kind_members (rc_match_kind t))),
       (''strength'', JFloat (rc_strength t)), (''require_all'', JList (map rule_dump (rc_require_all t)))]"

definition manifest_dump :: "bundle_manifest \<Rightarrow> json" where
  "manifest_dump m =
     JObj [(''id'', JStr (bm_id m)), (''version'', JInt (bm_version m)),
       (''kind'', JStr (enum_name bundle_kind_members (bm_kind m))), (''template'', JObj (bm_template m)),
       (''param_keys'', JList (map JStr (bm_param_keys m))), (''summary'', opt_str (bm_summary m)),
       (''description'', opt_str (bm_description m)),
       (''recommended_for'', JList (map JStr (bm_recommended_for m))),
       (''stability'', opt_str (bm_stability m)), (''library'', opt_str (bm_library m)),
       (''recommendation'', opt_json (\<lambda>r. JObj
          [(''target_skills'', JList (map JStr (br_target_skills r))),
           (''why_better'', JStr (br_why_better r)), (''tiers'', JList (map tier_dump (br_tiers r)))])
          (bm_recommendation m))]"

section \<open>Wards\<close>

definition merge_ward_into_thresholds :: "policy_thresholds \<Rightarrow> ward_spec \<Rightarrow> policy_thresholds result" where
  "merge_ward_into_thresholds base w =
     mk_policy_thresholds
       \<lparr>pt_allow_min_resonance =
          (case wd_allow_min_resonance w of None \<Rightarrow> pt_allow_min_resonance base
           | Some x \<Rightarrow> max (pt_allow_min_resonance base) x),
        pt_reshape_min_resonance =
          (case wd_reshape_min_resonance w of None \<Rightarrow> pt_reshape_min_resonance base
           | Some x \<Rightarrow> max (pt_reshape_min_resonance base) x),
        pt_max_drift_status =
          (case wd_max_drift_status w of None \<Rightarrow> pt_max_drift_status base | Some s \<Rightarrow> s),
        pt_scorer_weights =
          (case wd_scorer_weights w of None \<Rightarrow> pt_scorer_weights base
           | Some ws \<Rightarrow> dmerge (pt_scorer_weights base) ws),
        pt_effect_risk_min_score =
          (case wd_effect_risk_min_score w of None \<Rightarrow> pt_effect_risk_min_score base
           | Some x \<Rightarrow> Some (case pt_effect_risk_min_score base of None \<Rightarrow> x | Some y \<Rightarrow> max y x))\<rparr>"

definition apply_divination_thresholds :: "policy_thresholds \<Rightarrow> divination_spec \<Rightarrow> policy_thresholds result" where
  "apply_divination_thresholds base d =
     (case dn_thresholds d of None \<Rightarrow> Inr base | Some w \<Rightarrow> merge_ward_into_thresholds base w)"

section \<open>Rituals\<close>

definition banish_node :: "banishment_spec \<Rightarrow> cast_node \<Rightarrow> cast_node" where
  "banish_node b n =
     (if list_ex (\<lambda>e. ef_type e \<in> set (bn_quarantine_effect_types b)) (or_empty (cn_effects n))
         \<and> cn_rollback n \<in> {None, Some RB_NONE}
      then n\<lparr>cn_rollback := Some (bn_default_rollback b)\<rparr> else n)"

definition apply_banishment_to_program :: "semantic_program \<Rightarrow> banishment_spec \<Rightarrow> semantic_program" where
  "apply_banishment_to_program p b =
     (if \<not> bn_strict b then p else p\<lparr>sp_nodes := map (banish_node b) (sp_nodes p)\<rparr>)"

definition compile_ritual_spec :: "ritual_spec \<Rightarrow> semantic_program" where
  "compile_ritual_spec r =
     (let meta = dset ''ritual'' (JObj [(''ritual_id'', JStr (rt_ritual_id r))])
            (dset ''arcane''
              (JObj [(''kind'', JStr ''ritual''), (''ritual_id'', JStr (rt_ritual_id r)),
                 (''ward'', opt_json ward_dump (rt_ward r)),
                 (''divination'', opt_json divination_dump (rt_divination r)),
                 (''banishment'', opt_json banishment_dump (rt_banishment r))])
              (sp_metadata (rt_program r)));
          p = (rt_program r)\<lparr>sp_metadata := meta, sp_name := str_or (Some (sp_name (rt_program r))) (rt_ritual_id r)\<rparr>
      in case rt_banishment r of None \<Rightarrow> p | Some b \<Rightarrow> apply_banishment_to_program p b)"

section \<open>Templates\<close>

text \<open>
  \<open>text.format(**params)\<close>, from left to right: doubled braces stand for themselves, a field \<open>{name}\<close>
  for the text of the parameter.  A field with an attribute, an index, a conversion or a format
  specification is left to the parameter \<open>fancy\<close>, which gives its text and the length of its source;
  the bundles of the repository have none.
\<close>

type_synonym fancy = "(string, json) dict \<Rightarrow> string \<Rightarrow> (string \<times> nat) result"

definition plain_char :: "char \<Rightarrow> bool" where
  "plain_char c \<longleftrightarrow> c \<notin> set ''{}[.!:''"

definition format_field :: "(string, json) dict \<Rightarrow> string \<Rightarrow> string result" where
  "format_field params name =
     (if name = [] then Inl (IndexError ''Replacement index 0 out of range for positional args tuple'')
      else case rmap_list (\<lambda>c. of_option (ValueError []) (digit_value c)) name of
        Inr _ \<Rightarrow>
          (case parse_digits 0 name of
             Some n \<Rightarrow> if n < 2 ^ 63
               then Inl (IndexError (''Replacement index '' @ int_text n @ '' out of range for positional args tuple''))
               else Inl (ValueError ''Too many decimal digits in format string'')
           | None \<Rightarrow> Inl (ValueError ''Too many decimal digits in format string''))
      | Inl _ \<Rightarrow> rbind (of_option (KeyError name) (dget params name)) (\<lambda>v. Inr (py_str v)))"

lemma dropWhile_less: "dropWhile p s = x # xs \<Longrightarrow> length xs < length s"
  by (metis length_dropWhile_le length_Cons Suc_le_lessD)

function format_text :: "fancy \<Rightarrow> (string, json) dict \<Rightarrow> string \<Rightarrow> string result" where
  "format_text fancy params [] = Inr []"
| "format_text fancy params (c # s) =
     (if c = CHR ''{'' then
        (case s of
           [] \<Rightarrow> Inl (ValueError ''Single '{' encountered in format string'')
         | d # rest \<Rightarrow>
             if d = CHR ''{'' then rbind (format_text fancy params rest) (\<lambda>t. Inr (CHR ''{'' # t))
             else let name = takeWhile plain_char s; after = dropWhile plain_char s in
               (case after of
                  [] \<Rightarrow> Inl (ValueError ''expected '}' before end of string'')
                | e # tail \<Rightarrow>
                    if e = CHR ''}'' then
                      rbind (format_field params name) (\<lambda>x.
                      rbind (format_text fancy params tail) (\<lambda>t. Inr (x @ t)))
                    else
                      rbind (fancy params s) (\<lambda>(x, n).
                      rbind (format_text fancy params (drop n s)) (\<lambda>t. Inr (x @ t)))))
      else if c = CHR ''}'' then
        (case s of
           d # rest \<Rightarrow>
             if d = CHR ''}'' then rbind (format_text fancy params rest) (\<lambda>t. Inr (CHR ''}'' # t))
             else Inl (ValueError ''Single '}' encountered in format string'')
         | [] \<Rightarrow> Inl (ValueError ''Single '}' encountered in format string''))
      else rbind (format_text fancy params s) (\<lambda>t. Inr (c # t)))"
  by pat_completeness auto

termination
  by (relation "measure (\<lambda>(_, _, s). length s)") (auto split: if_splits dest: dropWhile_less dropWhile_less [OF sym])

definition format_string :: "fancy \<Rightarrow> (string, json) dict \<Rightarrow> string \<Rightarrow> string result" where
  "format_string fancy params s =
     (case format_text fancy params s of Inl (KeyError _) \<Rightarrow> Inr s | r \<Rightarrow> r)"

fun sequence_results :: "'a result list \<Rightarrow> 'a list result" where
  "sequence_results [] = Inr []"
| "sequence_results (r # rs) = rbind r (\<lambda>x. rbind (sequence_results rs) (\<lambda>xs. Inr (x # xs)))"

fun format_template :: "fancy \<Rightarrow> (string, json) dict \<Rightarrow> json \<Rightarrow> json result" where
  "format_template fancy params (JStr s) = rbind (format_string fancy params s) (\<lambda>t. Inr (JStr t))"
| "format_template fancy params (JObj d) =
     rbind (sequence_results (map (\<lambda>(k, v). rbind (format_template fancy params v) (\<lambda>w. Inr (k, w))) d))
       (\<lambda>e. Inr (JObj e))"
| "format_template fancy params (JList xs) =
     rbind (sequence_results (map (format_template fancy params) xs)) (\<lambda>ys. Inr (JList ys))"
| "format_template fancy params x = Inr x"

section \<open>Bundles\<close>

text \<open>
  The bundle files: those of the package and those of the overlay directory (\<open>None\<close> when
  \<open>VERMYTH_ARCANE_BUNDLE_DIR\<close> is not set), by the stem of their name.  The package wins.  The
  validation of JSON documents by pydantic is a parameter.
\<close>

record bundle_dirs =
  bd_package :: "(string, (string, json) dict) dict"
  bd_overlay :: "(string, (string, json) dict) dict option"

record validators =
  va_manifest :: "(string, json) dict \<Rightarrow> bundle_manifest result"
  va_thresholds :: "json \<Rightarrow> policy_thresholds result"
  va_ward :: "json \<Rightarrow> ward_spec result"

definition primary_bundle :: "bundle_dirs \<Rightarrow> string \<Rightarrow> (string, json) dict option" where
  "primary_bundle D bid =
     (case dget (bd_package D) bid of
        Some raw \<Rightarrow> Some raw
      | None \<Rightarrow> (case bd_overlay D of None \<Rightarrow> None | Some o2 \<Rightarrow> dget o2 bid))"

definition load_bundle :: "bundle_dirs \<Rightarrow> validators \<Rightarrow> string \<Rightarrow> int \<Rightarrow> bundle_manifest result" where
  "load_bundle D V bid version =
     rbind (of_option (FileNotFoundError (''semantic bundle not found: '' @ bid)) (primary_bundle D bid)) (\<lambda>raw.
     rbind (py_int (dget_or raw ''version'' (JInt 0))) (\<lambda>v.
     if v \<noteq> version
     then Inl (ValueError (''bundle version mismatch: '' @ bid @ '' want '' @ int_text version @ '' got '' @
                 py_str (dget_or raw ''version'' JNull)))
     else va_manifest V raw))"

definition list_bundle_ids :: "bundle_dirs \<Rightarrow> string list" where
  "list_bundle_ids D =
     sort (remdups (map fst (bd_package D) @ (case bd_overlay D of None \<Rightarrow> [] | Some o2 \<Rightarrow> map fst o2)))"

definition load_primary_bundle_manifest :: "bundle_dirs \<Rightarrow> validators \<Rightarrow> string \<Rightarrow> bundle_manifest result" where
  "load_primary_bundle_manifest D V bid =
     rbind (of_option (FileNotFoundError (''semantic bundle not found: '' @ bid)) (primary_bundle D bid)) (\<lambda>raw.
     rbind (of_option (KeyError ''version'') (dget raw ''version'')) (\<lambda>v.
     rbind (py_int v) (\<lambda>n. load_bundle D V bid n)))"

section \<open>Compilation\<close>

definition compile_manifest ::
  "fancy \<Rightarrow> validators \<Rightarrow> bundle_manifest \<Rightarrow> (string, json) dict \<Rightarrow> compiled_invocation result" where
  "compile_manifest fancy V m params =
     rbind (format_template fancy params (JObj (bm_template m))) (\<lambda>b.
     let body = (case b of JObj d \<Rightarrow> d | _ \<Rightarrow> []);
         prov = [(''bundle_id'', JStr (bm_id m)), (''bundle_version'', JInt (bm_version m)),
                 (''kind'', JStr (enum_name bundle_kind_members (bm_kind m)))]
     in case bm_kind m of
          BK_DECIDE \<Rightarrow>
            (let dn = (case dget body ''_divination'' of Some (JObj d) \<Rightarrow> d | _ \<Rightarrow> []);
                 inp = dpop ''_divination'' body;
                 inp1 = (if truthy (dget_or dn ''require_causal_context'' JNull)
                         then dset ''__require_causal_root__'' (JBool True) inp else inp);
                 th = dget_or dn ''thresholds'' JNull
             in rbind (if \<not> truthy th then Inr inp1
                       else
                         (let cur = dget_or inp1 ''thresholds'' JNull in
                          rbind (va_thresholds V (if truthy cur then cur else JObj [])) (\<lambda>base.
                          rbind (va_ward V th) (\<lambda>w.
                          rbind (merge_ward_into_thresholds base w) (\<lambda>t.
                          Inr (dset ''thresholds'' (thresholds_dump t) inp1)))))) (\<lambda>inp2.
                Inr \<lparr>ci_skill_id = ''decide'', ci_input = inp2, ci_arcane_provenance = prov\<rparr>))
        | BK_CAST \<Rightarrow> Inr \<lparr>ci_skill_id = ''cast'', ci_input = body, ci_arcane_provenance = prov\<rparr>
        | BK_COMPILE_PROGRAM \<Rightarrow>
            Inr \<lparr>ci_skill_id = ''compile_program'', ci_input = body, ci_arcane_provenance = prov\<rparr>)"

text \<open>
  \<open>dict(x or {})\<close> of a JSON value.  A list has to consist of pairs with string keys (other keys are
  rejected here, in Python by the first \<open>format\<close>).
\<close>

fun pair_of :: "json \<Rightarrow> (string \<times> json) result" where
  "pair_of (JList [JStr k, v]) = Inr (k, v)"
| "pair_of (JStr [c, d]) = Inr ([c], JStr [d])"
| "pair_of (JObj [(k, _), (l, _)]) = Inr (k, JStr l)"
| "pair_of (JList [_, _]) = Inl (TypeError ''keywords must be strings'')"
| "pair_of (JList _) = Inl (ValueError ''dictionary update sequence element has the wrong length; 2 is required'')"
| "pair_of (JStr _) = Inl (ValueError ''dictionary update sequence element has the wrong length; 2 is required'')"
| "pair_of (JObj _) = Inl (ValueError ''dictionary update sequence element has the wrong length; 2 is required'')"
| "pair_of _ = Inl (TypeError ''cannot convert dictionary update sequence element to a sequence'')"

fun dict_or_empty :: "json \<Rightarrow> (string, json) dict result" where
  "dict_or_empty (JObj d) = Inr d"
| "dict_or_empty (JList xs) = rbind (rmap_list pair_of xs) (\<lambda>ps. Inr (dmerge [] ps))"
| "dict_or_empty (JStr s) =
     (if s = [] then Inr [] else Inl (ValueError ''dictionary update sequence element has the wrong length; 2 is required''))"
| "dict_or_empty v = (if truthy v then Inl (TypeError ''object is not iterable'') else Inr [])"

definition compile_semantic_bundle_ref ::
  "fancy \<Rightarrow> bundle_dirs \<Rightarrow> validators \<Rightarrow> (string, json) dict \<Rightarrow> compiled_invocation result" where
  "compile_semantic_bundle_ref fancy D V ref =
     rbind (of_option (KeyError ''bundle_id'') (dget ref ''bundle_id'')) (\<lambda>b.
     let bid = py_str b in
     rbind (of_option (KeyError ''version'') (dget ref ''version'')) (\<lambda>v.
     rbind (py_int v) (\<lambda>ver.
     rbind (dict_or_empty (dget_or ref ''params'' JNull)) (\<lambda>params.
     rbind (load_bundle D V bid ver) (\<lambda>m.
     let missing = filter (\<lambda>k. \<not> dhas params k) (bm_param_keys m) in
     if missing \<noteq> []
     then Inl (ValueError (''bundle '' @ bid @ '' missing params: '' @ py_repr (JList (map JStr missing))))
     else compile_manifest fancy V m params)))))"

section \<open>Invocation\<close>

definition semantic_bundle_ext :: string where
  "semantic_bundle_ext = ''vermyth.io/v1/semantic_bundle''"

definition skip_expansion :: "string list" where
  "skip_expansion =
     [''expand_semantic_bundle'', ''compile_ritual'', ''list_semantic_bundles'',
      ''inspect_semantic_bundle'', ''recommend_semantic_bundles'']"

definition dict_value :: "json option \<Rightarrow> (string, json) dict option" where
  "dict_value v = (case v of Some (JObj d) \<Rightarrow> Some d | _ \<Rightarrow> None)"

definition extract_semantic_bundle_ref :: "(string, json) dict \<Rightarrow> (string, json) dict option" where
  "extract_semantic_bundle_ref inp =
     (if dhas inp ''semantic_bundle'' then dict_value (dget inp ''semantic_bundle'')
      else case dict_value (dget inp ''extensions'') of
        Some ext \<Rightarrow> dict_value (dget ext semantic_bundle_ext)
      | None \<Rightarrow> None)"

definition strip_bundle_keys :: "(string, json) dict \<Rightarrow> (string, json) dict" where
  "strip_bundle_keys inp =
     (let out = dpop ''semantic_bundle'' inp in
      case dict_value (dget out ''extensions'') of
        Some ext \<Rightarrow>
          if dhas ext semantic_bundle_ext then
            (let rest = filter (\<lambda>(k, _). k \<noteq> semantic_bundle_ext) ext in
             if rest \<noteq> [] then dset ''extensions'' (JObj rest) out else dpop ''extensions'' out)
          else out
      | None \<Rightarrow> out)"

text \<open>
  A call as the servers dispatch it: the tool, its arguments and the provenance of the bundle it came
  from.  The optional local telemetry is off; the theory Telemetry adds it.
\<close>

type_synonym invocation = "string \<times> (string, json) dict \<times> (string, json) dict option"

record arcane_env =
  ae_fancy :: fancy
  ae_dirs :: bundle_dirs
  ae_validators :: validators

definition compile_ref :: "arcane_env \<Rightarrow> (string, json) dict \<Rightarrow> compiled_invocation result" where
  "compile_ref A ref = compile_semantic_bundle_ref (ae_fancy A) (ae_dirs A) (ae_validators A) ref"

definition expand_task_input :: "arcane_env \<Rightarrow> string \<Rightarrow> (string, json) dict \<Rightarrow> invocation result" where
  "expand_task_input A skill inp =
     (case extract_semantic_bundle_ref inp of
        None \<Rightarrow> Inr (skill, inp, None)
      | Some [] \<Rightarrow> Inr (skill, inp, None)
      | Some ref \<Rightarrow>
          rbind (compile_ref A ref) (\<lambda>inv.
          Inr (ci_skill_id inv, dmerge (strip_bundle_keys inp) (ci_input inv), Some (ci_arcane_provenance inv))))"

definition expand_to_invocation :: "arcane_env \<Rightarrow> string \<Rightarrow> (string, json) dict \<Rightarrow> compiled_invocation result" where
  "expand_to_invocation A skill inp =
     rbind (expand_task_input A skill inp) (\<lambda>(sid, merged, prov).
     Inr \<lparr>ci_skill_id = sid, ci_input = merged, ci_arcane_provenance = (case prov of None \<Rightarrow> [] | Some p \<Rightarrow> p)\<rparr>)"

definition resolve_tool_invocation :: "arcane_env \<Rightarrow> string \<Rightarrow> (string, json) dict \<Rightarrow> invocation result" where
  "resolve_tool_invocation A tool args =
     (if tool \<in> set skip_expansion then Inr (tool, args, None) else expand_task_input A tool args)"

definition attach_arcane_provenance :: "json \<Rightarrow> (string, json) dict option \<Rightarrow> json" where
  "attach_arcane_provenance result prov =
     (case (prov, result) of
        (Some p, JObj d) \<Rightarrow> JObj (dset ''arcane_provenance'' (JObj p) d)
      | _ \<Rightarrow> result)"

section \<open>Discovery\<close>

definition placeholder_params :: "string list \<Rightarrow> (string, json) dict" where
  "placeholder_params keys = dmerge [] (map (\<lambda>k. (k, JStr (''<'' @ k @ ''>''))) keys)"

definition kind_name :: "bundle_kind \<Rightarrow> string" where
  "kind_name k = enum_name bundle_kind_members k"

definition bundle_ref :: "string \<Rightarrow> int \<Rightarrow> (string, json) dict \<Rightarrow> (string, json) dict" where
  "bundle_ref bid version params =
     [(''bundle_id'', JStr bid), (''version'', JInt version), (''params'', JObj params)]"

definition build_guided_upgrade :: "bundle_manifest \<Rightarrow> json" where
  "build_guided_upgrade m =
     (let bid = bm_id m; ver = bm_version m in
      JObj [(''semantic_bundle'', JObj (bundle_ref bid ver (placeholder_params (bm_param_keys m)))),
        (''inspect'', JObj
          [(''mcp_tool'', JStr ''inspect_semantic_bundle''),
           (''mcp_arguments'', JObj [(''bundle_id'', JStr bid), (''version'', JInt ver)]),
           (''http_get_path'', JStr (''/arcane/bundles/'' @ bid @ ''?version='' @ int_text ver)),
           (''mcp_resource_uri'', JStr (''vermyth://semantic_bundle/'' @ bid @ ''?version='' @ int_text ver))]),
        (''invoke'', JObj
          [(''target_skill'', JStr (kind_name (bm_kind m))),
           (''pattern'', JStr (''Pass semantic_bundle alongside other fields on task input or tool arguments; '' @
              ''the server expands before dispatch (same as MCP/HTTP parity paths).''))])])"

definition catalog_entry_dict :: "bundle_manifest \<Rightarrow> json" where
  "catalog_entry_dict m =
     JObj ([(''bundle_id'', JStr (bm_id m)), (''version'', JInt (bm_version m)),
        (''kind'', JStr (kind_name (bm_kind m))), (''param_keys'', JList (map JStr (bm_param_keys m))),
        (''summary'', opt_str (bm_summary m)), (''description'', opt_str (bm_description m)),
        (''recommended_for'', JList (map JStr (bm_recommended_for m))),
        (''stability'', JStr (str_or (bm_stability m) ''stable'')),
        (''target_skill'', JStr (kind_name (bm_kind m)))]
       @ (case bm_library m of None \<Rightarrow> [] | Some l \<Rightarrow> [(''library'', JStr l)])
       @ (case bm_recommendation m of None \<Rightarrow> []
          | Some r \<Rightarrow> [(''recommendation'', JObj
              [(''target_skills'', JList (map JStr (br_target_skills r))),
               (''tier_count'', JInt (int (length (br_tiers r)))),
               (''match_kinds'', JList (map (\<lambda>t. JStr (enum_name match_kind_members (rc_match_kind t)))
                                         (br_tiers r)))])]))"

definition list_bundle_catalog ::
  "bundle_dirs \<Rightarrow> validators \<Rightarrow> bundle_kind option \<Rightarrow> json list result" where
  "list_bundle_catalog D V kind =
     rbind (rmap_list (load_primary_bundle_manifest D V) (list_bundle_ids D)) (\<lambda>ms.
     Inr (map catalog_entry_dict (filter (\<lambda>m. case kind of None \<Rightarrow> True | Some k \<Rightarrow> bm_kind m = k) ms)))"

definition preview_compiled_invocation ::
  "arcane_env \<Rightarrow> string \<Rightarrow> int \<Rightarrow> (string, json) dict option \<Rightarrow> json result" where
  "preview_compiled_invocation A bid version params =
     rbind (case params of
              Some p \<Rightarrow> Inr p
            | None \<Rightarrow> rbind (load_bundle (ae_dirs A) (ae_validators A) bid version) (\<lambda>m.
                      Inr (placeholder_params (bm_param_keys m)))) (\<lambda>p.
     rbind (compile_ref A (bundle_ref bid version p)) (\<lambda>inv.
     Inr (JObj [(''skill_id'', JStr (ci_skill_id inv)), (''input'', JObj (ci_input inv)),
                (''arcane_provenance'', JObj (ci_arcane_provenance inv))])))"

definition inspect_semantic_bundle_detail ::
  "arcane_env \<Rightarrow> string \<Rightarrow> int \<Rightarrow> (string, json) dict option \<Rightarrow> json result" where
  "inspect_semantic_bundle_detail A bid version params =
     rbind (load_bundle (ae_dirs A) (ae_validators A) bid version) (\<lambda>m.
     rbind (preview_compiled_invocation A bid version params) (\<lambda>preview.
     Inr (JObj [(''manifest'', manifest_dump m), (''compiled_preview'', preview),
       (''semantic_bundle_ref_example'', JObj (bundle_ref bid version
          (case params of Some p \<Rightarrow> p | None \<Rightarrow> placeholder_params (bm_param_keys m)))),
       (''guided_upgrade'', build_guided_upgrade m)])))"

section \<open>Recommendations\<close>

definition upper_char :: "char \<Rightarrow> char" where
  "upper_char c = (if CHR ''a'' \<le> c \<and> c \<le> CHR ''z'' then char_of ((of_char c :: nat) - 32) else c)"

text \<open>\<open>str.upper\<close> on ASCII text.\<close>

definition upper_text :: "string \<Rightarrow> string" where
  "upper_text s = map upper_char s"

definition norm_aspects :: "json option \<Rightarrow> string list" where
  "norm_aspects v = (case v of Some (JList xs) \<Rightarrow> map (\<lambda>x. upper_text (strip_text (py_str x))) xs | _ \<Rightarrow> [])"

definition intent_slice :: "(string, json) dict \<Rightarrow> (string, json) dict" where
  "intent_slice args =
     (case dict_value (dget args ''intent'') of
        Some d \<Rightarrow> d
      | None \<Rightarrow> List.map_filter (\<lambda>k. map_option (Pair k) (dget args k))
                  [''objective'', ''scope'', ''reversibility'', ''side_effect_tolerance''])"

lemma size_member: "x \<in> set xs \<Longrightarrow> size x < Suc (size_list size xs)"
  by (induction xs) auto

lemma size_entry: "(k, v) \<in> set d \<Longrightarrow> size v < Suc (size_list (size_prod (\<lambda>_. 0) size) d)"
  by (induction d) auto

text \<open>\<open>a == b\<close> on JSON values: objects compare by their entries, in any order.\<close>

function json_eq :: "json \<Rightarrow> json \<Rightarrow> bool" where
  "json_eq (JList xs) b =
     (case b of JList ys \<Rightarrow> length xs = length ys \<and> list_all (\<lambda>(x, y). json_eq x y) (zip xs ys) | _ \<Rightarrow> False)"
| "json_eq (JObj d) b =
     (case b of
        JObj e \<Rightarrow> length d = length e
          \<and> list_all (\<lambda>(k, v). case dget e k of None \<Rightarrow> False | Some w \<Rightarrow> json_eq v w) d
      | _ \<Rightarrow> False)"
| "json_eq JNull b = py_eq JNull b"
| "json_eq (JBool x) b = py_eq (JBool x) b"
| "json_eq (JInt n) b = py_eq (JInt n) b"
| "json_eq (JFloat x) b = py_eq (JFloat x) b"
| "json_eq (JStr s) b = py_eq (JStr s) b"
  by pat_completeness auto

termination
  by (relation "measure (\<lambda>(a, _). size a)") (auto intro: size_member size_entry dest: set_zip_leftD)

definition intent_subset_eq :: "(string, json) dict \<Rightarrow> (string, json) dict \<Rightarrow> bool" where
  "intent_subset_eq i required = list_all (\<lambda>(k, v). json_eq (dget_or i k JNull) v) required"

fun thresholds_match :: "(string, json) dict \<Rightarrow> (string, json) dict \<Rightarrow> bool result" where
  "thresholds_match th [] = Inr True"
| "thresholds_match th ((k, v) # rest) =
     rbind (py_float (dget_or th k JNull)) (\<lambda>x.
     rbind (py_float v) (\<lambda>y. if x \<noteq> y then Inr False else thresholds_match th rest))"

definition thresholds_eq :: "json option \<Rightarrow> (string, json) dict \<Rightarrow> bool result" where
  "thresholds_eq th required =
     (case dict_value th of
        None \<Rightarrow> Inr False
      | Some d \<Rightarrow>
          (case thresholds_match d required of
             Inl (TypeError _) \<Rightarrow> Inr False
           | Inl (ValueError _) \<Rightarrow> Inr False
           | r \<Rightarrow> r))"

definition objective_of :: "(string, json) dict \<Rightarrow> string" where
  "objective_of args = py_str (dget_or (intent_slice args) ''objective'' (JStr []))"

text \<open>A rule with an operator that is not in \<open>RULE_OPS\<close> never holds.\<close>

definition eval_rule :: "recommendation_rule \<Rightarrow> (string, json) dict \<Rightarrow> bool result" where
  "eval_rule r args =
     (if rr_op r = ''aspects_eq'' then
        Inr (case rr_value r of
               JList xs \<Rightarrow> norm_aspects (dget args ''aspects'') = map (\<lambda>x. upper_text (py_str x)) xs
             | _ \<Rightarrow> False)
      else if rr_op r = ''intent_subset_eq'' then
        Inr (case rr_value r of JObj d \<Rightarrow> intent_subset_eq (intent_slice args) d | _ \<Rightarrow> False)
      else if rr_op r = ''thresholds_eq'' then
        (case rr_value r of JObj d \<Rightarrow> thresholds_eq (dget args ''thresholds'') d | _ \<Rightarrow> Inr False)
      else if rr_op r = ''objective_starts_with'' then
        (let ok = startswith (objective_of args) (if truthy (rr_value r) then py_str (rr_value r) else [])
         in Inr (if rr_negate r then \<not> ok else ok))
      else if rr_op r = ''objective_length_between'' then
        (let obj = objective_of args in
         Inr (strip_text obj \<noteq> []
              \<and> (case rr_min_len r of None \<Rightarrow> True | Some n \<Rightarrow> n \<le> length obj)
              \<and> (case rr_max_len r of None \<Rightarrow> True | Some n \<Rightarrow> length obj \<le> n)))
      else if rr_op r = ''field_eq'' then
        (let path = str_or (rr_path r) [] in
         Inr (path \<noteq> [] \<and> (case dget args path of None \<Rightarrow> False | Some v \<Rightarrow> json_eq v (rr_value r))))
      else if rr_op r = ''field_present'' then
        (let path = str_or (rr_path r) [] in Inr (path \<noteq> [] \<and> truthy (dget_or args path JNull)))
      else Inr False)"

definition matched_feature_tag :: "recommendation_rule \<Rightarrow> string" where
  "matched_feature_tag r =
     (let base = ''rule:'' @ rr_op r in
      case rr_rule_id r of None \<Rightarrow> base | Some rid \<Rightarrow> if rid = [] then base else base @ '':'' @ rid)"

text \<open>The tags of the rules when all of them hold.\<close>

fun match_rules :: "recommendation_rule list \<Rightarrow> (string, json) dict \<Rightarrow> string list option result" where
  "match_rules [] args = Inr (Some [])"
| "match_rules (r # rs) args =
     rbind (eval_rule r args) (\<lambda>ok.
     if \<not> ok then Inr None
     else rbind (match_rules rs args) (\<lambda>m. Inr (map_option (Cons (matched_feature_tag r)) m)))"

record recommendation_row =
  ro_bundle_id :: string
  ro_version :: int
  ro_strength :: real
  ro_match_kind :: match_kind
  ro_matched_features :: "string list"
  ro_target_skill :: string
  ro_why_better :: string
  ro_guided_upgrade :: json

definition row_of ::
  "bundle_manifest \<Rightarrow> bundle_recommendation \<Rightarrow> recommendation_tier \<Rightarrow> string list \<Rightarrow> recommendation_row" where
  "row_of m spec t tags =
     \<lparr>ro_bundle_id = bm_id m, ro_version = bm_version m, ro_strength = rc_strength t,
      ro_match_kind = rc_match_kind t,
      ro_matched_features = tags @ [''tier:'' @ enum_name match_kind_members (rc_match_kind t), ''bundle:'' @ bm_id m],
      ro_target_skill = kind_name (bm_kind m), ro_why_better = br_why_better spec,
      ro_guided_upgrade = build_guided_upgrade m\<rparr>"

fun first_tier ::
  "bundle_manifest \<Rightarrow> bundle_recommendation \<Rightarrow> (string, json) dict \<Rightarrow> recommendation_tier list
     \<Rightarrow> recommendation_row list result" where
  "first_tier m spec args [] = Inr []"
| "first_tier m spec args (t # ts) =
     rbind (match_rules (rc_require_all t) args) (\<lambda>tags.
     case tags of None \<Rightarrow> first_tier m spec args ts | Some x \<Rightarrow> Inr [row_of m spec t x])"

definition evaluate_bundle ::
  "bundle_manifest \<Rightarrow> string \<Rightarrow> (string, json) dict \<Rightarrow> recommendation_row list result" where
  "evaluate_bundle m skill args =
     (case bm_recommendation m of
        None \<Rightarrow> Inr []
      | Some spec \<Rightarrow> if skill \<notin> set (br_target_skills spec) then Inr [] else first_tier m spec args (br_tiers spec))"

text \<open>Sorting by \<open>(-strength, bundle_id)\<close>: by the id, then stably by the strength.\<close>

definition rank_rows :: "recommendation_row list \<Rightarrow> recommendation_row list" where
  "rank_rows rows = sort_key (\<lambda>r. - ro_strength r) (sort_key ro_bundle_id rows)"

fun dedupe_rows :: "string list \<Rightarrow> recommendation_row list \<Rightarrow> recommendation_row list" where
  "dedupe_rows seen [] = []"
| "dedupe_rows seen (r # rs) =
     (if ro_bundle_id r \<in> set seen then dedupe_rows seen rs
      else r # dedupe_rows (ro_bundle_id r # seen) rs)"

definition recommended_rows ::
  "bundle_dirs \<Rightarrow> validators \<Rightarrow> string \<Rightarrow> (string, json) dict \<Rightarrow> real \<Rightarrow> recommendation_row list result" where
  "recommended_rows D V skill args min_strength =
     rbind (rmap_list (\<lambda>bid.
              rbind (load_primary_bundle_manifest D V bid) (\<lambda>m. evaluate_bundle m skill args))
              (list_bundle_ids D)) (\<lambda>rss.
     Inr (dedupe_rows [] (rank_rows (filter (\<lambda>r. min_strength \<le> ro_strength r) (concat rss)))))"

definition row_json :: "recommendation_row \<Rightarrow> json" where
  "row_json r =
     JObj [(''bundle_id'', JStr (ro_bundle_id r)), (''version'', JInt (ro_version r)),
       (''strength'', JFloat (ro_strength r)),
       (''match_kind'', JStr (enum_name match_kind_members (ro_match_kind r))),
       (''matched_features'', JList (map JStr (ro_matched_features r))),
       (''target_skill'', JStr (ro_target_skill r)), (''why_better'', JStr (ro_why_better r)),
       (''guided_upgrade'', ro_guided_upgrade r)]"

definition recommend_for_plain_invocation ::
  "bundle_dirs \<Rightarrow> validators \<Rightarrow> string \<Rightarrow> (string, json) dict \<Rightarrow> real \<Rightarrow> json result" where
  "recommend_for_plain_invocation D V skill args min_strength =
     (if (case extract_semantic_bundle_ref args of Some (_ # _) \<Rightarrow> True | _ \<Rightarrow> False)
      then Inr (JObj [(''skill_id'', JStr skill), (''recommendations'', JList []),
             (''note'', JStr ''input already contains semantic_bundle; nothing to suggest'')])
      else
      rbind (recommended_rows D V skill args min_strength) (\<lambda>rows.
      Inr (JObj [(''skill_id'', JStr skill), (''recommendations'', JList (map row_json rows)),
        (''advisory'', JBool True),
        (''note'', JStr (''Recommendations are manifest-driven and inspectable; verify with '' @
                         ''inspect_semantic_bundle before adopting''))])))"

section \<open>The tools\<close>

definition tool_expand_semantic_bundle :: "arcane_env \<Rightarrow> string \<Rightarrow> (string, json) dict \<Rightarrow> json result" where
  "tool_expand_semantic_bundle A skill inp =
     rbind (expand_to_invocation A skill inp) (\<lambda>inv.
     Inr (JObj [(''skill_id'', JStr (ci_skill_id inv)), (''input'', JObj (ci_input inv)),
                (''arcane_provenance'', JObj (ci_arcane_provenance inv))]))"

definition tool_list_semantic_bundles :: "arcane_env \<Rightarrow> string option \<Rightarrow> json result" where
  "tool_list_semantic_bundles A kind =
     (let k = (case kind of None \<Rightarrow> None | Some s \<Rightarrow> dget bundle_kind_members s) in
      rbind (list_bundle_catalog (ae_dirs A) (ae_validators A) k) (\<lambda>rows.
      Inr (JObj [(''bundles'', JList rows)])))"

definition tool_inspect_semantic_bundle ::
  "arcane_env \<Rightarrow> string \<Rightarrow> int \<Rightarrow> (string, json) dict option \<Rightarrow> json result" where
  "tool_inspect_semantic_bundle A bid version params = inspect_semantic_bundle_detail A bid version params"

definition tool_recommend_semantic_bundles ::
  "arcane_env \<Rightarrow> string \<Rightarrow> (string, json) dict \<Rightarrow> real option \<Rightarrow> json result" where
  "tool_recommend_semantic_bundles A skill inp min_strength =
     recommend_for_plain_invocation (ae_dirs A) (ae_validators A) skill inp
       (case min_strength of None \<Rightarrow> lit 0.55 | Some x \<Rightarrow> x)"

text \<open>The dispatchers, which read the arguments of a call.\<close>

definition dispatch_expand_semantic_bundle :: "arcane_env \<Rightarrow> (string, json) dict \<Rightarrow> json result" where
  "dispatch_expand_semantic_bundle A args =
     rbind (dict_or_empty (dget_or args ''input'' JNull)) (\<lambda>inp.
     tool_expand_semantic_bundle A (py_str (dget_or args ''skill_id'' (JStr ''decide''))) inp)"

definition dispatch_list_semantic_bundles :: "arcane_env \<Rightarrow> (string, json) dict \<Rightarrow> json result" where
  "dispatch_list_semantic_bundles A args = tool_list_semantic_bundles A (map_option py_str (given args ''kind''))"

definition dispatch_inspect_semantic_bundle :: "arcane_env \<Rightarrow> (string, json) dict \<Rightarrow> json result" where
  "dispatch_inspect_semantic_bundle A args =
     rbind (py_int (dget_or args ''version'' (JInt 1))) (\<lambda>v.
     tool_inspect_semantic_bundle A (py_str (dget_or args ''bundle_id'' (JStr []))) v
       (dict_value (dget args ''params'')))"

definition dispatch_recommend_semantic_bundles :: "arcane_env \<Rightarrow> (string, json) dict \<Rightarrow> json result" where
  "dispatch_recommend_semantic_bundles A args =
     rbind (dict_or_empty (dget_or args ''input'' JNull)) (\<lambda>inp.
     rbind (case given args ''min_strength'' of None \<Rightarrow> Inr None
            | Some v \<Rightarrow> rbind (py_float v) (\<lambda>x. Inr (Some x))) (\<lambda>ms.
     tool_recommend_semantic_bundles A (py_str (dget_or args ''skill_id'' (JStr ''decide''))) inp ms))"

section \<open>Wards only restrict\<close>

text \<open>A ward loosens the drift bound only by setting DRIFTING where it was not tolerated.\<close>

definition ward_keeps_drift :: "policy_thresholds \<Rightarrow> ward_spec \<Rightarrow> bool" where
  "ward_keeps_drift t w \<longleftrightarrow>
     (case wd_max_drift_status w of Some DRIFTING \<Rightarrow> pt_max_drift_status t = DRIFTING | _ \<Rightarrow> True)"

lemma merge_ward_Inr:
  assumes "merge_ward_into_thresholds t w = Inr t'"
  shows "pt_allow_min_resonance t \<le> pt_allow_min_resonance t'"
    and "\<And>m. pt_effect_risk_min_score t = Some m \<Longrightarrow> \<exists>m'. pt_effect_risk_min_score t' = Some m' \<and> m \<le> m'"
    and "wd_scorer_weights w = None \<Longrightarrow> pt_scorer_weights t' = pt_scorer_weights t"
    and "pt_max_drift_status t' = (case wd_max_drift_status w of None \<Rightarrow> pt_max_drift_status t | Some s \<Rightarrow> s)"
    and "pred_option (\<lambda>m. 0 \<le> m \<and> m \<le> 1) (pt_effect_risk_min_score t')"
  using assms unfolding merge_ward_into_thresholds_def mk_policy_thresholds_def
  by (auto split: if_splits option.splits)

lemma drift_ok_ward:
  assumes "merge_ward_into_thresholds t w = Inr t'" "ward_keeps_drift t w" "drift_ok t' s" "s \<noteq> Some DIVERGED"
  shows "drift_ok t s"
  using assms(2-4) merge_ward_Inr(4) [OF assms(1)]
  by (cases "wd_max_drift_status w"; cases s)
    (auto simp: ward_keeps_drift_def drift_ok_def split: divergence_status.splits)

lemma ward_scores: "pt_scorer_weights t' = pt_scorer_weights t \<Longrightarrow> plan_score_list t' = plan_score_list t"
  by (simp add: fun_eq_iff plan_score_list_def plan_weight_def scorer_weight_def)

lemma rule_based_ward:
  assumes "merge_ward_into_thresholds t w = Inr t'" "ward_keeps_drift t w"
  shows "fst (rule_based vt a s n sc g t') \<le> fst (rule_based vt a s n sc g t)"
proof -
  have "rule_action vt a s g t' \<le> rule_action vt a s g t"
    using merge_ward_Inr(1) [OF assms(1)] drift_ok_ward [OF assms]
    by (auto simp: rule_action_def less_eq_policy_action_def)
  moreover have "effect_gate t' sc \<noteq> None" if "effect_gate t sc \<noteq> None"
  proof -
    from that obtain m c where g: "pt_effect_risk_min_score t = Some m"
      "first_where (\<lambda>c. sco_name c = ''effect_risk'') sc = Some c" "sco_weight c > 0" "sco_value c < m"
      by (auto simp: effect_gate_def split: option.splits if_splits)
    with merge_ward_Inr(2) [OF assms(1) g(1)] show ?thesis by (auto simp: effect_gate_def)
  qed
  moreover have "DENY \<le> x" for x by (simp add: less_eq_policy_action_def)
  ultimately show ?thesis by (auto simp: rule_based_def Let_def split: option.splits)
qed

text \<open>
  C26. A ward only restricts: when it does not replace scorer weights and does not allow DRIFTING where
  the thresholds did not, the decision under the merged thresholds exists as well, is about the same
  cast, and its action is the same or stricter.
\<close>

theorem ward_only_restricts:
  assumes "decide E M mexp did now b st stamps db (D\<lparr>di_thresholds := Some t\<rparr>) i = Inr (d, r)"
    and "merge_ward_into_thresholds t w = Inr t'" "wd_scorer_weights w = None" "ward_keeps_drift t w"
    and "inputs_ok M (D\<lparr>di_thresholds := Some t\<rparr>)"
  shows "\<exists>d'. decide E M mexp did now b st stamps db (D\<lparr>di_thresholds := Some t'\<rparr>) i = Inr (d', r)
     \<and> pd_action d' \<le> pd_action d"
proof -
  let ?D = "D\<lparr>di_thresholds := Some t\<rparr>" and ?D' = "D\<lparr>di_thresholds := Some t'\<rparr>"
  note merged = merge_ward_Inr [OF assms(2)]
  have weights: "pt_scorer_weights t' = pt_scorer_weights t" by (rule merged(3) [OF assms(3)])
  have same [simp]: "decide_thresholds ?D = t" "decide_thresholds ?D' = t'"
    "noted_cast ?D' = noted_cast D" "noted_cast ?D = noted_cast D" "weights_ok t' = weights_ok t"
    "plan_cast E mexp b st stamps ?D' i = plan_cast E mexp b st stamps D i"
    "plan_cast E mexp b st stamps ?D i = plan_cast E mexp b st stamps D i"
    using weights by (simp_all add: decide_thresholds_def noted_cast_def fun_eq_iff plan_cast_def
        weights_ok_def plan_weight_def scorer_weight_def)
  have ok': "inputs_ok M ?D'"
    using assms(5) merged(5) weights
    by (auto simp: inputs_ok_def double_weights_def model_thresholds_def split: policy_model.splits option.splits)
  obtain r0 status narrative where p: "plan_cast E mexp b st stamps D i = Inr r0"
    "plan_divergence (eg_registry E) now db (di_parent_cast_id D) r0 = Inr status"
    "plan_narrative db (di_causal_root_cast_id D) = Inr narrative" "weights_ok t"
    "d = decision_for M did now ?D i t r0 status narrative" "r = noted_cast D narrative r0"
    using assms(1) unfolding decide_Inr by auto
  let ?d' = "decision_for M did now ?D' i t' r0 status narrative"
  have "mk_policy_decision ?d' = Inr ?d'"
    using decision_for_ok [of r0 E i narrative ?D' M] plan_cast_verdict [OF p(1)] plan_narrative_unit [OF p(3)]
      p(4) ok' by simp
  then have "decide E M mexp did now b st stamps db ?D' i = Inr (?d', r)"
    unfolding decide_Inr using p by auto
  moreover have "pd_action ?d' \<le> pd_action d"
    using rule_based_ward [OF assms(2,4)]
    by (auto simp: p(5) decision_for_sel ward_scores [OF weights] model_thresholds_def less_eq_policy_action_def
        split: policy_model.splits option.splits)
  ultimately show ?thesis by blast
qed


definition sample_ward :: ward_spec where
  "sample_ward = \<lparr>wd_allow_min_resonance = Some 1, wd_reshape_min_resonance = None,
     wd_max_drift_status = Some STABLE, wd_effect_risk_min_score = Some (1/2), wd_scorer_weights = None\<rparr>"

lemma ward_only_restricts_witness:
  "\<exists>t' d r d'. merge_ward_into_thresholds default_policy_thresholds sample_ward = Inr t'
     \<and> sample_decide [] = Inr (d, r)
     \<and> decide sample_engine RuleBased (\<lambda>x. fl (exp x)) ''d'' 0 ''b'' (''c1'', 0) [] None
         ((sample_plan [])\<lparr>di_thresholds := Some t'\<rparr>) sample_intent = Inr (d', r)
     \<and> pd_action d' \<le> pd_action d"
proof -
  let ?D = "(sample_plan [])\<lparr>di_thresholds := Some default_policy_thresholds\<rparr>"
  obtain d r where d: "sample_decide [] = Inr (d, r)" using sample_decide_exists by blast
  have "decide sample_engine RuleBased (\<lambda>x. fl (exp x)) ''d'' 0 ''b'' (''c1'', 0) [] None ?D sample_intent
      = sample_decide []"
    by (simp add: decide_def plan_cast_def sample_plan_def cong: if_cong)
  with d have e: "decide sample_engine RuleBased (\<lambda>x. fl (exp x)) ''d'' 0 ''b'' (''c1'', 0) [] None ?D sample_intent
      = Inr (d, r)" by simp
  have "0 \<le> lit 0.45 \<and> lit 0.45 \<le> 1" by (intro conjI lit_unit) simp_all
  then obtain t' where t': "merge_ward_into_thresholds default_policy_thresholds sample_ward = Inr t'"
    by (simp add: merge_ward_into_thresholds_def mk_policy_thresholds_def default_policy_thresholds_def sample_ward_def)
  have "inputs_ok RuleBased ?D"
    using default_weights_double
    by (simp add: inputs_ok_def decide_thresholds_def model_thresholds_def default_policy_thresholds_def)
  from ward_only_restricts [OF e t' _ _ this] d t' show ?thesis
    by (auto simp: sample_ward_def ward_keeps_drift_def)
qed

section \<open>Expansion settles\<close>

lemma sequence_results_keys:
  "sequence_results (map (\<lambda>(k, v). rbind (f v) (\<lambda>w. Inr (k, w))) d) = Inr e \<Longrightarrow> map fst e = map fst d"
  by (induction d arbitrary: e) (auto simp: rbind_Inr_iff)

lemma format_template_keys:
  "format_template fancy params (JObj d) = Inr b \<Longrightarrow> \<exists>e. b = JObj e \<and> map fst e = map fst d"
  by (auto simp: rbind_Inr_iff dest: sequence_results_keys)

lemma keys_dset: "set (map fst (dset k v d)) = insert k (set (map fst d))"
  by (induction d) auto

lemma compile_manifest_input:
  assumes "compile_manifest fancy V m params = Inr call" "keys_distinct (bm_template m)"
  shows "keys_distinct (ci_input call)
    \<and> set (map fst (ci_input call)) \<subseteq> set (map fst (bm_template m)) \<union> {''__require_causal_root__'', ''thresholds''}
    \<and> ci_skill_id call = kind_name (bm_kind m) \<and> dget (ci_arcane_provenance call) ''kind'' = Some (JStr (ci_skill_id call))"
proof -
  from assms(1) obtain b where b: "format_template fancy params (JObj (bm_template m)) = Inr b"
    unfolding compile_manifest_def rbind_Inr_iff by blast
  from format_template_keys [OF this] obtain body where body: "b = JObj body" "map fst body = map fst (bm_template m)"
    by blast
  have d: "keys_distinct body" using body(2) assms(2) by (simp add: keys_distinct_def)
  have sub: "set (map fst (dpop k body)) \<subseteq> set (map fst (bm_template m))" for k
    unfolding body(2) [symmetric] by (auto simp: AList.delete_eq)
  show ?thesis
    using assms(1) d sub [of "''_divination''"] body(2)
    unfolding compile_manifest_def b
    by (cases "bm_kind m")
      (auto simp: body(1) Let_def rbind_Inr_iff kind_name_def enum_name_def bundle_kind_members_def keys_dset
        split: if_splits simp del: set_map)
qed


lemma load_bundle_validated: "load_bundle D V bid v = Inr m \<Longrightarrow> \<exists>raw. va_manifest V raw = Inr m"
  by (auto simp: load_bundle_def rbind_Inr_iff split: if_splits)

lemma compile_ref_manifest:
  assumes "compile_ref A ref = Inr call"
  shows "\<exists>raw m params. va_manifest (ae_validators A) raw = Inr m
     \<and> compile_manifest (ae_fancy A) (ae_validators A) m params = Inr call"
  using assms load_bundle_validated
  by (fastforce simp: compile_ref_def compile_semantic_bundle_ref_def rbind_Inr_iff Let_def split: if_splits)

lemma dict_value_simps [simp]: "dict_value None = None" "dict_value (Some (JObj d)) = Some d"
  by (simp_all add: dict_value_def)

lemma extract_stripped: "extract_semantic_bundle_ref (strip_bundle_keys inp) = None"
proof -
  let ?out = "dpop ''semantic_bundle'' inp"
  have gone: "map_of (filter (\<lambda>(k, _). k \<noteq> semantic_bundle_ext) ext) semantic_bundle_ext = None"
    for ext :: "(string, json) dict" by (induction ext) auto
  show ?thesis
  proof (cases "dict_value (dget ?out ''extensions'')")
    case None
    then show ?thesis by (simp add: strip_bundle_keys_def extract_semantic_bundle_ref_def dict_simps)
  next
    case (Some ext)
    show ?thesis
    proof (cases "dhas ext semantic_bundle_ext")
      case True
      with Some gone [of ext] show ?thesis
        by (simp add: strip_bundle_keys_def extract_semantic_bundle_ref_def dict_simps Let_def)
    next
      case False
      with Some show ?thesis
        by (simp add: strip_bundle_keys_def extract_semantic_bundle_ref_def dict_simps Let_def)
    qed
  qed
qed

lemma strip_bundle_other:
  "key \<notin> {''semantic_bundle'', ''extensions''} \<Longrightarrow> dget (strip_bundle_keys inp) key = dget inp key"
  by (auto simp: strip_bundle_keys_def Let_def dict_simps split: option.splits)

lemma dget_notin: "key \<notin> set (map fst d) \<Longrightarrow> dget d key = None"
  by (induction d) auto

lemma expand_without_ref: "extract_semantic_bundle_ref inp = None \<Longrightarrow> resolve_tool_invocation A tool inp = Inr (tool, inp, None)"
  by (simp add: resolve_tool_invocation_def expand_task_input_def)

lemma extract_merged:
  assumes "keys_distinct inp"
  shows "extract_semantic_bundle_ref (dmerge (strip_bundle_keys args) inp) = extract_semantic_bundle_ref inp"
proof -
  have get: "dget (dmerge (strip_bundle_keys args) inp) key = (case dget inp key of Some v \<Rightarrow> Some v
      | None \<Rightarrow> dget (strip_bundle_keys args) key)" for key
    using assms by (auto simp: dget_dmerge split: option.split)
  have gone: "dget (strip_bundle_keys args) ''semantic_bundle'' = None"
    by (simp add: strip_bundle_keys_def Let_def dict_simps split: option.split)
  show ?thesis
    using extract_stripped [of args]
    by (auto simp: extract_semantic_bundle_ref_def get gone split: option.splits)
qed

lemma kind_not_skipped: "kind_name k \<notin> set skip_expansion"
  by (cases k) (simp_all add: skip_expansion_def kind_name_def enum_name_def bundle_kind_members_def)

lemma resolve_kind:
  "resolve_tool_invocation A (kind_name k) inp = Inr (kind_name k, inp, None)
     \<longleftrightarrow> extract_semantic_bundle_ref inp = None \<or> extract_semantic_bundle_ref inp = Some []"
  by (auto simp: resolve_tool_invocation_def kind_not_skipped expand_task_input_def rbind_Inr_iff
      split: option.splits list.splits)

text \<open>
  C27. Resolving a call either leaves it as it is, or expands its bundle reference.  The expanded call
  is for the tool of the kind of the bundle that was loaded, which the provenance names; it takes
  every argument of the compiled bundle and the caller's other arguments.  The caller's reference is
  gone: the expanded call carries exactly the reference that the compiled template carries, if any, so
  resolving it again changes nothing exactly if the template brings no reference of its own - as when
  neither \<open>semantic_bundle\<close> nor \<open>extensions\<close> is a key of it.  The manifest model does not forbid such
  templates.  (Templates are dicts: their keys are distinct.)
\<close>

theorem expansion_settles:
  assumes "resolve_tool_invocation A tool args = Inr (sid, merged, prov)"
    and "\<And>raw m. va_manifest (ae_validators A) raw = Inr m \<Longrightarrow> keys_distinct (bm_template m)"
  shows "case prov of
      None \<Rightarrow> sid = tool \<and> merged = args
    | Some p \<Rightarrow> \<exists>ref call raw m params.
         extract_semantic_bundle_ref args = Some ref \<and> compile_ref A ref = Inr call
         \<and> va_manifest (ae_validators A) raw = Inr m
         \<and> compile_manifest (ae_fancy A) (ae_validators A) m params = Inr call
         \<and> sid = kind_name (bm_kind m) \<and> dget p ''kind'' = Some (JStr sid)
         \<and> (\<forall>key. key \<notin> {''semantic_bundle'', ''extensions''} \<longrightarrow>
              dget merged key = (case dget (ci_input call) key of Some v \<Rightarrow> Some v | None \<Rightarrow> dget args key))
         \<and> extract_semantic_bundle_ref merged = extract_semantic_bundle_ref (ci_input call)
         \<and> (resolve_tool_invocation A sid merged = Inr (sid, merged, None)
              \<longleftrightarrow> extract_semantic_bundle_ref (ci_input call) \<in> {None, Some []})
         \<and> ({''semantic_bundle'', ''extensions''} \<inter> set (map fst (bm_template m)) = {}
              \<longrightarrow> extract_semantic_bundle_ref (ci_input call) = None)"
proof (cases prov)
  case None
  with assms(1) show ?thesis
    by (auto simp: resolve_tool_invocation_def expand_task_input_def rbind_Inr_iff
        split: if_splits option.splits list.splits)
next
  case (Some p)
  then obtain ref call where ref: "extract_semantic_bundle_ref args = Some ref" "compile_ref A ref = Inr call"
    "sid = ci_skill_id call" "merged = dmerge (strip_bundle_keys args) (ci_input call)"
    "p = ci_arcane_provenance call"
    using assms(1)
    by (auto simp: resolve_tool_invocation_def expand_task_input_def rbind_Inr_iff
        split: if_splits option.splits list.splits)
  from compile_ref_manifest [OF ref(2)] obtain raw m params where
    m: "va_manifest (ae_validators A) raw = Inr m"
       "compile_manifest (ae_fancy A) (ae_validators A) m params = Inr call" by blast
  note c = compile_manifest_input [OF m(2) assms(2) [OF m(1)]]
  have e: "extract_semantic_bundle_ref merged = extract_semantic_bundle_ref (ci_input call)"
    using extract_merged c ref(4) by blast
  have args: "\<forall>key. key \<notin> {''semantic_bundle'', ''extensions''} \<longrightarrow>
      dget merged key = (case dget (ci_input call) key of Some v \<Rightarrow> Some v | None \<Rightarrow> dget args key)"
    using c by (auto simp: ref(4) dget_dmerge strip_bundle_other split: option.split)
  have clean: "extract_semantic_bundle_ref (ci_input call) = None"
    if "{''semantic_bundle'', ''extensions''} \<inter> set (map fst (bm_template m)) = {}"
  proof -
    have "dget (ci_input call) key = None" if "key \<in> {''semantic_bundle'', ''extensions''}" for key
      using c that \<open>_ = {}\<close> by (intro dget_notin) (auto simp del: set_map)
    then show ?thesis by (simp add: extract_semantic_bundle_ref_def)
  qed
  have sid: "sid = kind_name (bm_kind m)" "dget p ''kind'' = Some (JStr sid)" using c ref(3,5) by simp_all
  have again: "resolve_tool_invocation A sid merged = Inr (sid, merged, None)
      \<longleftrightarrow> extract_semantic_bundle_ref (ci_input call) \<in> {None, Some []}"
    unfolding sid(1) resolve_kind e by blast
  show ?thesis unfolding Some option.case
    using ref(1,2) m sid args e again clean by blast
qed

definition sample_manifest :: bundle_manifest where
  "sample_manifest = \<lparr>bm_id = ''b'', bm_version = 1, bm_kind = BK_CAST,
     bm_template = [(''objective'', JStr ''ask {q}''), (''scope'', JStr ''s'')], bm_param_keys = [''q''],
     bm_summary = None, bm_description = None, bm_recommended_for = [], bm_stability = None,
     bm_library = None, bm_recommendation = None\<rparr>"

definition sample_arcane :: arcane_env where
  "sample_arcane = \<lparr>ae_fancy = (\<lambda>_ _. Inl (ValueError [])),
     ae_dirs = \<lparr>bd_package = [(''b'', [(''version'', JInt 1)])], bd_overlay = None\<rparr>,
     ae_validators = \<lparr>va_manifest = (\<lambda>_. mk_bundle_manifest sample_manifest),
       va_thresholds = (\<lambda>_. Inl (ValueError [])), va_ward = (\<lambda>_. Inl (ValueError []))\<rparr>\<rparr>"

definition sample_call :: "(string, json) dict" where
  "sample_call = [(''semantic_bundle'', JObj [(''bundle_id'', JStr ''b''), (''version'', JInt 1),
      (''params'', JObj [(''q'', JStr ''{x}'')])]), (''scope'', JStr ''mine''), (''extra'', JNull)]"

lemma sample_manifest_ok: "mk_bundle_manifest sample_manifest = Inr sample_manifest"
  by (simp add: mk_bundle_manifest_def sample_manifest_def)

lemma sample_expansion:
  "resolve_tool_invocation sample_arcane ''decide'' sample_call =
     Inr (''cast'', [(''scope'', JStr ''s''), (''extra'', JNull), (''objective'', JStr ''ask {x}'')],
          Some [(''bundle_id'', JStr ''b''), (''bundle_version'', JInt 1), (''kind'', JStr ''cast'')])"
  by (simp add: resolve_tool_invocation_def expand_task_input_def sample_arcane_def sample_call_def
      skip_expansion_def extract_semantic_bundle_ref_def dict_value_def compile_ref_def
      compile_semantic_bundle_ref_def load_bundle_def primary_bundle_def dget_or_def py_str_def
      mk_bundle_manifest_def compile_manifest_def format_string_def format_field_def digit_value_def plain_char_def
      strip_bundle_keys_def kind_name_def enum_name_def bundle_kind_members_def sample_manifest_def)

lemma expansion_settles_witness:
  "resolve_tool_invocation sample_arcane ''cast''
       [(''scope'', JStr ''s''), (''extra'', JNull), (''objective'', JStr ''ask {x}'')]
     = Inr (''cast'', [(''scope'', JStr ''s''), (''extra'', JNull), (''objective'', JStr ''ask {x}'')], None)"
proof -
  have v: "va_manifest (ae_validators sample_arcane) raw = Inr m \<Longrightarrow> m = sample_manifest" for raw m
    by (simp add: sample_arcane_def sample_manifest_ok)
  have "keys_distinct (bm_template sample_manifest)"
    and "{''semantic_bundle'', ''extensions''} \<inter> set (map fst (bm_template sample_manifest)) = {}"
    by (simp_all add: sample_manifest_def keys_distinct_def)
  then show ?thesis
    using expansion_settles [OF sample_expansion] v unfolding option.case by (metis insert_iff)
qed

text \<open>A bundle whose template carries a reference of its own does not settle.\<close>

lemma expansion_unsettled:
  "\<exists>A args sid merged p. resolve_tool_invocation A ''decide'' args = Inr (sid, merged, Some p)
     \<and> resolve_tool_invocation A sid merged \<noteq> Inr (sid, merged, None)"
proof -
  define m where "m = sample_manifest\<lparr>bm_template := [(''semantic_bundle'', JObj [(''bundle_id'', JStr ''b'')])],
    bm_param_keys := []\<rparr>"
  define A where "A = sample_arcane\<lparr>ae_validators := (ae_validators sample_arcane)\<lparr>va_manifest := \<lambda>_. Inr m\<rparr>\<rparr>"
  define args where "args = [(''semantic_bundle'', JObj [(''bundle_id'', JStr ''b''), (''version'', JInt 1)])]"
  have "resolve_tool_invocation A ''decide'' args
      = Inr (''cast'', [(''semantic_bundle'', JObj [(''bundle_id'', JStr ''b'')])],
          Some [(''bundle_id'', JStr ''b''), (''bundle_version'', JInt 1), (''kind'', JStr ''cast'')])"
    by (simp add: A_def args_def m_def resolve_tool_invocation_def expand_task_input_def sample_arcane_def
      skip_expansion_def extract_semantic_bundle_ref_def dict_value_def compile_ref_def
      compile_semantic_bundle_ref_def load_bundle_def primary_bundle_def dget_or_def py_str_def
      mk_bundle_manifest_def compile_manifest_def format_string_def format_field_def digit_value_def plain_char_def
      strip_bundle_keys_def kind_name_def enum_name_def bundle_kind_members_def sample_manifest_def Let_def)
  moreover have "resolve_tool_invocation A ''cast'' [(''semantic_bundle'', JObj [(''bundle_id'', JStr ''b'')])]
      \<noteq> Inr (''cast'', [(''semantic_bundle'', JObj [(''bundle_id'', JStr ''b'')])], None)"
    using resolve_kind [of A BK_CAST]
    by (simp add: extract_semantic_bundle_ref_def kind_name_def enum_name_def bundle_kind_members_def)
  ultimately show ?thesis by blast
qed

section \<open>Templates substitute verbatim\<close>

datatype piece = Verbatim string | Placeholder string

definition escape_braces :: "string \<Rightarrow> string" where
  "escape_braces s = concat (map (\<lambda>c. if c = CHR ''{'' \<or> c = CHR ''}'' then [c, c] else [c]) s)"

fun piece_source :: "piece \<Rightarrow> string" where
  "piece_source (Verbatim s) = escape_braces s"
| "piece_source (Placeholder k) = CHR ''{'' # k @ [CHR ''}'']"

fun piece_value :: "(string, json) dict \<Rightarrow> piece \<Rightarrow> string" where
  "piece_value params (Verbatim s) = s"
| "piece_value params (Placeholder k) = (case dget params k of Some v \<Rightarrow> py_str v | None \<Rightarrow> [])"

fun piece_ok :: "piece \<Rightarrow> bool" where
  "piece_ok (Verbatim s) = True"
| "piece_ok (Placeholder k) = (k \<noteq> [] \<and> list_all plain_char k \<and> digit_value (hd k) = None)"

fun piece_given :: "(string, json) dict \<Rightarrow> piece \<Rightarrow> bool" where
  "piece_given params (Verbatim s) = True"
| "piece_given params (Placeholder k) = dhas params k"

lemma format_text_escaped:
  "format_text fancy params (escape_braces s @ rest) =
     rbind (format_text fancy params rest) (\<lambda>t. Inr (s @ t))"
proof (induction s)
  case Nil
  show ?case by (cases "format_text fancy params rest") (simp_all add: escape_braces_def)
next
  case (Cons c s)
  have "escape_braces (c # s) = (if c = CHR ''{'' \<or> c = CHR ''}'' then [c, c] else [c]) @ escape_braces s"
    by (simp add: escape_braces_def)
  with Cons.IH show ?case
    by (cases "format_text fancy params rest") auto
qed

lemma format_text_field:
  assumes "piece_ok (Placeholder k)"
  shows "format_text fancy params (CHR ''{'' # k @ CHR ''}'' # rest) =
     rbind (of_option (KeyError k) (dget params k)) (\<lambda>v.
     rbind (format_text fancy params rest) (\<lambda>t. Inr (py_str v @ t)))"
proof -
  from assms obtain c cs where k: "k = c # cs" "plain_char c" "list_all plain_char cs" "digit_value c = None"
    by (cases k) auto
  then have c: "c \<noteq> CHR ''{''" by (auto simp: plain_char_def)
  have plain: "\<forall>x \<in> set k. plain_char x" using k by (auto simp: list_all_iff)
  have stop: "\<not> plain_char (CHR ''}'')" by (simp add: plain_char_def)
  have tw: "takeWhile plain_char (k @ CHR ''}'' # rest) = k" using plain stop by (simp add: takeWhile_append)
  have dw: "dropWhile plain_char (k @ CHR ''}'' # rest) = CHR ''}'' # rest"
    using plain stop by (simp add: dropWhile_append)
  have "format_field params k = rbind (of_option (KeyError k) (dget params k)) (\<lambda>v. Inr (py_str v))"
    using k by (simp add: format_field_def)
  moreover have "format_text fancy params (CHR ''{'' # k @ CHR ''}'' # rest) =
      rbind (format_field params k) (\<lambda>x. rbind (format_text fancy params rest) (\<lambda>t. Inr (x @ t)))"
    using tw dw c k(1) by (simp add: Let_def)
  ultimately show ?thesis by (cases "dget params k") simp_all
qed

lemma format_text_pieces:
  assumes "list_all piece_ok ps"
  shows "case first_where (\<lambda>p. \<not> piece_given params p) ps of
      None \<Rightarrow> format_text fancy params (concat (map piece_source ps)) = Inr (concat (map (piece_value params) ps))
    | Some p \<Rightarrow> \<exists>k. format_text fancy params (concat (map piece_source ps)) = Inl (KeyError k)"
  using assms
proof (induction ps)
  case (Cons p ps)
  then show ?case
  proof (cases p)
    case (Verbatim s)
    with Cons show ?thesis by (auto simp: format_text_escaped dest: first_where_Some split: option.splits)
  next
    case (Placeholder k)
    with Cons.prems have "piece_ok (Placeholder k)" by simp
    note field = format_text_field [OF this]
    from Cons Placeholder show ?thesis
      by (cases "dget params k") (auto simp: field simp del: format_text.simps dest: first_where_Some split: option.splits)
  qed
qed simp

text \<open>
  Formatting a template text replaces every placeholder by the text of its parameter and nothing
  else: text outside the placeholders and braces in a parameter are never interpreted.  When a
  parameter is missing, the text is left as it is.
\<close>

theorem template_substitution:
  assumes "list_all piece_ok ps"
  shows "format_template fancy params (JStr (concat (map piece_source ps))) =
     Inr (JStr (if list_all (piece_given params) ps then concat (map (piece_value params) ps)
                else concat (map piece_source ps)))"
proof (cases "first_where (\<lambda>p. \<not> piece_given params p) ps")
  case None
  then have "list_all (piece_given params) ps" by (simp add: list_all_iff)
  with format_text_pieces [OF assms, where params = params and fancy = fancy, unfolded None option.case] show ?thesis
    by (simp add: format_string_def)
next
  case (Some p)
  then have "\<not> list_all (piece_given params) ps" by (auto simp: list_all_iff dest: first_where_Some)
  with Some format_text_pieces [OF assms, where params = params and fancy = fancy] show ?thesis
    by (auto simp: format_string_def)
qed

lemma template_substitution_witness:
  "format_template (\<lambda>_ _. Inl (ValueError [])) [(''q'', JStr ''{x}'')] (JStr ''{{a}} {q}!'') = Inr (JStr ''{a} {x}!'')"
  using template_substitution [of "[Verbatim ''{a} '', Placeholder ''q'', Verbatim ''!'']"
      "\<lambda>_ _. Inl (ValueError [])" "[(''q'', JStr ''{x}'')]"]
  by (simp add: escape_braces_def plain_char_def digit_value_def py_str_def)

section \<open>Recommendations are ranked, unique and justified\<close>

definition tier_matches :: "(string, json) dict \<Rightarrow> recommendation_tier \<Rightarrow> bool" where
  "tier_matches args t \<longleftrightarrow> (\<forall>r \<in> set (rc_require_all t). eval_rule r args = Inr True)"

lemma match_rules_Some:
  "match_rules rs args = Inr (Some tags) \<Longrightarrow>
   (\<forall>r \<in> set rs. eval_rule r args = Inr True) \<and> tags = map matched_feature_tag rs"
  by (induction rs arbitrary: tags) (auto simp: rbind_Inr_iff split: if_splits)

lemma match_rules_None:
  "match_rules rs args = Inr None \<Longrightarrow> \<exists>r \<in> set rs. eval_rule r args = Inr False"
  by (induction rs) (auto simp: rbind_Inr_iff split: if_splits)

lemma first_tier_Inr:
  assumes "first_tier m spec args ts = Inr rows"
  shows "(rows = [] \<and> list_all (\<lambda>t. \<not> tier_matches args t) ts)
     \<or> (\<exists>pre t post. ts = pre @ t # post \<and> list_all (\<lambda>t. \<not> tier_matches args t) pre \<and> tier_matches args t
          \<and> rows = [row_of m spec t (map matched_feature_tag (rc_require_all t))])"
  using assms
proof (induction ts)
  case (Cons t ts)
  then obtain tags where tags: "match_rules (rc_require_all t) args = Inr tags" by (auto simp: rbind_Inr_iff)
  show ?case
  proof (cases tags)
    case None
    with tags have "\<not> tier_matches args t" using match_rules_None by (fastforce simp: tier_matches_def)
    moreover from Cons.prems tags None have "first_tier m spec args ts = Inr rows" by simp
    note Cons.IH [OF this]
    ultimately show ?thesis
      by (elim disjE exE conjE) (simp, intro disjI2, metis append_Cons list.pred_inject(2))
  next
    case (Some x)
    with tags Cons.prems match_rules_Some [of "rc_require_all t" args x] show ?thesis
      by (intro disjI2 exI [of _ "[]"]) (auto simp: tier_matches_def)
  qed
qed simp

text \<open>What a bundle contributes: nothing, or the row of its first matching tier.\<close>

definition justified :: "bundle_dirs \<Rightarrow> validators \<Rightarrow> string \<Rightarrow> (string, json) dict \<Rightarrow> recommendation_row \<Rightarrow> bool" where
  "justified D V skill args r \<longleftrightarrow>
     (\<exists>bid m spec pre t post. bid \<in> set (list_bundle_ids D) \<and> load_primary_bundle_manifest D V bid = Inr m
        \<and> bm_recommendation m = Some spec \<and> skill \<in> set (br_target_skills spec)
        \<and> br_tiers spec = pre @ t # post \<and> list_all (\<lambda>t. \<not> tier_matches args t) pre \<and> tier_matches args t
        \<and> r = row_of m spec t (map matched_feature_tag (rc_require_all t)))"

lemma evaluate_bundle_row:
  assumes "evaluate_bundle m skill args = Inr rows" "r \<in> set rows"
  shows "\<exists>spec pre t post. bm_recommendation m = Some spec \<and> skill \<in> set (br_target_skills spec)
        \<and> br_tiers spec = pre @ t # post \<and> list_all (\<lambda>t. \<not> tier_matches args t) pre \<and> tier_matches args t
        \<and> r = row_of m spec t (map matched_feature_tag (rc_require_all t))"
  using assms first_tier_Inr
  by (fastforce simp: evaluate_bundle_def split: option.splits if_splits)

lemma evaluate_bundle_complete:
  assumes "evaluate_bundle m skill args = Inr rows" "bm_recommendation m = Some spec"
    and "skill \<in> set (br_target_skills spec)" "t \<in> set (br_tiers spec)" "tier_matches args t"
  shows "rows \<noteq> []"
  using assms first_tier_Inr [of m spec args "br_tiers spec" rows]
  by (auto simp: evaluate_bundle_def list_all_iff)

lemma dedupe_rows_props:
  "set (dedupe_rows seen rs) \<subseteq> set rs \<and> distinct (map ro_bundle_id (dedupe_rows seen rs))
   \<and> ro_bundle_id ` set (dedupe_rows seen rs) = ro_bundle_id ` set rs - set seen"
  by (induction seen rs rule: dedupe_rows.induct) auto

definition better :: "recommendation_row \<Rightarrow> recommendation_row \<Rightarrow> bool" where
  "better a b \<longleftrightarrow> ro_strength b < ro_strength a \<or> ro_strength a = ro_strength b \<and> ro_bundle_id a \<le> ro_bundle_id b"

lemma dedupe_rows_sorted: "sorted_wrt better rs \<Longrightarrow> sorted_wrt better (dedupe_rows seen rs)"
  using dedupe_rows_props by (induction seen rs rule: dedupe_rows.induct) (auto, blast)

lemma insort_lex:
  assumes "sorted_wrt (\<lambda>a b. f a < f b \<or> f a = f b \<and> g a \<le> g b) ys" "\<forall>y \<in> set ys. g x \<le> g y"
  shows "sorted_wrt (\<lambda>a b. f a < f b \<or> f a = f b \<and> g a \<le> g b) (insort_key f x ys)"
  using assms by (induction ys) (auto simp: set_insort_key)

lemma sort_key_lex:
  "sorted (map g xs) \<Longrightarrow> sorted_wrt (\<lambda>a b. f a < f b \<or> f a = f b \<and> g a \<le> g b) (sort_key f xs)"
  by (induction xs) (auto intro: insort_lex)

lemma rank_rows_sorted: "sorted_wrt better (rank_rows rs)"
proof -
  have "sorted (map ro_bundle_id (sort_key ro_bundle_id rs))" by simp
  from sort_key_lex [OF this, of "\<lambda>r. - ro_strength r"] show ?thesis
    by (simp add: rank_rows_def better_def [abs_def])
qed

text \<open>
  The recommendations for a plain call: each one is the first matching tier of a bundle that is
  meant for the tool, at least as strong as asked for; no bundle is recommended twice; the stronger
  ones come first, and by name among equals.  Conversely every bundle with a matching tier is
  recommended when its row is strong enough, so that nothing is lost by removing duplicates.
\<close>

theorem recommendations_ranked:
  assumes "recommended_rows D V skill args s = Inr rows"
  shows "sorted_wrt better rows \<and> distinct (map ro_bundle_id rows)
     \<and> (\<forall>r \<in> set rows. s \<le> ro_strength r \<and> justified D V skill args r)
     \<and> (\<forall>r. justified D V skill args r \<and> s \<le> ro_strength r \<longrightarrow> ro_bundle_id r \<in> ro_bundle_id ` set rows)"
proof -
  let ?f = "\<lambda>bid. rbind (load_primary_bundle_manifest D V bid) (\<lambda>m. evaluate_bundle m skill args)"
  from assms obtain rss where rss: "rmap_list ?f (list_bundle_ids D) = Inr rss"
    and rows: "rows = dedupe_rows [] (rank_rows (filter (\<lambda>r. s \<le> ro_strength r) (concat rss)))"
    by (auto simp: recommended_rows_def rbind_Inr_iff)
  have set_ranked: "set (rank_rows rs) = set rs" for rs by (simp add: rank_rows_def)
  have sound: "justified D V skill args r" if "r \<in> set (concat rss)" for r
  proof -
    from that obtain rs where rs: "rs \<in> set rss" "r \<in> set rs" by auto
    then obtain i where i: "i < length rss" "r \<in> set (rss ! i)" by (auto simp: in_set_conv_nth [of rs])
    let ?bid = "list_bundle_ids D ! i"
    have len: "i < length (list_bundle_ids D)" using i(1) rmap_list_Inr_length [OF rss] by simp
    from rmap_list_Inr_nth [OF rss len] obtain m where
      m: "load_primary_bundle_manifest D V ?bid = Inr m" "evaluate_bundle m skill args = Inr (rss ! i)"
      by (auto simp: rbind_Inr_iff)
    from evaluate_bundle_row [OF m(2) i(2)] m(1) nth_mem [OF len] show ?thesis unfolding justified_def by blast
  qed
  have complete: "\<exists>r' \<in> set (concat rss). r' = r" if "justified D V skill args r" for r
  proof -
    from that obtain bid m spec pre t post where j: "bid \<in> set (list_bundle_ids D)"
      "load_primary_bundle_manifest D V bid = Inr m" "bm_recommendation m = Some spec"
      "skill \<in> set (br_target_skills spec)" "br_tiers spec = pre @ t # post"
      "list_all (\<lambda>t. \<not> tier_matches args t) pre" "tier_matches args t"
      "r = row_of m spec t (map matched_feature_tag (rc_require_all t))"
      unfolding justified_def by blast
    from j(1) obtain i where i: "i < length (list_bundle_ids D)" "list_bundle_ids D ! i = bid"
      by (auto simp: in_set_conv_nth)
    from rmap_list_Inr_nth [OF rss i(1)] i(2) j(2) have ev: "evaluate_bundle m skill args = Inr (rss ! i)"
      by simp
    with j(3,4) have "first_tier m spec args (br_tiers spec) = Inr (rss ! i)"
      by (simp add: evaluate_bundle_def)
    from first_tier_Inr [OF this] have "rss ! i = [r]"
    proof (elim disjE exE conjE)
      assume "list_all (\<lambda>t. \<not> tier_matches args t) (br_tiers spec)"
      with j(5,7) show ?thesis by simp
    next
      fix pre' t' post'
      assume u: "br_tiers spec = pre' @ t' # post'" "list_all (\<lambda>t. \<not> tier_matches args t) pre'"
        "tier_matches args t'" "rss ! i = [row_of m spec t' (map matched_feature_tag (rc_require_all t'))]"
      have "first_where (tier_matches args) (pre @ t # post) = Some t"
        using j(6,7) by (induction pre) auto
      moreover have "first_where (tier_matches args) (pre' @ t' # post') = Some t'"
        using u(2,3) by (induction pre') auto
      ultimately have "t' = t" using j(5) u(1) by simp
      with u(4) j(8) show ?thesis by simp
    qed
    moreover have "i < length rss" using i(1) rmap_list_Inr_length [OF rss] by simp
    ultimately show ?thesis by (metis UN_I list.set_intros(1) nth_mem set_concat)
  qed
  from dedupe_rows_props [of "[]" "rank_rows (filter (\<lambda>r. s \<le> ro_strength r) (concat rss))"]
  have set: "set rows \<subseteq> {r \<in> set (concat rss). s \<le> ro_strength r}" "distinct (map ro_bundle_id rows)"
    "ro_bundle_id ` set rows = ro_bundle_id ` {r \<in> set (concat rss). s \<le> ro_strength r}"
    unfolding rows by (auto simp: set_ranked)
  have "sorted_wrt better rows" unfolding rows by (intro dedupe_rows_sorted rank_rows_sorted)
  with set sound complete show ?thesis by fastforce
qed

definition sample_rule :: recommendation_rule where
  "sample_rule = \<lparr>rr_op = ''field_present'', rr_value = JNull, rr_path = Some ''topic'', rr_field = None,
     rr_negate = False, rr_min_len = None, rr_max_len = None, rr_rule_id = None\<rparr>"

definition sample_tier :: recommendation_tier where
  "sample_tier = \<lparr>rc_match_kind = MK_STRONG, rc_strength = 1/2, rc_require_all = [sample_rule]\<rparr>"

definition sample_advice :: bundle_recommendation where
  "sample_advice = \<lparr>br_target_skills = [''cast''], br_why_better = ''w'', br_tiers = [sample_tier]\<rparr>"

definition advised_manifest :: bundle_manifest where
  "advised_manifest = sample_manifest\<lparr>bm_recommendation := Some sample_advice\<rparr>"

definition advised_validators :: validators where
  "advised_validators = (ae_validators sample_arcane)\<lparr>va_manifest := \<lambda>_. mk_bundle_manifest advised_manifest\<rparr>"

lemma sample_recommendation:
  "recommended_rows (ae_dirs sample_arcane) advised_validators ''cast'' [(''topic'', JStr ''t'')] (1/4)
     = Inr [row_of advised_manifest sample_advice sample_tier [''rule:field_present'']]"
  by (simp add: recommended_rows_def list_bundle_ids_def load_primary_bundle_manifest_def primary_bundle_def
      load_bundle_def sample_arcane_def advised_validators_def mk_bundle_manifest_def advised_manifest_def
      sample_manifest_def sample_advice_def sample_tier_def sample_rule_def dget_or_def evaluate_bundle_def
      eval_rule_def matched_feature_tag_def row_of_def rank_rows_def)

lemma recommendations_ranked_witness:
  "justified (ae_dirs sample_arcane) advised_validators ''cast'' [(''topic'', JStr ''t'')]
     (row_of advised_manifest sample_advice sample_tier [''rule:field_present''])"
  using recommendations_ranked [OF sample_recommendation] by simp

end
