(* ===== verification/Server.thy ===== *)
theory Server
  imports Arcane
begin

text \<open>
  The MCP server of \<open>src/vermyth/mcp/server.py\<close> with its JSON-RPC helpers (\<open>protocol.py\<close>), the framed
  binary transport (\<open>binary_transport.py\<close>), the tool scope of the facade and the event bus
  (\<open>observability.py\<close>).  The tools are the entries of the dispatch table, operations on a state of any
  type.  What a server sends is a list of messages; writing them to a stream, and the errors of that,
  are left out.
\<close>

unbundle bit_operations_syntax

section \<open>Shell patterns\<close>

text \<open>
  \<open>fnmatch.fnmatch\<close> on a POSIX system.  A bracket without its end is an ordinary character; after the
  opening bracket \<open>!\<close> negates, and a closing bracket in first place is a member.
\<close>

definition class_body :: "string \<Rightarrow> string option" where
  "class_body p =
     (let n1 = (if startswith p ''!'' then 1 else 0);
          n2 = (if startswith (drop n1 p) '']'' then n1 + 1 else n1);
          m = length (takeWhile (\<lambda>c. c \<noteq> CHR '']'') (drop n2 p))
      in if n2 + m < length p then Some (take (n2 + m) p) else None)"

fun class_has :: "string \<Rightarrow> char \<Rightarrow> bool" where
  "class_has (x # d # y # rest) c =
     (if d = CHR ''-'' then (x \<le> c \<and> c \<le> y) \<or> class_has rest c
      else c = x \<or> class_has (d # y # rest) c)"
| "class_has [x, y] c = (c = x \<or> c = y)"
| "class_has [x] c = (c = x)"
| "class_has [] c = False"

definition class_matches :: "string \<Rightarrow> char \<Rightarrow> bool" where
  "class_matches body c =
     (if startswith body ''!'' then \<not> class_has (drop 1 body) c else class_has body c)"

function glob :: "string \<Rightarrow> string \<Rightarrow> bool" where
  "glob [] s = (s = [])"
| "glob (x # p) s =
     (if x = CHR ''*'' then glob p s \<or> (case s of [] \<Rightarrow> False | _ # t \<Rightarrow> glob (x # p) t)
      else (case s of
              [] \<Rightarrow> False
            | c # t \<Rightarrow>
                if x = CHR ''?'' then glob p t
                else if x = CHR ''['' then
                  (case class_body p of
                     Some b \<Rightarrow> class_matches b c \<and> glob (drop (length b + 1) p) t
                   | None \<Rightarrow> c = x \<and> glob p t)
                else c = x \<and> glob p t))"
  by pat_completeness auto

termination
  by (relation "measure (\<lambda>(p, s). length p + length s)") auto

definition fnmatch :: "string \<Rightarrow> string \<Rightarrow> bool" where
  "fnmatch name pat = glob pat name"

definition scope_allows :: "string list \<Rightarrow> string \<Rightarrow> bool" where
  "scope_allows scope tool \<longleftrightarrow> list_ex (fnmatch tool) scope"

definition enforce_tool_scope :: "string list \<Rightarrow> string \<Rightarrow> unit result" where
  "enforce_tool_scope scope tool =
     (if scope_allows scope tool then Inr () else Inl (PermissionDenied (''tool_scope_denied:'' @ tool)))"

text \<open>\<open>list(allowed_tool_scope or ["*"])\<close>.\<close>

definition tool_scope :: "string list option \<Rightarrow> string list" where
  "tool_scope allowed = (case allowed of None \<Rightarrow> [''*''] | Some xs \<Rightarrow> if xs = [] then [''*''] else xs)"

section \<open>Events\<close>

record vermyth_event =
  ev_event_id :: string
  ev_event_type :: string
  ev_ts :: int
  ev_payload :: "(string, json) dict"
  ev_cast_id :: "string option"
  ev_branch_id :: "string option"

definition event_to_dict :: "(int \<Rightarrow> string) \<Rightarrow> vermyth_event \<Rightarrow> json" where
  "event_to_dict isof e =
     JObj [(''event_id'', JStr (ev_event_id e)), (''event_type'', JStr (ev_event_type e)),
       (''ts'', JStr (isof (ev_ts e))), (''payload'', JObj (ev_payload e)),
       (''cast_id'', opt_str (ev_cast_id e)), (''branch_id'', opt_str (ev_branch_id e))]"

text \<open>
  The bus is a deque of at most 1000 events.  An emitted event is appended to it first; then its document
  is written as a line to the file that \<open>VERMYTH_EVENT_LOG\<close> names, if it is set, and the subscribers are
  called in turn.  The file and the subscribers may raise; what they do besides is not modelled.
\<close>

record event_out =
  eo_isoformat :: "int \<Rightarrow> string"
  eo_log :: "(json \<Rightarrow> unit result) option"
  eo_subscribers :: "(vermyth_event \<Rightarrow> unit result) list"

definition append_event :: "vermyth_event \<Rightarrow> vermyth_event list \<Rightarrow> vermyth_event list" where
  "append_event e bus = drop (length bus + 1 - 1000) (bus @ [e])"

definition deliver :: "event_out \<Rightarrow> vermyth_event \<Rightarrow> unit result" where
  "deliver K e =
     rbind (case eo_log K of None \<Rightarrow> Inr () | Some write \<Rightarrow> write (event_to_dict (eo_isoformat K) e)) (\<lambda>_.
     rbind (rmap_list (\<lambda>fn. fn e) (eo_subscribers K)) (\<lambda>_.
     Inr ()))"

definition emit :: "event_out \<Rightarrow> vermyth_event \<Rightarrow> (vermyth_event list, unit) op" where
  "emit K e bus = (deliver K e, append_event e bus)"

definition emit_event ::
  "event_out \<Rightarrow> string \<Rightarrow> int \<Rightarrow> string \<Rightarrow> (string, json) dict \<Rightarrow> string option \<Rightarrow> string option
     \<Rightarrow> (vermyth_event list, vermyth_event) op" where
  "emit_event K new_id now ty payload cast_id branch_id =
     (let e = \<lparr>ev_event_id = new_id, ev_event_type = ty, ev_ts = now, ev_payload = payload,
               ev_cast_id = cast_id, ev_branch_id = branch_id\<rparr>
      in obind (emit K e) (\<lambda>_. ret e))"

text \<open>\<open>items[-n:]\<close>.\<close>

definition last_n :: "int \<Rightarrow> 'a list \<Rightarrow> 'a list" where
  "last_n n xs = (if n > 0 then drop (length xs - nat n) xs else drop (nat (- n)) xs)"

definition recent :: "int \<Rightarrow> string option \<Rightarrow> vermyth_event list \<Rightarrow> vermyth_event list" where
  "recent n ty bus =
     last_n n (case ty of None \<Rightarrow> bus | Some t \<Rightarrow> filter (\<lambda>e. ev_event_type e = t) bus)"

definition tool_events_tail ::
  "(int \<Rightarrow> string) \<Rightarrow> int \<Rightarrow> string option \<Rightarrow> vermyth_event list \<Rightarrow> json list" where
  "tool_events_tail isof n ty bus = map (event_to_dict isof) (recent n ty bus)"

text \<open>An event type that is not a text matches no event.\<close>

definition dispatch_events_tail ::
  "(int \<Rightarrow> string) \<Rightarrow> vermyth_event list \<Rightarrow> (string, json) dict \<Rightarrow> json result" where
  "dispatch_events_tail isof bus args =
     rbind (py_int (dget_or args ''n'' (JInt 100))) (\<lambda>n.
     Inr (JList (case dget_or args ''event_type'' JNull of
                   JNull \<Rightarrow> tool_events_tail isof n None bus
                 | JStr s \<Rightarrow> tool_events_tail isof n (Some s) bus
                 | _ \<Rightarrow> [])))"

lemma bus_bounded: "length (snd (emit K e bus)) \<le> 1000"
  by (simp add: emit_def append_event_def)

section \<open>JSON-RPC\<close>

type_synonym message = "(string, json) dict"

definition make_success :: "json \<Rightarrow> json \<Rightarrow> message" where
  "make_success mid result = [(''jsonrpc'', JStr ''2.0''), (''id'', mid), (''result'', result)]"

definition make_error :: "json \<Rightarrow> int \<Rightarrow> string \<Rightarrow> message" where
  "make_error mid code text =
     [(''jsonrpc'', JStr ''2.0''), (''id'', mid),
      (''error'', JObj [(''code'', JInt code), (''message'', JStr text)])]"

definition error_parse_error :: int where "error_parse_error = -32700"
definition error_method_not_found :: int where "error_method_not_found = -32601"
definition error_invalid_params :: int where "error_invalid_params = -32602"
definition error_internal :: int where "error_internal = -32603"
definition error_not_implemented :: int where "error_not_implemented = -32000"

definition is_notification :: "message \<Rightarrow> bool" where
  "is_notification m \<longleftrightarrow> dget_or m ''id'' JNull = JNull"

definition get_id :: "message \<Rightarrow> json" where
  "get_id m = dget_or m ''id'' JNull"

definition get_method :: "message \<Rightarrow> json" where
  "get_method m = dget_or m ''method'' JNull"

definition get_params :: "message \<Rightarrow> (string, json) dict" where
  "get_params m = (case dget m ''params'' of Some (JObj d) \<Rightarrow> d | _ \<Rightarrow> [])"

section \<open>The server\<close>

type_synonym 'w handler = "(string, json) dict \<Rightarrow> ('w, json) op"

text \<open>
  What a server is built from: the dispatch tables, the allowed tool scope, the bundles, the tool
  definitions it lists, the read-only tools behind the resources, the gossip and the causal-edge tool,
  and \<open>urlsplit\<close> (\<open>urlparse\<close> and \<open>parse_qs\<close>: scheme, host, path and the values of the query).
\<close>

record 'w mcp_config =
  mc_dispatch :: "(string, 'w handler) dict"
  mc_binary :: "(string, 'w handler) dict"
  mc_experimental :: bool
  mc_scope :: "string list"
  mc_arcane :: arcane_env
  mc_tool_definitions :: json
  mc_inspect :: "string \<Rightarrow> 'w \<Rightarrow> json result"
  mc_execution_status :: "string \<Rightarrow> 'w \<Rightarrow> json result"
  mc_execution_receipt :: "string \<Rightarrow> 'w \<Rightarrow> json result"
  mc_list_programs :: "int \<Rightarrow> 'w \<Rightarrow> json result"
  mc_program_status :: "string \<Rightarrow> 'w \<Rightarrow> json result"
  mc_gossip :: "json \<Rightarrow> ('w, json) op"
  mc_add_edge :: "(string, json) dict \<Rightarrow> ('w, json) op"
  mc_urlsplit :: "string \<Rightarrow> (string \<times> string \<times> string \<times> (string, string list) dict) result"

record 'w mcp_server =
  sv_tools :: "'w option"
  sv_out :: "message list"
  sv_log :: "string list"

definition send :: "message \<Rightarrow> 'w mcp_server \<Rightarrow> 'w mcp_server" where
  "send m S = S\<lparr>sv_out := sv_out S @ [m]\<rparr>"

definition log_line :: "string \<Rightarrow> 'w mcp_server \<Rightarrow> 'w mcp_server" where
  "log_line t S = S\<lparr>sv_log := sv_log S @ [''[vermyth-mcp] '' @ t]\<rparr>"

definition handle_initialize :: "message \<Rightarrow> 'w mcp_server \<Rightarrow> 'w mcp_server" where
  "handle_initialize m =
     send (make_success (get_id m)
       (JObj [(''protocolVersion'', JStr ''2024-11-05''),
              (''serverInfo'', JObj [(''name'', JStr ''vermyth''), (''version'', JStr ''0.1.0'')]),
              (''capabilities'', JObj [(''tools'', JObj [])])]))"

definition handle_tools_list :: "'w mcp_config \<Rightarrow> message \<Rightarrow> 'w mcp_server \<Rightarrow> 'w mcp_server" where
  "handle_tools_list cfg m = send (make_success (get_id m) (JObj [(''tools'', mc_tool_definitions cfg)]))"

definition resource :: "string \<Rightarrow> string \<Rightarrow> string \<Rightarrow> string \<Rightarrow> json" where
  "resource name key uri description =
     JObj [(''name'', JStr name), (key, JStr uri), (''description'', JStr description)]"

definition resources :: json where
  "resources = JList
     [resource ''cast'' ''uriTemplate'' ''vermyth://cast/{cast_id}'' ''Read cast record by cast id.'',
      resource ''program_execution'' ''uriTemplate'' ''vermyth://program_execution/{execution_id}''
        ''Read program execution by execution id.'',
      resource ''execution_receipt'' ''uriTemplate'' ''vermyth://execution_receipt/{execution_id}''
        ''Read execution receipt by execution id.'',
      resource ''program'' ''uriTemplate'' ''vermyth://program/{program_id}''
        ''Read a stored semantic program by program id.'',
      resource ''programs'' ''uri'' ''vermyth://programs''
        ''List stored semantic programs (optional query ?limit=N, default 50).'',
      resource ''semantic_bundles'' ''uri'' ''vermyth://semantic_bundles''
        ''List semantic bundle catalog (optional ?kind=decide|cast|compile_program).'',
      resource ''semantic_bundle'' ''uriTemplate'' ''vermyth://semantic_bundle/{bundle_id}''
        ''Bundle manifest + compiled preview (query ?version=1).'']"

definition handle_resources_list :: "message \<Rightarrow> 'w mcp_server \<Rightarrow> 'w mcp_server" where
  "handle_resources_list m = send (make_success (get_id m) (JObj [(''resources'', resources)]))"

text \<open>The catalogue and the bundles as resources; \<open>None\<close> when the URI is another one.\<close>

definition first_value :: "(string, string list) dict \<Rightarrow> string \<Rightarrow> string option" where
  "first_value qs k = (case dget qs k of Some (v # _) \<Rightarrow> Some v | _ \<Rightarrow> None)"

definition bundle_resource :: "'w mcp_config \<Rightarrow> string \<Rightarrow> json option result" where
  "bundle_resource cfg uri =
     rbind (mc_urlsplit cfg uri) (\<lambda>(scheme, host, path, qs).
     let A = mc_arcane cfg in
     if scheme = ''vermyth'' \<and> host = ''semantic_bundles'' then
       (let k = (case first_value qs ''kind'' of None \<Rightarrow> None | Some s \<Rightarrow> dget bundle_kind_members s) in
        rbind (list_bundle_catalog (ae_dirs A) (ae_validators A) k) (\<lambda>rows.
        Inr (Some (JObj [(''bundles'', JList rows)]))))
     else if scheme = ''vermyth'' \<and> host = ''semantic_bundle'' then
       (let bid = dropWhile (\<lambda>c. c = CHR ''/'') path in
        if bid = [] then Inl (ValueError ''bundle_id required in vermyth://semantic_bundle/{bundle_id}'')
        else
          rbind (py_int (JStr (case first_value qs ''version'' of None \<Rightarrow> ''1'' | Some v \<Rightarrow> v))) (\<lambda>ver.
          rbind (inspect_semantic_bundle_detail A bid ver None) (\<lambda>j. Inr (Some j))))
     else Inr None)"

fun split_char :: "char \<Rightarrow> string \<Rightarrow> string list" where
  "split_char c [] = [[]]"
| "split_char c (x # xs) =
     (if x = c then [] # split_char c xs
      else (case split_char c xs of [] \<Rightarrow> [[x]] | p # ps \<Rightarrow> (x # p) # ps))"

fun programs_limit :: "int \<Rightarrow> string list \<Rightarrow> int result" where
  "programs_limit limit [] = Inr limit"
| "programs_limit limit (part # parts) =
     (if startswith part ''limit='' then
        (case parse_int (drop 6 part) of
           Some n \<Rightarrow> programs_limit (max 1 n) parts
         | None \<Rightarrow> Inl (ValueError ''invalid limit in programs uri''))
      else programs_limit limit parts)"

definition read_resource :: "'w mcp_config \<Rightarrow> string \<Rightarrow> 'w \<Rightarrow> json result" where
  "read_resource cfg uri w =
     (if startswith uri ''vermyth://cast/'' then mc_inspect cfg (drop 15 uri) w
      else if startswith uri ''vermyth://program_execution/'' then mc_execution_status cfg (drop 28 uri) w
      else if startswith uri ''vermyth://execution_receipt/'' then mc_execution_receipt cfg (drop 28 uri) w
      else if startswith uri ''vermyth://programs'' then
        rbind (case dropWhile (\<lambda>c. c \<noteq> CHR ''?'') uri of
                 [] \<Rightarrow> Inr 50
               | _ # q \<Rightarrow> programs_limit 50 (split_char (CHR ''&'') q)) (\<lambda>limit.
        mc_list_programs cfg limit w)
      else if startswith uri ''vermyth://program/'' then
        (let pid = takeWhile (\<lambda>c. c \<noteq> CHR ''?'') (drop 18 uri) in
         if pid = [] then Inl (ValueError ''program_id required in vermyth://program/{program_id}'')
         else mc_program_status cfg pid w)
      else Inl (ValueError (''unknown resource uri: '' @ uri)))"

definition contents :: "json \<Rightarrow> string \<Rightarrow> json \<Rightarrow> message" where
  "contents mid uri payload =
     make_success mid (JObj [(''contents'', JList [JObj [(''uri'', JStr uri), (''json'', payload)]])])"

text \<open>
  An exception of a bundle resource that is neither a \<open>ValueError\<close> nor a \<open>FileNotFoundError\<close> goes to
  the message loop.
\<close>

definition handle_resources_read :: "'w mcp_config \<Rightarrow> message \<Rightarrow> 'w mcp_server \<Rightarrow> 'w mcp_server" where
  "handle_resources_read cfg m S =
     (let mid = get_id m; uri = py_str (dget_or (get_params m) ''uri'' (JStr [])) in
      case bundle_resource cfg uri of
        Inl (ValueError t) \<Rightarrow> send (make_error mid error_invalid_params t) S
      | Inl (FileNotFoundError t) \<Rightarrow> send (make_error mid error_invalid_params t) S
      | Inl e \<Rightarrow> send (make_error mid error_internal ''Internal error'') (log_line (''internal error: '' @ exc_text e) S)
      | Inr (Some j) \<Rightarrow> send (contents mid uri j) S
      | Inr None \<Rightarrow>
          (case sv_tools S of
             None \<Rightarrow> send (make_error mid error_not_implemented ''No engine or grimoire configured.'') S
           | Some w \<Rightarrow>
               (case read_resource cfg uri w of
                  Inl e \<Rightarrow> send (make_error mid error_invalid_params (str_exc e)) S
                | Inr j \<Rightarrow> send (contents mid uri j) S)))"

text \<open>A tool call: \<open>Inl\<close> names a tool that is not in the table.\<close>

definition call_tool ::
  "'w mcp_config \<Rightarrow> string \<Rightarrow> (string, json) dict \<Rightarrow> ('w, string + json) op" where
  "call_tool cfg name args =
     obind (lift (resolve_tool_invocation (mc_arcane cfg) name args)) (\<lambda>(tool, merged, prov).
     case dget (mc_dispatch cfg) tool of
       None \<Rightarrow> ret (Inl tool)
     | Some h \<Rightarrow>
         obind (lift (enforce_tool_scope (mc_scope cfg) tool)) (\<lambda>_.
         obind (h merged) (\<lambda>result. ret (Inr (attach_arcane_provenance result prov)))))"

definition unexpected :: "py_exc \<Rightarrow> bool" where
  "unexpected e \<longleftrightarrow> \<not> is_value_error e \<and> \<not> is_key_error e \<and> \<not> is_runtime_error e"

fun call_response :: "json \<Rightarrow> (string + json) result \<Rightarrow> message" where
  "call_response mid (Inr (Inr result)) = make_success mid result"
| "call_response mid (Inr (Inl tool)) = make_error mid error_method_not_found (''Unknown tool: '' @ tool)"
| "call_response mid (Inl (ValueError t)) = make_error mid error_invalid_params t"
| "call_response mid (Inl (KeyError k)) = make_error mid error_invalid_params (''Not found: '' @ repr_str k)"
| "call_response mid (Inl e) =
     (if is_runtime_error e then make_error mid error_internal (exc_text e)
      else make_error mid error_internal ''Unexpected server error.'')"

definition handle_tools_call :: "'w mcp_config \<Rightarrow> message \<Rightarrow> 'w mcp_server \<Rightarrow> 'w mcp_server" where
  "handle_tools_call cfg m S =
     (let mid = get_id m; params = get_params m; name = py_str (dget_or params ''name'' JNull) in
      case dget_or params ''arguments'' (JObj []) of
        JObj args \<Rightarrow>
          (let S1 = log_line (''tool call: '' @ name) S in
           case sv_tools S1 of
             None \<Rightarrow> send (make_error mid error_not_implemented ''No engine or grimoire configured.'') S1
           | Some w \<Rightarrow>
               (case call_tool cfg name args w of
                  (res, w') \<Rightarrow>
                    send (call_response mid res)
                      ((case res of
                          Inl e \<Rightarrow> if unexpected e then log_line (''unexpected error in tool call: '' @ str_exc e) S1
                                   else S1
                        | Inr _ \<Rightarrow> S1)\<lparr>sv_tools := Some w'\<rparr>)))
      | _ \<Rightarrow> send (make_error mid error_invalid_params ''arguments must be an object'') S)"

definition handle_message :: "'w mcp_config \<Rightarrow> message \<Rightarrow> 'w mcp_server \<Rightarrow> 'w mcp_server" where
  "handle_message cfg m S =
     (let method = get_method m in
      if is_notification m then log_line (''notification: '' @ py_repr method) S
      else if method = JStr ''notifications/initialized'' then log_line ''notifications/initialized'' S
      else if method = JStr ''initialize'' then handle_initialize m S
      else if method = JStr ''tools/list'' then handle_tools_list cfg m S
      else if method = JStr ''tools/call'' then handle_tools_call cfg m S
      else if method = JStr ''resources/list'' then handle_resources_list m S
      else if method = JStr ''resources/read'' then handle_resources_read cfg m S
      else send (make_error (get_id m) error_method_not_found (''Method not found: '' @ py_str method)) S)"

text \<open>
  Reading.  The input is what \<open>readline\<close> returns, call by call, or the exception it raises - a line
  that does not decode; the end of the list is the end of the input, or an \<open>OSError\<close>, which the server
  takes for it.  \<open>parse\<close> is \<open>json.loads\<close>: \<open>Inr None\<close> is a \<open>JSONDecodeError\<close>, which is answered, \<open>Inl\<close> any
  other exception (a \<open>RecursionError\<close> of deep nesting, the \<open>ValueError\<close> of a number of too many digits),
  which nothing catches.
\<close>

datatype line_kind = Blank | Broken string | Request message

definition read_message :: "(string \<Rightarrow> json option result) \<Rightarrow> string result \<Rightarrow> line_kind result" where
  "read_message parse raw =
     rbind raw (\<lambda>line.
     if strip_text line = [] then Inr Blank
     else
       rbind (parse line) (\<lambda>parsed.
       Inr (case parsed of
              None \<Rightarrow> Broken ''Parse error: invalid JSON''
            | Some (JObj m) \<Rightarrow> Request m
            | Some _ \<Rightarrow> Broken ''Parse error: expected JSON object'')))"

definition handle_line ::
  "'w mcp_config \<Rightarrow> (string \<Rightarrow> json option result) \<Rightarrow> string result \<Rightarrow> ('w mcp_server, unit) op" where
  "handle_line cfg parse raw S =
     (case read_message parse raw of
        Inl e \<Rightarrow> (Inl e, S)
      | Inr Blank \<Rightarrow> (Inr (), S)
      | Inr (Broken t) \<Rightarrow> (Inr (), send (make_error JNull error_parse_error t) S)
      | Inr (Request m) \<Rightarrow> (Inr (), handle_message cfg m S))"

text \<open>The loop, and the run with its \<open>finally\<close>.\<close>

fun serve_lines ::
  "'w mcp_config \<Rightarrow> (string \<Rightarrow> json option result) \<Rightarrow> string result list \<Rightarrow> ('w mcp_server, unit) op" where
  "serve_lines cfg parse [] S = (Inr (), S)"
| "serve_lines cfg parse (raw # input) S =
     (case handle_line cfg parse raw S of
        (Inl e, S') \<Rightarrow> (Inl e, S')
      | (Inr _, S') \<Rightarrow> serve_lines cfg parse input S')"

definition run_server ::
  "'w mcp_config \<Rightarrow> (string \<Rightarrow> json option result) \<Rightarrow> string result list \<Rightarrow> ('w mcp_server, unit) op" where
  "run_server cfg parse input S =
     (let (res, S') = serve_lines cfg parse input (log_line ''Vermyth MCP server starting'' S)
      in (res, log_line ''Vermyth MCP server stopping'' S'))"

section \<open>Binary frames\<close>

definition frame_magic :: bytes where
  "frame_magic = encode_str ''VMTH''"

definition frame_version :: "8 word" where
  "frame_version = 1"

record binary_frame =
  bf_frame_type :: int
  bf_payload :: bytes

text \<open>
  \<open>struct.pack(">BBI", VERSION, type & 0xFF, len)\<close>: a length of 32 bits, most significant byte first;
  a longer payload is a \<open>struct.error\<close>.
\<close>

definition length_bytes :: "32 word \<Rightarrow> bytes" where
  "length_bytes n = [ucast (drop_bit 24 n), ucast (drop_bit 16 n), ucast (drop_bit 8 n), ucast n]"

definition bytes_length :: "bytes \<Rightarrow> 32 word" where
  "bytes_length bs =
     push_bit 24 (ucast (bs ! 0)) OR push_bit 16 (ucast (bs ! 1)) OR push_bit 8 (ucast (bs ! 2)) OR ucast (bs ! 3)"

definition encode_frame :: "int \<Rightarrow> bytes \<Rightarrow> bytes result" where
  "encode_frame ty payload =
     (if 2 ^ 32 \<le> length payload then Inl (OtherError ''argument out of range'')
      else Inr (frame_magic @ [frame_version, word_of_int ty] @ length_bytes (word_of_nat (length payload)) @ payload))"

text \<open>One frame from the front of a stream and the rest of it; \<open>None\<close> at the end.\<close>

definition decode_frame_from_buffer :: "bytes \<Rightarrow> (binary_frame \<times> bytes) option result" where
  "decode_frame_from_buffer buf =
     (let header = take 10 buf; rest = drop 10 buf in
      if header = [] then Inr None
      else if length header \<noteq> 10 then Inl (ValueError ''incomplete frame header'')
      else if take 4 header \<noteq> frame_magic then Inl (ValueError ''invalid magic'')
      else if header ! 4 \<noteq> frame_version then Inl (ValueError ''unsupported binary transport version'')
      else let len = unat (bytes_length (drop 6 header)); payload = take len rest in
        if length payload \<noteq> len then Inl (ValueError ''incomplete frame payload'')
        else Inr (Some (\<lparr>bf_frame_type = uint (header ! 5), bf_payload = payload\<rparr>, drop len rest)))"

definition ft_session_open :: int where "ft_session_open = 1"
definition ft_session_ack :: int where "ft_session_ack = 2"
definition ft_session_close :: int where "ft_session_close = 3"
definition ft_packet :: int where "ft_packet = 10"
definition ft_response :: int where "ft_response = 11"
definition ft_gossip_push :: int where "ft_gossip_push = 20"
definition ft_gossip_pull :: int where "ft_gossip_pull = 21"
definition ft_gossip_ack :: int where "ft_gossip_ack = 22"
definition ft_causal_sync :: int where "ft_causal_sync = 30"
definition ft_error :: int where "ft_error = 255"

section \<open>The binary server\<close>

text \<open>
  The frames it answers with, as their type and the document of the payload.  \<open>parse\<close> is the decoding
  of a payload as UTF-8 and JSON.
\<close>

record 'w frame_server =
  fs_tools :: "'w option"
  fs_sent :: "(int \<times> json) list"

definition send_frame :: "int \<Rightarrow> json \<Rightarrow> 'w frame_server \<Rightarrow> 'w frame_server" where
  "send_frame ty j S = S\<lparr>fs_sent := fs_sent S @ [(ty, j)]\<rparr>"

definition send_frame_error :: "string \<Rightarrow> 'w frame_server \<Rightarrow> 'w frame_server" where
  "send_frame_error t = send_frame ft_error (JObj [(''error'', JStr t)])"

text \<open>Runs an operation on the tools and answers with its result or with its exception.\<close>

definition answer_with :: "int \<Rightarrow> ('w, json) op \<Rightarrow> 'w \<Rightarrow> 'w frame_server \<Rightarrow> 'w frame_server" where
  "answer_with ty m w S =
     (case m w of
        (Inr j, w') \<Rightarrow> send_frame ty j (S\<lparr>fs_tools := Some w'\<rparr>)
      | (Inl e, w') \<Rightarrow> send_frame_error (str_exc e) (S\<lparr>fs_tools := Some w'\<rparr>))"

definition sync_edge :: "'w mcp_config \<Rightarrow> json \<Rightarrow> ('w, json) op" where
  "sync_edge cfg payload =
     (case payload of
        JObj d \<Rightarrow> if dhas d ''source_cast_id'' \<and> dhas d ''target_cast_id'' then mc_add_edge cfg d
                 else ret (JObj [(''accepted'', JBool True)])
      | _ \<Rightarrow> ret (JObj [(''accepted'', JBool True)]))"

text \<open>A packet is for a session tool, when those are enabled, or for a tool of the dispatch table.\<close>

definition packet_call :: "'w mcp_config \<Rightarrow> string \<Rightarrow> (string, json) dict \<Rightarrow> ('w, json) op" where
  "packet_call cfg tool args =
     (case (if mc_experimental cfg then dget (mc_binary cfg) tool else None) of
        Some h \<Rightarrow> obind (lift (enforce_tool_scope (mc_scope cfg) tool)) (\<lambda>_. h args)
      | None \<Rightarrow>
          obind (lift (resolve_tool_invocation (mc_arcane cfg) tool args)) (\<lambda>(tool', merged, prov).
          obind (lift (enforce_tool_scope (mc_scope cfg) tool')) (\<lambda>_.
          case dget (mc_dispatch cfg) tool' of
            None \<Rightarrow> raise_exc (ValueError (''unknown tool: '' @ tool'))
          | Some h \<Rightarrow> obind (h merged) (\<lambda>r. ret (attach_arcane_provenance r prov)))))"

definition no_engine :: string where
  "no_engine = ''No engine or grimoire configured.''"

text \<open>One frame.  \<open>Inl\<close> is an exception that ends the server.\<close>

definition handle_frame ::
  "'w mcp_config \<Rightarrow> (bytes \<Rightarrow> json option) \<Rightarrow> binary_frame \<Rightarrow> ('w frame_server, unit) op" where
  "handle_frame cfg parse f S =
     (case parse (bf_payload f) of
        None \<Rightarrow> (Inr (), send_frame_error ''invalid payload json'' S)
      | Some payload \<Rightarrow>
          let ty = bf_frame_type f in
          if ty = ft_session_open then
            (Inr (), send_frame ft_session_ack (JObj [(''accepted'', JBool True), (''transport'', JStr ''BINARY''),
               (''version'', JInt 1)]) S)
          else if ty = ft_session_close then (Inr (), send_frame ft_session_close (JObj [(''closed'', JBool True)]) S)
          else if ty = ft_gossip_push \<or> ty = ft_gossip_pull then
            (Inr (),
             if \<not> mc_experimental cfg then send_frame_error ''experimental tool surface disabled'' S
             else case fs_tools S of None \<Rightarrow> send_frame_error no_engine S
                  | Some w \<Rightarrow> answer_with ft_gossip_ack (mc_gossip cfg payload) w S)
          else if ty = ft_causal_sync then
            (Inr (), case fs_tools S of None \<Rightarrow> send_frame_error no_engine S
                     | Some w \<Rightarrow> answer_with ft_causal_sync (sync_edge cfg payload) w S)
          else if ty = ft_packet then
            (case fs_tools S of
               None \<Rightarrow> (Inr (), send_frame_error no_engine S)
             | Some w \<Rightarrow>
                 (case payload of
                    JObj d \<Rightarrow>
                      (Inr (), answer_with ft_response
                         (packet_call cfg (py_str (dget_or d ''tool'' JNull))
                            (case dget d ''arguments'' of Some (JObj a) \<Rightarrow> a | _ \<Rightarrow> [])) w S)
                  | _ \<Rightarrow> (Inl (OtherError ''object has no attribute get''), S)))
          else (Inr (), S))"

lemma decode_frame_shorter:
  "decode_frame_from_buffer buf = Inr (Some (f, rest)) \<Longrightarrow> length rest < length buf"
  by (auto simp: decode_frame_from_buffer_def Let_def split: if_splits)

function run_binary ::
  "'w mcp_config \<Rightarrow> (bytes \<Rightarrow> json option) \<Rightarrow> bytes \<Rightarrow> 'w frame_server \<Rightarrow> unit result \<times> 'w frame_server" where
  "run_binary cfg parse buf S =
     (case decode_frame_from_buffer buf of
        Inl e \<Rightarrow> (Inl e, S)
      | Inr None \<Rightarrow> (Inr (), S)
      | Inr (Some (f, rest)) \<Rightarrow>
          (case handle_frame cfg parse f S of
             (Inl e, S') \<Rightarrow> (Inl e, S')
           | (Inr _, S') \<Rightarrow> run_binary cfg parse rest S'))"
  by pat_completeness auto

termination
  by (relation "measure (\<lambda>(_, _, buf, _). length buf)") (auto dest: decode_frame_shorter)

declare run_binary.simps [simp del]

section \<open>Frames round-trip\<close>

lemma bytes_length_bytes [simp]: "bytes_length (length_bytes n) = n"
proof (rule bit_word_eqI)
  fix k assume k: "k < LENGTH(32)"
  have "k < 8 \<or> 8 \<le> k \<and> k < 16 \<or> 16 \<le> k \<and> k < 24 \<or> 24 \<le> k" by linarith
  with k show "bit (bytes_length (length_bytes n)) k = bit n k"
    by (elim disjE) (auto simp: bytes_length_def length_bytes_def bit_simps)
qed

lemma length_length_bytes [simp]: "length (length_bytes n) = 4"
  by (simp add: length_bytes_def)

lemma length_frame_magic [simp]: "length frame_magic = 4"
  by (simp add: frame_magic_def encode_str_def)

lemma decode_header:
  assumes "length payload < 2 ^ 32"
  shows "decode_frame_from_buffer
      (frame_magic @ [frame_version, word_of_int ty] @ length_bytes (word_of_nat (length payload)) @ stream) =
     (if length stream < length payload then Inl (ValueError ''incomplete frame payload'')
      else Inr (Some (\<lparr>bf_frame_type = ty mod 256, bf_payload = take (length payload) stream\<rparr>,
                      drop (length payload) stream)))"
proof -
  have "unat (word_of_nat (length payload) :: 32 word) = length payload"
    using assms by (simp add: unat_of_nat)
  moreover have "uint (word_of_int ty :: 8 word) = ty mod 256" by (simp add: uint_word_of_int)
  ultimately show ?thesis
    by (simp add: decode_frame_from_buffer_def Let_def nth_append min_def)
qed

lemma decode_short_header:
  "0 < length buf \<Longrightarrow> length buf < 10 \<Longrightarrow> decode_frame_from_buffer buf = Inl (ValueError ''incomplete frame header'')"
  by (simp add: decode_frame_from_buffer_def Let_def)

lemma encode_frame_Inr:
  "encode_frame ty payload = Inr bs \<longleftrightarrow> length payload < 2 ^ 32
     \<and> bs = frame_magic @ [frame_version, word_of_int ty] @ length_bytes (word_of_nat (length payload)) @ payload"
  by (auto simp: encode_frame_def)

lemma decode_encoded:
  "encode_frame ty payload = Inr bs \<Longrightarrow>
   decode_frame_from_buffer (bs @ rest) = Inr (Some (\<lparr>bf_frame_type = ty mod 256, bf_payload = payload\<rparr>, rest))"
  using decode_header [of payload ty "payload @ rest"] by (simp add: encode_frame_Inr)

text \<open>
  C34. An encoded frame is read back from the front of any stream, with its type modulo 256, and the
  rest of the stream is left for the next frame.  A stream that ends within a frame is refused.
\<close>

theorem frame_roundtrip:
  assumes "encode_frame ty payload = Inr bs"
  shows "decode_frame_from_buffer (bs @ rest) = Inr (Some (\<lparr>bf_frame_type = ty mod 256, bf_payload = payload\<rparr>, rest))
    \<and> (\<forall>n. 0 < n \<and> n < length bs \<longrightarrow> (\<exists>m. decode_frame_from_buffer (take n bs) = Inl (ValueError m)))"
proof (intro conjI allI impI)
  show "decode_frame_from_buffer (bs @ rest) = Inr (Some (\<lparr>bf_frame_type = ty mod 256, bf_payload = payload\<rparr>, rest))"
    using assms by (rule decode_encoded)
next
  fix n assume n: "0 < n \<and> n < length bs"
  let ?h = "frame_magic @ [frame_version, word_of_int ty] @ length_bytes (word_of_nat (length payload))"
  have bs: "bs = ?h @ payload" "length payload < 2 ^ 32" "length ?h = 10"
    using assms by (simp_all add: encode_frame_Inr)
  show "\<exists>m. decode_frame_from_buffer (take n bs) = Inl (ValueError m)"
  proof (cases "n < 10")
    case True
    with n decode_short_header [of "take n bs"] show ?thesis by auto
  next
    case False
    then have "take n bs = ?h @ take (n - 10) payload" using bs(3) unfolding bs(1) by (simp only: take_append) simp
    moreover have "length (take (n - 10) payload) < length payload"
      using n False bs(3) unfolding bs(1) by auto
    ultimately show ?thesis using decode_header [OF bs(2), of ty "take (n - 10) payload"] by auto
  qed
qed

lemma frame_roundtrip_witness:
  "\<exists>bs. encode_frame 10 [7] = Inr bs
     \<and> decode_frame_from_buffer (bs @ [1, 2]) = Inr (Some (\<lparr>bf_frame_type = 10, bf_payload = [7]\<rparr>, [1, 2]))"
proof -
  obtain bs where bs: "encode_frame 10 [7] = Inr bs" by (simp add: encode_frame_def)
  from frame_roundtrip [OF this, of "[1, 2]"] bs show ?thesis by simp
qed

section \<open>Every request is answered once\<close>

definition response_to :: "json \<Rightarrow> message \<Rightarrow> bool" where
  "response_to mid m \<longleftrightarrow> dget m ''jsonrpc'' = Some (JStr ''2.0'') \<and> dget m ''id'' = Some mid
     \<and> dhas m ''result'' \<noteq> dhas m ''error''"

definition answers :: "line_kind \<Rightarrow> message list \<Rightarrow> bool" where
  "answers kind ms \<longleftrightarrow>
     (case kind of
        Blank \<Rightarrow> ms = []
      | Broken t \<Rightarrow> ms = [make_error JNull error_parse_error t]
      | Request m \<Rightarrow>
          if is_notification m \<or> get_method m = JStr ''notifications/initialized'' then ms = []
          else \<exists>r. ms = [r] \<and> response_to (get_id m) r)"

lemma response_made [simp]: "response_to mid (make_success mid r)" "response_to mid (make_error mid c t)"
  by (simp_all add: response_to_def make_success_def make_error_def)

lemma response_call [simp]: "response_to mid (call_response mid res)"
  by (cases "(mid, res)" rule: call_response.cases) (simp_all del: response_to_def)

lemma response_contents [simp]: "response_to mid (contents mid uri j)"
  by (simp add: contents_def)

lemma sent [simp]: "sv_out (send m S) = sv_out S @ [m]" "sv_out (log_line t S) = sv_out S"
  "sv_tools (send m S) = sv_tools S" "sv_tools (log_line t S) = sv_tools S"
  by (simp_all add: send_def log_line_def)

lemma resources_read_answer:
  "\<exists>r. sv_out (handle_resources_read cfg m S) = sv_out S @ [r] \<and> response_to (get_id m) r"
  unfolding handle_resources_read_def Let_def
  by (auto split: sum.split py_exc.split option.split)

lemma tools_call_answer:
  "\<exists>r. sv_out (handle_tools_call cfg m S) = sv_out S @ [r] \<and> response_to (get_id m) r"
  unfolding handle_tools_call_def Let_def
  by (auto split: json.split option.split prod.split sum.split)

lemma message_answer:
  "\<exists>ms. sv_out (handle_message cfg m S) = sv_out S @ ms
     \<and> (if is_notification m \<or> get_method m = JStr ''notifications/initialized'' then ms = []
        else \<exists>r. ms = [r] \<and> response_to (get_id m) r)"
  using tools_call_answer [of cfg m S] resources_read_answer [of cfg m S]
  by (auto simp: handle_message_def Let_def handle_initialize_def handle_tools_list_def handle_resources_list_def)

lemma line_answer:
  "read_message parse raw = Inr kind \<Longrightarrow>
     \<exists>ms. sv_out (snd (handle_line cfg parse raw S)) = sv_out S @ ms \<and> answers kind ms"
proof (cases kind)
  case (Request m)
  then show "read_message parse raw = Inr kind \<Longrightarrow> ?thesis"
    using message_answer [of cfg m S] by (simp add: handle_line_def answers_def)
qed (auto simp: handle_line_def answers_def)

text \<open>The lines up to the first that cannot be read, and what a run makes of them.\<close>

definition readable :: "(string \<Rightarrow> json option result) \<Rightarrow> string result \<Rightarrow> bool" where
  "readable parse raw \<longleftrightarrow> (case read_message parse raw of Inl _ \<Rightarrow> False | Inr _ \<Rightarrow> True)"

lemma serve_lines_eq:
  "serve_lines cfg parse input S =
     (case dropWhile (readable parse) input of
        [] \<Rightarrow> Inr ()
      | raw # _ \<Rightarrow> rbind (read_message parse raw) (\<lambda>_. Inr ()),
      fold (\<lambda>raw S. snd (handle_line cfg parse raw S)) (takeWhile (readable parse) input) S)"
  by (induction input arbitrary: S)
    (auto simp: handle_line_def readable_def split: sum.split line_kind.split)

text \<open>
  C28. The server answers its input line by line up to the first line that cannot be read, whatever
  the tools do - return or raise, any exception: a request gets exactly one response, which carries
  its id and either a result or an error; a line that is not JSON, or not an object, gets one parse
  error without an id; blank lines, notifications and \<open>notifications/initialized\<close> get no answer.  When
  every line can be read the server ends normally at the end of its input; else it ends with the
  exception of the first line that cannot, which it does not answer, nor any line behind it.
\<close>

theorem server_answers_requests:
  "\<exists>kinds outs S'.
     map (read_message parse) (takeWhile (readable parse) input) = map Inr kinds
     \<and> list_all2 answers kinds outs
     \<and> sv_out S' = sv_out S @ concat outs
     \<and> run_server cfg parse input S =
         (case dropWhile (readable parse) input of
            [] \<Rightarrow> Inr ()
          | raw # _ \<Rightarrow> rbind (read_message parse raw) (\<lambda>_. Inr ()), S')"
proof -
  let ?step = "\<lambda>raw S. snd (handle_line cfg parse raw S)"
  have "\<exists>kinds outs. map (read_message parse) lines = map Inr kinds \<and> list_all2 answers kinds outs
      \<and> sv_out (fold ?step lines S) = sv_out S @ concat outs"
    if "\<forall>raw \<in> set lines. readable parse raw" for lines and S :: "'a mcp_server"
    using that
  proof (induction lines arbitrary: S)
    case (Cons raw lines)
    then obtain kind where k: "read_message parse raw = Inr kind"
      by (auto simp: readable_def split: sum.splits)
    obtain ms where ms: "sv_out (?step raw S) = sv_out S @ ms" "answers kind ms"
      using line_answer [OF k] by blast
    from Cons obtain kinds outs where "map (read_message parse) lines = map Inr kinds" "list_all2 answers kinds outs"
      "sv_out (fold ?step lines (?step raw S)) = sv_out (?step raw S) @ concat outs"
      by (metis list.set_intros(2))
    with k ms show ?case by (intro exI [of _ "kind # kinds"] exI [of _ "ms # outs"]) simp
  qed simp
  from this [of "takeWhile (readable parse) input" "log_line ''Vermyth MCP server starting'' S"]
  show ?thesis by (auto simp: run_server_def serve_lines_eq Let_def dest: set_takeWhileD)
qed

section \<open>The tool scope\<close>

text \<open>
  What may happen to the tools: a call of a tool of the dispatch table that the scope allows, or of a
  session tool when those are enabled; and, over the binary transport only and without a look at the
  scope, gossip when it is enabled and the writing of a causal edge.
\<close>

inductive tool_effect :: "'w mcp_config \<Rightarrow> bool \<Rightarrow> 'w \<Rightarrow> 'w \<Rightarrow> bool" for cfg :: "'w mcp_config" and bin :: bool where
  scoped_call: "dget (mc_dispatch cfg) tool = Some h \<Longrightarrow> scope_allows (mc_scope cfg) tool \<Longrightarrow> h args w = (res, w') \<Longrightarrow>
     tool_effect cfg bin w w'"
| session_call: "bin \<Longrightarrow> mc_experimental cfg \<Longrightarrow> dget (mc_binary cfg) tool = Some h \<Longrightarrow>
     scope_allows (mc_scope cfg) tool \<Longrightarrow> h args w = (res, w') \<Longrightarrow> tool_effect cfg bin w w'"
| gossip: "bin \<Longrightarrow> mc_experimental cfg \<Longrightarrow> mc_gossip cfg j w = (res, w') \<Longrightarrow> tool_effect cfg bin w w'"
| edge_sync: "bin \<Longrightarrow> mc_add_edge cfg d w = (res, w') \<Longrightarrow> tool_effect cfg bin w w'"

inductive_cases tool_effect_cases: "tool_effect cfg bin w w'"

inductive_simps tool_effect_rpc: "tool_effect cfg False w w'"

definition effects :: "'w mcp_config \<Rightarrow> bool \<Rightarrow> 'w option \<Rightarrow> 'w option \<Rightarrow> bool" where
  "effects cfg bin t t' \<longleftrightarrow>
     (case t of None \<Rightarrow> t' = None | Some w \<Rightarrow> \<exists>w'. t' = Some w' \<and> (tool_effect cfg bin)\<^sup>*\<^sup>* w w')"

lemma effects_refl [simp]: "effects cfg bin t t"
  by (simp add: effects_def split: option.split)

lemma effects_trans: "effects cfg bin t u \<Longrightarrow> effects cfg bin u v \<Longrightarrow> effects cfg bin t v"
  by (auto simp: effects_def split: option.splits intro: rtranclp_trans)

lemma effects_step: "(tool_effect cfg bin)\<^sup>=\<^sup>= w w' \<Longrightarrow> effects cfg bin (Some w) (Some w')"
  by (auto simp: effects_def)

lemma enforce_Inr [simp]: "enforce_tool_scope scope tool = Inr u \<longleftrightarrow> scope_allows scope tool"
  by (simp add: enforce_tool_scope_def)

lemma call_tool_effect: "call_tool cfg name args w = (res, w') \<Longrightarrow> (tool_effect cfg False)\<^sup>=\<^sup>= w w'"
  unfolding call_tool_def obind_def lift_def ret_def
  by (auto simp: enforce_tool_scope_def split: sum.splits prod.splits option.splits if_splits intro: scoped_call)

lemma message_effect: "effects cfg False (sv_tools S) (sv_tools (handle_message cfg m S))"
proof -
  have call: "effects cfg False (sv_tools S) (sv_tools (handle_tools_call cfg m S))"
    unfolding handle_tools_call_def Let_def
    by (auto split: json.split option.split prod.split sum.split dest: call_tool_effect intro: effects_step)
  have read: "sv_tools (handle_resources_read cfg m S) = sv_tools S"
    unfolding handle_resources_read_def Let_def by (auto split: sum.split py_exc.split option.split)
  show ?thesis
    using call read
    by (auto simp: handle_message_def Let_def handle_initialize_def handle_tools_list_def handle_resources_list_def)
qed

text \<open>
  A surface through which clients reach the tools: a state that holds them, and a step for each input.
  What a step may do to the tools bounds what a run may do.
\<close>

locale tool_surface =
  fixes tools :: "'s \<Rightarrow> 'w option" and step :: "'i \<Rightarrow> 's \<Rightarrow> 's" and may :: "'w \<Rightarrow> 'w \<Rightarrow> bool"
  assumes step_tools: "rel_option may\<^sup>*\<^sup>* (tools S) (tools (step i S))"
begin

lemma run_tools: "rel_option may\<^sup>*\<^sup>* (tools S) (tools (fold step inputs S))"
proof (induction inputs arbitrary: S)
  case Nil
  show ?case by (cases "tools S") simp_all
next
  case (Cons i inputs)
  show ?case
    using step_tools [of S i] Cons.IH [of "step i S"]
    by (auto simp: option_rel_Some1 elim!: option.rel_cases intro: rtranclp_trans)
qed

lemma tools_kept: "tools S = Some w \<Longrightarrow> \<exists>w'. tools (fold step inputs S) = Some w' \<and> may\<^sup>*\<^sup>* w w'"
  using run_tools [of S inputs] by (simp add: option_rel_Some1)

end

lemma effects_rel: "effects cfg bin t t' \<longleftrightarrow> rel_option (tool_effect cfg bin)\<^sup>*\<^sup>* t t'"
  by (cases t; cases t') (simp_all add: effects_def)

lemma line_effect: "effects cfg False (sv_tools S) (sv_tools (snd (handle_line cfg parse raw S)))"
  using message_effect by (auto simp: handle_line_def split: sum.split line_kind.split)

interpretation rpc: tool_surface sv_tools "\<lambda>raw S. snd (handle_line cfg parse raw S)" "tool_effect cfg False" for cfg parse
  by unfold_locales (use line_effect in \<open>simp add: effects_rel\<close>)

lemma packet_call_effect: "packet_call cfg tool args w = (res, w') \<Longrightarrow> (tool_effect cfg True)\<^sup>=\<^sup>= w w'"
  unfolding packet_call_def obind_def lift_def ret_def raise_exc_def
  by (auto simp: enforce_tool_scope_def split: sum.splits prod.splits option.splits if_splits
      intro: scoped_call session_call)

lemma sync_edge_effect: "sync_edge cfg payload w = (res, w') \<Longrightarrow> (tool_effect cfg True)\<^sup>=\<^sup>= w w'"
  by (auto simp: sync_edge_def ret_def split: json.splits if_splits intro: edge_sync)

lemma frame_sent [simp]: "fs_tools (send_frame ty j S) = fs_tools S" "fs_tools (send_frame_error t S) = fs_tools S"
  by (simp_all add: send_frame_def send_frame_error_def)

lemma answer_with_effect:
  assumes "\<And>res w'. m w = (res, w') \<Longrightarrow> (tool_effect cfg True)\<^sup>=\<^sup>= w w'" "fs_tools S = Some w"
  shows "effects cfg True (Some w) (fs_tools (answer_with ty m w S))"
  using assms by (auto simp: answer_with_def split: prod.split sum.split intro: effects_step)

lemma frame_effect: "effects cfg True (fs_tools S) (fs_tools (snd (handle_frame cfg parse f S)))"
proof -
  have g: "effects cfg True (Some w) (fs_tools (answer_with ty (mc_gossip cfg j) w S))"
    if "fs_tools S = Some w" "mc_experimental cfg" for w j ty
    using that by (intro answer_with_effect) (auto intro: gossip)
  have e: "effects cfg True (Some w) (fs_tools (answer_with ty (sync_edge cfg j) w S))"
    if "fs_tools S = Some w" for w j ty
    using that by (intro answer_with_effect sync_edge_effect)
  have p: "effects cfg True (Some w) (fs_tools (answer_with ty (packet_call cfg tool args) w S))"
    if "fs_tools S = Some w" for w tool args ty
    using that by (intro answer_with_effect packet_call_effect)
  show ?thesis
    unfolding handle_frame_def Let_def
    using g e p by (auto split: option.split json.split)
qed

interpretation frames: tool_surface fs_tools "\<lambda>f S. snd (handle_frame cfg parse f S)" "tool_effect cfg True" for cfg parse
  by unfold_locales (use frame_effect in \<open>simp add: effects_rel\<close>)

lemma run_binary_effect: "effects cfg True (fs_tools S) (fs_tools (snd (run_binary cfg parse buf S)))"
proof (induction cfg parse buf S rule: run_binary.induct)
  case (1 cfg parse buf S)
  show ?case
  proof (cases "decode_frame_from_buffer buf")
    case (Inl e)
    then show ?thesis by (simp add: run_binary.simps)
  next
    case d: (Inr x)
    show ?thesis
    proof (cases x)
      case None
      with d show ?thesis by (simp add: run_binary.simps)
    next
      case (Some y)
      obtain f rest where y: "y = (f, rest)" by (cases y)
      obtain r S' where h: "handle_frame cfg parse f S = (r, S')" by (cases "handle_frame cfg parse f S")
      have step: "effects cfg True (fs_tools S) (fs_tools S')" using frame_effect [of cfg S parse f] h by simp
      show ?thesis
      proof (cases r)
        case (Inl e)
        with d Some y h step show ?thesis by (simp add: run_binary.simps [of cfg parse buf])
      next
        case (Inr u)
        note IH = "1.IH" [OF d Some y [symmetric] h [symmetric] Inr]
        from effects_trans [OF step IH] d Some y h Inr show ?thesis
          by (simp add: run_binary.simps [of cfg parse buf])
      qed
    qed
  qed
qed

text \<open>
  C29. The tool scope confines the servers.  A run of the JSON-RPC server, on any input, does nothing
  to the tools but call tools of the dispatch table that the scope allows.  A run of the binary server
  may in addition call allowed session tools, merge gossip when the experimental surface is enabled,
  and write causal edges, the last two whatever the scope says.
\<close>

theorem scope_confines_servers:
  "effects cfg False (sv_tools S) (sv_tools (snd (run_server cfg parse input S)))
   \<and> effects cfg True (fs_tools B) (fs_tools (snd (run_binary cfg parse' buf B)))"
  using rpc.run_tools [where S = "log_line ''Vermyth MCP server starting'' S"
      and inputs = "takeWhile (readable parse) input" and cfg = cfg and parse = parse]
    run_binary_effect [of cfg B parse' buf]
  by (simp add: run_server_def serve_lines_eq Let_def effects_rel)

section \<open>A stream of frames\<close>

definition known_frames :: "int list" where
  "known_frames = [ft_session_open, ft_session_close, ft_packet, ft_gossip_push, ft_gossip_pull, ft_causal_sync]"

text \<open>
  A frame is answered when its type is handled or its payload is no JSON; a packet for configured
  tools ends the server when its payload is JSON but no object.
\<close>

definition answered :: "(bytes \<Rightarrow> json option) \<Rightarrow> binary_frame \<Rightarrow> bool" where
  "answered parse f \<longleftrightarrow> bf_frame_type f \<in> set known_frames \<or> parse (bf_payload f) = None"

definition ends_server :: "(bytes \<Rightarrow> json option) \<Rightarrow> bool \<Rightarrow> binary_frame \<Rightarrow> bool" where
  "ends_server parse configured f \<longleftrightarrow> configured \<and> bf_frame_type f = ft_packet
     \<and> (case parse (bf_payload f) of None \<Rightarrow> False | Some (JObj d) \<Rightarrow> False | Some _ \<Rightarrow> True)"

lemmas frame_type_defs = ft_session_open_def ft_session_ack_def ft_session_close_def ft_packet_def
  ft_response_def ft_gossip_push_def ft_gossip_pull_def ft_gossip_ack_def ft_causal_sync_def ft_error_def

lemma one_frame_more [simp]:
  "length (fs_sent (send_frame ty j S)) = Suc (length (fs_sent S))"
  "length (fs_sent (send_frame_error t S)) = Suc (length (fs_sent S))"
  "length (fs_sent (answer_with ty m w S)) = Suc (length (fs_sent S))"
  by (simp_all add: send_frame_def send_frame_error_def answer_with_def split: prod.split sum.split)

lemma frame_answered:
  "\<not> ends_server parse (fs_tools S \<noteq> None) f \<Longrightarrow>
     \<exists>S'. handle_frame cfg parse f S = (Inr (), S')
       \<and> length (fs_sent S') = length (fs_sent S) + (if answered parse f then 1 else 0)"
  unfolding handle_frame_def Let_def
  by (auto simp: ends_server_def answered_def known_frames_def frame_type_defs split: option.splits json.splits)

lemma frame_ends:
  "ends_server parse (fs_tools S \<noteq> None) f \<Longrightarrow>
     handle_frame cfg parse f S = (Inl (OtherError ''object has no attribute get''), S)"
  by (auto simp: handle_frame_def Let_def ends_server_def frame_type_defs split: option.splits json.splits)

lemma frame_configured: "(fs_tools (snd (handle_frame cfg parse f S)) \<noteq> None) = (fs_tools S \<noteq> None)"
  using frame_effect [of cfg S parse f] by (auto simp: effects_def split: option.splits)

text \<open>
  C33. A stream of encoded frames, of any types below 256, is handled frame by frame in order, up to
  the first packet for configured tools whose payload is JSON but no object: that one ends the server
  with its exception, unanswered.  When there is none, the server ends normally at the end of the
  stream.  Each handled frame gets exactly one answer when its type is one of the six the server
  knows or its payload is no JSON, and none otherwise.
\<close>

theorem binary_stream_answered:
  assumes "rmap_list (\<lambda>f. encode_frame (bf_frame_type f) (bf_payload f)) fs = Inr encs"
    and "\<forall>f \<in> set fs. 0 \<le> bf_frame_type f \<and> bf_frame_type f < 256"
    and "handled = takeWhile (\<lambda>f. \<not> ends_server parse (fs_tools S \<noteq> None) f) fs"
  shows "\<exists>S'. run_binary cfg parse (concat encs) S
         = (if handled = fs then Inr () else Inl (OtherError ''object has no attribute get''), S')
     \<and> S' = fold (\<lambda>f T. snd (handle_frame cfg parse f T)) handled S
     \<and> length (fs_sent S') = length (fs_sent S) + length (filter (answered parse) handled)"
  using assms
proof (induction fs arbitrary: encs S handled)
  case Nil
  then show ?case by (simp add: run_binary.simps decode_frame_from_buffer_def)
next
  case (Cons f fs)
  then obtain bs rest where c: "encode_frame (bf_frame_type f) (bf_payload f) = Inr bs"
    "rmap_list (\<lambda>f. encode_frame (bf_frame_type f) (bf_payload f)) fs = Inr rest" "encs = bs # rest"
    by (auto simp: rbind_Inr_iff)
  have "bf_frame_type f mod 256 = bf_frame_type f" using Cons.prems(2) by auto
  with decode_encoded [OF c(1)] have d: "decode_frame_from_buffer (concat encs) = Inr (Some (f, concat rest))"
    by (simp add: c(3))
  show ?case
  proof (cases "ends_server parse (fs_tools S \<noteq> None) f")
    case True
    with frame_ends [OF True, of cfg] Cons.prems(3) d show ?thesis
      by (simp add: run_binary.simps [of cfg parse "concat encs"])
  next
    case False
    from frame_answered [OF False, of cfg] obtain T where T: "handle_frame cfg parse f S = (Inr (), T)"
      "length (fs_sent T) = length (fs_sent S) + (if answered parse f then 1 else 0)" by blast
    have "(fs_tools T \<noteq> None) = (fs_tools S \<noteq> None)" using frame_configured [of cfg parse f S] T(1) by simp
    with False Cons.prems(3) have h: "handled = f # takeWhile (\<lambda>f. \<not> ends_server parse (fs_tools T \<noteq> None) f) fs"
      by simp
    from Cons.IH [OF c(2) _ refl, of T] Cons.prems(2) T d show ?thesis
      by (simp add: run_binary.simps [of cfg parse "concat encs"] h)
  qed
qed

lemma binary_stream_answered_witness:
  "\<forall>cfg :: unit mcp_config. \<exists>bs cs S'. encode_frame ft_session_open [] = Inr bs \<and> encode_frame ft_packet [] = Inr cs
     \<and> run_binary cfg (\<lambda>_. Some JNull) (bs @ cs @ bs) \<lparr>fs_tools = Some (), fs_sent = []\<rparr>
         = (Inl (OtherError ''object has no attribute get''), S')
     \<and> length (fs_sent S') = 1"
proof
  fix cfg :: "unit mcp_config"
  let ?f = "\<lparr>bf_frame_type = ft_session_open, bf_payload = []\<rparr>" and ?p = "\<lparr>bf_frame_type = ft_packet, bf_payload = []\<rparr>"
  obtain bs cs where bs: "encode_frame ft_session_open [] = Inr bs" "encode_frame ft_packet [] = Inr cs"
    by (simp add: encode_frame_def)
  have "rmap_list (\<lambda>f. encode_frame (bf_frame_type f) (bf_payload f)) [?f, ?p, ?f] = Inr [bs, cs, bs]"
    using bs by simp
  moreover have "\<forall>f \<in> set [?f, ?p, ?f]. 0 \<le> bf_frame_type f \<and> bf_frame_type f < 256"
    by (simp add: frame_type_defs)
  moreover have "[?f] = takeWhile (\<lambda>f. \<not> ends_server (\<lambda>_. Some JNull) True f) [?f, ?p, ?f]"
    by (simp add: ends_server_def frame_type_defs)
  moreover have "answered (\<lambda>_. Some JNull) ?f" by (simp add: answered_def known_frames_def)
  ultimately show "\<exists>bs cs S'. encode_frame ft_session_open [] = Inr bs \<and> encode_frame ft_packet [] = Inr cs
     \<and> run_binary cfg (\<lambda>_. Some JNull) (bs @ cs @ bs) \<lparr>fs_tools = Some (), fs_sent = []\<rparr>
         = (Inl (OtherError ''object has no attribute get''), S')
     \<and> length (fs_sent S') = 1"
    using binary_stream_answered [where cfg = cfg and fs = "[?f, ?p, ?f]" and encs = "[bs, cs, bs]"
        and parse = "\<lambda>_. Some JNull" and S = "\<lparr>fs_tools = Some (), fs_sent = []\<rparr>" and handled = "[?f]"] bs by auto
qed

end
