(* ===== verification/Projection.thy ===== *)
theory Projection
  imports Resonance
begin

text \<open>
  The projection backends of \<open>src/vermyth/engine/projection_backends.py\<close>, which turn the text of an
  intent into a vector for the engine.  The completion of a prompt by a language model, the embedding
  of texts and \<open>json.loads\<close> are parameters; what the backends do with their answers is modelled, the
  cache of reference embeddings included.
\<close>

section \<open>Texts\<close>

definition lower_char :: "char \<Rightarrow> char" where
  "lower_char c = (if CHR ''A'' \<le> c \<and> c \<le> CHR ''Z'' then char_of ((of_char c :: nat) + 32) else c)"

definition lower_text :: "string \<Rightarrow> string" where
  "lower_text s = map lower_char s"

text \<open>\<open>kw in text\<close>.\<close>

definition contains_text :: "string \<Rightarrow> string \<Rightarrow> bool" where
  "contains_text text kw \<longleftrightarrow> list_ex (\<lambda>i. take (length kw) (drop i text) = kw) [0..<Suc (length text)]"

definition floats_list :: "real list \<Rightarrow> json" where
  "floats_list xs = JList (map JFloat xs)"

section \<open>The local backend\<close>

definition clip_unit :: "real \<Rightarrow> real" where
  "clip_unit x = max (-1) (min 1 x)"

fun aspect_keywords :: "aspect_id \<Rightarrow> string list" where
  "aspect_keywords VOID = [''delete'', ''remove'', ''erase'', ''null'', ''empty'', ''void'', ''silence'']"
| "aspect_keywords FORM = [''shape'', ''structure'', ''format'', ''schema'', ''organize'', ''compose'', ''build'']"
| "aspect_keywords MOTION = [''move'', ''flow'', ''shift'', ''change'', ''migrate'', ''iterate'', ''progress'']"
| "aspect_keywords MIND = [''think'', ''understand'', ''analyze'', ''reason'', ''learn'', ''explain'', ''decide'']"
| "aspect_keywords DECAY = [''decay'', ''break'', ''corrupt'', ''rot'', ''deprecate'', ''fade'', ''entropy'']"
| "aspect_keywords LIGHT = [''reveal'', ''clarify'', ''expose'', ''illuminate'', ''shine'', ''discover'', ''signal'']"

definition keyword_hits :: "string \<Rightarrow> aspect_id \<Rightarrow> nat" where
  "keyword_hits text a = length (filter (contains_text text) (aspect_keywords a))"

definition keyword_score :: "string \<Rightarrow> aspect_id \<Rightarrow> real" where
  "keyword_score text a =
     (let hits = keyword_hits text a in if hits \<noteq> 0 then clip_unit (fmul (lit 0.25) (real hits)) else 0)"

definition local_project :: "registry \<Rightarrow> string \<Rightarrow> string \<Rightarrow> real list" where
  "local_project R objective scope =
     (let text = lower_text (objective @ [CHR 0x0A] @ scope);
          dim = dimensionality R;
          base = scale_unit (map (keyword_score text) all_aspect_ids @ replicate (max 6 dim - 6) 0)
      in take dim (base @ replicate (dim - length base) 0))"

section \<open>The language model\<close>

fun provider_floats :: "json list \<Rightarrow> real list result" where
  "provider_floats [] = Inr []"
| "provider_floats (x # xs) =
     rbind (case x of
              JInt n \<Rightarrow> if is_finite (fl (of_int n)) then Inr (fl (of_int n))
                        else Inl (OverflowError ''int too large to convert to float'')
            | JFloat y \<Rightarrow> Inr y
            | JBool b \<Rightarrow> Inr (if b then 1 else 0)
            | _ \<Rightarrow> Inl (ValueError ''projection provider returned non-numeric component'')) (\<lambda>y.
     if y < -1 \<or> y > 1 then Inl (ValueError ''projection provider returned component out of range'')
     else rbind (provider_floats xs) (\<lambda>ys. Inr (y # ys)))"

definition llm_project ::
  "(string \<Rightarrow> string \<Rightarrow> json result) \<Rightarrow> registry \<Rightarrow> string \<Rightarrow> string \<Rightarrow> json result" where
  "llm_project provider R objective scope =
     rbind (provider objective scope) (\<lambda>out.
     case out of
       JList xs \<Rightarrow>
         if length xs < 6 then Inl (ValueError ''projection provider returned invalid vector length'')
         else rbind (provider_floats xs) (\<lambda>floats.
              let dim = dimensionality R in
              Inr (floats_list (take dim (scale_unit (floats @ replicate (dim - length floats) 0)))))
     | _ \<Rightarrow> Inl (ValueError ''projection provider returned invalid vector length''))"

definition fallback_project ::
  "(string \<Rightarrow> string \<Rightarrow> json result) \<Rightarrow> (string \<Rightarrow> string \<Rightarrow> json result) \<Rightarrow> string \<Rightarrow> string \<Rightarrow> json result" where
  "fallback_project primary fallback objective scope =
     (case primary objective scope of
        Inr (JList xs) \<Rightarrow> if length xs < 6 then fallback objective scope else Inr (JList xs)
      | _ \<Rightarrow> fallback objective scope)"

definition projection_prompt :: "nat \<Rightarrow> string \<Rightarrow> string \<Rightarrow> string" where
  "projection_prompt n objective scope =
     join [CHR 0x0A]
       [''You are a projection function.'', ''Return ONLY a JSON array of floats.'',
        ''Order is: VOID, FORM, MOTION, MIND, DECAY, LIGHT.'', ''Each float must be in [-1.0, 1.0].'',
        ''Return at least 6 floats; you may return more.'',
        ''Current dimensionality is '' @ int_text (int n) @ ''; extra dimensions (beyond 6) should be 0.0.'',
        [], ''objective: '' @ objective, ''scope: '' @ scope, []]"

text \<open>The first match of \<open>\[[^\]]+\]\<close>.\<close>

fun first_bracketed :: "string \<Rightarrow> string option" where
  "first_bracketed [] = None"
| "first_bracketed (c # cs) =
     (let body = takeWhile (\<lambda>d. d \<noteq> CHR '']'') cs in
      if c = CHR ''['' \<and> body \<noteq> [] \<and> length body < length cs then Some (c # body @ '']'')
      else first_bracketed cs)"

definition anthropic_project ::
  "(string \<Rightarrow> json option) \<Rightarrow> (string \<Rightarrow> string result) \<Rightarrow> registry \<Rightarrow> string \<Rightarrow> string \<Rightarrow> json result" where
  "anthropic_project parse ask R objective scope =
     rbind (ask (projection_prompt (dimensionality R) objective scope)) (\<lambda>raw.
     let text = strip_text raw in
     if text = [] then Inl (RuntimeError ''anthropic provider returned empty response'')
     else
       rbind (case parse text of
                Some j \<Rightarrow> Inr j
              | None \<Rightarrow>
                  (case first_bracketed text of
                     None \<Rightarrow> Inl (ValueError ''anthropic provider returned non-JSON output'')
                   | Some t \<Rightarrow> of_option (ValueError ''invalid JSON'') (parse t))) (\<lambda>j.
       case j of JList xs \<Rightarrow> Inr (JList xs)
       | _ \<Rightarrow> Inl (ValueError ''anthropic provider returned non-list JSON'')))"

section \<open>The embedding backend\<close>

type_synonym embedding = "string list \<Rightarrow> real list list result"

record embed_cache =
  ec_basis :: "nat option"
  ec_refs :: "(string, real list) dict"

definition empty_cache :: embed_cache where
  "empty_cache = \<lparr>ec_basis = None, ec_refs = []\<rparr>"

definition canonical_references :: "(string, string) dict" where
  "canonical_references =
     [(''VOID'', ''absence, removal, nullification, empty state''),
      (''FORM'', ''structure, schema, organization, shape and constraints''),
      (''MOTION'', ''movement, progress, transition, iteration and flow''),
      (''MIND'', ''reasoning, analysis, understanding, cognition and planning''),
      (''DECAY'', ''degradation, entropy, corruption, erosion and decline''),
      (''LIGHT'', ''clarity, revelation, signal, illumination and discovery'')]"

definition aspect_reference_text :: "string \<Rightarrow> string" where
  "aspect_reference_text name =
     name @ '': '' @ (case dget canonical_references name of Some t \<Rightarrow> t | None \<Rightarrow> name @ '' semantic intent axis'')"

definition reference_vectors :: "embedding \<Rightarrow> registry \<Rightarrow> (string, real list) dict result" where
  "reference_vectors emb R =
     (let names = map aspect_name (full_aspect_order R) in
      rbind (emb (map aspect_reference_text names)) (\<lambda>es.
      if length es \<noteq> length names then Inl (RuntimeError ''embedding backend returned unexpected vector count'')
      else Inr (foldl (\<lambda>d (n, e). dset n (scale_unit e) d) [] (zip names es))))"

definition ensure_reference_vectors :: "embedding \<Rightarrow> registry \<Rightarrow> (embed_cache, unit) op" where
  "ensure_reference_vectors emb R C =
     (if ec_basis C = Some (basis_version R) \<and> ec_refs C \<noteq> [] then (Inr (), C)
      else case reference_vectors emb R of
        Inl e \<Rightarrow> (Inl e, C)
      | Inr refs \<Rightarrow> (Inr (), \<lparr>ec_basis = Some (basis_version R), ec_refs = refs\<rparr>))"

definition score_against :: "(string, real list) dict \<Rightarrow> real list \<Rightarrow> registry \<Rightarrow> real list" where
  "score_against refs q R =
     map (\<lambda>a. case dget refs (aspect_name a) of
                None \<Rightarrow> 0
              | Some v \<Rightarrow> clip_unit (fsum (map (\<lambda>i. fmul (comp_at q i) (comp_at v i)) [0..<max (length q) (length v)])))
       (full_aspect_order R)"

definition embed_query ::
  "embedding \<Rightarrow> (string, real list) dict \<Rightarrow> registry \<Rightarrow> string \<Rightarrow> string \<Rightarrow> real list result" where
  "embed_query emb refs R objective scope =
     rbind (emb [objective @ '' // '' @ scope]) (\<lambda>qs.
     case qs of
       [] \<Rightarrow> Inl (RuntimeError ''embedding backend returned no query embedding'')
     | q # _ \<Rightarrow>
         let dim = dimensionality R; out = score_against refs (scale_unit q) R in
         Inr (scale_unit (take dim (out @ replicate (dim - length out) 0))))"

definition embed_project ::
  "embedding \<Rightarrow> registry \<Rightarrow> string \<Rightarrow> string \<Rightarrow> (embed_cache, real list) op" where
  "embed_project emb R objective scope =
     obind (ensure_reference_vectors emb R) (\<lambda>_ C.
     (embed_query emb (ec_refs C) R objective scope, C))"

section \<open>The choice of a backend\<close>

datatype backend =
    NullBackend
  | LocalBackend
  | EmbedBackend string
  | LLMBackend string string real
  | FallbackBackend backend backend

record backend_env =
  be_backend :: "string option"
  be_provider :: "string option"
  be_fallback :: "string option"
  be_model :: "string option"
  be_embed_model :: "string option"
  be_timeout :: "string option"
  be_anthropic_key :: "string option"
  be_api_key :: "string option"

definition backend_from_env :: "backend_env \<Rightarrow> backend result" where
  "backend_from_env E =
     (let word = (\<lambda>v d. lower_text (strip_text (str_or v d)));
          mode = word (be_backend E) ''none'';
          provider = word (be_provider E) ''anthropic'';
          fallback_mode = word (be_fallback E) ''local'';
          model = strip_text (str_or (be_model E) ''claude-3-5-sonnet-latest'');
          embed_model = strip_text (str_or (be_embed_model E) ''all-MiniLM-L6-v2'')
      in rbind (py_float (JStr (str_or (be_timeout E) ''10''))) (\<lambda>timeout.
      if mode \<notin> {''none'', ''local'', ''embed'', ''llm'', ''auto''}
      then Inl (ValueError ''VERMYTH_BACKEND must be one of: none, local, embed, llm, auto'')
      else if fallback_mode \<notin> {''local'', ''none''}
      then Inl (ValueError ''VERMYTH_FALLBACK must be one of: local, none'')
      else if mode = ''none'' then Inr NullBackend
      else if mode = ''local'' then Inr LocalBackend
      else if mode = ''embed'' then Inr (EmbedBackend embed_model)
      else if provider \<noteq> ''anthropic'' then Inl (ValueError (''Unsupported provider: '' @ repr_str provider))
      else
        let key = strip_text (str_or (be_anthropic_key E) (str_or (be_api_key E) []));
            llm = (if key = [] then NullBackend else LLMBackend key model timeout) in
        if mode = ''llm'' then
          (if key = [] then Inl (ValueError ''Missing API key for LLM backend'') else Inr llm)
        else Inr (FallbackBackend llm (if fallback_mode = ''local'' then LocalBackend else NullBackend))))"

text \<open>What the backends take from outside.  A fresh embedding backend starts with an empty cache.\<close>

record backend_world =
  bw_parse :: "string \<Rightarrow> json option"
  bw_complete :: "string \<Rightarrow> string \<Rightarrow> real \<Rightarrow> string \<Rightarrow> string result"
  bw_embed :: "string \<Rightarrow> embedding"

fun project :: "backend_world \<Rightarrow> registry \<Rightarrow> backend \<Rightarrow> string \<Rightarrow> string \<Rightarrow> json result" where
  "project X R NullBackend objective scope = Inr (JList [])"
| "project X R LocalBackend objective scope = Inr (floats_list (local_project R objective scope))"
| "project X R (EmbedBackend model) objective scope =
     rbind (fst (embed_project (bw_embed X model) R objective scope empty_cache)) (\<lambda>xs. Inr (floats_list xs))"
| "project X R (LLMBackend key model timeout) objective scope =
     llm_project (anthropic_project (bw_parse X) (bw_complete X key model timeout) R) R objective scope"
| "project X R (FallbackBackend primary fallback) objective scope =
     fallback_project (project X R primary) (project X R fallback) objective scope"

section \<open>The local backend fits the engine\<close>

lemma fadd_ge:
  assumes "0 \<le> a" "0 \<le> x" "is_double a" "is_double x"
  shows "a \<le> fadd a x" "x \<le> fadd a x"
  using assms by (auto simp: fadd_def intro: fl_ge)

lemma foldl_fadd_ge:
  "\<forall>x \<in> set xs. 0 \<le> x \<and> is_double x \<Longrightarrow> 0 \<le> a \<Longrightarrow> is_double a \<Longrightarrow> a \<le> foldl fadd a xs \<and> (\<forall>x \<in> set xs. x \<le> foldl fadd a xs)"
proof (induction xs arbitrary: a)
  case (Cons y xs)
  have y: "0 \<le> fadd a y" "is_double (fadd a y)" "a \<le> fadd a y" "y \<le> fadd a y"
    using fadd_ge [of a y] Cons.prems by (auto simp: fadd_def is_double_fl)
  with Cons.IH [of "fadd a y"] Cons.prems show ?case by fastforce
qed simp

text \<open>The scores of the local backend are quarters, whose squares are exact.\<close>

definition quarters :: "real set" where
  "quarters = (\<lambda>m. real m / 4) ` {..4}"

lemma quarter_double: "c \<in> quarters \<Longrightarrow> is_double c \<and> fmul c c = c * c \<and> is_double (c * c) \<and> 0 \<le> c"
proof -
  assume "c \<in> quarters"
  then obtain m where m: "m \<le> 4" "c = real m / 4" by (auto simp: quarters_def)
  have "int m * int m \<le> 4 * 4" using m(1) by (intro mult_mono) auto
  then have "is_double (of_int (int m * int m) / 2 ^ 4)" by (intro is_double_dyadic) auto
  moreover have "c * c = of_int (int m * int m) / 2 ^ 4" unfolding m(2) by simp
  ultimately have "is_double (c * c)" by (simp only:)
  moreover have "is_double c" unfolding m(2) using is_double_dyadic [of "int m" 2] m(1) by simp
  moreover have "0 \<le> c" using m(2) by simp
  ultimately show ?thesis by (simp add: fmul_def fl_double)
qed

lemma keyword_score_quarter: "keyword_score text a \<in> quarters"
proof -
  let ?h = "keyword_hits text a"
  have q: "lit (1/4) = (1/4 :: real)" using is_double_dyadic [of 1 2] by (simp add: lit_double)
  have "?h \<le> length (aspect_keywords a)" by (simp add: keyword_hits_def)
  also have "\<dots> \<le> 7" by (cases a) simp_all
  finally have "fmul (lit 0.25) (real ?h) = real ?h / 4"
    using is_double_dyadic [of "int ?h" 2] by (simp add: fmul_def fl_double q)
  then have "keyword_score text a = real (min ?h 4) / 4"
    by (auto simp: keyword_score_def Let_def clip_unit_def min_def max_def)
  then show ?thesis unfolding quarters_def by (intro image_eqI [where x = "min ?h 4"]) auto
qed

lemma zero_quarter [simp]: "0 \<in> quarters"
  by (force simp: quarters_def)

lemma scale_unit_quarters:
  assumes "set cs \<subseteq> quarters" "x \<in> set (scale_unit cs)"
  shows "0 \<le> x \<and> x \<le> 1"
proof -
  let ?s = "fsum (map (\<lambda>c. fmul c c) cs)" and ?n = "fsqrt (fsum (map (\<lambda>c. fmul c c) cs))"
  have sq: "c * c \<le> ?s" if "c \<in> set cs" for c
    using foldl_fadd_ge [of "map (\<lambda>c. fmul c c) cs" 0] assms(1) that quarter_double
    by (fastforce simp: fsum_def)
  show ?thesis
  proof (cases "?n = 0")
    case True
    with assms(2) show ?thesis by (auto simp: scale_unit_def Let_def)
  next
    case False
    with assms(2) obtain c where c: "c \<in> set cs" "x = fdiv c ?n" by (auto simp: scale_unit_def Let_def)
    have q: "is_double c" "0 \<le> c" using quarter_double c(1) assms(1) by blast+
    have "c \<le> sqrt ?s" using sq [OF c(1)] q(2) by (intro real_le_rsqrt) (simp add: power2_eq_square)
    then have "c \<le> ?n" using q(1) by (simp add: fsqrt_def fl_ge)
    then show ?thesis using c(2) q(2) False fl_unit [of "c / ?n"] by (simp add: fdiv_def)
  qed
qed

lemma length_scale_unit [simp]: "length (scale_unit cs) = length cs"
  by (simp add: scale_unit_def Let_def)

lemma local_project_unfold:
  "local_project R objective scope =
     scale_unit (map (keyword_score (lower_text (objective @ [CHR 0x0A] @ scope))) all_aspect_ids
       @ replicate (dimensionality R - 6) 0)"
  using dimensionality_ge_6 [of R] by (simp add: local_project_def Let_def all_aspect_ids_def)

lemma length_local_project [simp]: "length (local_project R objective scope) = dimensionality R"
  using dimensionality_ge_6 [of R] by (simp add: local_project_unfold all_aspect_ids_def)

lemma local_project_unit: "x \<in> set (local_project R objective scope) \<Longrightarrow> 0 \<le> x \<and> x \<le> 1"
  unfolding local_project_unfold
  by (erule scale_unit_quarters [rotated]) (auto simp: keyword_score_quarter)

lemma backend_floats_unit: "\<forall>x \<in> set xs. 0 \<le> x \<and> x \<le> 1 \<Longrightarrow> backend_floats (map JFloat xs) = Some xs"
  by (induction xs) auto

text \<open>
  The local backend always answers with one component in [0, 1] for each dimension of the registry,
  and the engine never refuses it: its semantic vector is the normalised answer.
\<close>

theorem local_backend_accepted:
  "length (local_project R objective scope) = dimensionality R
   \<and> list_all (\<lambda>x. 0 \<le> x \<and> x \<le> 1) (local_project R objective scope)
   \<and> build_semantic_vector (E\<lparr>eg_backend := Some (project X (eg_registry E) LocalBackend)\<rparr>) i =
       Some (normalize_unit (eg_registry E) (local_project (eg_registry E) (in_objective i) (in_scope i)))"
  using dimensionality_ge_6 [of "eg_registry E"]
  by (simp add: build_semantic_vector_def floats_list_def backend_floats_unit local_project_unit list_all_iff)

section \<open>The automatic backend never fails\<close>

lemma llm_project_length:
  "llm_project provider R objective scope = Inr j \<Longrightarrow> \<exists>xs. j = JList xs \<and> length xs = dimensionality R"
  unfolding llm_project_def rbind_Inr_iff
  by (elim exE conjE) (auto simp: rbind_Inr_iff floats_list_def Let_def split: json.splits if_splits)

text \<open>
  The contract of a backend: it fails, or answers with one component for each dimension, or with too
  few components to be used; a total one always answers in full.
\<close>

locale sized_backend =
  fixes answer :: "string \<Rightarrow> string \<Rightarrow> json result" and n :: nat
  assumes sized: "answer objective scope = Inr j \<Longrightarrow> \<exists>xs. j = JList xs \<and> (length xs = n \<or> length xs < 6)"

locale total_backend = sized_backend +
  assumes total: "\<exists>xs. answer objective scope = Inr (JList xs) \<and> length xs = n"
begin

lemma fallback_total:
  assumes "sized_backend primary n"
  shows "\<exists>xs. fallback_project primary answer objective scope = Inr (JList xs) \<and> length xs = n"
proof (cases "primary objective scope")
  case (Inl e)
  with total show ?thesis by (simp add: fallback_project_def)
next
  case (Inr j)
  with sized_backend.sized [OF assms Inr] total [of objective scope] show ?thesis
    by (auto simp: fallback_project_def)
qed

end

interpretation null: sized_backend "project X R NullBackend" "dimensionality R" for X R
  by unfold_locales simp

interpretation llm: sized_backend "project X R (LLMBackend key model timeout)" "dimensionality R" for X R key model timeout
  by unfold_locales (auto dest: llm_project_length)

interpretation local: total_backend "project X R LocalBackend" "dimensionality R" for X R
  by unfold_locales (auto simp: floats_list_def)

definition mode_of :: "backend_env \<Rightarrow> string" where
  "mode_of E = lower_text (strip_text (str_or (be_backend E) ''none''))"

definition fallback_of :: "backend_env \<Rightarrow> string" where
  "fallback_of E = lower_text (strip_text (str_or (be_fallback E) ''local''))"

text \<open>
  With the automatic backend and the local fallback, whatever the language model does - fail, time
  out, answer with anything - and with no key at all, every projection has one component for each
  dimension.
\<close>

theorem auto_backend_total:
  assumes "backend_from_env E = Inr b" "mode_of E = ''auto''" "fallback_of E = ''local''"
  shows "\<exists>xs. project X R b objective scope = Inr (JList xs) \<and> length xs = dimensionality R"
proof -
  from assms obtain p where b: "b = FallbackBackend p LocalBackend" "p = NullBackend \<or> (\<exists>key model t. p = LLMBackend key model t)"
    by (auto simp: backend_from_env_def mode_of_def fallback_of_def rbind_Inr_iff Let_def split: if_splits)
  have "sized_backend (project X R p) (dimensionality R)"
    using b(2) null.sized_backend_axioms llm.sized_backend_axioms by blast
  from local.fallback_total [OF this] b(1) show ?thesis by simp
qed

lemma auto_backend_total_witness:
  "\<forall>X. \<exists>xs. project X empty_registry (FallbackBackend NullBackend LocalBackend) ''erase'' ''all'' = Inr (JList xs)
     \<and> length xs = 6"
proof
  fix X
  let ?E = "\<lparr>be_backend = Some ''auto'', be_provider = None, be_fallback = None, be_model = None, be_embed_model = None,
    be_timeout = None, be_anthropic_key = None, be_api_key = None\<rparr>"
  obtain r where t: "parse_float ''10'' = Some r"
    by (simp add: parse_float_def parse_decimal_def parse_digits_opt_def parse_nat_def digit_value_def strip_text_def
        is_space_def Let_def)
  have b: "backend_from_env ?E = Inr (FallbackBackend NullBackend LocalBackend)"
    by (simp add: backend_from_env_def t lower_text_def lower_char_def strip_text_def is_space_def Let_def)
  have "mode_of ?E = ''auto''" "fallback_of ?E = ''local''"
    by (simp_all add: mode_of_def fallback_of_def lower_text_def lower_char_def strip_text_def is_space_def)
  from auto_backend_total [OF b this, of X empty_registry "''erase''" "''all''"]
  show "\<exists>xs. project X empty_registry (FallbackBackend NullBackend LocalBackend) ''erase'' ''all'' = Inr (JList xs)
     \<and> length xs = 6"
    by (simp only: dimensionality_eq) (simp add: empty_registry_def registry_init_def)
qed

section \<open>The cache of the embedding backend\<close>

text \<open>What happens to an embedding backend in a process: aspects are registered, texts are projected.\<close>

inductive embed_run :: "embedding \<Rightarrow> registry \<Rightarrow> embed_cache \<Rightarrow> bool" for emb :: embedding where
  start: "embed_run emb R empty_cache"
| register: "embed_run emb R C \<Longrightarrow> registry_register a R = Inr R' \<Longrightarrow> embed_run emb R' C"
| project: "embed_run emb R C \<Longrightarrow> embed_project emb R objective scope C = (res, C') \<Longrightarrow> embed_run emb R C'"

inductive_cases embed_run_cases: "embed_run emb R C"

definition cache_ok :: "embedding \<Rightarrow> registry \<Rightarrow> embed_cache \<Rightarrow> bool" where
  "cache_ok emb R C \<longleftrightarrow>
     (case ec_basis C of
        None \<Rightarrow> True
      | Some v \<Rightarrow> v \<le> basis_version R \<and> (v = basis_version R \<longrightarrow> reference_vectors emb R = Inr (ec_refs C)))"

lemma register_basis: "registry_register a R = Inr R' \<Longrightarrow> basis_version R' = Suc (basis_version R)"
  by (auto simp: registry_register_def register_aspect_def rbind_Inr_iff split: if_splits)

lemma ensure_cache:
  assumes "ensure_reference_vectors emb R C = (r, C')" "cache_ok emb R C"
  shows "cache_ok emb R C' \<and> rbind r (\<lambda>_. Inr (ec_refs C')) = reference_vectors emb R"
  using assms by (auto simp: ensure_reference_vectors_def cache_ok_def split: if_splits sum.splits option.splits)

lemma embed_project_cache:
  assumes "cache_ok emb R C"
  shows "fst (embed_project emb R objective scope C) =
      rbind (reference_vectors emb R) (\<lambda>refs. embed_query emb refs R objective scope)
    \<and> cache_ok emb R (snd (embed_project emb R objective scope C))"
proof -
  obtain r C' where e: "ensure_reference_vectors emb R C = (r, C')" by fastforce
  from ensure_cache [OF e assms] show ?thesis
    by (cases r) (auto simp: embed_project_def obind_def e dest: sym)
qed

lemma embed_run_ok: "embed_run emb R C \<Longrightarrow> cache_ok emb R C"
proof (induction rule: embed_run.induct)
  case (start R)
  show ?case by (simp add: cache_ok_def empty_cache_def)
next
  case (register R C a R')
  then show ?case using register_basis [of a R R'] by (auto simp: cache_ok_def split: option.splits)
next
  case (project R C objective scope res C')
  then show ?case using embed_project_cache [of emb R C objective scope] by simp
qed

text \<open>
  C36. The cache of reference embeddings is invisible: after any registrations and projections an
  embedding backend answers as one that embeds the references of all current aspects afresh.
\<close>

theorem embedding_cache_transparent:
  assumes "embed_run emb R C"
  shows "fst (embed_project emb R objective scope C) =
    rbind (reference_vectors emb R) (\<lambda>refs. embed_query emb refs R objective scope)"
  using embed_project_cache [OF embed_run_ok [OF assms]] by blast

lemma embedding_cache_transparent_witness:
  "\<exists>C. ec_basis C = Some 0 \<and> fst (embed_project (\<lambda>ts. Inr (map (\<lambda>_. [1]) ts)) empty_registry ''a'' ''b'' C) =
     rbind (reference_vectors (\<lambda>ts. Inr (map (\<lambda>_. [1]) ts)) empty_registry)
       (\<lambda>refs. embed_query (\<lambda>ts. Inr (map (\<lambda>_. [1]) ts)) refs empty_registry ''a'' ''b'')"
proof -
  let ?e = "\<lambda>ts. Inr (map (\<lambda>_. [1]) ts) :: real list list result"
  obtain res C where p: "embed_project ?e empty_registry ''a'' ''b'' empty_cache = (res, C)" by fastforce
  then have "ec_basis C = Some 0"
    by (auto simp: embed_project_def obind_def ensure_reference_vectors_def reference_vectors_def Let_def empty_cache_def
        empty_registry_def registry_init_def)
  moreover have "embed_run ?e empty_registry C" by (rule embed_run.project [OF embed_run.start p])
  ultimately show ?thesis using embedding_cache_transparent by blast
qed

end
