(* ===== verification/Gateway.thy ===== *)
theory Gateway
  imports Server Projection
begin

text \<open>
  The HTTP and A2A adapters of \<open>src/vermyth/adapters\<close>: capability tokens (\<open>a2a/security.py\<close>), the task
  gateway (\<open>a2a/gateway.py\<close>), the agent executor (\<open>a2a/vermyth_executor.py\<close>), bearer authentication
  (\<open>auth.py\<close>) and the request handlers (\<open>http.py\<close>).  Sockets, threads and event queues are left out:
  a handler maps a request to a status and a document, the executor to the events it enqueues.
\<close>

section \<open>Capability tokens\<close>

text \<open>The expiry is a time in microseconds, and whether it has a time zone.\<close>

record capability_token =
  tk_holder :: string
  tk_tool_scope :: string
  tk_expiry :: int
  tk_expiry_aware :: bool
  tk_issuer :: string
  tk_signature :: string
  tk_algorithm :: string

definition mk_capability_token :: "capability_token \<Rightarrow> capability_token result" where
  "mk_capability_token t =
     (if list_all (\<lambda>s. 1 \<le> length s \<and> length s \<le> 200) [tk_holder t, tk_tool_scope t, tk_issuer t]
         \<and> 16 \<le> length (tk_signature t) \<and> length (tk_signature t) \<le> 512
         \<and> 3 \<le> length (tk_algorithm t) \<and> length (tk_algorithm t) \<le> 20
      then Inr t else Inl (ValueError ''CapabilityToken''))"

text \<open>
  What verification takes from its surroundings: the clock, the text of a time, the secret and the
  public key of the environment, the validation of token documents, and the Ed25519 library (loading a
  key, checking a signature).
\<close>

record capability_env =
  ce_now :: int
  ce_isoformat :: "int \<Rightarrow> bool \<Rightarrow> string"
  ce_shared_secret :: "string option"
  ce_public_key :: "string option"
  ce_validate :: "(string, json) dict \<Rightarrow> capability_token result"
  ce_load_key :: "string \<Rightarrow> unit result"
  ce_ed25519 :: "string \<Rightarrow> bytes \<Rightarrow> bytes \<Rightarrow> bool"

definition sign_material :: "(int \<Rightarrow> bool \<Rightarrow> string) \<Rightarrow> capability_token \<Rightarrow> bytes" where
  "sign_material isof t =
     encode_str (join ''|''
       [tk_holder t, tk_tool_scope t, isof (tk_expiry t) (tk_expiry_aware t), tk_issuer t, tk_algorithm t])"

definition verify_hmac :: "capability_env \<Rightarrow> string \<Rightarrow> capability_token \<Rightarrow> capability_token result" where
  "verify_hmac C secret t =
     rbind (compare_digest (hex_text (hmac_sha256 (encode_str secret) (sign_material (ce_isoformat C) t)))
              (tk_signature t)) (\<lambda>same.
     if same then Inr t else Inl (ValueError ''invalid capability token signature''))"

definition verify_ed25519 :: "capability_env \<Rightarrow> string \<Rightarrow> capability_token \<Rightarrow> capability_token result" where
  "verify_ed25519 C pem t =
     rbind (ce_load_key C (strip_text pem)) (\<lambda>_.
     case b64decode (tk_signature t) of
       None \<Rightarrow> Inl (ValueError ''invalid capability token signature encoding'')
     | Some sig \<Rightarrow>
         if ce_ed25519 C (strip_text pem) sig (sign_material (ce_isoformat C) t) then Inr t
         else Inl (ValueError ''invalid capability token signature''))"

definition algorithm_name :: "string \<Rightarrow> string" where
  "algorithm_name s = map (\<lambda>c. if c = CHR ''-'' then CHR ''_'' else c) (upper_text s)"

definition nonempty :: "string option \<Rightarrow> string option" where
  "nonempty s = (case s of Some [] \<Rightarrow> None | x \<Rightarrow> x)"

definition verify_capability_token :: "capability_env \<Rightarrow> (string, json) dict \<Rightarrow> capability_token result" where
  "verify_capability_token C payload =
     rbind (ce_validate C payload) (\<lambda>t.
     if \<not> tk_expiry_aware t then Inl (TypeError ''can't compare offset-naive and offset-aware datetimes'')
     else if tk_expiry t < ce_now C then Inl (ValueError ''capability token expired'')
     else let algo = algorithm_name (tk_algorithm t) in
       if algo = ''HMAC_SHA256'' \<or> algo = ''HMACSHA256'' then
         (case ce_shared_secret C of
            None \<Rightarrow> Inl (ValueError ''capability secret is not configured'')
          | Some s \<Rightarrow> verify_hmac C s t)
       else if algo = ''ED25519'' \<or> algo = ''ED25519V1'' then
         (case nonempty (ce_public_key C) of
            Some pem \<Rightarrow> verify_ed25519 C pem t
          | None \<Rightarrow>
              (case ce_shared_secret C of
                 Some s \<Rightarrow> verify_hmac C s t
               | None \<Rightarrow> Inl (ValueError (''Ed25519 tokens require VERMYTH_CAPABILITY_ED25519_PUBLIC_KEY '' @
                           ''or VERMYTH_CAPABILITY_SECRET for HMAC fallback''))))
       else Inl (ValueError (''unsupported capability algorithm: '' @ tk_algorithm t)))"

section \<open>The task gateway\<close>

record a2a_task =
  ta_task_id :: string
  ta_skill_id :: string
  ta_input :: "(string, json) dict"

text \<open>Documents of results; the artifact id and the time of a result are arguments.\<close>

definition task_result ::
  "string \<Rightarrow> a2a_task \<Rightarrow> string \<Rightarrow> (string \<times> json) option \<Rightarrow> string option \<Rightarrow> (string, json) dict" where
  "task_result updated t status artifact err =
     [(''task_id'', JStr (ta_task_id t)), (''status'', JStr status),
      (''artifact'', opt_json (\<lambda>(aid, content). JObj [(''artifact_id'', JStr aid),
          (''mime_type'', JStr ''application/json''), (''content'', content)]) artifact),
      (''error'', opt_str err), (''updated_at'', JStr updated)]"

text \<open>
  \<open>json.dumps(x, sort_keys=True)\<close> with its default separators, every character outside ASCII escaped.
\<close>

definition ascii_escape :: "char \<Rightarrow> string" where
  "ascii_escape c =
     (let n = of_char c :: nat in
      if n < 128 then json_escape c
      else [CHR 0x5C, CHR ''u'', CHR ''0'', CHR ''0'', hex_digit (n div 16), hex_digit (n mod 16)])"

definition ascii_string :: "string \<Rightarrow> string" where
  "ascii_string s = CHR 0x22 # concat (map ascii_escape s) @ [CHR 0x22]"

fun spaced_dumps :: "json \<Rightarrow> string" where
  "spaced_dumps JNull = ''null''"
| "spaced_dumps (JBool b) = (if b then ''true'' else ''false'')"
| "spaced_dumps (JInt n) = int_text n"
| "spaced_dumps (JFloat x) = float_repr x"
| "spaced_dumps (JStr s) = ascii_string s"
| "spaced_dumps (JList xs) = ''['' @ join '', '' (map spaced_dumps xs) @ '']''"
| "spaced_dumps (JObj d) =
     ''{'' @ join '', '' (map (\<lambda>(k, t). ascii_string k @ '': '' @ t)
                    (sort_items (map (\<lambda>(k, v). (k, spaced_dumps v)) d))) @ ''}''"

record 'w gateway_env =
  ge_config :: "'w mcp_config"
  ge_require_tokens :: bool
  ge_capability :: capability_env
  ge_validate_task :: "json \<Rightarrow> a2a_task result"
  ge_artifact_id :: string
  ge_updated_at :: string

text \<open>The tools and, when there is one, the store of completed results by key and payload.\<close>

record 'w gateway_state =
  gw_tools :: 'w
  gw_store :: "(string, (string, json) dict) dict option"

definition composite_key :: "string \<Rightarrow> json \<Rightarrow> string" where
  "composite_key k payload = k @ '':'' @ spaced_dumps payload"

definition cached_result :: "'w gateway_state \<Rightarrow> string option \<Rightarrow> json \<Rightarrow> (string, json) dict option" where
  "cached_result S k payload =
     (case (gw_store S, nonempty k) of
        (Some st, Some key) \<Rightarrow> dget st (composite_key key payload)
      | _ \<Rightarrow> None)"

definition remember :: "string option \<Rightarrow> json \<Rightarrow> (string, json) dict \<Rightarrow> 'w gateway_state \<Rightarrow> 'w gateway_state" where
  "remember k payload dumped S =
     (case (gw_store S, nonempty k) of
        (Some st, Some key) \<Rightarrow> S\<lparr>gw_store := Some (dset (composite_key key payload) dumped st)\<rparr>
      | _ \<Rightarrow> S)"

text \<open>The check of the token in the task's input, against the skill the task names: the reason of a refusal.\<close>

definition capability_refusal :: "'w gateway_env \<Rightarrow> a2a_task \<Rightarrow> string option" where
  "capability_refusal G t =
     (if \<not> ge_require_tokens G then None
      else case dict_value (dget (ta_input t) ''capability_token'') of
        None \<Rightarrow> Some ''missing_capability_token''
      | Some p \<Rightarrow>
          (case verify_capability_token (ge_capability G) p of
             Inl e \<Rightarrow> Some (str_exc e)
           | Inr tok \<Rightarrow> if fnmatch (ta_skill_id t) (tk_tool_scope tok) then None else Some ''capability_scope_denied''))"

text \<open>A handler run, the tools being part of a larger state.\<close>

definition on_tools :: "('w, 'a) op \<Rightarrow> ('w gateway_state, 'a) op" where
  "on_tools m S = (case m (gw_tools S) of (r, w) \<Rightarrow> (r, S\<lparr>gw_tools := w\<rparr>))"

definition execute_task ::
  "'w gateway_env \<Rightarrow> json \<Rightarrow> string option \<Rightarrow> ('w gateway_state, (string, json) dict) op" where
  "execute_task G payload k S =
     (case cached_result S k payload of
        Some r \<Rightarrow> (Inr r, S)
      | None \<Rightarrow>
          (let cfg = ge_config G; done_with = task_result (ge_updated_at G) in
           obind (lift (ge_validate_task G payload)) (\<lambda>t.
           case capability_refusal G t of
             Some reason \<Rightarrow> ret (done_with t ''failed'' None (Some reason))
           | None \<Rightarrow>
               obind (lift (expand_task_input (mc_arcane cfg) (ta_skill_id t) (ta_input t))) (\<lambda>(skill, inp, prov).
               case dget (mc_dispatch cfg) skill of
                 None \<Rightarrow> ret (done_with t ''failed'' None (Some ''unknown_skill''))
               | Some h \<Rightarrow>
                   (\<lambda>S1.
                      case obind (lift (enforce_tool_scope (mc_scope cfg) skill)) (\<lambda>_. on_tools (h inp)) S1 of
                        (Inl e, S2) \<Rightarrow> (Inr (done_with t ''failed'' None (Some (str_exc e))), S2)
                      | (Inr out, S2) \<Rightarrow>
                          (let content = (case prov of None \<Rightarrow> out
                                          | Some p \<Rightarrow> JObj [(''result'', out), (''arcane_provenance'', JObj p)]);
                               dumped = done_with t ''completed'' (Some (ge_artifact_id G, content)) None
                           in (Inr dumped, remember k payload dumped S2))))) S))"

section \<open>The agent executor\<close>

record message_part =
  mp_kind :: string
  mp_data :: json

record a2a_message =
  am_metadata :: "(string, json) dict option"
  am_parts :: "message_part list"

record request_context =
  rx_task_id :: "string option"
  rx_context_id :: "string option"
  rx_metadata :: "(string, json) dict option"
  rx_message :: "a2a_message option"

datatype task_state = TS_WORKING | TS_COMPLETED | TS_FAILED | TS_REJECTED | TS_CANCELED

text \<open>A task event: its state, the data of its artifact with the tool that made it, and its metadata.\<close>

record task_event =
  te_state :: task_state
  te_artifact :: "(json \<times> string) option"
  te_metadata :: "(string, json) dict"

definition ext_invoke :: string where "ext_invoke = ''vermyth.io/v1/invoke''"
definition ext_trust :: string where "ext_trust = ''vermyth.io/v1/trust''"

definition in_metadata :: "string \<Rightarrow> (string, json) dict option \<Rightarrow> json option" where
  "in_metadata k m = (case m of None \<Rightarrow> None | Some d \<Rightarrow> dget d k)"

definition message_metadata :: "request_context \<Rightarrow> (string, json) dict option" where
  "message_metadata rx = (case rx_message rx of None \<Rightarrow> None | Some m \<Rightarrow> am_metadata m)"

definition has_skill :: "json \<Rightarrow> bool" where
  "has_skill j = (case j of JObj d \<Rightarrow> truthy (dget_or d ''skill_id'' JNull) | _ \<Rightarrow> False)"

text \<open>An invocation in the parts of the message: the first data part that names a skill.\<close>

definition part_invocation :: "request_context \<Rightarrow> (string, json) dict result" where
  "part_invocation rx =
     (case rx_message rx of
        None \<Rightarrow> Inl (ValueError ''message required'')
      | Some m \<Rightarrow>
          (case first_where (\<lambda>p. mp_kind p = ''data'' \<and> has_skill (mp_data p)) (am_parts m) of
             Some p \<Rightarrow> Inr (case mp_data p of JObj e \<Rightarrow> e | _ \<Rightarrow> [])
           | None \<Rightarrow> Inl (ValueError (''missing structured invocation: set metadata['' @ CHR 0x27 # ext_invoke @
                       CHR 0x27 # ''] to {{skill_id, input}} or send a data part with that shape''))))"

definition extract_invoke_payload :: "request_context \<Rightarrow> (string, json) dict result" where
  "extract_invoke_payload rx =
     (case (case in_metadata ext_invoke (message_metadata rx) of
              Some j \<Rightarrow> Some j | None \<Rightarrow> in_metadata ext_invoke (rx_metadata rx)) of
        Some (JObj d) \<Rightarrow> if has_skill (JObj d) then Inr d else part_invocation rx
      | _ \<Rightarrow> part_invocation rx)"

definition trust_level :: "request_context \<Rightarrow> string" where
  "trust_level rx =
     (let v = (case in_metadata ext_trust (rx_metadata rx) of
                 Some j \<Rightarrow> Some j | None \<Rightarrow> in_metadata ext_trust (message_metadata rx)) in
      case v of None \<Rightarrow> ''low''
      | Some j \<Rightarrow> (let s = lower_text (py_str j) in if s \<in> {''low'', ''high''} then s else ''low''))"

definition result_metadata :: "json \<Rightarrow> (string, json) dict" where
  "result_metadata result =
     (case result of
        JObj d \<Rightarrow>
          (case dict_value (dget d ''decision'') of
             Some dec \<Rightarrow> (let c = dget_or dec ''cast_id'' JNull in if truthy c then [(''vermyth.io/v1/cast_id'', c)] else [])
           | None \<Rightarrow> [])
          @ (let e = dget_or d ''execution'' JNull;
                 ex = (if truthy e then e else dget_or d ''program_execution'' JNull) in
             case ex of
               JObj x \<Rightarrow> (let i = dget_or x ''execution_id'' JNull in if truthy i then [(''vermyth.io/v1/execution_id'', i)] else [])
             | _ \<Rightarrow> [])
      | _ \<Rightarrow> [])"

text \<open>
  What the token of the (expanded) input permits.  \<open>cancelled\<close> tells whether a cancellation has
  arrived before and after the tool ran.
\<close>

definition check_capability :: "bool \<Rightarrow> capability_env \<Rightarrow> string \<Rightarrow> (string, json) dict \<Rightarrow> unit result" where
  "check_capability required C skill inp =
     (if \<not> required then Inr ()
      else case dict_value (dget inp ''capability_token'') of
        None \<Rightarrow> Inl (ValueError ''missing_capability_token'')
      | Some p \<Rightarrow>
          rbind (verify_capability_token C p) (\<lambda>tok.
          if fnmatch skill (tk_tool_scope tok) then Inr () else Inl (ValueError ''capability_scope_denied'')))"

definition plain_event :: "task_state \<Rightarrow> (string, json) dict \<Rightarrow> task_event" where
  "plain_event s m = \<lparr>te_state = s, te_artifact = None, te_metadata = m\<rparr>"

definition invocation_of :: "'w gateway_env \<Rightarrow> request_context \<Rightarrow> invocation result" where
  "invocation_of G rx =
     rbind (extract_invoke_payload rx) (\<lambda>payload.
     let skill = py_str (dget_or payload ''skill_id'' JNull);
         inp = (case dict_value (dget payload ''input'') of Some d \<Rightarrow> d | None \<Rightarrow> []);
         inp1 = (case in_metadata semantic_bundle_ext (rx_metadata rx) of
                   Some j \<Rightarrow> dset ''semantic_bundle'' j inp | None \<Rightarrow> inp)
     in expand_task_input (mc_arcane (ge_config G)) skill inp1)"

text \<open>\<open>Inl None\<close> is a cancellation, \<open>Inl (Some e)\<close> an exception.\<close>

definition run_invocation ::
  "'w gateway_env \<Rightarrow> bool \<times> bool \<Rightarrow> request_context \<Rightarrow> 'w \<Rightarrow> task_event \<times> 'w" where
  "run_invocation G cancelled rx w =
     (let failed = (\<lambda>e. plain_event TS_FAILED [(''error'', JStr (str_exc e))]) in
      case rbind (invocation_of G rx) (\<lambda>(skill, inp, prov).
             rbind (check_capability (ge_require_tokens G) (ge_capability G) skill inp) (\<lambda>_.
             Inr (skill, inp, prov))) of
        Inl e \<Rightarrow> (failed e, w)
      | Inr (skill, inp, prov) \<Rightarrow>
          if fst cancelled then (plain_event TS_CANCELED [], w)
          else
          (case dget (mc_dispatch (ge_config G)) skill of
             None \<Rightarrow> (plain_event TS_FAILED [(''error'', JStr ''unknown_skill''), (''skill_id'', JStr skill)], w)
           | Some h \<Rightarrow>
               (case obind (lift (enforce_tool_scope (mc_scope (ge_config G)) skill)) (\<lambda>_. h inp) w of
                  (Inl e, w') \<Rightarrow> (failed e, w')
                | (Inr out, w') \<Rightarrow>
                    if snd cancelled then (plain_event TS_CANCELED [], w')
                    else
                    (\<lparr>te_state = TS_COMPLETED, te_artifact = Some (JObj [(''result'', out)], skill),
                      te_metadata = dmerge (result_metadata out)
                        (case prov of None \<Rightarrow> [] | Some [] \<Rightarrow> []
                         | Some p \<Rightarrow> [(''vermyth.io/v1/arcane_provenance'', JObj p)])\<rparr>, w'))))"

definition executor_execute ::
  "'w gateway_env \<Rightarrow> bool \<Rightarrow> bool \<times> bool \<Rightarrow> request_context \<Rightarrow> 'w \<Rightarrow> task_event list result \<times> 'w" where
  "executor_execute G deny_low_trust cancelled rx w =
     (if nonempty (rx_task_id rx) = None \<or> nonempty (rx_context_id rx) = None
      then (Inl (ValueError ''task_id and context_id are required''), w)
      else if trust_level rx = ''low'' \<and> deny_low_trust
      then (Inr [plain_event TS_WORKING [], plain_event TS_REJECTED [(''error'', JStr ''low_trust_invoke_denied'')]], w)
      else (case run_invocation G cancelled rx w of
              (e, w') \<Rightarrow> (Inr [plain_event TS_WORKING [], e], w')))"

section \<open>Authentication\<close>

record auth_principal =
  ap_subject :: string
  ap_auth_method :: string
  ap_scopes :: "string list"
  ap_claims :: "(string, json) dict"

text \<open>\<open>s.split()\<close>: the words of a text; the first argument is the word being read, backwards.\<close>

fun words_from :: "string \<Rightarrow> string \<Rightarrow> string list" where
  "words_from w [] = (if w = [] then [] else [rev w])"
| "words_from w (c # cs) =
     (if is_space c then (if w = [] then [] else [rev w]) @ words_from [] cs else words_from (c # w) cs)"

definition parse_authorization_bearer :: "string option \<Rightarrow> string option" where
  "parse_authorization_bearer h =
     (case h of None \<Rightarrow> None
      | Some s \<Rightarrow>
          (case words_from [] s of
             [scheme, token] \<Rightarrow> if lower_text scheme = ''bearer'' then Some token else None
           | _ \<Rightarrow> None))"

text \<open>
  The environment's variables and the decoding of a JWT (the token, the secret, the algorithm, the
  audience and the issuer).
\<close>

record auth_env =
  au_http_token :: "string option"
  au_http_scopes :: "string option"
  au_jwt_audience :: "string option"
  au_jwt_issuer :: "string option"
  au_jwt_algorithm :: "string option"
  au_jwt_secret :: "string option"
  au_decode :: "string \<Rightarrow> string \<Rightarrow> string \<Rightarrow> string \<Rightarrow> string \<Rightarrow> (string, json) dict result"

definition jwt_scopes :: "(string, json) dict \<Rightarrow> string list" where
  "jwt_scopes claims =
     (let s = dget_or claims ''scope'' JNull; p = dget_or claims ''scp'' JNull in
      case (if truthy s then s else if truthy p then p else JStr ''tool:*'') of
        JStr t \<Rightarrow> words_from [] t
      | JList xs \<Rightarrow> map py_str xs
      | _ \<Rightarrow> [''tool:*''])"

definition resolve_principal :: "auth_env \<Rightarrow> string option \<Rightarrow> auth_principal result" where
  "resolve_principal A authorization =
     (let plain = (\<lambda>s m. \<lparr>ap_subject = s, ap_auth_method = m, ap_scopes = [], ap_claims = []\<rparr>) in
      case parse_authorization_bearer authorization of
        None \<Rightarrow> Inr (plain ''anonymous'' ''none'')
      | Some token \<Rightarrow>
          if nonempty (au_http_token A) = Some token then
            Inr ((plain ''static-token'' ''bearer_static'')\<lparr>ap_scopes :=
              filter (\<lambda>s. s \<noteq> []) (map strip_text (split_char (CHR '','')
                (case au_http_scopes A of None \<Rightarrow> ''tool:*'' | Some s \<Rightarrow> s)))\<rparr>)
          else
            (case (nonempty (au_jwt_audience A), nonempty (au_jwt_issuer A)) of
               (Some aud, Some iss) \<Rightarrow>
                 (case nonempty (au_jwt_secret A) of
                    None \<Rightarrow> Inl (ValueError ''VERMYTH_JWT_SECRET required for JWT validation'')
                  | Some secret \<Rightarrow>
                      rbind (au_decode A token secret
                               (case au_jwt_algorithm A of None \<Rightarrow> ''HS256'' | Some a \<Rightarrow> a) aud iss) (\<lambda>claims.
                      Inr \<lparr>ap_subject = py_str (dget_or claims ''sub'' (JStr ''jwt'')), ap_auth_method = ''bearer_jwt'',
                           ap_scopes = jwt_scopes claims, ap_claims = claims\<rparr>))
             | _ \<Rightarrow> Inr (plain ''unverified-bearer'' ''bearer_opaque'')))"

definition principal_allows_tool :: "auth_env \<Rightarrow> auth_principal \<Rightarrow> string \<Rightarrow> bool" where
  "principal_allows_tool A p tool \<longleftrightarrow>
     (ap_auth_method p = ''none'' \<and> nonempty (au_http_token A) = None)
     \<or> list_ex (\<lambda>s. s = ''tool:*'' \<or> s = ''tool:'' @ tool \<or> (endswith s ''*'' \<and> startswith tool (butlast s)))
         (ap_scopes p)"

section \<open>The HTTP handlers\<close>

text \<open>
  A request: its path, its headers (looked up without regard to case) and the bytes that can be read.
  A handler returns a status and a document, or raises, which closes the connection.
\<close>

record http_request =
  rq_path :: string
  rq_header :: "string \<Rightarrow> string option"
  rq_body :: bytes

text \<open>
  What the handlers are built from: authentication, the gateway under the correlation and principal
  ids of a request, \<open>json.loads\<close> on bytes, the event bus, the readings of \<open>/healthz\<close> and the telemetry documents.
\<close>

record 'w http_env =
  he_auth :: auth_env
  he_gateway :: "string option \<Rightarrow> string option \<Rightarrow> 'w gateway_env"
  he_parse :: "bytes \<Rightarrow> json result"
  he_tool_definitions :: "(string, json) dict list"
  he_isoformat :: "int \<Rightarrow> string"
  he_events :: "vermyth_event list"
  he_basis_version :: "'w \<Rightarrow> int result"
  he_migrations :: "'w \<Rightarrow> int result"
  he_telemetry :: json
  he_report :: json

type_synonym response = "int \<times> json"

definition error_doc :: "string \<Rightarrow> json" where
  "error_doc t = JObj [(''error'', JStr t)]"

definition authorized :: "auth_env \<Rightarrow> http_request \<Rightarrow> bool" where
  "authorized A rq =
     (case nonempty (au_http_token A) of
        None \<Rightarrow> True
      | Some token \<Rightarrow> (case rq_header rq ''Authorization'' of None \<Rightarrow> [] | Some a \<Rightarrow> a) = ''Bearer '' @ token)"

definition build_agent_card :: "(string, json) dict list \<Rightarrow> json" where
  "build_agent_card tools =
     JObj [(''name'', JStr ''vermyth''), (''version'', JStr ''0.1.0''),
       (''description'', JStr ''Semantic IR runtime with MCP tool surface.''),
       (''skills'', JList (map (\<lambda>t. JObj
          [(''id'', JStr (py_str (dget_or t ''name'' (JStr [])))),
           (''name'', JStr (py_str (dget_or t ''name'' (JStr [])))),
           (''description'', JStr (py_str (dget_or t ''description'' (JStr []))))]) tools))]"

text \<open>The query of \<open>/events\<close>: the text after the first question mark, read by hand.\<close>

fun query_pairs :: "(string, string) dict \<Rightarrow> string list \<Rightarrow> (string, string) dict" where
  "query_pairs q [] = q"
| "query_pairs q (part # parts) =
     (case dropWhile (\<lambda>c. c \<noteq> CHR ''='') part of
        [] \<Rightarrow> query_pairs q parts
      | _ # v \<Rightarrow> query_pairs (dset (takeWhile (\<lambda>c. c \<noteq> CHR ''='') part) v q) parts)"

definition events_query :: "string \<Rightarrow> (string, string) dict" where
  "events_query path =
     (case dropWhile (\<lambda>c. c \<noteq> CHR ''?'') path of [] \<Rightarrow> [] | _ # raw \<Rightarrow> query_pairs [] (split_char (CHR ''&'') raw))"

definition strip_slashes :: "string \<Rightarrow> string" where
  "strip_slashes s = rev (dropWhile (\<lambda>c. c = CHR ''/'') (rev (dropWhile (\<lambda>c. c = CHR ''/'') s)))"

definition get_bundle :: "arcane_env \<Rightarrow> string \<Rightarrow> (string, string list) dict \<Rightarrow> response result" where
  "get_bundle A bid qs =
     (if bid = [] \<or> CHR ''/'' \<in> set bid then Inr (404, error_doc ''not_found'')
      else case py_int (JStr (case first_value qs ''version'' of None \<Rightarrow> ''1'' | Some v \<Rightarrow> v)) of
        Inl _ \<Rightarrow> Inr (400, error_doc ''invalid_version'')
      | Inr ver \<Rightarrow>
          (case inspect_semantic_bundle_detail A bid ver None of
             Inl (ValueError t) \<Rightarrow> Inr (404, error_doc t)
           | Inl (FileNotFoundError t) \<Rightarrow> Inr (404, error_doc t)
           | Inl e \<Rightarrow> Inl e
           | Inr j \<Rightarrow> Inr (200, j)))"

definition do_GET :: "'w http_env \<Rightarrow> http_request \<Rightarrow> 'w \<Rightarrow> response result" where
  "do_GET H rq w =
     (let path = rq_path rq; A = mc_arcane (ge_config (he_gateway H None None)) in
      if \<not> authorized (he_auth H) rq then Inr (401, error_doc ''unauthorized'')
      else if path = ''/.well-known/agent.json'' \<or> path = ''/.well-known/agent-card.json''
      then Inr (200, build_agent_card (he_tool_definitions H))
      else if path = ''/tools'' then Inr (200, JObj [(''tools'', JList (map JObj (he_tool_definitions H)))])
      else if startswith path ''/events'' then
        (let q = events_query path in
         rbind (py_int (JStr (case dget q ''tail'' of None \<Rightarrow> ''100'' | Some s \<Rightarrow> s))) (\<lambda>n.
         Inr (200, JObj [(''events'', JList (tool_events_tail (he_isoformat H) n (dget q ''type'') (he_events H)))])))
      else if path = ''/healthz'' then
        rbind (he_basis_version H w) (\<lambda>b.
        rbind (he_migrations H w) (\<lambda>n.
        Inr (200, JObj [(''status'', JStr ''ok''), (''migrations'', JInt n), (''basis_version'', JInt b)])))
      else
        rbind (mc_urlsplit (ge_config (he_gateway H None None)) path) (\<lambda>(_, _, p, qs).
        if p = ''/arcane/telemetry'' then Inr (200, he_telemetry H)
        else if p = ''/arcane/telemetry/report'' then Inr (200, he_report H)
        else if p = ''/arcane/bundles'' then
          (let k = (case first_value qs ''kind'' of None \<Rightarrow> None | Some s \<Rightarrow> dget bundle_kind_members s) in
           rbind (list_bundle_catalog (ae_dirs A) (ae_validators A) k) (\<lambda>rows.
           Inr (200, JObj [(''bundles'', JList rows)])))
        else if startswith p ''/arcane/bundles/'' then get_bundle A (strip_slashes (drop 16 p)) qs
        else Inr (404, error_doc ''not_found'')))"

text \<open>The document of a body; an empty one when its length is missing, zero or negative.\<close>

definition body_bytes :: "http_request \<Rightarrow> bytes result" where
  "body_bytes rq =
     rbind (py_int (JStr (str_or (rq_header rq ''Content-Length'') ''0''))) (\<lambda>size.
     Inr (if size > 0 then take (nat size) (rq_body rq) else encode_str ''{}''))"

text \<open>\<open>except Exception\<close> around a part of a handler: 400 with the text of the exception.\<close>

definition or_bad_request :: "('s, response) op \<Rightarrow> ('s, response) op" where
  "or_bad_request m s = (case m s of (Inl e, s') \<Rightarrow> (Inr (400, error_doc (str_exc e)), s') | (Inr r, s') \<Rightarrow> (Inr r, s'))"

definition object_body :: "json \<Rightarrow> (string, json) dict result" where
  "object_body j = (case j of JObj d \<Rightarrow> Inr d | _ \<Rightarrow> Inl (ValueError ''JSON body must be an object''))"

definition post_recommend :: "'w http_env \<Rightarrow> arcane_env \<Rightarrow> bytes \<Rightarrow> ('s, response) op" where
  "post_recommend H A raw =
     or_bad_request (lift (
       rbind (he_parse H raw) (\<lambda>j.
       rbind (object_body j) (\<lambda>payload.
       rbind (dict_or_empty (dget_or payload ''input'' JNull)) (\<lambda>inp.
       rbind (case given payload ''min_strength'' of None \<Rightarrow> Inr (lit 0.55) | Some v \<Rightarrow> py_float v) (\<lambda>ms.
       rbind (recommend_for_plain_invocation (ae_dirs A) (ae_validators A)
                (py_str (dget_or payload ''skill_id'' (JStr ''decide''))) inp ms) (\<lambda>result.
       Inr (200, result))))))))"

definition post_task :: "'w http_env \<Rightarrow> 'w gateway_env \<Rightarrow> string option \<Rightarrow> bytes \<Rightarrow> ('w gateway_state, response) op" where
  "post_task H G key raw =
     or_bad_request (
       obind (lift (he_parse H raw)) (\<lambda>payload.
       obind (execute_task G payload key) (\<lambda>result. ret (200, JObj result))))"

definition post_tool :: "'w http_env \<Rightarrow> 'w mcp_config \<Rightarrow> string \<Rightarrow> bytes \<Rightarrow> ('w gateway_state, response) op" where
  "post_tool H cfg tool raw =
     or_bad_request (
       obind (lift (rbind (he_parse H raw) (\<lambda>j. if j = JNull then Inr [] else object_body j))) (\<lambda>payload.
       obind (on_tools (call_tool cfg tool payload)) (\<lambda>r.
       case r of
         Inl _ \<Rightarrow> ret (404, error_doc ''unknown_tool'')
       | Inr result \<Rightarrow> ret (200, JObj [(''result'', result)]))))"

definition handle_post_inner :: "'w http_env \<Rightarrow> 'w gateway_env \<Rightarrow> http_request \<Rightarrow> ('w gateway_state, response) op" where
  "handle_post_inner H G rq =
     (let path = rq_path rq in
      if path = ''/arcane/recommend'' then
        obind (lift (body_bytes rq)) (post_recommend H (mc_arcane (ge_config G)))
      else if path = ''/a2a/tasks'' then
        obind (lift (body_bytes rq)) (post_task H G (rq_header rq ''Idempotency-Key''))
      else if \<not> startswith path ''/tools/'' then ret (404, error_doc ''not_found'')
      else obind (lift (body_bytes rq)) (post_tool H (ge_config G) (drop 7 path)))"

definition correlation_id :: "http_request \<Rightarrow> string option" where
  "correlation_id rq =
     (case nonempty (rq_header rq ''X-Request-ID'') of Some c \<Rightarrow> Some c | None \<Rightarrow> rq_header rq ''X-Correlation-ID'')"

definition principal_id :: "auth_principal \<Rightarrow> string option" where
  "principal_id p = (if ap_auth_method p \<in> {''none'', ''bearer_opaque''} then None else Some (ap_subject p))"

definition do_POST :: "'w http_env \<Rightarrow> http_request \<Rightarrow> ('w gateway_state, response) op" where
  "do_POST H rq =
     (if \<not> authorized (he_auth H) rq then ret (401, error_doc ''unauthorized'')
      else
        obind (lift (resolve_principal (he_auth H) (rq_header rq ''Authorization''))) (\<lambda>p.
        handle_post_inner H (he_gateway H (correlation_id rq) (principal_id p)) rq))"

section \<open>Tokens and the right to run a tool\<close>

text \<open>
  A signature that verification accepts, and a token in an input that lets a skill be run: valid, with
  a time zone, not expired, signed, and with a scope that matches the skill.
\<close>

definition signed_token :: "capability_env \<Rightarrow> capability_token \<Rightarrow> bool" where
  "signed_token C t \<longleftrightarrow>
     (\<exists>s. ce_shared_secret C = Some s
        \<and> tk_signature t = hex_text (hmac_sha256 (encode_str s) (sign_material (ce_isoformat C) t)))
     \<or> (\<exists>pem sig. ce_public_key C = Some pem \<and> pem \<noteq> [] \<and> b64decode (tk_signature t) = Some sig
        \<and> ce_ed25519 C (strip_text pem) sig (sign_material (ce_isoformat C) t))"

definition grants :: "capability_env \<Rightarrow> (string, json) dict \<Rightarrow> string \<Rightarrow> bool" where
  "grants C inp skill \<longleftrightarrow>
     (\<exists>p t. dget inp ''capability_token'' = Some (JObj p) \<and> ce_validate C p = Inr t
        \<and> tk_expiry_aware t \<and> ce_now C \<le> tk_expiry t \<and> signed_token C t \<and> fnmatch skill (tk_tool_scope t))"

text \<open>
  What is known of a token before a skill is run: a token that grants it when
  \<open>VERMYTH_REQUIRE_CAPABILITY_TOKENS\<close> is set, and nothing at all when it is not - the default.
\<close>

definition token_if_required :: "'w gateway_env \<Rightarrow> (string, json) dict \<Rightarrow> string \<Rightarrow> bool" where
  "token_if_required G inp skill \<longleftrightarrow> (ge_require_tokens G \<longrightarrow> grants (ge_capability G) inp skill)"

lemma nonempty_Some [simp]: "nonempty s = Some x \<longleftrightarrow> s = Some x \<and> x \<noteq> []"
  by (auto simp: nonempty_def split: option.splits list.splits)

lemma nonempty_None [simp]: "nonempty s = None \<longleftrightarrow> s = None \<or> s = Some []"
  by (auto simp: nonempty_def split: option.splits list.splits)

lemma dict_value_Some [simp]: "dict_value v = Some d \<longleftrightarrow> v = Some (JObj d)"
  by (auto simp: dict_value_def split: option.splits json.splits)

lemma verify_hmac_Inr:
  "verify_hmac C s t = Inr u \<Longrightarrow>
     u = t \<and> tk_signature t = hex_text (hmac_sha256 (encode_str s) (sign_material (ce_isoformat C) t))"
  by (auto simp: verify_hmac_def rbind_Inr_iff compare_digest_def split: if_splits)

lemma verify_ed25519_Inr:
  "verify_ed25519 C pem t = Inr u \<Longrightarrow>
     u = t \<and> (\<exists>sig. b64decode (tk_signature t) = Some sig
       \<and> ce_ed25519 C (strip_text pem) sig (sign_material (ce_isoformat C) t))"
  by (auto simp: verify_ed25519_def rbind_Inr_iff split: if_splits option.splits)

lemma verify_sound:
  assumes "verify_capability_token C p = Inr u"
  shows "ce_validate C p = Inr u \<and> tk_expiry_aware u \<and> ce_now C \<le> tk_expiry u \<and> signed_token C u"
proof -
  from assms obtain t where t: "ce_validate C p = Inr t" "tk_expiry_aware t" "ce_now C \<le> tk_expiry t"
    by (auto simp: verify_capability_token_def rbind_Inr_iff split: if_splits)
  with assms have "u = t \<and> signed_token C t"
    by (auto simp: verify_capability_token_def signed_token_def Let_def split: if_splits option.splits
        dest!: verify_hmac_Inr verify_ed25519_Inr)
  with t show ?thesis by simp
qed

lemma granted:
  "dget inp ''capability_token'' = Some (JObj p) \<Longrightarrow> verify_capability_token C p = Inr t \<Longrightarrow>
   fnmatch skill (tk_tool_scope t) \<Longrightarrow> grants C inp skill"
  using verify_sound by (force simp: grants_def)

lemma refusal_None: "capability_refusal G t = None \<Longrightarrow> token_if_required G (ta_input t) (ta_skill_id t)"
  by (auto simp: capability_refusal_def token_if_required_def intro: granted split: if_splits option.splits sum.splits)

lemma check_Inr: "check_capability (ge_require_tokens G) (ge_capability G) skill inp = Inr u \<Longrightarrow> token_if_required G inp skill"
  by (auto simp: check_capability_def token_if_required_def rbind_Inr_iff intro: granted split: if_splits option.splits)

lemma on_tools_run: "on_tools m S = (r, S') \<longleftrightarrow> (\<exists>w. m (gw_tools S) = (r, w) \<and> S' = S\<lparr>gw_tools := w\<rparr>)"
  by (auto simp: on_tools_def split: prod.splits)

lemma remember_tools [simp]: "gw_tools (remember k payload d S) = gw_tools S"
  by (simp add: remember_def split: option.split)

text \<open>The handler of a skill has been run on an input and has taken the tools from \<open>w\<close> to \<open>w'\<close>.\<close>

definition handler_ran :: "'w mcp_config \<Rightarrow> invocation \<Rightarrow> 'w \<Rightarrow> 'w \<Rightarrow> bool" where
  "handler_ran cfg i w w' \<longleftrightarrow>
     (case i of (skill, inp, prov) \<Rightarrow> scope_allows (mc_scope cfg) skill
        \<and> (\<exists>h res. dget (mc_dispatch cfg) skill = Some h \<and> h inp w = (res, w')))"

lemma execute_task_tools:
  assumes "execute_task G payload k S = (r, S')"
  shows "gw_tools S' = gw_tools S
    \<or> (\<exists>t i. ge_validate_task G payload = Inr t \<and> token_if_required G (ta_input t) (ta_skill_id t)
         \<and> expand_task_input (mc_arcane (ge_config G)) (ta_skill_id t) (ta_input t) = Inr i
         \<and> handler_ran (ge_config G) i (gw_tools S) (gw_tools S'))"
  using assms unfolding execute_task_def
  by (auto simp: obind_def lift_def ret_def Let_def on_tools_run handler_ran_def enforce_tool_scope_def
      dest!: refusal_None split: option.splits sum.splits prod.splits if_splits)

lemma executor_tools:
  assumes "executor_execute G deny cancelled rx w = (r, w')"
  shows "w' = w
    \<or> (\<exists>skill inp prov. invocation_of G rx = Inr (skill, inp, prov) \<and> token_if_required G inp skill
         \<and> handler_ran (ge_config G) (skill, inp, prov) w w')"
  using assms unfolding executor_execute_def run_invocation_def
  by (auto simp: obind_def lift_def ret_def Let_def handler_ran_def enforce_tool_scope_def rbind_Inr_iff
      dest!: check_Inr split: option.splits sum.splits prod.splits if_splits)

text \<open>
  C30. Neither surface of the A2A adapter touches the tools except by one run of a handler of the
  dispatch table that the tool scope allows.  Only when tokens are required
  (\<open>VERMYTH_REQUIRE_CAPABILITY_TOKENS\<close>, off by default) has a token been verified before - signed, in force -
  whose scope matches the skill: the gateway's matches the skill the task NAMES, the executor's the
  skill it RUNS, after the expansion of a bundle.  When they are not required, no token is looked at.
\<close>

theorem capability_guards_tools:
  "(case execute_task G payload k S of (_, S') \<Rightarrow> gw_tools S' = gw_tools S
      \<or> (\<exists>t i. ge_validate_task G payload = Inr t \<and> token_if_required G (ta_input t) (ta_skill_id t)
           \<and> expand_task_input (mc_arcane (ge_config G)) (ta_skill_id t) (ta_input t) = Inr i
           \<and> handler_ran (ge_config G) i (gw_tools S) (gw_tools S')))
   \<and> (case executor_execute G deny cancelled rx w of (_, w') \<Rightarrow> w' = w
      \<or> (\<exists>skill inp prov. invocation_of G rx = Inr (skill, inp, prov) \<and> token_if_required G inp skill
           \<and> handler_ran (ge_config G) (skill, inp, prov) w w'))"
  by (auto split: prod.split dest: execute_task_tools executor_tools)

lemma no_token_needed: "\<not> ge_require_tokens G \<Longrightarrow> capability_refusal G t = None \<and> token_if_required G inp skill"
  by (simp add: capability_refusal_def token_if_required_def)

section \<open>What a signature covers\<close>

definition plain_fields :: "(int \<Rightarrow> bool \<Rightarrow> string) \<Rightarrow> capability_token \<Rightarrow> bool" where
  "plain_fields isof t \<longleftrightarrow>
     list_all (\<lambda>s. s \<noteq> [] \<and> CHR ''|'' \<notin> set s)
       [tk_holder t, tk_tool_scope t, isof (tk_expiry t) (tk_expiry_aware t), tk_issuer t, tk_algorithm t]"

text \<open>
  Two tokens without a bar in their fields that have the same signed material have the same
  holder, tool scope, text of the expiry, issuer and algorithm: no field can be changed under a signature.
\<close>

theorem token_material_binds:
  assumes "sign_material isof t = sign_material isof t'" "plain_fields isof t" "plain_fields isof t'"
  shows "tk_holder t = tk_holder t' \<and> tk_tool_scope t = tk_tool_scope t' \<and> tk_issuer t = tk_issuer t'
    \<and> tk_algorithm t = tk_algorithm t'
    \<and> isof (tk_expiry t) (tk_expiry_aware t) = isof (tk_expiry t') (tk_expiry_aware t')"
proof -
  let ?f = "\<lambda>t. [tk_holder t, tk_tool_scope t, isof (tk_expiry t) (tk_expiry_aware t), tk_issuer t, tk_algorithm t]"
  have "join [CHR ''|''] (?f t) = join [CHR ''|''] (?f t')"
    using assms(1) by (simp add: sign_material_def encode_str_inj)
  then have "?f t = ?f t'" by (rule join_inj) (use assms(2,3) in \<open>auto simp: plain_fields_def\<close>)
  then show ?thesis by simp
qed

definition sample_token :: "string \<Rightarrow> string \<Rightarrow> capability_token" where
  "sample_token holder scope =
     \<lparr>tk_holder = holder, tk_tool_scope = scope, tk_expiry = 5, tk_expiry_aware = True, tk_issuer = ''root'',
      tk_signature = ''0123456789abcdef'', tk_algorithm = ''HMAC_SHA256''\<rparr>"

lemma token_material_binds_witness:
  "sign_material (\<lambda>_ _. ''T'') (sample_token ''a'' ''cast'') = sign_material (\<lambda>_ _. ''T'') (sample_token ''a'' ''cast'')
   \<and> tk_tool_scope (sample_token ''a'' ''cast'') = ''cast''
   \<and> (sample_token ''a|decide'' ''*'' \<noteq> sample_token ''a'' ''decide|*''
      \<and> sign_material (\<lambda>_ _. ''T'') (sample_token ''a|decide'' ''*'')
        = sign_material (\<lambda>_ _. ''T'') (sample_token ''a'' ''decide|*''))"
  using token_material_binds [of "\<lambda>_ _. ''T''" "sample_token ''a'' ''cast''" "sample_token ''a'' ''cast''"]
  by (simp add: plain_fields_def sample_token_def sign_material_def)

section \<open>Idempotency\<close>

lemma remember_keeps:
  "cached_result S k payload = Some r \<Longrightarrow> cached_result S k' payload' = None \<Longrightarrow>
   cached_result (remember k' payload' d S) k payload = Some r"
  by (auto simp: cached_result_def remember_def dict_simps split: option.splits)

lemma remembered: "gw_store S \<noteq> None \<Longrightarrow> nonempty k \<noteq> None \<Longrightarrow> cached_result (remember k payload d S) k payload = Some d"
  by (auto simp: cached_result_def remember_def dict_simps split: option.splits)

lemma cached_tools [simp]: "cached_result (S\<lparr>gw_tools := w\<rparr>) k payload = cached_result S k payload"
  by (simp add: cached_result_def)

text \<open>What one execution leaves in the store.\<close>

lemma execute_task_cases:
  assumes "execute_task G payload k S = (r, S')"
  shows "(\<exists>d. cached_result S k payload = Some d \<and> r = Inr d \<and> S' = S)
    \<or> (cached_result S k payload = None
       \<and> ((\<exists>w. S' = S\<lparr>gw_tools := w\<rparr> \<and> (\<forall>d. r = Inr d \<longrightarrow> dget d ''status'' = Some (JStr ''failed'')))
          \<or> (\<exists>w d. S' = remember k payload d (S\<lparr>gw_tools := w\<rparr>) \<and> r = Inr d)))"
  using assms unfolding execute_task_def
  by (auto simp: obind_def lift_def ret_def Let_def on_tools_run task_result_def
      split: option.splits sum.splits prod.splits if_splits intro: exI [of _ "gw_tools S"])

lemma execute_task_keeps:
  assumes "cached_result S k payload = Some d"
  shows "cached_result (snd (execute_task G p k' S)) k payload = Some d"
proof -
  obtain r S' where e: "execute_task G p k' S = (r, S')" by (cases "execute_task G p k' S")
  from execute_task_cases [OF e] assms show ?thesis
    by (auto simp: e remember_keeps)
qed

text \<open>
  C31. Once a task has completed under a key, every later execution of the same payload under that key
  - after any tasks, and whatever has become of the tokens, the bundles, the tools and the clock -
  gives the same result and leaves tools and store as they are.
\<close>

theorem idempotent_forever:
  assumes "execute_task G payload k S = (Inr r, S')"
    and "dget r ''status'' = Some (JStr ''completed'')"
    and "gw_store S \<noteq> None" "nonempty k \<noteq> None"
  shows "let T = fold (\<lambda>(G, p, k) S. snd (execute_task G p k S)) later S'
    in execute_task G' payload k T = (Inr r, T)"
proof -
  have "cached_result S' k payload = Some r"
    using execute_task_cases [OF assms(1)] assms(2) remembered [of "S\<lparr>gw_tools := w\<rparr>" k payload r for w] assms(3,4)
    by auto
  then have "cached_result (fold (\<lambda>(G, p, k) S. snd (execute_task G p k S)) later S') k payload = Some r"
    by (induction later arbitrary: S') (auto simp: execute_task_keeps)
  then show ?thesis by (simp add: execute_task_def Let_def)
qed

text \<open>A gateway with one tool, and the task that runs it, for the witness.\<close>

definition sample_gateway :: "arcane_env \<Rightarrow> nat gateway_env" where
  "sample_gateway A =
     \<lparr>ge_config = \<lparr>mc_dispatch = [(''count'', \<lambda>_ n. (Inr (JInt (int n)), Suc n))], mc_binary = [], mc_experimental = False,
        mc_scope = [''*''],
        mc_arcane = A,
        mc_tool_definitions = JNull, mc_inspect = \<lambda>_ _. Inr JNull, mc_execution_status = \<lambda>_ _. Inr JNull,
        mc_execution_receipt = \<lambda>_ _. Inr JNull, mc_list_programs = \<lambda>_ _. Inr JNull,
        mc_program_status = \<lambda>_ _. Inr JNull, mc_gossip = \<lambda>_. ret JNull, mc_add_edge = \<lambda>_. ret JNull,
        mc_urlsplit = \<lambda>_. Inl (ValueError [])\<rparr>,
      ge_require_tokens = False,
      ge_capability = \<lparr>ce_now = 0, ce_isoformat = \<lambda>_ _. [], ce_shared_secret = None, ce_public_key = None,
        ce_validate = \<lambda>_. Inl (ValueError []), ce_load_key = \<lambda>_. Inr (), ce_ed25519 = \<lambda>_ _ _. False\<rparr>,
      ge_validate_task = \<lambda>_. Inr \<lparr>ta_task_id = ''t'', ta_skill_id = ''count'', ta_input = []\<rparr>,
      ge_artifact_id = ''a'', ge_updated_at = ''now''\<rparr>"

lemma idempotent_forever_witness:
  "\<forall>A. \<exists>r S'. execute_task (sample_gateway A) JNull (Some ''k'') \<lparr>gw_tools = 0, gw_store = Some []\<rparr> = (Inr r, S')
     \<and> gw_tools S' = 1 \<and> execute_task (sample_gateway A) JNull (Some ''k'') S' = (Inr r, S')"
proof
  fix A
  let ?S = "\<lparr>gw_tools = 0::nat, gw_store = Some []\<rparr>" and ?G = "sample_gateway A"
  obtain r S' where e: "execute_task ?G JNull (Some ''k'') ?S = (Inr r, S')"
    "dget r ''status'' = Some (JStr ''completed'')" "gw_tools S' = 1"
    by (simp add: execute_task_def sample_gateway_def cached_result_def obind_def lift_def ret_def Let_def nonempty_def
        capability_refusal_def expand_task_input_def extract_semantic_bundle_ref_def dget_or_def dict_value_def
        enforce_tool_scope_def scope_allows_def fnmatch_def on_tools_def task_result_def)
  from idempotent_forever [OF e(1,2), where later = "[]" and G' = ?G] e(1,3)
  show "\<exists>r S'. execute_task ?G JNull (Some ''k'') ?S = (Inr r, S') \<and> gw_tools S' = 1
     \<and> execute_task ?G JNull (Some ''k'') S' = (Inr r, S')" by auto
qed

section \<open>HTTP requests\<close>

lemma or_bad_request_answers:
  assumes "\<And>r S'. m S = (r, S') \<Longrightarrow> R S' \<and> (\<forall>status doc. r = Inr (status, doc) \<longrightarrow> status \<in> {200, 400, 401, 404})"
  shows "\<exists>status doc S'. or_bad_request m S = (Inr (status, doc), S') \<and> status \<in> {200, 400, 401, 404} \<and> R S'"
proof -
  obtain r S' where m: "m S = (r, S')" by (cases "m S")
  from assms [OF m] m show ?thesis by (auto simp: or_bad_request_def split: sum.split)
qed

lemma handler_effect: "handler_ran cfg i w w' \<Longrightarrow> tool_effect cfg False w w'"
  by (auto simp: handler_ran_def intro: scoped_call split: prod.splits)

lemma post_inner_answers:
  assumes "body_bytes rq = Inr raw"
  shows "\<exists>status doc S'. handle_post_inner H G rq S = (Inr (status, doc), S') \<and> status \<in> {200, 400, 401, 404}
    \<and> (tool_effect (ge_config G) False)\<^sup>=\<^sup>= (gw_tools S) (gw_tools S')"
proof -
  let ?R = "\<lambda>S'. (tool_effect (ge_config G) False)\<^sup>=\<^sup>= (gw_tools S) (gw_tools S')"
  let ?answers = "\<lambda>m. \<exists>status doc S'. m S = (Inr (status, doc), S') \<and> status \<in> {200, 400, 401, 404} \<and> ?R S'"
  have "?answers (post_recommend H (mc_arcane (ge_config G)) raw)"
    unfolding post_recommend_def
    by (rule or_bad_request_answers) (auto simp: rbind_Inr_iff)
  moreover have "?answers (post_task H G k raw)" for k
    unfolding post_task_def
    by (rule or_bad_request_answers)
      (auto simp: obind_def lift_def ret_def split: sum.splits prod.splits
        dest!: execute_task_tools handler_effect)
  moreover have "?answers (post_tool H (ge_config G) tool raw)" for tool
    unfolding post_tool_def
    by (rule or_bad_request_answers)
      (auto simp: obind_def lift_def ret_def on_tools_run split: sum.splits prod.splits dest!: call_tool_effect)
  ultimately show ?thesis
    using assms by (auto simp: handle_post_inner_def obind_def lift_def ret_def Let_def)
qed





section \<open>The surfaces of a process\<close>

lemma post_effect:
  "rel_option (\<lambda>w w'. \<exists>cid pid. tool_effect (ge_config (he_gateway H cid pid)) False w w')\<^sup>*\<^sup>*
     (Some (gw_tools S)) (Some (gw_tools (snd (do_POST H rq S))))"
  (is "rel_option ?may\<^sup>*\<^sup>* _ _")
proof -
  let ?p = "resolve_principal (he_auth H) (rq_header rq ''Authorization'')"
  have inner: "?may\<^sup>*\<^sup>* (gw_tools S) (gw_tools (snd (handle_post_inner H (he_gateway H c p) rq S)))" for c p
  proof (cases "body_bytes rq")
    case (Inl e)
    then show ?thesis by (simp add: handle_post_inner_def obind_def lift_def ret_def Let_def)
  next
    case (Inr raw)
    from post_inner_answers [OF this, of H "he_gateway H c p" S]
    have "(tool_effect (ge_config (he_gateway H c p)) False)\<^sup>=\<^sup>= (gw_tools S)
        (gw_tools (snd (handle_post_inner H (he_gateway H c p) rq S)))" by auto
    then have "?may\<^sup>=\<^sup>= (gw_tools S) (gw_tools (snd (handle_post_inner H (he_gateway H c p) rq S)))" by blast
    then show ?thesis by (rule sup2E) (rule r_into_rtranclp, assumption, simp)
  qed
  then show ?thesis
    by (cases ?p) (simp_all add: do_POST_def obind_def lift_def ret_def)
qed

interpretation posts: tool_surface "\<lambda>S. Some (gw_tools S)" "\<lambda>rq S. snd (do_POST H rq S)"
    "\<lambda>w w'. \<exists>cid pid. tool_effect (ge_config (he_gateway H cid pid)) False w w'" for H
  by unfold_locales (rule post_effect)

lemma task_effect:
  "(tool_effect (ge_config G) False)\<^sup>*\<^sup>* (gw_tools S) (gw_tools (snd (execute_task G payload k S)))"
proof -
  obtain r S' where e: "execute_task G payload k S = (r, S')" by (cases "execute_task G payload k S")
  from execute_task_tools [OF e] e show ?thesis by (auto dest: handler_effect)
qed

interpretation tasks: tool_surface "\<lambda>S. Some (gw_tools S)" "\<lambda>(payload, k) S. snd (execute_task G payload k S)"
    "tool_effect (ge_config G) False" for G
  by unfold_locales (auto simp: task_effect split: prod.split)

lemma executor_effect:
  "(tool_effect (ge_config G) False)\<^sup>*\<^sup>* w (snd (executor_execute G deny cancelled rx w))"
proof -
  obtain r w' where e: "executor_execute G deny cancelled rx w = (r, w')" by (cases "executor_execute G deny cancelled rx w")
  from executor_tools [OF e] e show ?thesis by (auto dest: handler_effect)
qed

interpretation invocations: tool_surface Some "\<lambda>(cancelled, rx) w. snd (executor_execute G deny cancelled rx w)"
    "tool_effect (ge_config G) False" for G deny
  by unfold_locales (auto simp: executor_effect split: prod.split)

text \<open>
  On every surface of the adapters - HTTP requests, tasks, agent invocations, in any number and
  order - the tools change only by runs of handlers that the tool scope allows.
\<close>

theorem adapters_confined:
  "(\<lambda>w w'. \<exists>cid pid. tool_effect (ge_config (he_gateway H cid pid)) False w w')\<^sup>*\<^sup>*
     (gw_tools S) (gw_tools (fold (\<lambda>rq S. snd (do_POST H rq S)) requests S))
   \<and> (tool_effect (ge_config G) False)\<^sup>*\<^sup>*
     (gw_tools S) (gw_tools (fold (\<lambda>(payload, k) S. snd (execute_task G payload k S)) tasks S))
   \<and> (tool_effect (ge_config G) False)\<^sup>*\<^sup>*
     w (fold (\<lambda>(cancelled, rx) w. snd (executor_execute G deny cancelled rx w)) invocations w)"
  using posts.run_tools [where S = S and inputs = requests and H = H]
    tasks.run_tools [where S = S and inputs = tasks and G = G]
    invocations.run_tools [where S = w and inputs = invocations and G = G and deny = deny]
  by simp

end
