(* ===== verification/Telemetry.thy ===== *)
theory Telemetry
  imports Gateway
begin

text \<open>
  The optional counters of bundle use of \<open>src/vermyth/arcane/bundle_telemetry.py\<close>, their report
  (\<open>bundle_adoption_report.py\<close>) and the expansion of a tool call that feeds them
  (\<open>arcane/invoke.py\<close>).  The module state is a record, its lock is left out; the environment variables
  and the clock are arguments.
\<close>

section \<open>Counters\<close>

text \<open>A \<open>Counter\<close>: \<open>c[k] += n\<close>, a missing key counting as zero.\<close>

definition counter_get :: "('k, int) dict \<Rightarrow> 'k \<Rightarrow> int" where
  "counter_get d k = (case dget d k of None \<Rightarrow> 0 | Some n \<Rightarrow> n)"

definition counter_add :: "'k \<Rightarrow> int \<Rightarrow> ('k, int) dict \<Rightarrow> ('k, int) dict" where
  "counter_add k n d = dset k (counter_get d k + n) d"

record telemetry =
  tl_events :: "(string, int) dict"
  tl_bundles :: "(string, int) dict"
  tl_matrix :: "(string \<times> string, int) dict"
  tl_saved :: int
  tl_saved_by :: "(string, int) dict"
  tl_recent :: "json list"

definition no_telemetry :: telemetry where
  "no_telemetry = \<lparr>tl_events = [], tl_bundles = [], tl_matrix = [], tl_saved = 0, tl_saved_by = [], tl_recent = []\<rparr>"

record telemetry_env =
  tn_enable :: "string option"
  tn_missed :: "string option"
  tn_now :: real

text \<open>\<open>bool(int(os.environ.get(name, "0") or "0"))\<close>; a text that is not a number raises.\<close>

definition env_flag :: "string option \<Rightarrow> bool result" where
  "env_flag v = rbind (py_int (JStr (str_or v ''0''))) (\<lambda>n. Inr (n \<noteq> 0))"

definition telemetry_enabled :: "telemetry_env \<Rightarrow> bool result" where
  "telemetry_enabled N = env_flag (tn_enable N)"

definition missed_detection_enabled :: "telemetry_env \<Rightarrow> bool result" where
  "missed_detection_enabled N =
     rbind (telemetry_enabled N) (\<lambda>on. if on then env_flag (tn_missed N) else Inr False)"

definition append_recent :: "json \<Rightarrow> telemetry \<Rightarrow> telemetry" where
  "append_recent ev T = T\<lparr>tl_recent := drop (length (tl_recent T) + 1 - 200) (tl_recent T @ [ev])\<rparr>"

definition bump :: "string \<Rightarrow> string option \<Rightarrow> telemetry \<Rightarrow> telemetry" where
  "bump ty bundle T =
     (let T1 = T\<lparr>tl_events := counter_add ty 1 (tl_events T)\<rparr> in
      case nonempty bundle of
        None \<Rightarrow> T1
      | Some b \<Rightarrow> T1\<lparr>tl_bundles := counter_add b 1 (tl_bundles T), tl_matrix := counter_add (b, ty) 1 (tl_matrix T)\<rparr>)"

definition when_enabled :: "telemetry_env \<Rightarrow> (telemetry \<Rightarrow> telemetry) \<Rightarrow> (telemetry, unit) op" where
  "when_enabled N f T = (case telemetry_enabled N of Inl e \<Rightarrow> (Inl e, T) | Inr on \<Rightarrow> (Inr (), if on then f T else T))"

section \<open>Recording\<close>

definition record_bundle_recommended ::
  "telemetry_env \<Rightarrow> string \<Rightarrow> string \<Rightarrow> recommendation_row \<Rightarrow> (telemetry, unit) op" where
  "record_bundle_recommended N surface skill r =
     when_enabled N (\<lambda>T.
       append_recent (JObj
         [(''ts'', JFloat (tn_now N)), (''event_type'', JStr ''bundle_recommended''), (''surface'', JStr surface),
          (''target_skill'', JStr (ro_target_skill r)), (''skill_id'', JStr skill), (''bundle_id'', JStr (ro_bundle_id r)),
          (''version'', JInt (ro_version r)), (''strength'', JFloat (ro_strength r)),
          (''match_kind'', JStr (enum_name match_kind_members (ro_match_kind r))), (''used_semantic_bundle'', JBool False)])
         (bump ''bundle_recommended'' (Some (ro_bundle_id r)) T))"

definition record_bundle_catalog_listed :: "telemetry_env \<Rightarrow> string \<Rightarrow> string option \<Rightarrow> (telemetry, unit) op" where
  "record_bundle_catalog_listed N surface kind =
     when_enabled N (\<lambda>T.
       append_recent (JObj
         [(''ts'', JFloat (tn_now N)), (''event_type'', JStr ''bundle_catalog_listed''), (''surface'', JStr surface),
          (''kind_filter'', opt_str kind)])
         (bump ''bundle_catalog_listed'' None T))"

definition record_bundle_inspected ::
  "telemetry_env \<Rightarrow> string \<Rightarrow> string \<Rightarrow> int \<Rightarrow> bool \<Rightarrow> (telemetry, unit) op" where
  "record_bundle_inspected N surface bundle version shown =
     when_enabled N (\<lambda>T.
       append_recent (JObj
         [(''ts'', JFloat (tn_now N)), (''event_type'', JStr ''bundle_inspected''), (''surface'', JStr surface),
          (''bundle_id'', JStr bundle), (''version'', JInt version), (''guided_upgrade_shown'', JBool shown)])
         (bump ''bundle_inspected'' (Some bundle) T))"

definition saved_bytes :: "int option \<Rightarrow> int option \<Rightarrow> int" where
  "saved_bytes ref expanded =
     (case (ref, expanded) of (Some r, Some x) \<Rightarrow> if x \<ge> r then x - r else 0 | _ \<Rightarrow> 0)"

definition opt_int :: "int option \<Rightarrow> json" where
  "opt_int x = (case x of None \<Rightarrow> JNull | Some n \<Rightarrow> JInt n)"

definition record_bundle_invoked ::
  "telemetry_env \<Rightarrow> string \<Rightarrow> string \<Rightarrow> int \<Rightarrow> string \<Rightarrow> int option \<Rightarrow> int option \<Rightarrow> (telemetry, unit) op" where
  "record_bundle_invoked N surface bundle version target ref expanded =
     when_enabled N (\<lambda>T.
       let saved = saved_bytes ref expanded in
       append_recent (JObj
         [(''ts'', JFloat (tn_now N)), (''event_type'', JStr ''bundle_invoked''), (''surface'', JStr surface),
          (''bundle_id'', JStr bundle), (''version'', JInt version), (''target_skill'', JStr target),
          (''ref_bytes'', opt_int ref), (''expanded_bytes'', opt_int expanded),
          (''bytes_saved_estimate'', JInt saved), (''used_semantic_bundle'', JBool True)])
         (T\<lparr>tl_events := counter_add ''bundle_invoked'' 1 (tl_events T),
            tl_bundles := counter_add bundle 1 (tl_bundles T),
            tl_matrix := counter_add (bundle, ''bundle_invoked'') 1 (tl_matrix T),
            tl_saved := tl_saved T + saved,
            tl_saved_by := counter_add bundle saved (tl_saved_by T)\<rparr>))"

definition record_bundle_recommendation_missed ::
  "telemetry_env \<Rightarrow> string \<Rightarrow> string \<Rightarrow> recommendation_row \<Rightarrow> (telemetry, unit) op" where
  "record_bundle_recommendation_missed N surface skill r =
     when_enabled N (\<lambda>T.
       append_recent (JObj
         [(''ts'', JFloat (tn_now N)), (''event_type'', JStr ''bundle_recommendation_missed''), (''surface'', JStr surface),
          (''skill_id'', JStr skill), (''bundle_id'', JStr (ro_bundle_id r)), (''version'', JInt (ro_version r)),
          (''strength'', JFloat (ro_strength r)),
          (''match_kind'', JStr (enum_name match_kind_members (ro_match_kind r))),
          (''target_skill'', JStr (ro_target_skill r)), (''used_semantic_bundle'', JBool False)])
         (bump ''bundle_recommendation_missed'' (Some (ro_bundle_id r)) T))"

text \<open>The length of a JSON text in bytes, which are its characters since all of them are ASCII.\<close>

definition json_len :: "json \<Rightarrow> int" where
  "json_len j = int (length (spaced_dumps j))"

definition estimate_invocation_payload_metrics :: "(string, json) dict \<Rightarrow> (string, json) dict \<Rightarrow> int \<times> int" where
  "estimate_invocation_payload_metrics ref merged =
     (json_len (JObj [(''semantic_bundle'', JObj ref)]), json_len (JObj merged))"

section \<open>The expansion of a call with its telemetry\<close>

definition plain_call ::
  "telemetry_env \<Rightarrow> arcane_env \<Rightarrow> string \<Rightarrow> string \<Rightarrow> (string, json) dict \<Rightarrow> (telemetry, invocation) op" where
  "plain_call N A surface skill inp =
     obind (lift (missed_detection_enabled N)) (\<lambda>missed.
     if missed \<and> skill \<in> {''decide'', ''cast'', ''compile_program''} then
       obind (lift (recommended_rows (ae_dirs A) (ae_validators A) skill inp (lit 0.55))) (\<lambda>rows.
       obind (omap_list (record_bundle_recommendation_missed N surface skill) rows) (\<lambda>_.
       ret (skill, inp, None)))
     else ret (skill, inp, None))"

definition observed_expand ::
  "telemetry_env \<Rightarrow> arcane_env \<Rightarrow> string option \<Rightarrow> string \<Rightarrow> (string, json) dict \<Rightarrow> (telemetry, invocation) op" where
  "observed_expand N A tag skill inp =
     (let surface = str_or tag ''unknown'' in
      case extract_semantic_bundle_ref inp of
        None \<Rightarrow> plain_call N A surface skill inp
      | Some [] \<Rightarrow> plain_call N A surface skill inp
      | Some ref \<Rightarrow>
          obind (lift (compile_ref A ref)) (\<lambda>inv.
          let merged = dmerge (strip_bundle_keys inp) (ci_input inv); prov = ci_arcane_provenance inv in
          obind (lift (telemetry_enabled N)) (\<lambda>on.
          if on then
            obind (lift (py_int (dget_or prov ''bundle_version'' (JInt 0)))) (\<lambda>ver.
            let (rb, eb) = estimate_invocation_payload_metrics ref merged in
            obind (record_bundle_invoked N surface (py_str (dget_or prov ''bundle_id'' (JStr []))) ver (ci_skill_id inv)
                     (Some rb) (Some eb)) (\<lambda>_.
            ret (ci_skill_id inv, merged, Some prov)))
          else ret (ci_skill_id inv, merged, Some prov))))"

definition observed_recommendations ::
  "telemetry_env \<Rightarrow> arcane_env \<Rightarrow> string \<Rightarrow> string \<Rightarrow> (string, json) dict \<Rightarrow> real \<Rightarrow> (telemetry, json) op" where
  "observed_recommendations N A surface skill args min_strength =
     obind (lift (recommend_for_plain_invocation (ae_dirs A) (ae_validators A) skill args min_strength)) (\<lambda>out.
     case extract_semantic_bundle_ref args of
       Some (_ # _) \<Rightarrow> ret out
     | _ \<Rightarrow>
         obind (lift (recommended_rows (ae_dirs A) (ae_validators A) skill args min_strength)) (\<lambda>rows.
         if surface = [] \<or> rows = [] then ret out
         else obind (lift (telemetry_enabled N)) (\<lambda>on.
              if on then obind (omap_list (record_bundle_recommended N surface skill) rows) (\<lambda>_. ret out)
              else ret out)))"

section \<open>Readings\<close>

definition counter_json :: "(string, int) dict \<Rightarrow> json" where
  "counter_json d = JObj (map (\<lambda>(k, n). (k, JInt n)) d)"

definition per_bundle_counts :: "telemetry \<Rightarrow> (string, (string, int) dict) dict" where
  "per_bundle_counts T =
     foldl (\<lambda>d ((b, ty), n). dset b (dset ty n (case dget d b of None \<Rightarrow> [] | Some x \<Rightarrow> x)) d) [] (tl_matrix T)"

definition event_types :: "string list" where
  "event_types = [''bundle_recommended'', ''bundle_catalog_listed'', ''bundle_inspected'', ''bundle_invoked'',
     ''bundle_recommendation_missed'']"

definition telemetry_note :: string where
  "telemetry_note = ''Local in-memory counters only; no network export. '' @
     ''bytes_saved_estimate is len(expanded_json)-len(ref_json) when both are known; approximate.''"

definition get_bundle_adoption_summary :: "telemetry_env \<Rightarrow> telemetry \<Rightarrow> json result" where
  "get_bundle_adoption_summary N T =
     rbind (telemetry_enabled N) (\<lambda>on.
     rbind (missed_detection_enabled N) (\<lambda>missed.
     Inr (JObj
       [(''enabled'', JBool on), (''missed_detection_enabled'', JBool missed),
        (''counts_by_event_type'', counter_json (tl_events T)), (''counts_by_bundle_id'', counter_json (tl_bundles T)),
        (''per_bundle_event_counts'', JObj (map (\<lambda>(b, d). (b, counter_json d)) (per_bundle_counts T))),
        (''bytes_saved_estimate_by_bundle'', counter_json (tl_saved_by T)),
        (''funnel'', JObj (map (\<lambda>ty. (ty, JInt (counter_get (tl_events T) ty))) event_types)),
        (''bytes_saved_estimate_total'', JInt (tl_saved T)), (''note'', JStr telemetry_note),
        (''recent_events_sample'', JList (drop (length (tl_recent T) - 50) (tl_recent T)))])))"

section \<open>The adoption report\<close>

definition ratio :: "int \<Rightarrow> int \<Rightarrow> json" where
  "ratio num den = (if den \<le> 0 then JNull else JFloat (py_round (fdiv (fl (of_int num)) (fl (of_int den))) 4))"

text \<open>The library of every bundle; a bundle that cannot be found or read is passed over.\<close>

fun bundle_libraries :: "bundle_dirs \<Rightarrow> validators \<Rightarrow> string list \<Rightarrow> (string, string) dict result" where
  "bundle_libraries D V [] = Inr []"
| "bundle_libraries D V (b # bs) =
     (case load_primary_bundle_manifest D V b of
        Inl (FileNotFoundError _) \<Rightarrow> bundle_libraries D V bs
      | Inl (ValueError _) \<Rightarrow> bundle_libraries D V bs
      | Inl e \<Rightarrow> Inl e
      | Inr m \<Rightarrow> rbind (bundle_libraries D V bs) (\<lambda>d. Inr ((b, str_or (bm_library m) ''unset'') # d)))"

record report_row =
  rp_bundle :: string
  rp_library :: string
  rp_recommended :: int
  rp_inspected :: int
  rp_invoked :: int
  rp_missed :: int
  rp_saved :: int

definition report_row_of :: "(string, string) dict \<Rightarrow> telemetry \<Rightarrow> string \<Rightarrow> report_row" where
  "report_row_of libs T b =
     (let ev = (case dget (per_bundle_counts T) b of None \<Rightarrow> [] | Some d \<Rightarrow> d) in
      \<lparr>rp_bundle = b, rp_library = (case dget libs b of None \<Rightarrow> ''unset'' | Some l \<Rightarrow> l),
       rp_recommended = counter_get ev ''bundle_recommended'', rp_inspected = counter_get ev ''bundle_inspected'',
       rp_invoked = counter_get ev ''bundle_invoked'', rp_missed = counter_get ev ''bundle_recommendation_missed'',
       rp_saved = counter_get (tl_saved_by T) b\<rparr>)"

definition report_rows :: "(string, string) dict \<Rightarrow> telemetry \<Rightarrow> report_row list" where
  "report_rows libs T =
     map (report_row_of libs T) (sort (remdups (map fst (per_bundle_counts T) @ map fst (tl_saved_by T))))"

definition report_row_json :: "report_row \<Rightarrow> json" where
  "report_row_json x =
     JObj [(''bundle_id'', JStr (rp_bundle x)), (''library'', JStr (rp_library x)),
       (''counts'', JObj [(''bundle_recommended'', JInt (rp_recommended x)), (''bundle_inspected'', JInt (rp_inspected x)),
          (''bundle_invoked'', JInt (rp_invoked x)), (''bundle_recommendation_missed'', JInt (rp_missed x))]),
       (''ratios'', JObj [(''inspect_per_recommend'', ratio (rp_inspected x) (rp_recommended x)),
          (''invoke_per_inspect'', ratio (rp_invoked x) (rp_inspected x)),
          (''invoke_per_recommend'', ratio (rp_invoked x) (rp_recommended x)),
          (''missed_per_recommend'', ratio (rp_missed x) (rp_recommended x))]),
       (''bytes_saved_estimate_total'', JInt (rp_saved x)),
       (''bytes_saved_estimate_per_invoke'', ratio (rp_saved x) (rp_invoked x))]"

text \<open>A finding: its kind, severity, bundle and message.\<close>

type_synonym adoption_finding = "string \<times> string \<times> string \<times> string"

definition row_findings :: "report_row \<Rightarrow> adoption_finding list" where
  "row_findings x =
     (let b = rp_bundle x; r = rp_recommended x; i = rp_inspected x; v = rp_invoked x; m = rp_missed x; total = rp_saved x in
      (if r \<ge> 3 \<and> i < max 1 \<lfloor>fmul (fl (of_int r)) (lit 0.25)\<rfloor> then
         [(''recommended_low_inspect'', ''info'', b,
           ''Bundle '' @ repr_str b @ '' is often recommended ('' @ int_text r @ '') but rarely inspected ('' @ int_text i @
           ''); consider improving discoverability or guided-upgrade visibility.'')] else []) @
      (if m \<ge> 3 \<and> m > v + 1 then
         [(''high_missed_vs_invoke'', ''warning'', b,
           ''Bundle '' @ repr_str b @ '' has more missed-upgrade signals ('' @ int_text m @ '') than invocations ('' @
           int_text v @ ''); callers may be ignoring suggestions or missing VERMYTH_BUNDLE_TELEMETRY_MISSED=1 elsewhere.'')]
       else []) @
      (if v \<ge> 2 \<and> total > 0 \<and> total \<ge> 50 * v then
         [(''strong_bytes_signal'', ''info'', b,
           ''Bundle '' @ repr_str b @ '' is invoked ('' @ int_text v @ '') with notable aggregate bytes saved estimate ('' @
           int_text total @ ''); bundle-first may be paying off.'')] else []))"

fun unique_findings :: "(string \<times> string) list \<Rightarrow> adoption_finding list \<Rightarrow> adoption_finding list" where
  "unique_findings seen [] = []"
| "unique_findings seen ((k, s, b, t) # fs) =
     (if (k, b) \<in> set seen then unique_findings seen fs else (k, s, b, t) # unique_findings ((k, b) # seen) fs)"

definition finding_json :: "adoption_finding \<Rightarrow> json" where
  "finding_json = (\<lambda>(k, s, b, t).
     JObj [(''kind'', JStr k), (''severity'', JStr s), (''bundle_id'', JStr b), (''message'', JStr t)])"

definition top_bundles :: "(report_row \<Rightarrow> int) \<Rightarrow> report_row list \<Rightarrow> json" where
  "top_bundles f rows = JList (map (\<lambda>x. JStr (rp_bundle x)) (take 8 (sort_key (\<lambda>x. - f x) rows)))"

definition build_bundle_adoption_report ::
  "bundle_dirs \<Rightarrow> validators \<Rightarrow> telemetry_env \<Rightarrow> telemetry \<Rightarrow> json result" where
  "build_bundle_adoption_report D V N T =
     rbind (get_bundle_adoption_summary N T) (\<lambda>summary.
     rbind (bundle_libraries D V (list_bundle_ids D)) (\<lambda>libs.
     rbind (telemetry_enabled N) (\<lambda>on.
     rbind (missed_detection_enabled N) (\<lambda>missed.
     let rows = report_rows libs T in
     Inr (JObj
       (if \<not> on then
          [(''schema_version'', JInt 1), (''telemetry_enabled'', JBool False),
           (''missed_detection_enabled'', JBool missed),
           (''note'', JStr (''Set VERMYTH_BUNDLE_TELEMETRY=1 to record events, then refresh this report. '' @
              ''Optional VERMYTH_BUNDLE_TELEMETRY_MISSED=1 records missed-upgrade signals on plain invocations.'')),
           (''raw_summary'', summary)]
        else
          [(''schema_version'', JInt 1), (''telemetry_enabled'', JBool True),
           (''missed_detection_enabled'', JBool missed),
           (''approximations'', JObj [(''ratios'', JStr (''Counts are event totals, not unique users or sessions; '' @
              ''ratios are descriptive only.'')), (''bytes'', JStr telemetry_note)]),
           (''totals_by_event_type'', counter_json (tl_events T)),
           (''canonical_bundle_library'', JObj (map (\<lambda>(b, l). (b, JStr l)) libs)),
           (''per_bundle'', JList (map report_row_json rows)),
           (''top_by_recommended'', top_bundles rp_recommended rows), (''top_by_invoked'', top_bundles rp_invoked rows),
           (''top_by_missed'', top_bundles rp_missed rows),
           (''findings'', JList (map finding_json (unique_findings [] (concat (map row_findings rows))))),
           (''raw_summary'', summary)]))))))"

section \<open>The counters agree\<close>

lemma counter_get_add [simp]: "counter_get (counter_add k n d) k' = counter_get d k' + (if k' = k then n else 0)"
  by (simp add: counter_get_def counter_add_def dict_simps)

definition counter_sum :: "('k \<Rightarrow> bool) \<Rightarrow> ('k, int) dict \<Rightarrow> int" where
  "counter_sum P d = sum_list (map snd (filter (\<lambda>(k, _). P k) d))"

lemma counter_sum_add [simp]: "counter_sum P (counter_add k n d) = counter_sum P d + (if P k then n else 0)"
proof -
  have "counter_sum P (dset k (counter_get d k + n) d) = counter_sum P d + (if P k then n else 0)"
    by (induction d) (auto simp: counter_sum_def counter_get_def)
  then show ?thesis by (simp add: counter_add_def)
qed

lemma counter_sum_Nil [simp]: "counter_sum P [] = 0"
  by (simp add: counter_sum_def)

text \<open>
  The count of a bundle is the sum of its row of the matrix, the count of an event type at least that of
  its column (catalogue listings have no bundle), the bytes saved are those of the bundles, and at most
  200 events are kept.
\<close>

definition telemetry_ok :: "telemetry \<Rightarrow> bool" where
  "telemetry_ok T \<longleftrightarrow>
     (\<forall>b. counter_get (tl_bundles T) b = counter_sum (\<lambda>(b', _). b' = b) (tl_matrix T))
     \<and> (\<forall>ty. counter_sum (\<lambda>(_, ty'). ty' = ty) (tl_matrix T) \<le> counter_get (tl_events T) ty)
     \<and> tl_saved T = counter_sum (\<lambda>_. True) (tl_saved_by T) \<and> 0 \<le> tl_saved T
     \<and> length (tl_recent T) \<le> 200"

lemma telemetry_ok_start [simp]: "telemetry_ok no_telemetry"
  by (simp add: telemetry_ok_def no_telemetry_def counter_get_def)

lemma append_recent_ok [simp]: "telemetry_ok T \<Longrightarrow> telemetry_ok (append_recent ev T)"
  by (simp add: telemetry_ok_def append_recent_def)

lemma bump_ok [simp]: "telemetry_ok T \<Longrightarrow> telemetry_ok (bump ty b T)"
  by (auto simp: telemetry_ok_def bump_def Let_def split: option.split intro: add_increasing2)

lemma saved_bytes_nonneg [simp]: "0 \<le> saved_bytes r x"
  by (simp add: saved_bytes_def split: option.split)

lemma preserves_when_enabled:
  "(\<And>T. telemetry_ok T \<Longrightarrow> telemetry_ok (f T)) \<Longrightarrow> preserves telemetry_ok (when_enabled N f)"
  by (simp add: preserves_def when_enabled_def split: sum.split)

lemma preserves_recorders [intro!, simp]:
  "preserves telemetry_ok (record_bundle_recommended N surface skill r)"
  "preserves telemetry_ok (record_bundle_recommendation_missed N surface skill r)"
  "preserves telemetry_ok (record_bundle_catalog_listed N surface kind)"
  "preserves telemetry_ok (record_bundle_inspected N surface b v shown)"
  by (simp_all add: record_bundle_recommended_def record_bundle_recommendation_missed_def
      record_bundle_catalog_listed_def record_bundle_inspected_def preserves_when_enabled)

lemma preserves_invoked [intro!, simp]:
  "preserves telemetry_ok (record_bundle_invoked N surface b v target r x)"
  unfolding record_bundle_invoked_def Let_def
  by (intro preserves_when_enabled append_recent_ok) (auto simp: telemetry_ok_def)

lemma preserves_plain [intro!, simp]: "preserves telemetry_ok (plain_call N A surface skill inp)"
  unfolding plain_call_def by (intro preserves_obind) auto

lemma preserves_if: "preserves I m \<Longrightarrow> preserves I m' \<Longrightarrow> preserves I (if b then m else m')"
  by simp

lemma preserves_expand [intro!, simp]: "preserves telemetry_ok (observed_expand N A tag skill inp)"
  unfolding observed_expand_def Let_def
  by (auto split: option.split list.split prod.split intro!: preserves_obind preserves_if)

lemma preserves_recommendations [intro!, simp]:
  "preserves telemetry_ok (observed_recommendations N A surface skill args ms)"
  unfolding observed_recommendations_def Let_def
  by (auto split: option.split list.split intro!: preserves_obind preserves_if preserves_omap_list)

text \<open>What the surfaces do to the counters, under any settings of the environment.\<close>

inductive counted :: "telemetry \<Rightarrow> bool" where
  start: "counted no_telemetry"
| expand: "counted T \<Longrightarrow> counted (snd (observed_expand N A tag skill inp T))"
| recommend: "counted T \<Longrightarrow> counted (snd (observed_recommendations N A surface skill args ms T))"
| listed: "counted T \<Longrightarrow> counted (snd (record_bundle_catalog_listed N surface kind T))"
| inspected: "counted T \<Longrightarrow> counted (snd (record_bundle_inspected N surface b v shown T))"

text \<open>
  After any calls, recommendations, listings and inspections the counters agree with each other, and
  at most 200 events are kept.
\<close>

theorem telemetry_consistent:
  assumes "counted T"
  shows "telemetry_ok T"
  using assms
proof (induction rule: counted.induct)
  case (expand T N A tag skill inp)
  then show ?case using preserves_expand by (auto simp: preserves_def)
next
  case (recommend T N A surface skill args ms)
  then show ?case using preserves_recommendations by (auto simp: preserves_def)
next
  case (listed T N surface kind)
  then show ?case using preserves_recorders(3) by (auto simp: preserves_def)
next
  case (inspected T N surface b v shown)
  then show ?case using preserves_recorders(4) by (auto simp: preserves_def)
qed simp

lemma telemetry_consistent_witness:
  "\<exists>T. counter_get (tl_events T) ''bundle_inspected'' = 1 \<and> telemetry_ok T"
proof -
  let ?N = "\<lparr>tn_enable = Some ''1'', tn_missed = None, tn_now = 0\<rparr>"
  let ?T = "snd (record_bundle_inspected ?N ''http'' ''b'' 1 True no_telemetry)"
  have "telemetry_enabled ?N = Inr True"
    by (simp add: telemetry_enabled_def env_flag_def parse_int_def strip_text_def is_space_def parse_nat_def
        digit_value_def Let_def)
  then have "counter_get (tl_events ?T) ''bundle_inspected'' = 1"
    by (simp add: record_bundle_inspected_def when_enabled_def append_recent_def bump_def nonempty_def Let_def
        no_telemetry_def counter_get_def counter_add_def)
  moreover have "telemetry_ok ?T" by (intro telemetry_consistent counted.inspected counted.start)
  ultimately show ?thesis by blast
qed

section \<open>Telemetry leaves calls alone\<close>

lemma manifest_version:
  "compile_manifest fancy V m params = Inr i \<Longrightarrow> dget (ci_arcane_provenance i) ''bundle_version'' = Some (JInt (bm_version m))"
  by (cases "bm_kind m") (auto simp: compile_manifest_def rbind_Inr_iff Let_def split: if_splits)

lemma provenance_version:
  "compile_ref A ref = Inr i \<Longrightarrow> \<exists>n. dget (ci_arcane_provenance i) ''bundle_version'' = Some (JInt n)"
  by (auto simp: compile_ref_def compile_semantic_bundle_ref_def rbind_Inr_iff Let_def
      dest: manifest_version split: if_splits)

lemma record_invoked_ok:
  "telemetry_enabled N = Inr on \<Longrightarrow>
   \<exists>T'. record_bundle_invoked N surface b v target r x T = (Inr (), T')"
  by (simp add: record_bundle_invoked_def when_enabled_def)

lemma obind_ret: "fst (obind m (\<lambda>_. ret x) T) \<in> {Inr x} \<union> range Inl"
  by (auto simp: obind_def ret_def split: sum.split prod.split)

lemma plain_result: "fst (plain_call N A surface skill inp T) \<in> {Inr (skill, inp, None)} \<union> range Inl"
proof (cases "missed_detection_enabled N")
  case (Inr missed)
  then show ?thesis
    using obind_ret [of "omap_list (record_bundle_recommendation_missed N surface skill) rows" "(skill, inp, None)" T for rows]
    by (cases "recommended_rows (ae_dirs A) (ae_validators A) skill inp (lit 0.55)")
      (auto simp: plain_call_def obind_raise obind_ok [OF lift_simps [THEN iffD2]] ret_def)
qed (simp add: plain_call_def obind_raise)

lemma plain_quiet: "missed_detection_enabled N = Inr False \<Longrightarrow> plain_call N A surface skill inp T = (Inr (skill, inp, None), T)"
  by (simp add: plain_call_def obind_def lift_def ret_def)

lemma expansion_recorded:
  assumes ref: "extract_semantic_bundle_ref inp = Some (p # ps)" and c: "compile_ref A (p # ps) = Inr i"
    and on: "telemetry_enabled N = Inr on"
  shows "fst (observed_expand N A tag skill inp T) = expand_task_input A skill inp"
proof (cases on)
  case False
  with assms show ?thesis by (simp add: expand_task_input_def observed_expand_def obind_def lift_def ret_def Let_def)
next
  case True
  obtain n where n: "dget (ci_arcane_provenance i) ''bundle_version'' = Some (JInt n)"
    using provenance_version [OF c] by blast
  let ?m = "estimate_invocation_payload_metrics (p # ps) (dmerge (strip_bundle_keys inp) (ci_input i))"
  obtain T' where "record_bundle_invoked N (str_or tag ''unknown'')
      (py_str (dget_or (ci_arcane_provenance i) ''bundle_id'' (JStr []))) n (ci_skill_id i) (Some (fst ?m)) (Some (snd ?m)) T
      = (Inr (), T')"
    using record_invoked_ok [OF on] by blast
  with assms True n show ?thesis
    by (simp add: expand_task_input_def observed_expand_def obind_def lift_def ret_def Let_def dget_or_def
        case_prod_beta)
qed

text \<open>
  C37. Telemetry is transparent.  When the detection of missed bundles is off, an expansion gives the
  result it gives without telemetry; when it is on, or its setting is not a number, the result is the
  same or an exception.
\<close>

theorem telemetry_transparent:
  "if missed_detection_enabled N = Inr False
   then fst (observed_expand N A tag skill inp T) = expand_task_input A skill inp
   else fst (observed_expand N A tag skill inp T) \<in> {expand_task_input A skill inp} \<union> range Inl"
proof (cases "extract_semantic_bundle_ref inp = None \<or> extract_semantic_bundle_ref inp = Some []")
  case True
  then have e: "expand_task_input A skill inp = Inr (skill, inp, None)"
    "observed_expand N A tag skill inp = plain_call N A (str_or tag ''unknown'') skill inp"
    by (auto simp: expand_task_input_def observed_expand_def)
  show ?thesis using plain_result [of N A "str_or tag ''unknown''" skill inp T] plain_quiet [of N]
    by (simp add: e)
next
  case False
  then obtain p ps where ref: "extract_semantic_bundle_ref inp = Some (p # ps)"
    by (metis list.exhaust option.exhaust)
  show ?thesis
  proof (cases "compile_ref A (p # ps)")
    case (Inl e)
    with ref show ?thesis by (simp add: expand_task_input_def observed_expand_def obind_def lift_def)
  next
    case c: (Inr i)
    show ?thesis
    proof (cases "telemetry_enabled N")
      case (Inl e)
      with ref c show ?thesis
        by (simp add: expand_task_input_def observed_expand_def obind_def lift_def missed_detection_enabled_def Let_def)
    next
      case on: (Inr on)
      have "fst (observed_expand N A tag skill inp T) = expand_task_input A skill inp"
        using expansion_recorded [OF ref c on] by blast
      then show ?thesis by simp
    qed
  qed
qed

end
