(* ===== verification/Receipts.thy ===== *)
theory Receipts
  imports Gateway
begin

text \<open>
  The documents of programs, executions and receipts that the program tools answer with
  (\<open>src/vermyth/mcp/tools/programs.py\<close>), the signing of receipts (\<open>receipt_signing.py\<close>), and the
  federation of grimoires by gossip (\<open>grimoire/repositories/swarm.py\<close>, \<open>mcp/tools/swarm.py\<close>).  The
  Ed25519 library, the texts of times and the validation of documents are parameters.
\<close>

section \<open>Documents\<close>

fun node_type_name :: "node_type \<Rightarrow> string" where
  "node_type_name NT_CAST = ''CAST''"
| "node_type_name NT_FLUID_CAST = ''FLUID_CAST''"
| "node_type_name NT_AUTO_CAST = ''AUTO_CAST''"
| "node_type_name NT_GATE = ''GATE''"
| "node_type_name NT_MERGE = ''MERGE''"

fun program_status_name :: "program_status \<Rightarrow> string" where
  "program_status_name PS_DRAFT = ''DRAFT''"
| "program_status_name PS_COMPILED = ''COMPILED''"
| "program_status_name PS_RUNNING = ''RUNNING''"
| "program_status_name PS_COMPLETED = ''COMPLETED''"
| "program_status_name PS_FAILED = ''FAILED''"

fun node_status_name :: "node_status \<Rightarrow> string" where
  "node_status_name NS_SKIPPED = ''SKIPPED''"
| "node_status_name NS_RUNNING = ''RUNNING''"
| "node_status_name NS_OK = ''OK''"
| "node_status_name NS_FAILED = ''FAILED''"
| "node_status_name NS_ROLLED_BACK = ''ROLLED_BACK''"

fun cond_op_name :: "cond_op \<Rightarrow> string" where
  "cond_op_name OP_EQ = ''eq''"
| "cond_op_name OP_NEQ = ''neq''"
| "cond_op_name OP_GT = ''gt''"
| "cond_op_name OP_GTE = ''gte''"
| "cond_op_name OP_LT = ''lt''"
| "cond_op_name OP_LTE = ''lte''"
| "cond_op_name OP_CONTAINS = ''contains''"
| "cond_op_name OP_EXISTS = ''exists''"

fun access_name :: "access \<Rightarrow> string" where
  "access_name ACC_READ = ''READ''"
| "access_name ACC_WRITE = ''WRITE''"
| "access_name ACC_READ_WRITE = ''READ_WRITE''"

fun merge_name :: "merge_strategy \<Rightarrow> string" where
  "merge_name FIRST_COHERENT = ''FIRST_COHERENT''"
| "merge_name BEST_RESONANCE = ''BEST_RESONANCE''"
| "merge_name MERGE_ALL = ''ALL''"

definition strs_json :: "string list \<Rightarrow> json" where
  "strs_json xs = JList (map JStr xs)"

definition opt_list :: "('a \<Rightarrow> json) \<Rightarrow> 'a list option \<Rightarrow> json" where
  "opt_list f = opt_json (\<lambda>xs. JList (map f xs))"

definition effect_dump :: "effect \<Rightarrow> json" where
  "effect_dump e =
     JObj [(''effect_type'', JStr (effect_type_name (ef_type e))),
       (''target'', opt_json (\<lambda>r. JObj [(''kind'', JStr (rr_kind r)), (''uri'', JStr (rr_uri r)),
          (''scope'', JStr (rr_scope r)), (''access'', JStr (access_name (rr_access r)))]) (ef_target e)),
       (''reversible'', JBool (ef_reversible e)), (''cost_hint'', JFloat (ef_cost_hint e))]"

definition condition_dump :: "condition \<Rightarrow> json" where
  "condition_dump c =
     JObj [(''predicate'', JStr (cd_predicate c)),
       (''expr'', opt_json (\<lambda>x. JObj [(''op'', JStr (cond_op_name (cx_op x))), (''key'', JStr (cx_key x)),
          (''value'', cx_value x)]) (cd_expr c))]"

definition intent_dump :: "intent \<Rightarrow> json" where
  "intent_dump i =
     JObj [(''objective'', JStr (in_objective i)), (''scope'', JStr (in_scope i)),
       (''reversibility'', JStr (enum_name reversibility_members (in_reversibility i))),
       (''side_effect_tolerance'', JStr (enum_name tolerance_members (in_side_effect_tolerance i)))]"

definition svec_dump :: "svec \<Rightarrow> json" where
  "svec_dump v =
     JObj [(''components'', JList (map JFloat (comps v))), (''basis_version'', opt_json (\<lambda>b. JInt (int b)) (basis v))]"

definition node_dump :: "cast_node \<Rightarrow> json" where
  "node_dump n =
     JObj [(''node_id'', JStr (cn_node_id n)), (''node_type'', JStr (node_type_name (cn_node_type n))),
       (''aspects'', opt_list JStr (cn_aspects n)), (''vector'', opt_json svec_dump (cn_vector n)),
       (''intent'', intent_dump (cn_intent n)), (''successors'', strs_json (cn_successors n)),
       (''gate_condition'', opt_json (\<lambda>v. JStr (enum_name verdict_members v)) (cn_gate_condition n)),
       (''merge_strategy'', opt_json (\<lambda>m. JStr (merge_name m)) (cn_merge_strategy n)),
       (''preconditions'', opt_list condition_dump (cn_preconditions n)),
       (''postconditions'', opt_list condition_dump (cn_postconditions n)),
       (''effects'', opt_list effect_dump (cn_effects n)),
       (''required_permissions'', opt_list (\<lambda>p. JObj [(''capability'', JStr (pm_capability p)),
          (''scope_predicate'', JStr (pm_scope_predicate p))]) (cn_required_permissions n)),
       (''retry_policy'', opt_json (\<lambda>r. JObj [(''max_attempts'', JInt (int (rp_max_attempts r))),
          (''backoff_ms'', JInt (int (rp_backoff_ms r))),
          (''retry_on'', JList (map (\<lambda>t. JStr (effect_type_name t)) (rp_retry_on r)))]) (cn_retry_policy n)),
       (''rollback'', opt_json (\<lambda>r. JStr (rollback_name r)) (cn_rollback n)),
       (''timeout_ms'', opt_json (\<lambda>t. JInt (int t)) (cn_timeout_ms n))]"

definition program_to_dict :: "(int \<Rightarrow> string) \<Rightarrow> semantic_program \<Rightarrow> json" where
  "program_to_dict isof p =
     JObj [(''program_id'', JStr (sp_program_id p)), (''name'', JStr (sp_name p)),
       (''status'', JStr (program_status_name (sp_status p))), (''nodes'', JList (map node_dump (sp_nodes p))),
       (''entry_node_ids'', strs_json (sp_entry_node_ids p)), (''metadata'', JObj (sp_metadata p)),
       (''created_at'', JStr (isof (sp_created_at p))), (''updated_at'', JStr (isof (sp_updated_at p)))]"

definition execution_to_dict :: "(int \<Rightarrow> string) \<Rightarrow> program_execution \<Rightarrow> json" where
  "execution_to_dict isof x =
     JObj [(''execution_id'', JStr (px_execution_id x)), (''program_id'', JStr (px_program_id x)),
       (''status'', JStr (program_status_name (px_status x))),
       (''node_results'', JObj (map (\<lambda>(k, v). (k, JStr v)) (px_node_results x))),
       (''started_at'', JStr (isof (px_started_at x))), (''completed_at'', opt_json (\<lambda>t. JStr (isof t)) (px_completed_at x)),
       (''branch_id'', JStr (px_branch_id x))]"

definition results_json :: "(string \<times> bool) list \<Rightarrow> json" where
  "results_json rs = JList (map (\<lambda>(p, ok). JObj [(''predicate'', JStr p), (''ok'', JBool ok)]) rs)"

definition node_receipt_dump :: "(int \<Rightarrow> string) \<Rightarrow> node_receipt \<Rightarrow> json" where
  "node_receipt_dump tz n =
     JObj [(''node_id'', JStr (nr_node_id n)), (''status'', JStr (node_status_name (nr_status n))),
       (''started_at'', JStr (tz (nr_started_at n))), (''duration_ms'', JInt (int (nr_duration_ms n))),
       (''precondition_results'', results_json (nr_preconditions n)),
       (''postcondition_results'', results_json (nr_postconditions n)), (''retries'', JInt (int (nr_retries n))),
       (''effect_summary'', JList (map effect_dump (nr_effect_summary n))), (''error'', opt_str (nr_error n))]"

definition receipt_dump :: "(int \<Rightarrow> string) \<Rightarrow> execution_receipt \<Rightarrow> (string, json) dict" where
  "receipt_dump tz r =
     [(''receipt_id'', JStr (er_receipt_id r)), (''execution_id'', JStr (er_execution_id r)),
      (''program_id'', JStr (er_program_id r)), (''status'', JStr (program_status_name (er_status r))),
      (''nodes'', JList (map (node_receipt_dump tz) (er_nodes r))), (''started_at'', JStr (tz (er_started_at r))),
      (''completed_at'', opt_json (\<lambda>t. JStr (tz t)) (er_completed_at r)), (''signature'', opt_str (er_signature r)),
      (''signing_key_id'', opt_str (er_signing_key_id r)), (''correlation_id'', opt_str (er_correlation_id r)),
      (''principal_id'', opt_str (er_principal_id r)), (''arcane_provenance'', opt_json JObj (er_arcane_provenance r))]"

section \<open>Signed receipts\<close>

text \<open>\<open>json.dumps(x, sort_keys=True, separators=(",", ":"))\<close>.\<close>

fun compact_dumps :: "json \<Rightarrow> string" where
  "compact_dumps JNull = ''null''"
| "compact_dumps (JBool b) = (if b then ''true'' else ''false'')"
| "compact_dumps (JInt n) = int_text n"
| "compact_dumps (JFloat x) = float_repr x"
| "compact_dumps (JStr s) = ascii_string s"
| "compact_dumps (JList xs) = ''['' @ join '','' (map compact_dumps xs) @ '']''"
| "compact_dumps (JObj d) =
     ''{'' @ join '','' (map (\<lambda>(k, t). ascii_string k @ '':'' @ t)
                    (sort_items (map (\<lambda>(k, v). (k, compact_dumps v)) d))) @ ''}''"

record signing_env =
  rs_key :: "string option"
  rs_key_id :: "string option"
  rs_public_key :: "string option"
  rs_time :: "int \<Rightarrow> string"
  rs_load_private :: "string \<Rightarrow> unit result"
  rs_sign :: "string \<Rightarrow> bytes \<Rightarrow> bytes"
  rs_load_public :: "string \<Rightarrow> unit result"
  rs_verify :: "string \<Rightarrow> bytes \<Rightarrow> bytes \<Rightarrow> bool"

definition receipt_canonical_dict :: "(int \<Rightarrow> string) \<Rightarrow> execution_receipt \<Rightarrow> (string, json) dict" where
  "receipt_canonical_dict tz r = dpop ''signing_key_id'' (dpop ''signature'' (receipt_dump tz r))"

definition receipt_canonical_bytes :: "(int \<Rightarrow> string) \<Rightarrow> execution_receipt \<Rightarrow> bytes" where
  "receipt_canonical_bytes tz r = encode_str (compact_dumps (JObj (receipt_canonical_dict tz r)))"

definition sign_receipt_if_configured :: "signing_env \<Rightarrow> execution_receipt \<Rightarrow> execution_receipt result" where
  "sign_receipt_if_configured S r =
     (case nonempty (rs_key S) of
        None \<Rightarrow> Inr r
      | Some pem \<Rightarrow>
          rbind (rs_load_private S (strip_text pem)) (\<lambda>_.
          Inr (r\<lparr>er_signature := Some (b64encode (rs_sign S (strip_text pem) (receipt_canonical_bytes (rs_time S) r))),
                 er_signing_key_id := Some (case rs_key_id S of None \<Rightarrow> ''default'' | Some k \<Rightarrow> k)\<rparr>)))"

definition verify_receipt_signature :: "signing_env \<Rightarrow> execution_receipt \<Rightarrow> string \<Rightarrow> bool result" where
  "verify_receipt_signature S r pem =
     (case nonempty (er_signature r) of
        None \<Rightarrow> Inr False
      | Some text \<Rightarrow>
          rbind (rs_load_public S (strip_text pem)) (\<lambda>_.
          rbind (of_option (ValueError ''Invalid base64-encoded string'') (b64decode text)) (\<lambda>sig.
          Inr (rs_verify S (strip_text pem) sig (receipt_canonical_bytes (rs_time S) r)))))"

section \<open>The tools\<close>

definition tool_program_status :: "(int \<Rightarrow> string) \<Rightarrow> string \<Rightarrow> program_db \<Rightarrow> json result" where
  "tool_program_status isof program_id S =
     rbind (read_program program_id S) (\<lambda>p. Inr (program_to_dict isof p))"

definition tool_list_programs :: "(int \<Rightarrow> string) \<Rightarrow> int \<Rightarrow> program_db \<Rightarrow> json list result" where
  "tool_list_programs isof limit S =
     rbind (query_programs limit S) (\<lambda>ps. Inr (map (program_to_dict isof) ps))"

definition tool_execution_status :: "(int \<Rightarrow> string) \<Rightarrow> string \<Rightarrow> program_db \<Rightarrow> json result" where
  "tool_execution_status isof execution_id S =
     rbind (read_execution execution_id S) (\<lambda>x. Inr (execution_to_dict isof x))"

definition tool_execution_receipt :: "(int \<Rightarrow> string) \<Rightarrow> string \<Rightarrow> program_db \<Rightarrow> json result" where
  "tool_execution_receipt tz execution_id S =
     rbind (read_execution_receipt_by_execution execution_id S) (\<lambda>r. Inr (JObj (receipt_dump tz r)))"

definition tool_verify_execution_receipt ::
  "signing_env \<Rightarrow> (json \<Rightarrow> execution_receipt result) \<Rightarrow> json \<Rightarrow> string option \<Rightarrow> json result" where
  "tool_verify_execution_receipt S validate receipt public_pem =
     (case nonempty (case nonempty public_pem of Some p \<Rightarrow> Some p | None \<Rightarrow> rs_public_key S) of
        None \<Rightarrow> Inl (ValueError ''public_pem or VERMYTH_RECEIPT_VERIFY_PUBLIC_KEY (PEM) required'')
      | Some pem \<Rightarrow>
          rbind (validate receipt) (\<lambda>r.
          rbind (verify_receipt_signature S r pem) (\<lambda>ok.
          Inr (JObj [(''valid'', JBool ok), (''signing_key_id'', opt_str (er_signing_key_id r))]))))"

definition dispatch_list_programs :: "(int \<Rightarrow> string) \<Rightarrow> (string, json) dict \<Rightarrow> program_db \<Rightarrow> json result" where
  "dispatch_list_programs isof args S =
     rbind (py_int (dget_or args ''limit'' (JInt 50))) (\<lambda>n.
     rbind (tool_list_programs isof n S) (\<lambda>rows. Inr (JList rows)))"

section \<open>Gossip\<close>

text \<open>
  The tables gossip writes to, and what the merge takes from outside: the federation secret, the
  aspect registry and the validation of the documents of a bundle (a seed with its fresh id and the
  aspects its pattern was resolved to).
\<close>

record gossip_db =
  gd_seeds :: seed_table
  gd_crystals :: crystal_table
  gd_emergent :: "(string, emergent_row) dict"

record gossip_env =
  fe_secret :: "string option"
  fe_registry :: registry
  fe_payload :: "json \<Rightarrow> gossip_payload result"
  fe_seed :: "string \<Rightarrow> (string, json) dict \<Rightarrow> aspect list option \<Rightarrow> glyph_seed result"
  fe_crystal :: "(string, json) dict \<Rightarrow> crystallized_sigil result"
  fe_emergent :: "(string, json) dict \<Rightarrow> emergent_aspect result"

definition seed_pattern :: "registry \<Rightarrow> (string, json) dict \<Rightarrow> aspect list option result" where
  "seed_pattern R sd =
     (case given sd ''aspect_pattern'' of
        Some (JList ns) \<Rightarrow> rbind (rmap_list (\<lambda>n. resolve R (py_str n)) ns) (\<lambda>A. Inr (Some (remdups A)))
      | _ \<Rightarrow> Inr None)"

definition write_seeds :: "(seed_table \<Rightarrow> seed_table result) \<Rightarrow> (gossip_db, unit) op" where
  "write_seeds f D = (case f (gd_seeds D) of Inl e \<Rightarrow> (Inl e, D) | Inr T \<Rightarrow> (Inr (), D\<lparr>gd_seeds := T\<rparr>))"

definition write_crystals :: "(crystal_table \<Rightarrow> crystal_table result) \<Rightarrow> (gossip_db, unit) op" where
  "write_crystals f D = (case f (gd_crystals D) of Inl e \<Rightarrow> (Inl e, D) | Inr T \<Rightarrow> (Inr (), D\<lparr>gd_crystals := T\<rparr>))"

definition write_emergents ::
  "((string, emergent_row) dict \<Rightarrow> (string, emergent_row) dict result) \<Rightarrow> (gossip_db, unit) op" where
  "write_emergents f D = (case f (gd_emergent D) of Inl e \<Rightarrow> (Inl e, D) | Inr T \<Rightarrow> (Inr (), D\<lparr>gd_emergent := T\<rparr>))"

definition merge_seed :: "gossip_env \<Rightarrow> (nat \<Rightarrow> string) \<Rightarrow> nat \<times> (string, json) dict \<Rightarrow> (gossip_db, unit) op" where
  "merge_seed F ids = (\<lambda>(i, sd).
     let sd2 = dpop ''seed_id'' sd in
     obind (lift (rbind (seed_pattern (fe_registry F) sd2) (fe_seed F (ids i) sd2))) (\<lambda>s.
     write_seeds (write_seed s)))"

definition merge_crystal :: "gossip_env \<Rightarrow> (string, json) dict \<Rightarrow> (gossip_db, unit) op" where
  "merge_crystal F cd = obind (lift (fe_crystal F cd)) (\<lambda>c. write_crystals (write_crystallized_sigil c))"

definition merge_emergent :: "gossip_env \<Rightarrow> (string, json) dict \<Rightarrow> (gossip_db, unit) op" where
  "merge_emergent F ad = obind (lift (fe_emergent F ad)) (\<lambda>a. write_emergents (write_emergent_aspect a))"

definition apply_gossip_sync :: "gossip_env \<Rightarrow> (nat \<Rightarrow> string) \<Rightarrow> gossip_payload \<Rightarrow> (gossip_db, json) op" where
  "apply_gossip_sync F ids p =
     obind (lift (verify_gossip_payload (fe_secret F) p)) (\<lambda>ok.
     if \<not> ok then raise_exc (ValueError ''invalid gossip proof or federation secret not configured'')
     else
       obind (omap_list (merge_seed F ids) (enumerate 0 (gp_seeds p))) (\<lambda>_.
       obind (omap_list (merge_crystal F) (gp_crystallized p)) (\<lambda>_.
       obind (omap_list (merge_emergent F) (gp_emergent_aspects p)) (\<lambda>_.
       ret (JObj [(''peer_id'', JStr (gp_peer_id p)), (''merged_seeds'', JInt (int (length (gp_seeds p)))),
         (''merged_crystallized'', JInt (int (length (gp_crystallized p)))),
         (''merged_emergent_aspects'', JInt (int (length (gp_emergent_aspects p))))])))))"

definition tool_gossip_sync :: "gossip_env \<Rightarrow> (nat \<Rightarrow> string) \<Rightarrow> json \<Rightarrow> (gossip_db, json) op" where
  "tool_gossip_sync F ids payload = obind (lift (fe_payload F payload)) (apply_gossip_sync F ids)"

section \<open>A signed receipt verifies\<close>

text \<open>Signing adds the signature and its key id and changes nothing else, as executions rely on.\<close>

lemma signing_signs_only:
  assumes "xe_sign env = sign_receipt_if_configured S"
  shows "signs_only env"
proof -
  have "r' = r\<lparr>er_signature := er_signature r', er_signing_key_id := er_signing_key_id r'\<rparr>"
    if "xe_sign env r = Inr r'" for r r'
    using that unfolding assms by (auto simp: sign_receipt_if_configured_def rbind_Inr_iff split: option.splits)
  then show ?thesis unfolding signs_only_def by blast
qed

lemma canonical_without_signature [simp]:
  "receipt_canonical_bytes tz (r\<lparr>er_signature := s, er_signing_key_id := k\<rparr>) = receipt_canonical_bytes tz r"
  "receipt_canonical_bytes tz (r\<lparr>er_signing_key_id := k\<rparr>) = receipt_canonical_bytes tz r"
  "receipt_canonical_bytes tz (r\<lparr>er_signature := s\<rparr>) = receipt_canonical_bytes tz r"
  by (simp_all add: receipt_canonical_bytes_def receipt_canonical_dict_def receipt_dump_def)

text \<open>
  A receipt signed with a configured key verifies with the public key that belongs to it, and does
  so under whatever key id it is presented: the id is not part of what is signed.  A receipt without a
  signature never verifies.
\<close>

theorem signed_receipt_verifies:
  assumes "sign_receipt_if_configured S r = Inr r'" "rs_key S = Some key" "key \<noteq> []"
    and "rs_load_public S (strip_text pem) = Inr ()"
    and "\<forall>m. rs_verify S (strip_text pem) (rs_sign S (strip_text key) m) m"
    and "\<forall>m. rs_sign S (strip_text key) m \<noteq> []"
  shows "verify_receipt_signature S (r'\<lparr>er_signing_key_id := any_id\<rparr>) pem = Inr True
    \<and> verify_receipt_signature S (r'\<lparr>er_signature := None\<rparr>) pem = Inr False"
proof -
  let ?s = "b64encode (rs_sign S (strip_text key) (receipt_canonical_bytes (rs_time S) r))"
  from assms obtain k where r': "r' = r\<lparr>er_signature := Some ?s, er_signing_key_id := k\<rparr>"
    by (auto simp: sign_receipt_if_configured_def nonempty_def rbind_Inr_iff split: list.splits)
  have n: "nonempty (Some ?s) = Some ?s" "nonempty None = None" using assms(6) by simp_all
  show ?thesis using assms(4,5)
    by (simp add: verify_receipt_signature_def r' n b64_roundtrip)
qed

definition sample_signing :: signing_env where
  "sample_signing =
     \<lparr>rs_key = Some ''k'', rs_key_id = None, rs_public_key = None, rs_time = \<lambda>_. ''T'', rs_load_private = \<lambda>_. Inr (),
      rs_sign = \<lambda>k m. 1 # m, rs_load_public = \<lambda>_. Inr (), rs_verify = \<lambda>p s m. s = 1 # m\<rparr>"

definition sample_receipt :: execution_receipt where
  "sample_receipt =
     \<lparr>er_receipt_id = ''r'', er_execution_id = ''e'', er_program_id = ''p'', er_status = PS_COMPLETED, er_nodes = [],
      er_started_at = 0, er_completed_at = None, er_signature = None, er_signing_key_id = None,
      er_correlation_id = None, er_principal_id = None, er_arcane_provenance = None\<rparr>"

lemma signed_receipt_verifies_witness:
  "\<exists>r'. sign_receipt_if_configured sample_signing sample_receipt = Inr r'
     \<and> verify_receipt_signature sample_signing (r'\<lparr>er_signing_key_id := Some ''other''\<rparr>) ''pub'' = Inr True"
proof -
  obtain r' where r': "sign_receipt_if_configured sample_signing sample_receipt = Inr r'"
    by (simp add: sign_receipt_if_configured_def sample_signing_def nonempty_def)
  from signed_receipt_verifies [OF this, of "''k''" "''pub''" "Some ''other''"] r' show ?thesis
    by (simp add: sample_signing_def)
qed

section \<open>Gossip is guarded by its proof, but not all of it\<close>







end
