(* ===== verification/CliFormat.thy ===== *)
theory CliFormat
  imports Telemetry Receipts
begin

text \<open>
  The text of the command line, \<open>src/vermyth/cli/format.py\<close>: the resonance bar, the result of a cast,
  and the tables. A formatter reads the dictionaries the tools return, so a missing key or a value of
  another type is an exception of the formatter. Characters have eight bits here: the two block
  characters of the bar are the three bytes of their UTF-8 form.
\<close>

section \<open>Reading dictionaries\<close>

text \<open>\<open>d[k]\<close>, \<open>d.get(k, v)\<close> and \<open>a or b\<close>.\<close>

fun item :: "json \<Rightarrow> string \<Rightarrow> json result" where
  "item (JObj d) k = of_option (KeyError k) (dget d k)"
| "item _ k = Inl (TypeError ''object is not subscriptable by a string'')"

fun field :: "json \<Rightarrow> string \<Rightarrow> json \<Rightarrow> json result" where
  "field (JObj d) k v = Inr (dget_or d k v)"
| "field _ k v = Inl (OtherError ''object has no attribute get'')"

definition either :: "json \<Rightarrow> json \<Rightarrow> json" where
  "either a b = (if truthy a then a else b)"

text \<open>\<open>str(d.get(k, "") or "")\<close>, \<open>float(d.get(k, 0.0) or 0.0)\<close>, \<open>int(d.get(k, n) or n)\<close>.\<close>

definition text_field :: "json \<Rightarrow> string \<Rightarrow> string result" where
  "text_field d k = rbind (field d k (JStr [])) (\<lambda>v. Inr (py_str (either v (JStr []))))"

definition float_field :: "json \<Rightarrow> string \<Rightarrow> real result" where
  "float_field d k = rbind (field d k (JFloat 0)) (\<lambda>v. py_float (either v (JFloat 0)))"

definition int_field :: "json \<Rightarrow> string \<Rightarrow> int \<Rightarrow> int result" where
  "int_field d k n = rbind (field d k (JInt n)) (\<lambda>v. py_int (either v (JInt n)))"

text \<open>The elements a \<open>for\<close> meets, and the strings \<open>join\<close> accepts.\<close>

fun elements :: "json \<Rightarrow> json list result" where
  "elements (JList xs) = Inr xs"
| "elements (JStr s) = Inr (map (\<lambda>c. JStr [c]) s)"
| "elements (JObj d) = Inr (map (\<lambda>kv. JStr (fst kv)) d)"
| "elements _ = Inl (TypeError ''object is not iterable'')"

fun as_text :: "json \<Rightarrow> string result" where
  "as_text (JStr s) = Inr s"
| "as_text _ = Inl (TypeError ''expected str instance'')"

definition texts :: "json \<Rightarrow> string list result" where
  "texts v = rbind (elements v) (rmap_list as_text)"

text \<open>\<open>d[k][:n]\<close> on a string; other values cannot be sliced and printed in a column.\<close>

definition prefix_item :: "json \<Rightarrow> string \<Rightarrow> nat \<Rightarrow> string result" where
  "prefix_item d k n = rbind (item d k) (\<lambda>v. rbind (as_text v) (\<lambda>s. Inr (take n s)))"

definition float_item :: "json \<Rightarrow> string \<Rightarrow> real result" where
  "float_item d k = rbind (item d k) py_float"

section \<open>Columns\<close>

text \<open>\<open>f"{s:<n}"\<close>, \<open>"\\n".join(parts)\<close>, \<open>"-" * len(hdr)\<close>.\<close>

definition column :: "nat \<Rightarrow> string \<Rightarrow> string" where
  "column n s = s @ replicate (n - length s) (CHR '' '')"

definition newline :: string where
  "newline = [CHR 0x0A]"

definition rule_under :: "string \<Rightarrow> string" where
  "rule_under hdr = replicate (length hdr) (CHR ''-'')"

definition table_of :: "string \<Rightarrow> string \<Rightarrow> ('a \<Rightarrow> string result) \<Rightarrow> 'a list \<Rightarrow> string result" where
  "table_of none_text hdr row rs =
     (if rs = [] then Inr none_text
      else rbind (rmap_list row rs) (\<lambda>rows. Inr (join newline (hdr # rule_under hdr # rows))))"

text \<open>The sorted aspect names of a row, cut to 29 characters and a blank.\<close>

definition aspects_cell :: "string list \<Rightarrow> string" where
  "aspects_cell names = take 30 (take 29 (join '' + '' (sort names)) @ '' '')"

text \<open>A value in a column of a given width: strings, ints and booleans only.\<close>

fun value_cell :: "nat \<Rightarrow> json \<Rightarrow> string result" where
  "value_cell n (JStr s) = Inr (column n s)"
| "value_cell n (JInt i) = Inr (column n (int_text i))"
| "value_cell n (JBool b) = Inr (column n (if b then ''1'' else ''0''))"
| "value_cell n (JFloat x) = Inr (column n (float_repr x))"
| "value_cell n _ = Inl (TypeError ''unsupported format string'')"

section \<open>The bar\<close>

definition full_block :: string where
  "full_block = [CHR 0xE2, CHR 0x96, CHR 0x88]"

definition light_shade :: string where
  "light_shade = [CHR 0xE2, CHR 0x96, CHR 0x91]"

definition filled_cells :: "real \<Rightarrow> int \<Rightarrow> int" where
  "filled_cells score width = max 0 (min width (rne (fmul (max 0 (min 1 score)) (fl (of_int width)))))"

definition resonance_bar :: "real \<Rightarrow> int \<Rightarrow> string" where
  "resonance_bar score width =
     concat (replicate (nat (filled_cells score width)) full_block)
     @ concat (replicate (nat (width - filled_cells score width)) light_shade)"

section \<open>The result of a cast\<close>

text \<open>\<open>json.dumps(x, indent=2)\<close>.\<close>

fun json_indented :: "nat \<Rightarrow> json \<Rightarrow> string" where
  "json_indented n (JList xs) =
     (if xs = [] then ''[]''
      else ''['' @ newline @ join ('','' @ newline) (map (\<lambda>x. replicate (n + 2) (CHR '' '') @ json_indented (n + 2) x) xs)
           @ newline @ replicate n (CHR '' '') @ '']'')"
| "json_indented n (JObj d) =
     (if d = [] then ''{}''
      else ''{'' @ newline
           @ join ('','' @ newline) (map (\<lambda>(k, v). replicate (n + 2) (CHR '' '') @ ascii_string k @ '': '' @ json_indented (n + 2) v) d)
           @ newline @ replicate n (CHR '' '') @ ''}'')"
| "json_indented n JNull = ''null''"
| "json_indented n (JBool b) = (if b then ''true'' else ''false'')"
| "json_indented n (JInt i) = int_text i"
| "json_indented n (JFloat x) = float_repr x"
| "json_indented n (JStr s) = ascii_string s"

definition format_arcane_transcript :: "json \<Rightarrow> string" where
  "format_arcane_transcript transcript =
     ''--- Arcane transcript (presentation-only; derived from cast result fields) ---'' @ newline
     @ json_indented 0 transcript"

text \<open>\<open>s.splitlines()\<close>: a line ends at any line boundary, and CR LF is one of them.\<close>

definition line_boundary :: "char \<Rightarrow> bool" where
  "line_boundary c \<longleftrightarrow> (of_char c :: nat) \<in> {10, 11, 12, 13, 28, 29, 30, 133}"

fun split_lines :: "string \<Rightarrow> string \<Rightarrow> string list" where
  "split_lines acc [] = (if acc = [] then [] else [rev acc])"
| "split_lines acc [c] = (if line_boundary c then [rev acc] else [rev (c # acc)])"
| "split_lines acc (c # d # cs) =
     (if c = CHR 0x0D \<and> d = CHR 0x0A then rev acc # split_lines [] cs
      else if line_boundary c then rev acc # split_lines [] (d # cs)
      else split_lines (c # acc) (d # cs))"

text \<open>
  The note: its first line after the label, every further line below the label. \<open>fill\<close> is
  \<open>textwrap.fill\<close> at 68 columns, whose continuation lines are already indented by 12 blanks.
\<close>

definition note_block :: "(string \<Rightarrow> string) \<Rightarrow> string \<Rightarrow> string" where
  "note_block fill note =
     (let ls = split_lines [] (fill note) in
      ''Note        '' @ (case ls of [] \<Rightarrow> [] | l # _ \<Rightarrow> l)
      @ concat (map (\<lambda>l. newline @ replicate 12 (CHR '' '') @ l) (tl ls)))"

text \<open>\<open>sum(float(x) * float(x) for x in dv) ** 0.5\<close>.\<close>

definition vector_norm :: "json \<Rightarrow> real result" where
  "vector_norm dv =
     rbind (elements dv) (\<lambda>xs. rbind (rmap_list py_float xs) (\<lambda>fs. Inr (fsqrt (fsum (map (\<lambda>x. fmul x x) fs)))))"

definition divergence_text :: "json \<Rightarrow> string result" where
  "divergence_text d =
     rbind (text_field d ''status'') (\<lambda>st.
     rbind (float_field d ''l2_magnitude'') (\<lambda>l2.
     rbind (float_field d ''cosine_distance'') (\<lambda>cd.
     Inr (st @ ''  L2='' @ fmt_fixed 4 l2 @ ''  cosine_distance='' @ fmt_fixed 4 cd))))"

definition provenance_lines :: "json \<Rightarrow> string list result" where
  "provenance_lines p =
     (if p = JNull then Inr []
      else rbind (field p ''source'' JNull) (\<lambda>src.
        if src = JStr ''crystallized'' then
          rbind (field p ''crystallized_sigil_name'' JNull) (\<lambda>nm.
          rbind (field p ''generation'' JNull) (\<lambda>gen.
          Inr [''Provenance  crystallized  gen='' @ py_str gen @ ''  sigil='' @ py_str nm]))
        else if src = JStr ''base'' then Inr [''Provenance  base'']
        else if src = JStr ''fluid'' then Inr [''Provenance  fluid'']
        else Inr []))"

definition lineage_text :: "json \<Rightarrow> string result" where
  "lineage_text l =
     (if l = JNull then Inr []
      else
        rbind (item l ''depth'') (\<lambda>depth.
        rbind (item l ''branch_id'') (\<lambda>branch.
        rbind (item l ''parent_cast_id'') (\<lambda>parent.
        rbind (field l ''divergence'' JNull) (\<lambda>d.
        rbind (if truthy d then rbind (divergence_text d) (\<lambda>t. Inr (newline @ ''            divergence: '' @ t))
               else rbind (field l ''divergence_vector'' JNull) (\<lambda>dv.
                    if truthy dv then rbind (vector_norm dv) (\<lambda>m. Inr (newline @ ''            divergence L2: '' @ fmt_fixed 4 m))
                    else Inr [])) (\<lambda>drift.
        Inr (newline @ newline @ ''Lineage     depth: '' @ py_str depth @ ''  branch: '' @ py_str branch
             @ newline @ ''            parent: '' @ py_str parent @ drift)))))))"

definition format_cast_result :: "(string \<Rightarrow> string) \<Rightarrow> json \<Rightarrow> string result" where
  "format_cast_result fill r =
     rbind (item r ''sigil_name'') (\<lambda>name.
     rbind (rbind (item r ''sigil_aspects'') texts) (\<lambda>aspects.
     rbind (item r ''verdict'') (\<lambda>verdict.
     rbind (float_item r ''resonance'') (\<lambda>resonance.
     rbind (item r ''effect_description'') (\<lambda>effect.
     rbind (rbind (item r ''casting_note'') as_text) (\<lambda>note.
     rbind (item r ''projection_method'') (\<lambda>proj.
     rbind (float_item r ''intent_confidence'') (\<lambda>conf.
     rbind (item r ''cast_id'') (\<lambda>cast_id.
     rbind (rbind (field r ''provenance'' JNull) provenance_lines) (\<lambda>prov.
     rbind (rbind (field r ''lineage'' JNull) lineage_text) (\<lambda>lin.
     Inr (join newline
       ([''Sigil       '' @ py_str name @ ''  ['' @ join '' + '' aspects @ '']'',
         ''Verdict     '' @ py_str verdict,
         ''Resonance   '' @ fmt_fixed 4 resonance @ ''  '' @ resonance_bar resonance 15,
         ''Effect      '' @ py_str effect,
         note_block fill note,
         ''Projection  '' @ py_str proj @ ''  confidence: '' @ fmt_fixed 4 conf,
         ''Cast ID     '' @ py_str cast_id] @ prov) @ lin))))))))))))"

section \<open>Tables of casts and seeds\<close>

definition crystallized_row :: "json \<Rightarrow> string result" where
  "crystallized_row r =
     rbind (field r ''name'' (JStr [])) (\<lambda>nm.
     rbind (field r ''sigil'' (JObj [])) (\<lambda>s. let sig = either s (JObj []) in
     rbind (field sig ''aspects'' (JList [])) (\<lambda>a. rbind (texts (either a (JList []))) (\<lambda>names.
     rbind (text_field sig ''effect_class'') (\<lambda>eff.
     rbind (float_field sig ''resonance_ceiling'') (\<lambda>ceil.
     rbind (int_field r ''generation'' 1) (\<lambda>gen.
     rbind (text_field r ''crystallized_at'') (\<lambda>ts.
     Inr (column 26 (take 25 (py_str nm)) @ column 30 (aspects_cell names) @ column 16 (take 15 eff)
          @ column 9 (fmt_fixed 2 ceil) @ column 5 (int_text gen) @ ts)))))))))"

definition crystallized_header :: string where
  "crystallized_header =
     column 26 ''NAME'' @ column 30 ''ASPECTS'' @ column 16 ''EFFECT'' @ column 9 ''CEILING'' @ column 5 ''GEN''
     @ ''CRYSTALLIZED_AT''"

definition format_crystallized_sigils_table :: "json list \<Rightarrow> string result" where
  "format_crystallized_sigils_table = table_of ''No crystallized sigils.'' crystallized_header crystallized_row"

definition cast_cells :: "json \<Rightarrow> string result" where
  "cast_cells r =
     rbind (prefix_item r ''cast_id'' 14) (\<lambda>cid.
     rbind (prefix_item r ''sigil_name'' 20) (\<lambda>sn.
     rbind (item r ''verdict'') (\<lambda>ver.
     rbind (float_item r ''resonance'') (\<lambda>res.
     Inr (column 14 cid @ column 21 sn @ column 11 (take 11 (py_str ver)) @ fmt_fixed 4 res)))))"

definition cast_header :: string where
  "cast_header = column 14 ''CAST ID'' @ column 21 ''SIGIL'' @ column 11 ''VERDICT'' @ ''RESONANCE''"

definition format_cast_table :: "json list \<Rightarrow> string result" where
  "format_cast_table = table_of ''No results.'' cast_header cast_cells"

text \<open>With similarities, one for each row: \<open>zip(strict=True)\<close> fails after the shorter of the two.\<close>

definition format_search_table :: "json list \<Rightarrow> real list option \<Rightarrow> string result" where
  "format_search_table rs similarities =
     (case similarities of
        None \<Rightarrow> format_cast_table rs
      | Some sims \<Rightarrow>
          if rs = [] then Inr ''No results.''
          else
            rbind (rmap_list (\<lambda>(r, sim). rbind (cast_cells r) (\<lambda>c. Inr (c @ ''     '' @ fmt_fixed 4 sim))) (zip rs sims)) (\<lambda>rows.
            if length rs \<noteq> length sims then Inl (ValueError ''zip() arguments have different lengths'')
            else let hdr = cast_header @ ''  SIMILARITY'' in Inr (join newline (hdr # rule_under hdr # rows))))"

definition seed_header :: string where
  "seed_header =
     column 14 ''SEED ID'' @ column 30 ''ASPECTS'' @ column 7 ''COUNT'' @ ''RESONANCE  COHERENCE  STATUS''"

definition seed_cells :: "json \<Rightarrow> string result" where
  "seed_cells s =
     rbind (prefix_item s ''seed_id'' 14) (\<lambda>sid.
     rbind (rbind (item s ''aspects'') texts) (\<lambda>names.
     rbind (item s ''observed_count'') (\<lambda>cnt.
     rbind (float_item s ''mean_resonance'') (\<lambda>res.
     rbind (float_item s ''coherence_rate'') (\<lambda>coh.
     rbind (item s ''crystallized'') (\<lambda>done.
     rbind (value_cell 7 cnt) (\<lambda>count.
     Inr (column 14 sid @ column 30 (aspects_cell names) @ count @ fmt_fixed 4 res @ ''     '' @ fmt_fixed 4 coh
          @ ''     '' @ (if truthy done then ''crystallized'' else ''accumulating'')))))))))"

definition format_seed_table :: "json list \<Rightarrow> string result" where
  "format_seed_table = table_of ''No seeds found.'' seed_header seed_cells"

section \<open>Lineages and drift\<close>

definition step_divergence :: "string \<Rightarrow> json \<Rightarrow> string list result" where
  "step_divergence indent l =
     (if \<not> truthy l then Inr []
      else
        rbind (field l ''divergence'' JNull) (\<lambda>d.
        if truthy d then rbind (divergence_text d) (\<lambda>t. Inr [indent @ ''  divergence from parent: '' @ t])
        else
          rbind (field l ''divergence_vector'' JNull) (\<lambda>dv.
          if truthy dv
          then rbind (vector_norm dv) (\<lambda>m. Inr [indent @ ''  divergence from parent (L2): '' @ fmt_fixed 4 m])
          else Inr [])))"

definition lineage_step :: "nat \<times> json \<Rightarrow> string list result" where
  "lineage_step = (\<lambda>(depth, r).
     rbind (rbind (field r ''cast_id'' (JStr [])) as_text) (\<lambda>cid.
     rbind (field r ''sigil_name'' (JStr [])) (\<lambda>sig.
     rbind (field r ''verdict'' (JStr [])) (\<lambda>ver.
     rbind (rbind (field r ''resonance'' (JFloat 0)) py_float) (\<lambda>res.
     rbind (field r ''lineage'' JNull) (\<lambda>l.
     let indent = concat (replicate depth ''  '') in
     rbind (step_divergence indent l) (\<lambda>below.
     Inr ((indent @ ''- ['' @ nat_text depth @ ''] '' @ take 14 cid @ ''  '' @ py_str sig @ ''  '' @ py_str ver
           @ ''  resonance='' @ fmt_fixed 4 res) # below))))))))"

definition format_lineage_chain :: "json list \<Rightarrow> string result" where
  "format_lineage_chain rs =
     (if rs = [] then Inr ''No lineage.''
      else rbind (rmap_list lineage_step (enumerate 0 rs)) (\<lambda>steps. Inr (join newline (concat steps))))"

definition format_divergence_report :: "json \<Rightarrow> string result" where
  "format_divergence_report d =
     rbind (text_field d ''cast_id'') (\<lambda>cid.
     rbind (text_field d ''parent_cast_id'') (\<lambda>pid.
     rbind (text_field d ''status'') (\<lambda>st.
     rbind (float_field d ''l2_magnitude'') (\<lambda>l2.
     rbind (float_field d ''cosine_distance'') (\<lambda>cd.
     rbind (text_field d ''computed_at'') (\<lambda>ts.
     Inr (join newline
       [''Divergence'', ''  cast:   '' @ cid, ''  parent: '' @ pid, ''  status: '' @ st,
        ''  L2:     '' @ fmt_fixed 6 l2, ''  cosine_distance: '' @ fmt_fixed 6 cd,
        ''  computed_at: '' @ ts])))))))"

definition format_divergence_thresholds :: "json \<Rightarrow> string result" where
  "format_divergence_thresholds d =
     rbind (float_field d ''l2_stable_max'') (\<lambda>l2s.
     rbind (float_field d ''l2_diverged_min'') (\<lambda>l2d.
     rbind (float_field d ''cosine_stable_max'') (\<lambda>cs.
     rbind (float_field d ''cosine_diverged_min'') (\<lambda>cd.
     Inr (join newline
       [''Divergence thresholds'', ''  l2_stable_max:       '' @ fmt_fixed 4 l2s,
        ''  l2_diverged_min:     '' @ fmt_fixed 4 l2d, ''  cosine_stable_max:   '' @ fmt_fixed 4 cs,
        ''  cosine_diverged_min: '' @ fmt_fixed 4 cd])))))"

definition report_header :: string where
  "report_header =
     column 14 ''CAST ID'' @ column 10 ''STATUS'' @ column 10 ''L2'' @ column 10 ''COS_DIST'' @ ''COMPUTED_AT''"

definition report_cells :: "json \<Rightarrow> string result" where
  "report_cells r =
     rbind (text_field r ''cast_id'') (\<lambda>cid.
     rbind (text_field r ''status'') (\<lambda>st.
     rbind (float_field r ''l2_magnitude'') (\<lambda>l2.
     rbind (float_field r ''cosine_distance'') (\<lambda>cd.
     rbind (text_field r ''computed_at'') (\<lambda>ts.
     Inr (column 14 (take 14 cid) @ column 10 (take 9 st) @ column 10 (fmt_fixed 4 l2)
          @ column 10 (fmt_fixed 4 cd) @ ts))))))"

definition format_divergence_reports_table :: "json list \<Rightarrow> string result" where
  "format_divergence_reports_table = table_of ''No divergence reports.'' report_header report_cells"

definition branch_header :: string where
  "branch_header =
     column 22 ''BRANCH'' @ column 7 ''CASTS'' @ column 5 ''DIV'' @ column 7 ''DRIFT'' @ column 10 ''MAX_L2''
     @ column 10 ''MAX_COS'' @ ''LATEST''"

definition branch_cells :: "json \<Rightarrow> string result" where
  "branch_cells r =
     rbind (text_field r ''branch_id'') (\<lambda>bid.
     rbind (int_field r ''casts_with_divergence'' 0) (\<lambda>casts.
     rbind (int_field r ''diverged_count'' 0) (\<lambda>dg.
     rbind (int_field r ''drifting_count'' 0) (\<lambda>dr.
     rbind (float_field r ''max_l2'') (\<lambda>ml2.
     rbind (float_field r ''max_cosine_distance'') (\<lambda>mcd.
     rbind (text_field r ''latest_computed_at'') (\<lambda>ts.
     Inr (column 22 (take 21 bid) @ column 7 (int_text casts) @ column 5 (int_text dg) @ column 7 (int_text dr)
          @ column 10 (fmt_fixed 4 ml2) @ column 10 (fmt_fixed 4 mcd) @ ts))))))))"

definition format_drift_branches_table :: "json list \<Rightarrow> string result" where
  "format_drift_branches_table = table_of ''No branch drift data.'' branch_header branch_cells"

definition contributors :: "string \<Rightarrow> json \<Rightarrow> string result" where
  "contributors amount d =
     rbind (field d ''top_contributors'' (JList [])) (\<lambda>v.
     rbind (elements (either v (JList []))) (\<lambda>ts.
     rbind (rmap_list (\<lambda>t.
        rbind (field t ''aspect'' JNull) (\<lambda>a.
        rbind (float_field t amount) (\<lambda>x. Inr (py_str a @ ''='' @ fmt_fixed 3 x)))) ts) (\<lambda>cs.
     Inr (join '', '' cs))))"

definition hop_line :: "json \<Rightarrow> string result" where
  "hop_line h =
     rbind (text_field h ''cast_id'') (\<lambda>hid.
     rbind (text_field h ''status'') (\<lambda>st.
     rbind (float_field h ''l2_magnitude'') (\<lambda>l2.
     rbind (float_field h ''cosine_distance'') (\<lambda>cd.
     rbind (contributors ''abs_delta'' h) (\<lambda>contrib.
     Inr (''  - '' @ take 14 hid @ ''  '' @ st @ ''  L2='' @ fmt_fixed 4 l2 @ ''  cos='' @ fmt_fixed 4 cd
          @ (if contrib = [] then [] else ''  top: '' @ contrib)))))))"

definition format_lineage_drift :: "json \<Rightarrow> string result" where
  "format_lineage_drift d =
     rbind (text_field d ''cast_id'') (\<lambda>cid.
     rbind (int_field d ''chain_length'' 0) (\<lambda>n.
     rbind (float_field d ''cumulative_l2'') (\<lambda>cl2.
     rbind (float_field d ''cumulative_cosine_distance'') (\<lambda>ccos.
     rbind (float_field d ''max_l2'') (\<lambda>ml2.
     rbind (float_field d ''max_cosine_distance'') (\<lambda>mcos.
     rbind (contributors ''abs_delta_sum'' d) (\<lambda>top.
     rbind (rbind (field d ''hops'' (JList [])) (\<lambda>v. elements (either v (JList [])))) (\<lambda>hops.
     rbind (rmap_list hop_line hops) (\<lambda>hop_lines.
     Inr (join newline
       ([''Lineage drift'', ''  cast_id: '' @ cid, ''  chain_length: '' @ int_text n,
         ''  cumulative_l2: '' @ fmt_fixed 4 cl2, ''  cumulative_cosine_distance: '' @ fmt_fixed 4 ccos,
         ''  max_l2: '' @ fmt_fixed 4 ml2, ''  max_cosine_distance: '' @ fmt_fixed 4 mcos]
        @ (if top = [] then [] else [''  top_contributors: '' @ top])
        @ [[], ''Hops''] @ (if hops = [] then [''  (no hops)''] else hop_lines))))))))))))"

section \<open>Tables of the registry\<close>

definition aspect_header :: string where
  "aspect_header = column 18 ''NAME'' @ column 5 ''POL'' @ column 10 ''ENTROPY'' @ ''SYMBOL''"

definition aspect_cells :: "json \<Rightarrow> string result" where
  "aspect_cells r =
     rbind (field r ''name'' (JStr [])) (\<lambda>nm.
     rbind (int_field r ''polarity'' 0) (\<lambda>pol.
     rbind (float_field r ''entropy_coefficient'') (\<lambda>ent.
     rbind (text_field r ''symbol'') (\<lambda>sym.
     Inr (column 18 (take 17 (py_str nm)) @ column 5 (int_text pol) @ column 10 (fmt_fixed 2 ent) @ take 1 sym)))))"

definition format_aspects_table :: "json list \<Rightarrow> json list \<Rightarrow> string result" where
  "format_aspects_table canonical others =
     table_of ''No aspects.'' aspect_header aspect_cells (canonical @ others)"

definition sigil_header :: string where
  "sigil_header =
     column 26 ''NAME'' @ column 30 ''ASPECTS'' @ column 16 ''EFFECT'' @ column 9 ''CEILING''
     @ column 9 ''OVERRIDE'' @ ''CONTRA''"

definition sigil_cells :: "json \<Rightarrow> string result" where
  "sigil_cells r =
     rbind (field r ''name'' (JStr [])) (\<lambda>nm.
     rbind (field r ''aspects'' (JList [])) (\<lambda>a. rbind (texts (either a (JList []))) (\<lambda>names.
     rbind (text_field r ''effect_class'') (\<lambda>eff.
     rbind (float_field r ''resonance_ceiling'') (\<lambda>ceil.
     rbind (field r ''is_override'' JNull) (\<lambda>ov.
     rbind (text_field r ''contradiction_severity'') (\<lambda>contra.
     Inr (column 26 (take 25 (py_str nm)) @ column 30 (aspects_cell names) @ column 16 (take 15 eff)
          @ column 9 (fmt_fixed 2 ceil) @ column 9 (if truthy ov then ''yes'' else ''no'') @ take 10 contra))))))))"

definition format_registered_sigils_table :: "json list \<Rightarrow> string result" where
  "format_registered_sigils_table = table_of ''No registered sigils.'' sigil_header sigil_cells"

section \<open>The layout\<close>

text \<open>The bar: one block per cell, and a higher score never shows fewer of them.\<close>

lemma filled_cells_range: "0 \<le> width \<Longrightarrow> 0 \<le> filled_cells score width \<and> filled_cells score width \<le> width"
  by (auto simp: filled_cells_def)

lemma resonance_bar_length:
  assumes "0 \<le> width"
  shows "length (resonance_bar score width) = 3 * nat width"
proof -
  have "length (concat (replicate n s)) = n * length s" for n :: nat and s :: string
    by (induction n) simp_all
  then show ?thesis
    using filled_cells_range [OF assms, of score]
      nat_mono [of "filled_cells score width" width]
    by (simp add: resonance_bar_def full_block_def light_shade_def nat_diff_distrib)
qed

lemma filled_cells_mono:
  assumes "0 \<le> width" "s \<le> s'"
  shows "filled_cells s width \<le> filled_cells s' width"
proof -
  have "0 \<le> fl (of_int width)" using assms(1) by (simp add: fl_nonneg)
  then have "fmul (max 0 (min 1 s)) (fl (of_int width)) \<le> fmul (max 0 (min 1 s')) (fl (of_int width))"
    unfolding fmul_def using assms(2) by (intro fl_mono mult_right_mono) auto
  then show ?thesis using rne_mono unfolding filled_cells_def by (meson max.mono min.mono order_refl)
qed

text \<open>
  A row of the table of casts: three columns that fill the first 46 characters, then the resonance.
  An id of 14 characters or more leaves no blank before the name of the sigil.
\<close>

lemma length_column: "length (column n s) = max n (length s)"
  by (simp add: column_def)

lemma cast_cells_columns:
  assumes "cast_cells r = Inr row"
  shows "\<exists>cid sn ver res. float_item r ''resonance'' = Inr res \<and> drop 46 row = fmt_fixed 4 res
     \<and> take 46 row = column 14 (take 14 cid) @ column 21 (take 20 sn) @ column 11 (take 11 ver)
     \<and> (14 \<le> length cid \<longrightarrow> take 14 row = take 14 cid \<and> (sn \<noteq> [] \<longrightarrow> row ! 14 = hd sn))"
proof -
  from assms obtain cid sn ver res where r: "float_item r ''resonance'' = Inr res"
    "row = column 14 (take 14 cid) @ column 21 (take 20 sn) @ column 11 (take 11 ver) @ fmt_fixed 4 res"
    by (auto simp: cast_cells_def prefix_item_def rbind_Inr_iff)
  have "row ! 14 = hd sn" if "14 \<le> length cid" "sn \<noteq> []"
    using that r(2) by (cases sn) (simp_all add: column_def nth_append)
  then show ?thesis
    using r by (intro exI [of _ cid] exI [of _ sn] exI [of _ ver] exI [of _ res]) (auto simp: length_column column_def)
qed

end
