(* ===== verification/Facade.thy ===== *)
theory Facade
  imports Telemetry Receipts
begin

text \<open>
  The facade \<open>VermythTools\<close> of \<open>src/vermyth/mcp/tools/facade.py\<close>: the methods that emit an event after
  the tool has answered. The other methods only pass their arguments on.
\<close>

section \<open>State and events\<close>

record 's facade =
  fa_tools :: 's
  fa_bus :: "vermyth_event list"

definition run_tool :: "('s, 'a) op \<Rightarrow> ('s facade, 'a) op" where
  "run_tool m S = (case m (fa_tools S) of (r, T) \<Rightarrow> (r, S\<lparr>fa_tools := T\<rparr>))"

text \<open>
  \<open>_emit_event\<close>; a stamp is the id and the time of the event.  It stands outside the wrappers of the
  tools, so an exception of the event file or of a subscriber goes to the caller of the method.
\<close>

definition emits ::
  "event_out \<Rightarrow> stamp \<Rightarrow> string \<Rightarrow> (string, json) dict \<Rightarrow> string option \<Rightarrow> string option \<Rightarrow> ('s facade, unit) op" where
  "emits K st ty payload cast_id branch_id S =
     (case emit_event K (fst st) (snd st) ty payload cast_id branch_id (fa_bus S) of
        (r, bus) \<Rightarrow> (rbind r (\<lambda>_. Inr ()), S\<lparr>fa_bus := bus\<rparr>))"

text \<open>\<open>d.get(k)\<close>, and the id in it where it is a text.\<close>

definition entry_of :: "(string, json) dict \<Rightarrow> string \<Rightarrow> json" where
  "entry_of d k = dget_or d k JNull"

definition id_of :: "(string, json) dict \<Rightarrow> string option" where
  "id_of d = (case entry_of d ''cast_id'' of JStr s \<Rightarrow> Some s | _ \<Rightarrow> None)"

section \<open>The methods\<close>

definition facade_cast ::
  "event_out \<Rightarrow> stamp \<Rightarrow> engine \<Rightarrow> (int \<Rightarrow> string) \<Rightarrow> fresh \<Rightarrow> string list \<Rightarrow> cast_args
     \<Rightarrow> (cast_state facade, (string, json) dict) op" where
  "facade_cast K st E isof fr names a =
     obind (run_tool (tool_cast E isof fr names a)) (\<lambda>out.
     obind (emits K st ''cast''
       [(''aspects'', JList (map JStr names)), (''verdict'', entry_of out ''verdict''),
        (''adjusted_resonance'', entry_of out ''adjusted_resonance'')] (id_of out) (ca_branch_id a)) (\<lambda>_.
     ret out))"

definition step_event :: "event_out \<Rightarrow> (nat \<Rightarrow> stamp) \<Rightarrow> nat \<times> json \<Rightarrow> ('s facade, unit) op" where
  "step_event K stamps = (\<lambda>(idx, row).
     let d = (case row of JObj d \<Rightarrow> d | _ \<Rightarrow> []) in
     emits K (stamps idx) ''auto_cast_step''
       [(''step'', JInt (int idx)), (''adjusted_resonance'', entry_of d ''adjusted_resonance''),
        (''verdict'', entry_of d ''verdict'')] (id_of d) None)"

definition facade_auto_cast ::
  "event_out \<Rightarrow> (nat \<Rightarrow> stamp) \<Rightarrow> engine \<Rightarrow> (real \<Rightarrow> real) \<Rightarrow> (int \<Rightarrow> string) \<Rightarrow> string \<Rightarrow> stamp list
     \<Rightarrow> (cast_result \<Rightarrow> fresh) \<Rightarrow> real list \<Rightarrow> auto_args \<Rightarrow> (cast_state facade, (string, json) dict) op" where
  "facade_auto_cast K sts E mexp isof branch stamps fresh_of xs a =
     obind (run_tool (tool_auto_cast E mexp isof branch stamps fresh_of xs a)) (\<lambda>out.
     let chain = (case entry_of out ''auto_cast_chain'' of JList rows \<Rightarrow> rows | _ \<Rightarrow> []) in
     obind (omap_list (step_event K sts) (enumerate 1 chain)) (\<lambda>_.
     ret out))"

text \<open>The cast from a raw vector emits nothing.\<close>

definition facade_fluid_cast ::
  "engine \<Rightarrow> (real \<Rightarrow> real) \<Rightarrow> (int \<Rightarrow> string) \<Rightarrow> fresh \<Rightarrow> real list \<Rightarrow> cast_args
     \<Rightarrow> (cast_state facade, (string, json) dict) op" where
  "facade_fluid_cast E mexp isof fr xs a = run_tool (tool_fluid_cast E mexp isof fr xs a)"

text \<open>The signature of \<open>tool_decide\<close>: no policy model can be named.\<close>

definition facade_decide_parameters :: "string list" where
  "facade_decide_parameters =
     [''intent'', ''aspects'', ''vector'', ''parent_cast_id'', ''causal_root_cast_id'', ''thresholds'', ''effects'']"

definition facade_decide ::
  "event_out \<Rightarrow> stamp \<Rightarrow> engine \<Rightarrow> (real \<Rightarrow> real) \<Rightarrow> (string \<Rightarrow> policy_thresholds result) \<Rightarrow> string \<Rightarrow> int \<Rightarrow> string \<Rightarrow> stamp
     \<Rightarrow> stamp list \<Rightarrow> decide_args \<Rightarrow> (decide_state facade, policy_decision \<times> cast_result) op" where
  "facade_decide K ev E mexp read_thresholds did now branch_id st stamps a =
     obind (run_tool (tool_decide E mexp read_thresholds did now branch_id st stamps
        (a\<lparr>da_policy_model := None, da_tuned_thresholds_path := None, da_require_causal_root := False\<rparr>))) (\<lambda>(d, r).
     obind (emits K ev ''decide''
       [(''action'', JStr (enum_name action_members (pd_action d))), (''rationale'', JStr (pd_rationale d)),
        (''cast_id'', JStr (cr_cast_id r))] (Some (cr_cast_id r)) None) (\<lambda>_.
     ret (d, r)))"

definition facade_execute_program ::
  "event_out \<Rightarrow> stamp \<Rightarrow> engine \<Rightarrow> (real \<Rightarrow> real) \<Rightarrow> exec_env \<Rightarrow> int \<Rightarrow> string \<Rightarrow> (program_db facade, program_execution) op" where
  "facade_execute_program K ev E mexp env now program_id =
     obind (run_tool (tool_execute_program E mexp env now program_id)) (\<lambda>x.
     obind (emits K ev ''program_execute''
       [(''program_id'', JStr program_id), (''execution_id'', JStr (px_execution_id x))] None None) (\<lambda>_.
     ret x))"

definition facade_propose_genesis ::
  "event_out \<Rightarrow> stamp \<Rightarrow> (int \<Rightarrow> string) \<Rightarrow> (nat \<Rightarrow> string) \<Rightarrow> int \<Rightarrow> propose_args \<Rightarrow> (genesis_state facade, json list) op" where
  "facade_propose_genesis K ev isof ids now a =
     obind (run_tool (tool_propose_genesis isof ids now a)) (\<lambda>ps.
     obind (emits K ev ''genesis_propose'' [(''count'', JInt (int (length ps)))] None None) (\<lambda>_.
     ret ps))"

text \<open>A tool that returns its answer with the database it leaves.\<close>

definition on_db :: "('s \<Rightarrow> ('a \<times> 's) result) \<Rightarrow> ('s, 'a) op" where
  "on_db f S = (case f S of Inl e \<Rightarrow> (Inl e, S) | Inr (x, S') \<Rightarrow> (Inr x, S'))"

definition facade_infer_causal_edge ::
  "event_out \<Rightarrow> stamp \<Rightarrow> registry \<Rightarrow> stamp \<Rightarrow> string \<Rightarrow> string \<Rightarrow> (graph_db facade, causal_edge option) op" where
  "facade_infer_causal_edge K ev R st source_id target_id =
     obind (run_tool (on_db (tool_infer_causal_edge R st source_id target_id))) (\<lambda>e.
     obind (emits K ev ''causal_infer''
       [(''source_cast_id'', JStr source_id), (''target_cast_id'', JStr target_id)] None None) (\<lambda>_.
     ret e))"

section \<open>Events mirror the casts\<close>

text \<open>
  A method that emits once: a failing tool emits nothing; a tool that answers leaves its state and one
  event at the end of the bus, and its answer is lost when the delivery of the event raises.
\<close>

lemma emits_eq:
  "emits K st ty p c b S =
     (let e = \<lparr>ev_event_id = fst st, ev_event_type = ty, ev_ts = snd st, ev_payload = p, ev_cast_id = c, ev_branch_id = b\<rparr>
      in (deliver K e, S\<lparr>fa_bus := append_event e (fa_bus S)\<rparr>))"
  by (cases "deliver K \<lparr>ev_event_id = fst st, ev_event_type = ty, ev_ts = snd st, ev_payload = p, ev_cast_id = c,
      ev_branch_id = b\<rparr>") (simp_all add: emits_def emit_event_def emit_def Let_def obind_def ret_def)

lemma emits_once:
  "obind (run_tool m) (\<lambda>x. obind (emits K (st x) (ty x) (p x) (c x) (b x)) (\<lambda>_. ret x)) S =
     (case m (fa_tools S) of
        (Inl e, T) \<Rightarrow> (Inl e, S\<lparr>fa_tools := T\<rparr>)
      | (Inr x, T) \<Rightarrow>
          (let e = \<lparr>ev_event_id = fst (st x), ev_event_type = ty x, ev_ts = snd (st x), ev_payload = p x,
              ev_cast_id = c x, ev_branch_id = b x\<rparr>
           in (rbind (deliver K e) (\<lambda>_. Inr x), \<lparr>fa_tools = T, fa_bus = append_event e (fa_bus S)\<rparr>)))"
  by (cases S) (auto simp: run_tool_def emits_eq Let_def obind_def ret_def split: prod.split sum.split)

lemma answer_resonance:
  assumes "finish_cast E isof fr pid b t pat r0 S = (Inr out, S')"
  shows "dget out ''adjusted_resonance'' = None"
  using assms unfolding finish_cast_def Let_def
  by (auto simp: obind_Inr_iff get_state_def ret_def cast_result_to_dict_def Let_def crystal_entry_def
      transcript_if_requested_def split: option.splits)

text \<open>
  The event of a cast names the stored cast, and its \<open>adjusted_resonance\<close> is always null: the answer has
  the value under \<open>resonance\<close>.
\<close>

lemma cast_event_without_resonance:
  assumes "tool_cast E isof fr names a (fa_tools S) = (Inr out, T)"
  shows "\<exists>e. facade_cast K st E isof fr names a S
        = (rbind (deliver K e) (\<lambda>_. Inr out), \<lparr>fa_tools = T, fa_bus = append_event e (fa_bus S)\<rparr>)
     \<and> ev_event_type e = ''cast'' \<and> dget (ev_payload e) ''adjusted_resonance'' = Some JNull"
proof -
  have "dget out ''adjusted_resonance'' = None"
    using assms unfolding tool_cast_def wrapped_def Let_def
    by (auto simp: obind_Inr_iff split: prod.splits sum.splits dest: answer_resonance)
  then show ?thesis
    unfolding facade_cast_def emits_once using assms
    by (simp add: entry_of_def dget_or_def Let_def) (intro exI conjI, rule refl, simp_all)
qed

end
