(* ===== verification/Cli.thy ===== *)
theory Cli
  imports CliFormat Facade
begin

text \<open>
  The commands of \<open>src/vermyth/cli/commands\<close> and of \<open>src/vermyth/cli/main.py\<close>: each calls a tool, prints
  its result, and turns the exceptions it expects into a text on the standard error and an exit status.
  The methods of the facade that emit events are called with their events; the other commands work on
  the part of the state their tool works on.  The parsing of arguments is argparse's, and the commands
  take what it delivers; printing itself does not fail.
\<close>

section \<open>The shell\<close>

text \<open>
  What a command works on: the tools, and the texts printed so far. A command ends by returning
  (\<open>Inr None\<close>, exit status 0), with \<open>SystemExit\<close> (\<open>Inr (Some n)\<close>) or with an exception nobody
  catches (\<open>Inl e\<close>, a traceback and exit status 1).
\<close>

record 's shell =
  sh_tools :: 's
  sh_out :: "string list"
  sh_err :: "string list"

type_synonym 's command = "('s shell, int option) op"

definition started :: "'s \<Rightarrow> 's shell" where
  "started T = \<lparr>sh_tools = T, sh_out = [], sh_err = []\<rparr>"

definition say :: "string \<Rightarrow> ('s shell, unit) op" where
  "say line = modify (\<lambda>S. S\<lparr>sh_out := sh_out S @ [line]\<rparr>)"

definition call :: "('s, 'a) op \<Rightarrow> ('s shell, 'a) op" where
  "call m S = (case m (sh_tools S) of (r, T) \<Rightarrow> (r, S\<lparr>sh_tools := T\<rparr>))"

definition ask :: "('s \<Rightarrow> 'a result) \<Rightarrow> ('s shell, 'a) op" where
  "ask f = call (\<lambda>T. (f T, T))"

text \<open>\<open>try: ... except ...: print(..., file=sys.stderr); sys.exit(1)\<close>.\<close>

definition except_exit :: "(py_exc \<Rightarrow> string option) \<Rightarrow> 's command \<Rightarrow> 's command" where
  "except_exit handler m S =
     (case m S of
        (Inl e, S') \<Rightarrow>
          (case handler e of
             None \<Rightarrow> (Inl e, S')
           | Some line \<Rightarrow> (Inr (Some 1), S'\<lparr>sh_err := sh_err S' @ [line]\<rparr>))
      | done \<Rightarrow> done)"

text \<open>The handlers: a fixed line for a \<open>KeyError\<close>, else \<open>str(exc)\<close> for the classes that are caught.\<close>

definition prints_exc :: "(py_exc \<Rightarrow> bool) \<Rightarrow> py_exc \<Rightarrow> string option" where
  "prints_exc caught e = (if caught e then Some (str_exc e) else None)"

definition missing_or :: "string \<Rightarrow> (py_exc \<Rightarrow> bool) \<Rightarrow> py_exc \<Rightarrow> string option" where
  "missing_or line caught e = (if is_key_error e then Some line else prints_exc caught e)"

definition value_or_runtime :: "py_exc \<Rightarrow> bool" where
  "value_or_runtime e \<longleftrightarrow> is_value_error e \<or> is_runtime_error e"

text \<open>A command that prints one text of a tool's result.\<close>

definition show_result :: "('a \<Rightarrow> string result) \<Rightarrow> ('s shell, 'a) op \<Rightarrow> 's command" where
  "show_result show m = obind m (\<lambda>x. obind (lift (show x)) (\<lambda>line. obind (say line) (\<lambda>_. ret None)))"

definition printed :: "json \<Rightarrow> string result" where
  "printed v = Inr (py_str v)"

section \<open>Casting\<close>

text \<open>\<open>--fail-on-diverged\<close>: exit status 2 when the result reports a diverged lineage.\<close>

definition exit_if_diverged :: "bool \<Rightarrow> json \<Rightarrow> int option result" where
  "exit_if_diverged fail_on_diverged result =
     (if \<not> fail_on_diverged then Inr None
      else
        rbind (field result ''lineage'' JNull) (\<lambda>l.
        rbind (field (either l (JObj [])) ''divergence'' JNull) (\<lambda>d.
        rbind (text_field (either d (JObj [])) ''status'') (\<lambda>st.
        Inr (if st = ''DIVERGED'' then Some 2 else None)))))"

definition say_transcript :: "bool \<Rightarrow> (string, json) dict \<Rightarrow> ('s shell, unit) op" where
  "say_transcript requested result =
     (case given result ''arcane_transcript'' of
        None \<Rightarrow> ret ()
      | Some t \<Rightarrow>
          if requested then obind (say []) (\<lambda>_. say (format_arcane_transcript t)) else ret ())"

definition show_cast ::
  "(string \<Rightarrow> string) \<Rightarrow> bool \<Rightarrow> bool \<Rightarrow> (string, json) dict \<Rightarrow> 's command" where
  "show_cast fill requested fail_on_diverged result =
     obind (lift (format_cast_result fill (JObj result))) (\<lambda>text.
     obind (say text) (\<lambda>_.
     obind (say_transcript requested result) (\<lambda>_.
     lift (exit_if_diverged fail_on_diverged (JObj result)))))"

definition cmd_cast ::
  "event_out \<Rightarrow> stamp \<Rightarrow> engine \<Rightarrow> (int \<Rightarrow> string) \<Rightarrow> (string \<Rightarrow> string) \<Rightarrow> fresh \<Rightarrow> string list \<Rightarrow> cast_args \<Rightarrow> bool
     \<Rightarrow> cast_state facade command"
where
  "cmd_cast K st E isof fill fr names a fail_on_diverged =
     except_exit (missing_or (''Cast not found: '' @ str_or (ca_parent_cast_id a) ''parent'') value_or_runtime)
       (obind (call (facade_cast K st E isof fr names a)) (show_cast fill (ca_include_transcript a) fail_on_diverged))"

definition cmd_fluid_cast ::
  "engine \<Rightarrow> (real \<Rightarrow> real) \<Rightarrow> (int \<Rightarrow> string) \<Rightarrow> (string \<Rightarrow> string) \<Rightarrow> fresh \<Rightarrow> real list \<Rightarrow> cast_args \<Rightarrow> bool
     \<Rightarrow> cast_state facade command" where
  "cmd_fluid_cast E mexp isof fill fr xs a fail_on_diverged =
     except_exit (missing_or (''Cast not found: '' @ str_or (ca_parent_cast_id a) ''parent'') value_or_runtime)
       (obind (call (facade_fluid_cast E mexp isof fr xs a))
          (show_cast fill (ca_include_transcript a) fail_on_diverged))"

definition diagnostic_line :: "nat \<times> json \<Rightarrow> string result" where
  "diagnostic_line = (\<lambda>(idx, step).
     rbind (rbind (field step ''adjusted'' (JFloat 0)) py_float) (\<lambda>adj.
     rbind (rbind (field step ''raw'' (JFloat 0)) py_float) (\<lambda>raw.
     rbind (rbind (field step ''blend_alpha'' (JFloat 0)) py_float) (\<lambda>alpha.
     Inr (''  step '' @ nat_text idx @ '': adjusted='' @ fmt_fixed 4 adj @ '', raw='' @ fmt_fixed 4 raw
          @ '', blend_alpha='' @ fmt_fixed 4 alpha)))))"

definition say_diagnostics :: "json \<Rightarrow> ('s shell, unit) op" where
  "say_diagnostics d =
     obind (say ''Diagnostics:'') (\<lambda>_.
     obind (lift (rbind (field d ''steps'' (JList [])) elements)) (\<lambda>steps.
     obind (omap_list (\<lambda>s. obind (lift (diagnostic_line s)) say) (enumerate 1 steps)) (\<lambda>_.
     obind (lift (field d ''converged'' (JBool False))) (\<lambda>c.
     obind (lift (rbind (field d ''final_adjusted'' (JFloat 0)) py_float)) (\<lambda>x.
     say (''  converged='' @ py_str (JBool (truthy c)) @ '', final_adjusted='' @ fmt_fixed 4 x))))))"

definition cmd_auto_cast ::
  "event_out \<Rightarrow> (nat \<Rightarrow> stamp) \<Rightarrow> engine \<Rightarrow> (real \<Rightarrow> real) \<Rightarrow> (int \<Rightarrow> string) \<Rightarrow> (string \<Rightarrow> string) \<Rightarrow> string \<Rightarrow> stamp list
     \<Rightarrow> (cast_result \<Rightarrow> fresh) \<Rightarrow> real list \<Rightarrow> auto_args \<Rightarrow> cast_state facade command" where
  "cmd_auto_cast K sts E mexp isof fill branch stamps fresh_of xs a =
     except_exit (prints_exc value_or_runtime)
       (obind (call (facade_auto_cast K sts E mexp isof branch stamps fresh_of xs a)) (\<lambda>result.
        obind (lift (format_cast_result fill (JObj result))) (\<lambda>text.
        obind (say text) (\<lambda>_.
        obind (lift (elements (either (dget_or result ''auto_cast_chain'' JNull) (JList [])))) (\<lambda>chain.
        obind (say (''Auto-cast depth: '' @
                    py_str (dget_or result ''auto_cast_depth'' (JInt (int (length chain)))))) (\<lambda>_.
        obind (if length chain > 1
               then say (''Intermediate attempts: '' @ nat_text (length chain - 1)) else ret ()) (\<lambda>_.
        obind (case given result ''diagnostics'' of
                 None \<Rightarrow> ret ()
               | Some d \<Rightarrow> if aa_include_diagnostics a then say_diagnostics d else ret ()) (\<lambda>_.
        obind (say_transcript (aa_include_transcript a) result) (\<lambda>_.
        ret None)))))))))"

definition cmd_geometric_cast ::
  "engine \<Rightarrow> (real \<Rightarrow> real) \<Rightarrow> fresh \<Rightarrow> real list \<Rightarrow> int \<Rightarrow> string option \<Rightarrow> bool \<Rightarrow> cast_state command" where
  "cmd_geometric_cast E mexp fr payload version branch force =
     except_exit (prints_exc value_or_runtime)
       (show_result (\<lambda>d. printed (JObj d)) (call (tool_geometric_cast E mexp fr payload version branch force)))"

text \<open>\<open>encode\<close> and \<open>decode\<close> catch nothing, an unknown enum name is a \<open>KeyError\<close>.\<close>

definition cmd_encode :: "real list \<Rightarrow> intent_args \<Rightarrow> 's command" where
  "cmd_encode xs a =
     show_result printed (lift
       (rbind (of_option (KeyError (ia_reversibility a)) (dget reversibility_members (ia_reversibility a))) (\<lambda>rv.
        rbind (of_option (KeyError (ia_side_effect_tolerance a))
                 (dget tolerance_members (ia_side_effect_tolerance a))) (\<lambda>tol.
        rbind (mk_intent (ia_objective a) (ia_scope a) rv tol) (\<lambda>i.
        rbind (mk_svec xs None) (\<lambda>v.
        rbind (geometric_encode_packet v i None 1) (\<lambda>p.
        Inr (JObj [(''version'', JInt (gp_version p)), (''payload'', JList (map JFloat (gp_payload p)))]))))))))"

definition lineage_dump :: "lineage \<Rightarrow> json" where
  "lineage_dump l =
     JObj [(''parent_cast_id'', JStr (ln_parent_cast_id l)), (''depth'', JInt (ln_depth l)),
       (''branch_id'', JStr (ln_branch_id l)),
       (''divergence_vector'', opt_json (\<lambda>v. JList (map JFloat (comps v))) (ln_divergence_vector l))]"

definition cmd_decode :: "string \<Rightarrow> real list \<Rightarrow> int \<Rightarrow> 's command" where
  "cmd_decode new_branch payload version =
     show_result printed (lift
       (rbind (mk_geometric_packet payload version) (\<lambda>p.
        rbind (geometric_decode_packet new_branch p) (\<lambda>(v, i, lin).
        Inr (JObj [(''vector'', rounded_vector v),
          (''intent'', JObj [(''objective'', JStr (in_objective i)), (''scope'', JStr (in_scope i)),
             (''reversibility'', JStr (enum_name reversibility_members (in_reversibility i))),
             (''side_effect_tolerance'', JStr (enum_name tolerance_members (in_side_effect_tolerance i)))]),
          (''lineage'', opt_json lineage_dump lin),
          (''proof_valid'', JBool (geometric_proof_ok p))])))))"

section \<open>The text of a stored cast\<close>

lemma item_prefix: "dget d k = Some v \<Longrightarrow> item (JObj (d @ others)) k = Inr v"
  by (simp add: map_add_def)

lemma field_prefix: "dget d k = Some v \<Longrightarrow> field (JObj (d @ others)) k w = Inr v"
  by (simp add: dget_or_def map_add_def)

lemma result_entries:
  fixes isof C r
  defines "d \<equiv> cast_result_to_dict isof C r"
  shows "dget d ''sigil_name'' = Some (JStr (sg_name (cr_sigil r)))"
    "dget d ''sigil_aspects'' = Some (JList (map JStr (sort (map aspect_name (sg_aspects (cr_sigil r))))))"
    "dget d ''verdict'' = Some (JStr (enum_name verdict_members (vd_verdict_type (cr_verdict r))))"
    "dget d ''resonance'' = Some (rounded 4 (cast_adjusted r))"
    "dget d ''effect_description'' = Some (JStr (vd_effect_description (cr_verdict r)))"
    "dget d ''casting_note'' = Some (JStr (vd_casting_note (cr_verdict r)))"
    "dget d ''projection_method''
       = Some (JStr (enum_name projection_members (iv_projection_method (vd_intent_vector (cr_verdict r)))))"
    "dget d ''intent_confidence'' = Some (rounded 4 (iv_confidence (vd_intent_vector (cr_verdict r))))"
    "dget d ''cast_id'' = Some (JStr (cr_cast_id r))"
    "dget d ''provenance'' = Some (opt_json provenance_json (cr_provenance r))"
    "dget d ''lineage'' = Some (opt_json (\<lambda>l. lineage_json l (known_report C (cr_cast_id r))) (cr_lineage r))"
  unfolding d_def by (auto simp: cast_result_to_dict_def Let_def)

lemma texts_strings: "texts (JList (map JStr xs)) = Inr xs"
  by (induction xs) (simp_all add: texts_def)

lemma rounded_floats: "rmap_list py_float (map (rounded n) xs) = Inr (map (\<lambda>x. py_round x n) xs)"
  by (induction xs) (simp_all add: rounded_def)

lemma provenance_total: "\<exists>ls. provenance_lines (opt_json provenance_json p) = Inr ls"
  by (cases p) (auto simp: provenance_lines_def provenance_json_def dget_or_def)

lemma divergence_total: "\<exists>t. divergence_text (divergence_json rep) = Inr t"
  by (auto simp: divergence_text_def divergence_json_def text_field_def float_field_def dget_or_def
      rounded_def either_def)

lemma lineage_entries:
  fixes l rep
  defines "j \<equiv> lineage_json l rep"
  shows "item j ''depth'' = Inr (JInt (ln_depth l))" "item j ''branch_id'' = Inr (JStr (ln_branch_id l))"
    "item j ''parent_cast_id'' = Inr (JStr (ln_parent_cast_id l))" "j \<noteq> JNull" "truthy j"
    "field j ''divergence'' JNull = Inr (opt_json divergence_json rep)"
    "field j ''divergence_vector'' JNull = Inr (opt_json rounded_vector (ln_divergence_vector l))"
  unfolding j_def by (auto simp: lineage_json_def dget_or_def split: option.splits)

lemma truthy_divergence: "truthy (opt_json divergence_json rep) \<longleftrightarrow> rep \<noteq> None"
  by (cases rep) (simp_all add: divergence_json_def)

lemma vector_norm_total: "\<exists>x. vector_norm (rounded_vector v) = Inr x"
  by (simp add: vector_norm_def rounded_vector_def rounded_floats)

lemma lineage_total: "\<exists>t. lineage_text (opt_json (\<lambda>l. lineage_json l rep) lin) = Inr t"
proof (cases lin)
  case (Some l)
  show ?thesis
    using divergence_total [of "the rep"] vector_norm_total [of "the (ln_divergence_vector l)"]
    by (cases rep; cases "ln_divergence_vector l")
      (auto simp: Some lineage_text_def lineage_entries truthy_divergence)
qed (simp add: lineage_text_def)

lemma format_cast_total: "\<exists>t. format_cast_result fill (JObj (cast_result_to_dict isof C r @ others)) = Inr t"
  using provenance_total [of "cr_provenance r"] lineage_total [of "known_report C (cr_cast_id r)" "cr_lineage r"]
  by (auto simp: format_cast_result_def float_item_def item_prefix [OF result_entries(1)]
      item_prefix [OF result_entries(2)] item_prefix [OF result_entries(3)] item_prefix [OF result_entries(4)]
      item_prefix [OF result_entries(5)] item_prefix [OF result_entries(6)] item_prefix [OF result_entries(7)]
      item_prefix [OF result_entries(8)] item_prefix [OF result_entries(9)] field_prefix [OF result_entries(10)]
      field_prefix [OF result_entries(11)] texts_strings rounded_def simp del: item.simps field.simps)

lemma diverged_name: "enum_name divergence_members s = ''DIVERGED'' \<longleftrightarrow> s = DIVERGED"
  by (cases s) (simp_all add: enum_name_def divergence_members_def)

lemma exit_status_of_result:
  "exit_if_diverged f (JObj (cast_result_to_dict isof C r @ others)) =
     Inr (if f \<and> cr_lineage r \<noteq> None
             \<and> (\<exists>rep. known_report C (cr_cast_id r) = Some rep \<and> dr_status rep = DIVERGED)
          then Some 2 else None)"
proof (cases "cr_lineage r")
  case None
  then show ?thesis
    by (simp add: exit_if_diverged_def field_prefix [OF result_entries(11)] either_def text_field_def
        dget_or_def del: field.simps) (simp add: dget_or_def py_str_def)
next
  case (Some l)
  show ?thesis
  proof (cases "known_report C (cr_cast_id r)")
    case None
    then show ?thesis
      by (simp add: exit_if_diverged_def field_prefix [OF result_entries(11)] either_def text_field_def Some
          lineage_entries del: field.simps) (simp add: dget_or_def py_str_def)
  next
    case (Some rep)
    then show ?thesis
      by (simp add: exit_if_diverged_def field_prefix [OF result_entries(11)] either_def text_field_def
          \<open>cr_lineage r = Some l\<close> lineage_entries truthy_divergence diverged_name del: field.simps)
        (cases "dr_status rep"; simp add: divergence_json_def dget_or_def enum_name_def divergence_members_def py_str_def)
  qed
qed

section \<open>What the casting commands exit with\<close>

text \<open>The answer of a casting tool is the text of a cast, under the report of its pair if it has a parent.\<close>

lemma finish_cast_answer:
  assumes "finish_cast E isof fr pid b t pat r0 S = (Inr out, S')"
  shows "\<exists>r S1 C others. attach_parent (eg_registry E) fr pid b r0 S = (Inr r, S1)
     \<and> out = cast_result_to_dict isof C r @ others \<and> ct_cache C = ct_cache S1"
  using assms unfolding finish_cast_def Let_def
  by (auto simp: obind_Inr_iff get_state_def ret_def dest!: keepsD [OF keeps_reports(3)])

definition diverged_child :: "string \<Rightarrow> string option \<Rightarrow> cast_state \<Rightarrow> bool" where
  "diverged_child cast_id pid T \<longleftrightarrow>
     pid \<noteq> None \<and> (case read_divergence_report cast_id (ct_reports T) of
                          Inl _ \<Rightarrow> False | Inr rep \<Rightarrow> dr_status rep = DIVERGED)"

text \<open>
  The contract between a casting tool and its command: it fails with an exception the command
  expects, or stores the cast it answers with, next to the report the answer shows.
\<close>

locale casting_tool =
  fixes tool :: "(cast_state, (string, json) dict) op" and isof :: "int \<Rightarrow> string"
    and cast_id :: string and pid :: "string option"
  assumes raises: "tool C = (Inl e, T) \<Longrightarrow> \<exists>m. e \<in> {ValueError m, KeyError m, RuntimeError m}"
    and answers: "tool C = (Inr out, T) \<Longrightarrow>
      \<exists>r D others. out = cast_result_to_dict isof D r @ others \<and> dhas (gd_casts (ct_graph T)) cast_id
        \<and> ((cr_lineage r \<noteq> None \<and> (\<exists>rep. known_report D (cr_cast_id r) = Some rep \<and> dr_status rep = DIVERGED))
            \<longleftrightarrow> diverged_child cast_id pid T)"
begin

text \<open>
  A command over a method that runs the tool and then \<open>after\<close> - the emission of an event.
\<close>

lemma outcome:
  fixes S :: "cast_state facade shell" and after :: "(string, json) dict \<Rightarrow> (cast_state facade, unit) op"
  defines "command m fill requested f \<equiv> except_exit (missing_or m value_or_runtime)
     (obind (call (obind (run_tool tool) (\<lambda>out. obind (after out) (\<lambda>_. ret out)))) (show_cast fill requested f))"
  shows "case tool (fa_tools (sh_tools S)) of
     (Inl e, T) \<Rightarrow>
       \<exists>text. command m fill requested f S
         = (Inr (Some 1), S\<lparr>sh_tools := (sh_tools S)\<lparr>fa_tools := T\<rparr>, sh_err := sh_err S @ [text]\<rparr>)
   | (Inr out, T) \<Rightarrow>
       dhas (gd_casts (ct_graph T)) cast_id \<and>
       (case after out ((sh_tools S)\<lparr>fa_tools := T\<rparr>) of
          (Inl e, A) \<Rightarrow> command m fill requested f S
            = (case missing_or m value_or_runtime e of
                 None \<Rightarrow> (Inl e, S\<lparr>sh_tools := A\<rparr>)
               | Some text \<Rightarrow> (Inr (Some 1), S\<lparr>sh_tools := A, sh_err := sh_err S @ [text]\<rparr>))
        | (Inr _, A) \<Rightarrow> \<exists>text others. command m fill requested f S
            = (Inr (if f \<and> diverged_child cast_id pid T then Some 2 else None),
               S\<lparr>sh_tools := A, sh_out := sh_out S @ text # others\<rparr>))"
proof (cases "tool (fa_tools (sh_tools S))")
  case (Pair r T)
  show ?thesis
  proof (cases r)
    case (Inl e)
    with raises Pair obtain m where "e \<in> {ValueError m, KeyError m, RuntimeError m}" by blast
    with Inl Pair show ?thesis
      by (auto simp: command_def except_exit_def obind_def run_tool_def call_def missing_or_def prints_exc_def
          value_or_runtime_def)
  next
    case (Inr out)
    with answers Pair obtain c D others where out: "out = cast_result_to_dict isof D c @ others"
      "dhas (gd_casts (ct_graph T)) cast_id"
      "(cr_lineage c \<noteq> None \<and> (\<exists>rep. known_report D (cr_cast_id c) = Some rep \<and> dr_status rep = DIVERGED))
        \<longleftrightarrow> diverged_child cast_id pid T" by blast
    obtain shown where shown: "format_cast_result fill (JObj out) = Inr shown"
      using format_cast_total unfolding out(1) by blast
    have status: "exit_if_diverged f (JObj out) = Inr (if f \<and> diverged_child cast_id pid T then Some 2 else None)"
      unfolding out(1) exit_status_of_result using out(3) by auto
    obtain q A where q: "after out ((sh_tools S)\<lparr>fa_tools := T\<rparr>) = (q, A)" by fastforce
    have called: "call (obind (run_tool tool) (\<lambda>out. obind (after out) (\<lambda>_. ret out))) S
        = (rbind q (\<lambda>_. Inr out), S\<lparr>sh_tools := A\<rparr>)"
      using Inr Pair q by (cases q) (simp_all add: call_def run_tool_def obind_def ret_def)
    show ?thesis
    proof (cases q)
      case f: (Inl e)
      then show ?thesis using Inr Pair out(2) q called
        by (simp add: command_def except_exit_def obind_def split: option.split)
    next
      case (Inr u)
      then show ?thesis using \<open>r = Inr out\<close> Pair out(2) q called shown status
        by (auto simp: command_def except_exit_def obind_def show_cast_def lift_def say_def modify_def
            say_transcript_def ret_def split: option.splits)
    qed
  qed
qed

end

lemma casting_tool_of_base:
  assumes tool: "tool = wrapped name (obind base (\<lambda>(A, r). finish_cast E isof fr pid b t A r))"
    and fresh: "returns (\<lambda>(A, r). cr_cast_id r = fst (fr_stamp fr) \<and> cr_lineage r = None) base"
  shows "casting_tool tool isof (fst (fr_stamp fr)) pid"
proof
  show "tool C = (Inl e, T) \<Longrightarrow> \<exists>m. e \<in> {ValueError m, KeyError m, RuntimeError m}" for C e T
    using wrap_exc_kinds unfolding tool wrapped_def by (fastforce split: prod.splits sum.splits)
next
  fix C out T
  assume "tool C = (Inr out, T)"
  then obtain A r0 S1 where b: "base C = (Inr (A, r0), S1)"
    and f: "finish_cast E isof fr pid b t A r0 S1 = (Inr out, T)"
    unfolding tool wrapped_def by (auto simp: obind_Inr_iff split: prod.splits sum.splits)
  from fresh b have r0: "cr_cast_id r0 = fst (fr_stamp fr)" "cr_lineage r0 = None"
    unfolding returns_def by blast+
  from finish_cast_answer [OF f] obtain r S2 D others where
    at: "attach_parent (eg_registry E) fr pid b r0 S1 = (Inr r, S2)"
    and out: "out = cast_result_to_dict isof D r @ others" "ct_cache D = ct_cache S2" by blast
  from finish_cast_cases [OF f] at have st: "store_cast (eg_registry E) r (ct_graph S1) = Inr (ct_graph T)"
    and T: "ct_reports T = ct_reports S2" by auto
  have "gd_casts (ct_graph T) = dset (cr_cast_id r) (serialize_cast_result (eg_registry E) r) (gd_casts (ct_graph S1))"
    using st [symmetric] by (auto simp: store_cast_def write_cast_def rbind_Inr_iff split: if_splits)
  then have stored: "dhas (gd_casts (ct_graph T)) (cr_cast_id r)" by (simp add: dict_simps)
  show "\<exists>r D others. out = cast_result_to_dict isof D r @ others \<and> dhas (gd_casts (ct_graph T)) (fst (fr_stamp fr))
        \<and> ((cr_lineage r \<noteq> None \<and> (\<exists>rep. known_report D (cr_cast_id r) = Some rep \<and> dr_status rep = DIVERGED))
            \<longleftrightarrow> diverged_child (fst (fr_stamp fr)) pid T)"
  proof (cases pid)
    case None
    with at have "r = r0" by (simp add: attach_parent_def)
    with out stored r0 None show ?thesis
      by (intro exI [of _ r] exI [of _ D] exI [of _ others]) (simp add: diverged_child_def)
  next
    case (Some p)
    from attach_parent_Inr [OF at [unfolded Some]] obtain l rep where
      r: "r = r0\<lparr>cr_lineage := Some l\<rparr>" "read_divergence_report (cr_cast_id r0) (ct_reports S2) = Inr (report_view rep)"
        "dget (ct_cache S2) (cr_cast_id r0) = Some rep" by auto
    have "known_report D (cr_cast_id r) = Some rep" using r out(2) by (simp add: known_report_def)
    with r out stored r0 T Some show ?thesis
      by (intro exI [of _ r] exI [of _ D] exI [of _ others]) (simp add: diverged_child_def report_view_def)
  qed
qed

interpretation cast: casting_tool "tool_cast E isof fr names a" isof "fst (fr_stamp fr)" "ca_parent_cast_id a"
  for E isof fr names a
proof (rule casting_tool_of_base)
  let ?base = "obind (lift (rmap_list (resolve_aspect_arg (eg_registry E)) names)) (\<lambda>resolved.
      obind (lift (intent_of_args (ca_intent a))) (\<lambda>i.
      obind (if ca_chained a then chained_base E fr (ca_branch_id a) (ca_force a) (remdups resolved) i
             else plain_base E fr (remdups resolved) i) (\<lambda>r. ret (remdups resolved, r))))"
  show "tool_cast E isof fr names a = wrapped ''cast'' (obind ?base
      (\<lambda>(A, r). finish_cast E isof fr (ca_parent_cast_id a) (ca_branch_id a) (ca_include_transcript a) A r))"
    by (rule ext) (auto simp: tool_cast_def wrapped_def obind_def lift_def ret_def Let_def split: sum.splits prod.splits)
  show "returns (\<lambda>(A, r). cr_cast_id r = fst (fr_stamp fr) \<and> cr_lineage r = None) ?base"
    using bases_fresh(1) [of fr E "ca_branch_id a" "ca_force a"] bases_fresh(2) [of fr E]
    unfolding returns_def by (fastforce simp: obind_Inr_iff lift_def ret_def split: if_splits)
qed

interpretation fluid: casting_tool "tool_fluid_cast E mexp isof fr xs a" isof "fst (fr_stamp fr)" "ca_parent_cast_id a"
  for E mexp isof fr xs a
proof (rule casting_tool_of_base)
  let ?base = "obind (lift (vector_argument xs)) (\<lambda>vec.
      obind (lift (intent_of_args (ca_intent a))) (\<lambda>i.
      obind (lift (fluid_cast E mexp (fr_stamp fr) vec i)) (\<lambda>r. ret (sg_aspects (cr_sigil r), r))))"
  show "tool_fluid_cast E mexp isof fr xs a = wrapped ''fluid_cast'' (obind ?base
      (\<lambda>(A, r). finish_cast E isof fr (ca_parent_cast_id a) (ca_branch_id a) (ca_include_transcript a) A r))"
    by (rule ext) (auto simp: tool_fluid_cast_def wrapped_def obind_def lift_def ret_def split: sum.splits prod.splits)
  show "returns (\<lambda>(A, r). cr_cast_id r = fst (fr_stamp fr) \<and> cr_lineage r = None) ?base"
    unfolding returns_def
    by (auto simp: obind_Inr_iff lift_def ret_def fluid_cast_def rbind_Inr_iff mk_cast_result_def Let_def)
qed

text \<open>
  C39. What \<open>cast\<close> and \<open>fluid-cast\<close> end with. When the tool raises, the command prints one message on
  the standard error, nothing on the standard output, and exits with 1; no event is emitted. When the
  tool answers, the cast is stored, and \<open>cast\<close> has appended one event to the bus. If the event is
  delivered - always when \<open>VERMYTH_EVENT_LOG\<close> is not set and nobody subscribed - the text of the cast is
  printed and nothing goes to the standard error; the exit status is 2 exactly if \<open>--fail-on-diverged\<close>
  was given and the divergence report stored for the cast and its parent says DIVERGED, else 0. If the
  delivery raises, as for an event file that cannot be opened, nothing is printed of the stored cast:
  a \<open>KeyError\<close>, a \<open>ValueError\<close> and a \<open>RuntimeError\<close> are printed as a message with exit status 1, and any
  other exception, an \<open>OSError\<close> above all, ends the command in a traceback. \<open>fluid-cast\<close> emits no event,
  so it never ends in a traceback. The tools end in the state the tool leaves in every case.
\<close>

theorem casting_commands_exit:
  "(case tool_cast E isof fr names a (fa_tools (sh_tools S)) of
     (Inl e, T) \<Rightarrow>
       \<exists>text. cmd_cast K st E isof fill fr names a f S
         = (Inr (Some 1), S\<lparr>sh_tools := (sh_tools S)\<lparr>fa_tools := T\<rparr>, sh_err := sh_err S @ [text]\<rparr>)
   | (Inr out, T) \<Rightarrow>
       dhas (gd_casts (ct_graph T)) (fst (fr_stamp fr)) \<and>
       (\<exists>event A. ev_event_type event = ''cast'' \<and> A = \<lparr>fa_tools = T, fa_bus = append_event event (fa_bus (sh_tools S))\<rparr>
        \<and> (case deliver K event of
             Inr _ \<Rightarrow> \<exists>text others. cmd_cast K st E isof fill fr names a f S
               = (Inr (if f \<and> diverged_child (fst (fr_stamp fr)) (ca_parent_cast_id a) T then Some 2 else None),
                  S\<lparr>sh_tools := A, sh_out := sh_out S @ text # others\<rparr>)
           | Inl e \<Rightarrow>
               if is_key_error e \<or> value_or_runtime e
               then \<exists>text. cmd_cast K st E isof fill fr names a f S
                 = (Inr (Some 1), S\<lparr>sh_tools := A, sh_err := sh_err S @ [text]\<rparr>)
               else cmd_cast K st E isof fill fr names a f S = (Inl e, S\<lparr>sh_tools := A\<rparr>))))
   \<and> (case tool_fluid_cast E mexp isof fr xs a (fa_tools (sh_tools S)) of
     (Inl e, T) \<Rightarrow>
       \<exists>text. cmd_fluid_cast E mexp isof fill fr xs a f S
          = (Inr (Some 1), S\<lparr>sh_tools := (sh_tools S)\<lparr>fa_tools := T\<rparr>, sh_err := sh_err S @ [text]\<rparr>)
   | (Inr out, T) \<Rightarrow>
       dhas (gd_casts (ct_graph T)) (fst (fr_stamp fr)) \<and>
       (\<exists>text others. cmd_fluid_cast E mexp isof fill fr xs a f S
          = (Inr (if f \<and> diverged_child (fst (fr_stamp fr)) (ca_parent_cast_id a) T then Some 2 else None),
             S\<lparr>sh_tools := (sh_tools S)\<lparr>fa_tools := T\<rparr>, sh_out := sh_out S @ text # others\<rparr>)))"
  (is "?cast \<and> ?fluid")
proof
  let ?m = "''Cast not found: '' @ str_or (ca_parent_cast_id a) ''parent''"
  let ?after = "\<lambda>out. emits K st ''cast''
       [(''aspects'', JList (map JStr names)), (''verdict'', entry_of out ''verdict''),
        (''adjusted_resonance'', entry_of out ''adjusted_resonance'')] (id_of out) (ca_branch_id a)"
  note o = cast.outcome [where after = ?after and m = ?m and S = S and f = f and fill = fill
      and requested = "ca_include_transcript a" and E = E and isof = isof and fr = fr and names = names and a = a,
      folded facade_cast_def cmd_cast_def]
  show ?cast
  proof (cases "tool_cast E isof fr names a (fa_tools (sh_tools S))")
    case (Pair r T)
    show ?thesis
    proof (cases r)
      case (Inl e)
      with o Pair show ?thesis by simp
    next
      case (Inr out)
      define event where "event = \<lparr>ev_event_id = fst st, ev_event_type = ''cast'', ev_ts = snd st, ev_payload =
        [(''aspects'', JList (map JStr names)), (''verdict'', entry_of out ''verdict''),
        (''adjusted_resonance'', entry_of out ''adjusted_resonance'')], ev_cast_id = id_of out, ev_branch_id = ca_branch_id a\<rparr>"
      define A where "A = \<lparr>fa_tools = T, fa_bus = append_event event (fa_bus (sh_tools S))\<rparr>"
      have emitted: "?after out ((sh_tools S)\<lparr>fa_tools := T\<rparr>) = (deliver K event, A)"
        by (cases "sh_tools S") (simp add: emits_eq event_def A_def Let_def)
      note answer = o [unfolded Pair Inr prod.case sum.case emitted]
      show ?thesis unfolding Pair Inr prod.case sum.case
      proof (intro conjI exI [of _ event] exI [of _ A])
        show "dhas (gd_casts (ct_graph T)) (fst (fr_stamp fr))" using answer by (rule conjunct1)
        show "ev_event_type event = ''cast''" by (simp add: event_def)
        show "A = \<lparr>fa_tools = T, fa_bus = append_event event (fa_bus (sh_tools S))\<rparr>" by (simp add: A_def)
        show "case deliver K event of
             Inr _ \<Rightarrow> \<exists>text others. cmd_cast K st E isof fill fr names a f S
               = (Inr (if f \<and> diverged_child (fst (fr_stamp fr)) (ca_parent_cast_id a) T then Some 2 else None),
                  S\<lparr>sh_tools := A, sh_out := sh_out S @ text # others\<rparr>)
           | Inl e \<Rightarrow>
               if is_key_error e \<or> value_or_runtime e
               then \<exists>text. cmd_cast K st E isof fill fr names a f S
                 = (Inr (Some 1), S\<lparr>sh_tools := A, sh_err := sh_err S @ [text]\<rparr>)
               else cmd_cast K st E isof fill fr names a f S = (Inl e, S\<lparr>sh_tools := A\<rparr>)"
        proof (cases "deliver K event")
          case (Inl e)
          show ?thesis using conjunct2 [OF answer] unfolding Inl sum.case prod.case
            by (cases "missing_or ?m value_or_runtime e")
              (auto simp: missing_or_def prints_exc_def split: if_splits)
        next
          case (Inr u)
          show ?thesis using conjunct2 [OF answer] unfolding Inr sum.case prod.case .
        qed
      qed
    qed
  qed
  note o = fluid.outcome [where after = "\<lambda>_. ret ()" and m = ?m and S = S and f = f and fill = fill
      and requested = "ca_include_transcript a" and E = E and mexp = mexp and isof = isof and fr = fr and xs = xs and a = a]
  have plain: "facade_fluid_cast E mexp isof fr xs a
      = obind (run_tool (tool_fluid_cast E mexp isof fr xs a)) (\<lambda>out. obind (ret ()) (\<lambda>_. ret out))"
    by (rule ext) (auto simp: facade_fluid_cast_def obind_def ret_def split: prod.split sum.split)
  show ?fluid
    using o [folded plain, folded cmd_fluid_cast_def] unfolding ret_def prod.case sum.case .
qed

section \<open>Queries\<close>

definition cmd_query ::
  "registry \<Rightarrow> (int \<Rightarrow> string) \<Rightarrow> string option \<Rightarrow> real option \<Rightarrow> string option \<Rightarrow> int \<Rightarrow> cast_state command" where
  "cmd_query R isof verdict min_resonance branch limit =
     except_exit (prints_exc value_or_runtime)
       (show_result format_cast_table (ask (tool_query R isof
          [(''verdict_filter'', opt_str verdict), (''min_resonance'', opt_json JFloat min_resonance),
           (''branch_id'', opt_str branch), (''limit'', JInt limit)])))"

text \<open>A limit that is not positive is refused by \<open>SemanticQuery\<close>, whichever it is.\<close>

definition cmd_search ::
  "registry \<Rightarrow> (int \<Rightarrow> string) \<Rightarrow> real list \<Rightarrow> real \<Rightarrow> int \<Rightarrow> cast_state command" where
  "cmd_search R isof vector threshold limit =
     except_exit (prints_exc value_or_runtime)
       (show_result (\<lambda>rs. format_search_table rs None)
          (ask (tool_semantic_search R isof vector threshold (nat limit))))"

definition cmd_inspect :: "registry \<Rightarrow> (int \<Rightarrow> string) \<Rightarrow> (string \<Rightarrow> string) \<Rightarrow> string \<Rightarrow> cast_state command" where
  "cmd_inspect R isof fill cast_id =
     except_exit (missing_or (''Cast not found: '' @ cast_id) is_runtime_error)
       (show_result (format_cast_result fill) (ask (tool_inspect R isof cast_id)))"

definition cmd_lineage :: "registry \<Rightarrow> (int \<Rightarrow> string) \<Rightarrow> string \<Rightarrow> int \<Rightarrow> cast_state command" where
  "cmd_lineage R isof cast_id max_depth =
     except_exit (missing_or (''Cast not found: '' @ cast_id) is_runtime_error)
       (show_result format_lineage_chain (ask (tool_lineage R isof cast_id max_depth)))"

definition cmd_seeds :: "registry \<Rightarrow> bool option \<Rightarrow> cast_state command" where
  "cmd_seeds R crystallized =
     except_exit (prints_exc is_runtime_error) (show_result format_seed_table (ask (tool_seeds R crystallized)))"

definition cmd_crystallized_sigils :: "registry \<Rightarrow> (int \<Rightarrow> string) \<Rightarrow> cast_state command" where
  "cmd_crystallized_sigils R isof =
     except_exit (prints_exc is_runtime_error)
       (show_result format_crystallized_sigils_table (ask (tool_crystallized_sigils R isof)))"

section \<open>Drift\<close>

definition cmd_divergence :: "(int \<Rightarrow> string) \<Rightarrow> string \<Rightarrow> cast_state command" where
  "cmd_divergence isof cast_id =
     except_exit (missing_or (''Divergence report not found: '' @ cast_id) is_runtime_error)
       (show_result format_divergence_report (ask (tool_divergence isof cast_id)))"

text \<open>Only the thresholds that were given are in the payload.\<close>

definition given_floats :: "(string \<times> real option) list \<Rightarrow> (string, json) dict" where
  "given_floats = List.map_filter (\<lambda>(k, x). map_option (\<lambda>x. (k, JFloat x)) x)"

definition cmd_set_thresholds ::
  "real option \<Rightarrow> real option \<Rightarrow> real option \<Rightarrow> real option \<Rightarrow> tool_state command" where
  "cmd_set_thresholds l2_stable l2_diverged cosine_stable cosine_diverged =
     except_exit (prints_exc value_or_runtime)
       (show_result format_divergence_thresholds (call (tool_set_divergence_thresholds (given_floats
          [(''l2_stable_max'', l2_stable), (''l2_diverged_min'', l2_diverged),
           (''cosine_stable_max'', cosine_stable), (''cosine_diverged_min'', cosine_diverged)]))))"

definition cmd_thresholds :: "cast_state command" where
  "cmd_thresholds = show_result format_divergence_thresholds (ask (\<lambda>C. Inr (tool_divergence_thresholds C)))"

definition cmd_divergences ::
  "(int \<Rightarrow> string) \<Rightarrow> (string \<Rightarrow> int result) \<Rightarrow> string option \<Rightarrow> int \<Rightarrow> string option \<Rightarrow> cast_state command" where
  "cmd_divergences isof fromiso status limit since =
     except_exit (prints_exc value_or_runtime)
       (show_result format_divergence_reports_table
          (ask (tool_divergence_reports isof fromiso status limit since)))"

definition cmd_drift_branches :: "(int \<Rightarrow> string) \<Rightarrow> int \<Rightarrow> cast_state command" where
  "cmd_drift_branches isof limit =
     show_result format_drift_branches_table (ask (tool_drift_branches isof limit))"

definition cmd_lineage_drift :: "registry \<Rightarrow> int \<Rightarrow> string \<Rightarrow> int \<Rightarrow> int \<Rightarrow> cast_state command" where
  "cmd_lineage_drift R now cast_id max_depth top_k =
     show_result format_lineage_drift (ask (tool_lineage_drift R now cast_id max_depth top_k))"

text \<open>
  \<open>backfill-divergence\<close>: the pairs without a report are classified under the stored thresholds and
  their reports written and cached; a pair that raises is skipped. \<open>now\<close> is the time of each report.
\<close>

definition backfill_pair :: "registry \<Rightarrow> (string \<Rightarrow> int) \<Rightarrow> string \<times> string \<Rightarrow> (tool_state, unit) op" where
  "backfill_pair R now = (\<lambda>(cast_id, parent_id).
     obind (on_cast (read_parent R cast_id)) (\<lambda>child.
     obind (on_cast (read_parent R parent_id)) (\<lambda>par.
     obind (query_table tl_thresholds read_divergence_thresholds) (\<lambda>t.
     obind (lift (classify (cr_cast_id child) (cr_cast_id par) (sg_semantic_vector (cr_sigil par))
                    (sg_semantic_vector (cr_sigil child)) t (now cast_id))) (\<lambda>report.
     obind (on_cast (report_write (write_divergence_report report))) (\<lambda>_.
     on_cast (modify (\<lambda>C. C\<lparr>ct_cache := dset (cr_cast_id child) report (ct_cache C)\<rparr>))))))))"

fun backfill_pairs :: "registry \<Rightarrow> (string \<Rightarrow> int) \<Rightarrow> (string \<times> string) list \<Rightarrow> (tool_state, nat) op" where
  "backfill_pairs R now [] S = (Inr 0, S)"
| "backfill_pairs R now (p # ps) S =
     (case backfill_pair R now p S of
        (Inl e, S') \<Rightarrow> backfill_pairs R now ps S'
      | (Inr _, S') \<Rightarrow> obind (backfill_pairs R now ps) (\<lambda>n. ret (Suc n)) S')"

definition missing_pairs :: "int \<Rightarrow> tool_state \<Rightarrow> (string \<times> string) list result" where
  "missing_pairs limit S =
     cast_pairs_missing_divergence_reports limit (gd_casts (ct_graph (tl_cast S))) (ct_reports (tl_cast S))"

definition cmd_backfill_divergence :: "registry \<Rightarrow> (string \<Rightarrow> int) \<Rightarrow> int \<Rightarrow> tool_state command" where
  "cmd_backfill_divergence R now limit =
     obind (ask (missing_pairs limit)) (\<lambda>pairs.
     if pairs = [] then obind (say ''No missing divergence reports.'') (\<lambda>_. ret None)
     else
       obind (call (backfill_pairs R now pairs)) (\<lambda>processed.
       obind (say (''Backfilled '' @ nat_text processed @ '' divergence reports.'')) (\<lambda>_. ret None)))"

section \<open>What backfilling leaves\<close>

definition pair_report ::
  "registry \<Rightarrow> (string \<Rightarrow> int) \<Rightarrow> tool_state \<Rightarrow> string \<times> string \<Rightarrow> divergence_report option" where
  "pair_report R now S = (\<lambda>(cast_id, parent_id).
     let casts = gd_casts (ct_graph (tl_cast S)) in
     case rbind (read_cast R cast_id casts) (\<lambda>child.
          rbind (read_cast R parent_id casts) (\<lambda>par.
          rbind (read_divergence_thresholds (tl_thresholds S)) (\<lambda>t.
          classify cast_id parent_id (sg_semantic_vector (cr_sigil par))
            (sg_semantic_vector (cr_sigil child)) t (now cast_id)))) of
       Inl _ \<Rightarrow> None | Inr rep \<Rightarrow> Some rep)"

definition add_report :: "divergence_report \<Rightarrow> tool_state \<Rightarrow> tool_state" where
  "add_report rep S =
     S\<lparr>tl_cast := (tl_cast S)
        \<lparr>ct_reports := (case write_divergence_report rep (ct_reports (tl_cast S)) of
                          Inl _ \<Rightarrow> ct_reports (tl_cast S) | Inr T \<Rightarrow> T),
         ct_cache := dset (dr_cast_id rep) rep (ct_cache (tl_cast S))\<rparr>\<rparr>"

lemma read_cast_id: "casts_ok R T \<Longrightarrow> read_cast R k T = Inr r \<Longrightarrow> cr_cast_id r = k"
  by (fastforce simp: read_cast_def casts_ok_def rbind_Inr_iff deserialize_cast_result_def dest: map_of_SomeD
      split: option.splits)

lemma classify_ids: "classify k p v w t n = Inr rep \<Longrightarrow> dr_cast_id rep = k \<and> dr_parent_cast_id rep = p \<and> report_valid rep"
  using classify_report_valid by (auto simp: classify_def rbind_Inr_iff Let_def split: prod.splits)

lemma pair_report_ids: "pair_report R now S (k, p) = Some rep \<Longrightarrow>
    dr_cast_id rep = k \<and> dr_parent_cast_id rep = p \<and> report_valid rep"
  by (auto simp: pair_report_def Let_def rbind_Inr_iff split: sum.splits dest!: classify_ids)

lemma backfill_pair_eq:
  assumes "casts_ok R (gd_casts (ct_graph (tl_cast S)))"
  shows "case pair_report R now S p of
     None \<Rightarrow> \<exists>e. backfill_pair R now p S = (Inl e, S)
   | Some rep \<Rightarrow> backfill_pair R now p S = (Inr (), add_report rep S)"
proof -
  obtain k q where p: "p = (k, q)" by force
  let ?T = "gd_casts (ct_graph (tl_cast S))"
  show ?thesis
  proof (cases "read_cast R k ?T")
    case (Inr child)
    show ?thesis
    proof (cases "read_cast R q ?T")
      case par: (Inr par)
      have ids: "cr_cast_id child = k" "cr_cast_id par = q"
        using read_cast_id [OF assms Inr] read_cast_id [OF assms par] by simp_all
      show ?thesis
      proof (cases "read_divergence_thresholds (tl_thresholds S)")
        case t: (Inr t)
        show ?thesis
          by (cases "classify k q (sg_semantic_vector (cr_sigil par)) (sg_semantic_vector (cr_sigil child)) t (now k)")
            (auto simp: p Inr par t ids pair_report_def backfill_pair_def on_cast_def read_parent_def query_table_def
              obind_def lift_def write_table_def write_divergence_report_def modify_def add_report_def dest: classify_ids)
      qed (simp add: p Inr par pair_report_def backfill_pair_def on_cast_def read_parent_def query_table_def obind_def)
    qed (simp add: p Inr pair_report_def backfill_pair_def on_cast_def read_parent_def query_table_def obind_def)
  qed (simp add: p pair_report_def backfill_pair_def on_cast_def read_parent_def query_table_def obind_def)
qed

lemma default_thresholds_ok: "thresholds_ok default_divergence_thresholds"
proof -
  have "lit (3/10) \<le> 1/2" "5/8 \<le> lit (7/10)" "lit (1/5) \<le> 1/4" "lit (1/2) = 1/2"
    using fl_le [of "3/10" "1/2"] fl_ge [of "5/8" "7/10"] fl_le [of "1/5" "1/4"] lit_double [of "1/2"]
      is_double_dyadic [of 1 1] is_double_dyadic [of 5 3] is_double_dyadic [of 1 2] by (simp_all add: lit_def)
  moreover have "0 \<le> lit (3/10)" "0 \<le> lit (1/5)" by (simp_all add: lit_unit)
  ultimately show ?thesis by (simp add: thresholds_ok_def default_divergence_thresholds_def)
qed

text \<open>Only a pair whose parent is gone, or thresholds that cannot be read, leave it without a report.\<close>

lemma pair_report_None:
  assumes "casts_ok R (gd_casts (ct_graph (tl_cast S)))" "pair_report R now S (k, p) = None"
    and "dhas (gd_casts (ct_graph (tl_cast S))) k"
  shows "\<not> dhas (gd_casts (ct_graph (tl_cast S))) p \<or> (\<exists>e. read_divergence_thresholds (tl_thresholds S) = Inl e)"
proof (rule ccontr)
  let ?T = "gd_casts (ct_graph (tl_cast S))"
  assume "\<not> ?thesis"
  then obtain t where p: "dhas ?T p" and t: "read_divergence_thresholds (tl_thresholds S) = Inr t"
    by (metis sumE)
  have ok: "thresholds_ok t"
    using t default_thresholds_ok
    by (auto simp: read_divergence_thresholds_def dest: mk_divergence_thresholds_ok split: option.splits)
  have readable: "\<exists>r. read_cast R q ?T = Inr r" if q: "dhas ?T q" for q
  proof -
    from q obtain row where row: "dget ?T q = Some row" by auto
    then have "row \<in> set (map snd ?T)" by (force dest: map_of_SomeD)
    from casts_ok_row [OF assms(1) this] row show ?thesis by (auto simp: read_cast_def)
  qed
  obtain c r where "read_cast R k ?T = Inr c" "read_cast R p ?T = Inr r" using readable p assms(3) by blast
  then show False
    using assms(2) t classify_total [OF ok, of k p "sg_semantic_vector (cr_sigil r)" "sg_semantic_vector (cr_sigil c)" "now k"]
    by (auto simp: pair_report_def)
qed

lemma add_report_keeps [simp]:
  "ct_graph (tl_cast (add_report rep S)) = ct_graph (tl_cast S)"
  "tl_thresholds (add_report rep S) = tl_thresholds S" "tl_swarms (add_report rep S) = tl_swarms S"
  "pair_report R now (add_report rep S) = pair_report R now S"
  by (simp_all add: add_report_def pair_report_def)

lemma backfill_pairs_eq:
  "casts_ok R (gd_casts (ct_graph (tl_cast S))) \<Longrightarrow>
   backfill_pairs R now ps S =
     (Inr (length (List.map_filter (pair_report R now S) ps)),
      fold add_report (List.map_filter (pair_report R now S) ps) S)"
proof (induction ps arbitrary: S)
  case (Cons p ps)
  from backfill_pair_eq [OF Cons.prems, of now p] Cons.IH [of S]
    Cons.IH [of "add_report (the (pair_report R now S p)) S"] Cons.prems
  show ?case
    by (cases "pair_report R now S p") (auto simp: map_filter_simps obind_def ret_def)
qed (simp add: map_filter_simps)

lemma reports_after:
  "ct_graph (tl_cast (fold add_report reps S)) = ct_graph (tl_cast S)
   \<and> tl_thresholds (fold add_report reps S) = tl_thresholds S \<and> tl_swarms (fold add_report reps S) = tl_swarms S
   \<and> (k \<notin> dr_cast_id ` set reps \<longrightarrow>
        dget (ct_reports (tl_cast (fold add_report reps S))) k = dget (ct_reports (tl_cast S)) k)"
proof (induction reps arbitrary: S)
  case (Cons rep reps)
  from Cons.IH [of "add_report rep S"] show ?case
    by (auto simp: add_report_def write_divergence_report_def dict_simps)
qed simp

lemma reports_written:
  assumes "distinct (map dr_cast_id reps)" "rep \<in> set reps" "report_valid rep"
  shows "read_divergence_report (dr_cast_id rep) (ct_reports (tl_cast (fold add_report reps S))) = Inr (report_view rep)"
  using assms
proof (induction reps arbitrary: S)
  case (Cons r reps)
  show ?case
  proof (cases "rep = r")
    case True
    have "dget (ct_reports (tl_cast (fold add_report reps (add_report r S)))) (dr_cast_id r)
        = dget (ct_reports (tl_cast (add_report r S))) (dr_cast_id r)"
      using reports_after [of reps "add_report r S" "dr_cast_id r"] Cons.prems(1) by simp
    moreover obtain T where T: "write_divergence_report r (ct_reports (tl_cast S)) = Inr T"
      by (simp add: write_divergence_report_def)
    moreover have "read_divergence_report (dr_cast_id r) T = Inr (report_view r)"
      using reports.fetch_put [OF _ T] Cons.prems(3) True by simp
    moreover have "ct_reports (tl_cast (add_report r S)) = T" using T by (simp add: add_report_def)
    ultimately show ?thesis using True by (simp add: read_divergence_report_def)
  qed (use Cons in simp)
qed simp

lemma missing_pairs_keys:
  assumes "casts_ok R (gd_casts (ct_graph (tl_cast S)))" "missing_pairs limit S = Inr pairs"
  shows "distinct (map fst pairs)" "(k, p) \<in> set pairs \<Longrightarrow> \<not> dhas (ct_reports (tl_cast S)) k"
    "(k, p) \<in> set pairs \<Longrightarrow> dhas (gd_casts (ct_graph (tl_cast S))) k"
proof -
  let ?T = "gd_casts (ct_graph (tl_cast S))"
  define rows where "rows = sql_limit limit (sort_key (\<lambda>row. - row_timestamp row)
     (filter (\<lambda>row. row_lineage row \<noteq> None \<and> \<not> dhas (ct_reports (tl_cast S)) (row_cast_id row)) (map snd ?T)))"
  have pairs: "pairs = List.map_filter (\<lambda>row. map_option (\<lambda>l. (row_cast_id row, ln_parent_cast_id l)) (row_lineage row)) rows"
    using assms(2) by (auto simp: missing_pairs_def cast_pairs_missing_divergence_reports_def rbind_Inr_iff rows_def)
  have rows: "row \<in> set rows \<Longrightarrow>
      row \<in> set (map snd ?T) \<and> row_lineage row \<noteq> None \<and> \<not> dhas (ct_reports (tl_cast S)) (row_cast_id row)" for row
    using set_sql_limit by (fastforce simp: rows_def)
  have row_of: "\<exists>row \<in> set rows. row_cast_id row = k" if "(k, p) \<in> set pairs" for k p
    using that unfolding pairs by (auto simp: map_filter_def)
  show "(k, p) \<in> set pairs \<Longrightarrow> dhas ?T k"
    using row_of rows casts_ok_row [OF assms(1)] by (metis option.distinct(1))
  show "(k, p) \<in> set pairs \<Longrightarrow> \<not> dhas (ct_reports (tl_cast S)) k"
    using row_of rows by blast
  have "distinct (map row_cast_id (map snd ?T))"
    using assms(1) unfolding casts_ok_keys [OF assms(1)] by (simp add: casts_ok_def keys_distinct_def)
  then have "distinct (map row_cast_id (sort_key (\<lambda>row. - row_timestamp row)
     (filter (\<lambda>row. row_lineage row \<noteq> None \<and> \<not> dhas (ct_reports (tl_cast S)) (row_cast_id row)) (map snd ?T))))"
    (is "distinct (map _ ?xs)")
    by (simp only: distinct_map distinct_sort distinct_filter set_sort set_filter) (auto intro: inj_on_subset)
  then have "distinct (map row_cast_id rows)"
    unfolding rows_def sql_limit_def by (simp add: take_map [symmetric])
  moreover have "map fst pairs = map row_cast_id rows"
  proof -
    have "\<forall>row \<in> set rows. row_lineage row \<noteq> None" using rows by blast
    then show ?thesis unfolding pairs by (induction rows) (auto simp: map_filter_simps)
  qed
  ultimately show "distinct (map fst pairs)" by simp
qed

text \<open>
  C40. \<open>backfill-divergence\<close> over well-formed casts.  Only the reading of the pairs without a report can
  raise, for a limit that does not fit in 64 bits: the command then ends with that exception and has
  changed and printed nothing.  Otherwise it returns normally, changes no cast, edge, threshold or
  swarm, and leaves every report that was there.  Each of the pairs has its report under the stored
  thresholds afterwards, of the right cast and parent; only a pair whose parent is not stored stays
  without one - or every pair, when the stored thresholds cannot be read.  The number printed is the
  number of reports written.
\<close>

theorem backfill_completes:
  assumes "casts_ok R (gd_casts (ct_graph (tl_cast S)))"
  shows "case missing_pairs limit S of
     Inl e \<Rightarrow> limit \<notin> {- (2 ^ 63) ..< 2 ^ 63} \<and> cmd_backfill_divergence R now limit (started S) = (Inl e, started S)
   | Inr pairs \<Rightarrow> \<exists>S' line. cmd_backfill_divergence R now limit (started S)
       = (Inr None, \<lparr>sh_tools = S', sh_out = [line], sh_err = []\<rparr>)
     \<and> ct_graph (tl_cast S') = ct_graph (tl_cast S) \<and> tl_thresholds S' = tl_thresholds S
     \<and> tl_swarms S' = tl_swarms S
     \<and> (\<forall>k. dhas (ct_reports (tl_cast S)) k \<longrightarrow>
          dget (ct_reports (tl_cast S')) k = dget (ct_reports (tl_cast S)) k)
     \<and> (\<forall>(k, p) \<in> set pairs. case pair_report R now S (k, p) of
          None \<Rightarrow> \<not> dhas (ct_reports (tl_cast S')) k
            \<and> (\<not> dhas (gd_casts (ct_graph (tl_cast S))) p \<or> (\<exists>e. read_divergence_thresholds (tl_thresholds S) = Inl e))
        | Some rep \<Rightarrow> read_divergence_report k (ct_reports (tl_cast S')) = Inr (report_view rep)
            \<and> dr_cast_id rep = k \<and> dr_parent_cast_id rep = p)
     \<and> line = (if pairs = [] then ''No missing divergence reports.''
               else ''Backfilled '' @ nat_text (length (filter (\<lambda>pr. pair_report R now S pr \<noteq> None) pairs))
                    @ '' divergence reports.'')"
proof (cases "missing_pairs limit S")
  case (Inl e)
  then show ?thesis
    by (auto simp: cmd_backfill_divergence_def ask_def call_def obind_def started_def missing_pairs_def
        cast_pairs_missing_divergence_reports_def sql_int_def split: if_splits)
next
  case (Inr pairs)
  define reps where "reps = List.map_filter (pair_report R now S) pairs"
  define S' where "S' = fold add_report reps S"
  note keys = missing_pairs_keys [OF assms Inr]
  have set_reps: "rep \<in> set reps \<longleftrightarrow> (\<exists>pr \<in> set pairs. pair_report R now S pr = Some rep)" for rep
    by (auto simp: reps_def map_filter_def image_iff) force
  have ids: "dr_cast_id rep \<in> fst ` set pairs" if "rep \<in> set reps" for rep
  proof -
    from that obtain k p where "(k, p) \<in> set pairs" "pair_report R now S (k, p) = Some rep"
      unfolding set_reps by force
    then show ?thesis by (force dest: pair_report_ids)
  qed
  have dist: "distinct (map dr_cast_id reps)"
  proof -
    have "map dr_cast_id reps = map fst (filter (\<lambda>pr. pair_report R now S pr \<noteq> None) pairs)"
      unfolding reps_def by (induction pairs) (auto simp: map_filter_simps dest: pair_report_ids)
    with keys(1) show ?thesis by (simp add: distinct_map_filter)
  qed
  have n: "length reps = length (filter (\<lambda>pr. pair_report R now S pr \<noteq> None) pairs)"
    unfolding reps_def by (induction pairs) (auto simp: map_filter_simps)
  have run: "cmd_backfill_divergence R now limit (started S)
      = (Inr None, \<lparr>sh_tools = S', sh_out = [if pairs = [] then ''No missing divergence reports.''
               else ''Backfilled '' @ nat_text (length reps) @ '' divergence reports.''], sh_err = []\<rparr>)"
    using backfill_pairs_eq [OF assms, of now pairs] Inr
    by (simp add: cmd_backfill_divergence_def ask_def call_def obind_def started_def say_def modify_def ret_def
        S'_def reps_def map_filter_simps)
  have old: "dget (ct_reports (tl_cast S')) k = dget (ct_reports (tl_cast S)) k" if "k \<notin> dr_cast_id ` set reps" for k
    using reports_after [of reps S k] that unfolding S'_def by blast
  have kept: "dget (ct_reports (tl_cast S')) k = dget (ct_reports (tl_cast S)) k" if "dhas (ct_reports (tl_cast S)) k" for k
    using that ids keys(2) by (intro old) force
  have pair: "case pair_report R now S (k, p) of
          None \<Rightarrow> \<not> dhas (ct_reports (tl_cast S')) k
            \<and> (\<not> dhas (gd_casts (ct_graph (tl_cast S))) p \<or> (\<exists>e. read_divergence_thresholds (tl_thresholds S) = Inl e))
        | Some rep \<Rightarrow> read_divergence_report k (ct_reports (tl_cast S')) = Inr (report_view rep)
            \<and> dr_cast_id rep = k \<and> dr_parent_cast_id rep = p" if "(k, p) \<in> set pairs" for k p
  proof (cases "pair_report R now S (k, p)")
    case None
    have "k \<notin> dr_cast_id ` set reps"
    proof
      assume "k \<in> dr_cast_id ` set reps"
      then obtain rep where rep: "rep \<in> set reps" "dr_cast_id rep = k" by blast
      then obtain k' q where "(k', q) \<in> set pairs" "pair_report R now S (k', q) = Some rep"
        unfolding set_reps by force
      with rep(2) have "(k, q) \<in> set pairs" "pair_report R now S (k, q) = Some rep"
        by (auto dest: pair_report_ids)
      with that None keys(1) show False by (metis eq_key_imp_eq_value option.distinct(1))
    qed
    with old keys(2) [OF that] pair_report_None [OF assms None keys(3) [OF that]] None show ?thesis by simp
  next
    case (Some rep)
    with that have "rep \<in> set reps" unfolding set_reps by blast
    with reports_written [OF dist] pair_report_ids [OF Some] Some show ?thesis by (auto simp: S'_def)
  qed
  show ?thesis
    unfolding Inr sum.case
    using run reports_after [of reps S] kept pair n unfolding S'_def [symmetric]
    by (intro exI [of _ S'] exI conjI; auto)
qed

definition sample_child :: cast_result where
  "sample_child = sample_cast\<lparr>cr_cast_id := ''c2'', cr_lineage := Some
     \<lparr>ln_parent_cast_id = ''c1'', ln_depth = 1, ln_branch_id = ''b'', ln_divergence_vector = None\<rparr>\<rparr>"

definition sample_pair_state :: tool_state where
  "sample_pair_state =
     \<lparr>tl_cast = empty_state\<lparr>ct_graph := \<lparr>gd_casts =
        [(''c1'', serialize_cast_result empty_registry sample_cast),
         (''c2'', serialize_cast_result empty_registry sample_child)], gd_edges = []\<rparr>\<rparr>,
      tl_swarms = \<lparr>swd_swarms = [], swd_members = []\<rparr>, tl_thresholds = None\<rparr>"

lemma sample_pair:
  "casts_ok empty_registry (gd_casts (ct_graph (tl_cast sample_pair_state)))"
  "missing_pairs 5 sample_pair_state = Inr [(''c2'', ''c1'')]"
proof -
  have "cast_valid empty_registry sample_child"
    using sample_cast_valid by (simp add: sample_child_def cast_valid_halves)
  then show "casts_ok empty_registry (gd_casts (ct_graph (tl_cast sample_pair_state)))"
  proof -
    have "row_cast_id (serialize_cast_result empty_registry r) = cr_cast_id r" for r
      by (simp add: serialize_cast_result_def)
    moreover have "cr_cast_id sample_child = ''c2''" by (simp add: sample_child_def)
    ultimately show ?thesis
      using sample_cast_valid registry_ok_empty \<open>cast_valid empty_registry sample_child\<close>
      by (auto simp: casts_ok_def sample_pair_state_def keys_distinct_def empty_state_def sample_cast_sel)
  qed
  have "cr_lineage sample_cast = None" by (simp add: sample_cast_def mk_cast_result_def)
  then show "missing_pairs 5 sample_pair_state = Inr [(''c2'', ''c1'')]"
    by (simp add: missing_pairs_def cast_pairs_missing_divergence_reports_def sql_int_def sql_limit_def
        sample_pair_state_def empty_state_def serialize_cast_result_def sample_child_def map_filter_simps)
qed

lemma backfill_completes_witness:
  "\<exists>S' rep. cmd_backfill_divergence empty_registry (\<lambda>_. 7) 5 (started sample_pair_state)
       = (Inr None, \<lparr>sh_tools = S', sh_out = [''Backfilled 1 divergence reports.''], sh_err = []\<rparr>)
     \<and> read_divergence_report ''c2'' (ct_reports (tl_cast S')) = Inr (report_view rep)
     \<and> dr_parent_cast_id rep = ''c1''"
proof -
  have "pair_report empty_registry (\<lambda>_. 7) sample_pair_state (''c2'', ''c1'') \<noteq> None"
    using pair_report_None [OF sample_pair(1), of "\<lambda>_. 7" "''c2''" "''c1''"]
    by (auto simp: sample_pair_state_def empty_state_def read_divergence_thresholds_def)
  moreover have "nat_text (Suc 0) = ''1''" by code_simp
  ultimately show ?thesis
    using backfill_completes [OF sample_pair(1), of 5 "\<lambda>_. 7"] unfolding sample_pair(2) sum.case
    by (auto split: option.splits)
qed

section \<open>Registry and genesis\<close>

definition cmd_register_aspect :: "int \<Rightarrow> string \<Rightarrow> int \<Rightarrow> real \<Rightarrow> string \<Rightarrow> genesis_state command" where
  "cmd_register_aspect now aspect_id polarity entropy symbol =
     except_exit (prints_exc is_value_error)
       (obind (call (tool_register_aspect now aspect_id polarity entropy symbol)) (\<lambda>_. ret None))"

definition cmd_register_sigil :: "int \<Rightarrow> (string, json) dict \<Rightarrow> genesis_state command" where
  "cmd_register_sigil now payload =
     except_exit (prints_exc value_or_runtime) (obind (call (tool_register_sigil now payload)) (\<lambda>_. ret None))"

definition sigil_row_json :: "sigil_row \<Rightarrow> json" where
  "sigil_row_json row =
     JObj [(''name'', JStr (srw_name row)), (''aspects'', JList (map JStr (srw_aspects row))),
       (''effect_class'', JStr (srw_effect_class row)),
       (''resonance_ceiling'', JFloat (srw_resonance_ceiling row)),
       (''contradiction_severity'', JStr (srw_contradiction_severity row)),
       (''is_override'', JBool (srw_is_override row))]"

definition tool_registered_sigils :: "genesis_state \<Rightarrow> json list" where
  "tool_registered_sigils S = map sigil_row_json (query_registered_sigils (gn_sigils S))"

definition cmd_registered_sigils :: "genesis_state command" where
  "cmd_registered_sigils =
     except_exit (prints_exc is_runtime_error)
       (show_result format_registered_sigils_table (ask (\<lambda>S. Inr (tool_registered_sigils S))))"

text \<open>\<open>SemanticQuery\<close> refuses a history limit that is not positive.\<close>

definition cmd_propose_genesis ::
  "event_out \<Rightarrow> stamp \<Rightarrow> (int \<Rightarrow> string) \<Rightarrow> (nat \<Rightarrow> string) \<Rightarrow> int \<Rightarrow> int \<Rightarrow> int \<Rightarrow> real \<Rightarrow> real
     \<Rightarrow> genesis_state facade command" where
  "cmd_propose_genesis K ev isof ids now history_limit min_size min_variance min_rate =
     except_exit (prints_exc is_value_error)
       (show_result (\<lambda>ps. printed (JList ps)) (call (facade_propose_genesis K ev isof ids now
          \<lparr>pa_history_limit = nat history_limit, pa_min_cluster_size = min_size,
           pa_min_unexplained_variance = min_variance, pa_min_coherence_rate = min_rate\<rparr>)))"

definition cmd_genesis_proposals :: "(int \<Rightarrow> string) \<Rightarrow> string option \<Rightarrow> int \<Rightarrow> genesis_state command" where
  "cmd_genesis_proposals isof status limit =
     except_exit (prints_exc is_value_error)
       (show_result (\<lambda>ps. printed (JList ps)) (call (tool_genesis_proposals isof status limit)))"

definition proposal_missing :: "string \<Rightarrow> py_exc \<Rightarrow> string option" where
  "proposal_missing genesis_id = missing_or (''Genesis proposal not found: '' @ genesis_id) (\<lambda>_. False)"

definition cmd_accept_genesis :: "(int \<Rightarrow> string) \<Rightarrow> int \<Rightarrow> string \<Rightarrow> genesis_state command" where
  "cmd_accept_genesis isof now genesis_id =
     except_exit (proposal_missing genesis_id) (show_result printed (call (tool_accept_genesis isof now genesis_id)))"

definition cmd_reject_genesis :: "(int \<Rightarrow> string) \<Rightarrow> int \<Rightarrow> string \<Rightarrow> genesis_state command" where
  "cmd_reject_genesis isof now genesis_id =
     except_exit (proposal_missing genesis_id) (show_result printed (call (tool_reject_genesis isof now genesis_id)))"

definition cmd_review_genesis ::
  "(int \<Rightarrow> string) \<Rightarrow> int \<Rightarrow> string \<Rightarrow> string \<Rightarrow> string option \<Rightarrow> genesis_state command" where
  "cmd_review_genesis isof now genesis_id reviewer note =
     except_exit (proposal_missing genesis_id)
       (show_result printed (call (tool_review_genesis isof now genesis_id reviewer note)))"

section \<open>The causal graph\<close>

definition edge_type_members :: "(string, causal_edge_type) dict" where
  "edge_type_members =
     [(''CAUSES'', CAUSES), (''INHIBITS'', INHIBITS), (''ENABLES'', ENABLES), (''REQUIRES'', REQUIRES)]"

definition causal_edge_to_dict :: "(int \<Rightarrow> string) \<Rightarrow> causal_edge \<Rightarrow> json" where
  "causal_edge_to_dict isof e =
     JObj [(''edge_id'', JStr (ce_edge_id e)), (''source_cast_id'', JStr (ce_source e)),
       (''target_cast_id'', JStr (ce_target e)), (''edge_type'', JStr (enum_name edge_type_members (ce_type e))),
       (''weight'', JFloat (ce_weight e)), (''created_at'', JStr (isof (ce_created_at e))),
       (''evidence'', opt_str (ce_evidence e))]"

definition causal_subgraph_to_dict :: "(int \<Rightarrow> string) \<Rightarrow> causal_subgraph \<Rightarrow> json" where
  "causal_subgraph_to_dict isof g =
     JObj [(''root_cast_id'', JStr (sub_root g)), (''nodes'', JList (map JStr (sub_nodes g))),
       (''edges'', JList (map (causal_edge_to_dict isof) (sub_edges g))),
       (''narrative_coherence'', JFloat (sub_narrative g))]"

definition cmd_infer_cause ::
  "event_out \<Rightarrow> stamp \<Rightarrow> registry \<Rightarrow> (int \<Rightarrow> string) \<Rightarrow> stamp \<Rightarrow> string \<Rightarrow> string \<Rightarrow> graph_db facade command" where
  "cmd_infer_cause K ev R isof st source_id target_id =
     except_exit (prints_exc (\<lambda>e. is_key_error e \<or> is_value_error e))
       (show_result (\<lambda>e. printed (JObj [(''edge'', opt_json (causal_edge_to_dict isof) e)]))
          (call (facade_infer_causal_edge K ev R st source_id target_id)))"

text \<open>The stamp gives the edge its id and its time; \<open>edge_type\<close> is the name argparse let through.\<close>

definition cmd_add_cause ::
  "(int \<Rightarrow> string) \<Rightarrow> stamp \<Rightarrow> string \<Rightarrow> string \<Rightarrow> string \<Rightarrow> real \<Rightarrow> string \<Rightarrow> graph_db command" where
  "cmd_add_cause isof st source_id target_id edge_type weight evidence =
     except_exit (prints_exc is_value_error)
       (obind (lift (of_option (ValueError ''edge_type'') (dget edge_type_members edge_type))) (\<lambda>ty.
        show_result (\<lambda>e. printed (causal_edge_to_dict isof e)) (call (on_db (tool_add_causal_edge
          \<lparr>ce_edge_id = fst st, ce_source = source_id, ce_target = target_id, ce_type = ty,
           ce_weight = weight, ce_created_at = snd st, ce_evidence = Some evidence\<rparr>)))))"

definition direction_members :: "(string, direction) dict" where
  "direction_members = [(''forward'', FORWARD), (''backward'', BACKWARD), (''both'', BOTH)]"

definition cmd_causal_graph ::
  "(int \<Rightarrow> string) \<Rightarrow> string \<Rightarrow> string list option \<Rightarrow> string \<Rightarrow> int \<Rightarrow> real \<Rightarrow> graph_db command" where
  "cmd_causal_graph isof root_id edge_types direction max_depth min_weight =
     show_result (\<lambda>g. printed (causal_subgraph_to_dict isof g))
       (ask (\<lambda>G.
          rbind (opt_result (rmap_list (\<lambda>n. of_option (ValueError ''edge_types'') (dget edge_type_members n))) edge_types) (\<lambda>tys.
          rbind (of_option (ValueError ''direction'') (dget direction_members direction)) (\<lambda>dir.
          tool_causal_subgraph
            \<lparr>cq_root = root_id, cq_edge_types = tys, cq_direction = dir, cq_max_depth = nat max_depth,
             cq_min_weight = min_weight\<rparr> G))))"

definition cmd_evaluate_narrative :: "string list \<Rightarrow> graph_db command" where
  "cmd_evaluate_narrative edge_ids =
     show_result (\<lambda>(score, n). printed (JObj [(''narrative_coherence'', JFloat score), (''edge_count'', JInt (int n))]))
       (ask (tool_evaluate_narrative edge_ids))"

definition cmd_predictive_cast ::
  "engine \<Rightarrow> (real \<Rightarrow> real) \<Rightarrow> (string \<Rightarrow> string) \<Rightarrow> string \<Rightarrow> stamp list \<Rightarrow> stamp list \<Rightarrow> string \<Rightarrow> intent_args
     \<Rightarrow> graph_db command" where
  "cmd_predictive_cast E mexp fill branch_id stamps edge_stamps root_id a =
     show_result (format_cast_result fill)
       (obind (lift (intent_of_args a)) (\<lambda>i. call (tool_predictive_cast E mexp branch_id stamps edge_stamps root_id i)))"

section \<open>Decisions\<close>

text \<open>
  Calling a method with keyword arguments: one the signature does not have is a \<open>TypeError\<close> before the
  body runs. \<open>VermythTools.tool_decide\<close> has no parameter for the policy model, which the command passes.
\<close>

definition with_keywords :: "string list \<Rightarrow> string list \<Rightarrow> ('s, 'a) op \<Rightarrow> ('s, 'a) op" where
  "with_keywords parameters passed m =
     (case filter (\<lambda>k. k \<notin> set parameters) passed of
        [] \<Rightarrow> m
      | k # _ \<Rightarrow> raise_exc (TypeError (''got an unexpected keyword argument '' @ repr_str k)))"

definition decide_passes :: "string list" where
  "decide_passes =
     [''intent'', ''aspects'', ''vector'', ''parent_cast_id'', ''causal_root_cast_id'', ''policy_model'',
      ''tuned_thresholds_path'']"

text \<open>\<open>dict_of\<close> is the facade's \<open>_cast_result_to_dict\<close>, over the reports of the tools.\<close>

definition show_decision ::
  "(string \<Rightarrow> string) \<Rightarrow> (cast_result \<Rightarrow> (string, json) dict) \<Rightarrow> policy_decision \<times> cast_result
     \<Rightarrow> 's command" where
  "show_decision fill dict_of = (\<lambda>(d, r).
     obind (say (''Decision: '' @ enum_name action_members (pd_action d))) (\<lambda>_.
     obind (say (''Rationale: '' @ pd_rationale d)) (\<lambda>_.
     obind (say []) (\<lambda>_.
     obind (lift (format_cast_result fill (JObj (dict_of r)))) (\<lambda>line.
     obind (say line) (\<lambda>_. ret None))))))"

definition cmd_decide ::
  "event_out \<Rightarrow> stamp \<Rightarrow> engine \<Rightarrow> (real \<Rightarrow> real) \<Rightarrow> (string \<Rightarrow> policy_thresholds result) \<Rightarrow> string \<Rightarrow> int \<Rightarrow> string \<Rightarrow> stamp
     \<Rightarrow> stamp list \<Rightarrow> decide_args \<Rightarrow> (string \<Rightarrow> string) \<Rightarrow> (cast_result \<Rightarrow> (string, json) dict)
     \<Rightarrow> decide_state facade command" where
  "cmd_decide K ev E mexp read_thresholds did now branch_id st stamps a fill dict_of =
     except_exit (\<lambda>e. if is_key_error e then Some (''Cast not found: '' @ str_exc e) else prints_exc value_or_runtime e)
       (obind (call (with_keywords facade_decide_parameters decide_passes
          (facade_decide K ev E mexp read_thresholds did now branch_id st stamps a))) (show_decision fill dict_of))"

text \<open>The command \<open>decide\<close> always ends in a traceback, and decides nothing, whatever the tool would do.\<close>

lemma decide_always_fails:
  "\<exists>m. cmd_decide K ev E mexp thr did now b st stamps a fill dict_of S = (Inl (TypeError m), S)"
proof -
  have "filter (\<lambda>k. k \<notin> set facade_decide_parameters) decide_passes = [''policy_model'', ''tuned_thresholds_path'']"
    by code_simp
  then show ?thesis
    by (simp add: cmd_decide_def with_keywords_def except_exit_def obind_def call_def raise_exc_def prints_exc_def
        value_or_runtime_def)
qed

section \<open>Programs\<close>

text \<open>Files and the documents in them: \<open>read_text\<close>, \<open>json.loads\<close> and the validation of the model.\<close>

record files =
  fl_read :: "string \<Rightarrow> string result"
  fl_parse :: "string \<Rightarrow> json result"

definition load_json :: "files \<Rightarrow> string \<Rightarrow> json result" where
  "load_json F path = rbind (fl_read F path) (fl_parse F)"

fun is_os_error :: "py_exc \<Rightarrow> bool" where
  "is_os_error (FileNotFoundError _) = True"
| "is_os_error _ = False"

definition file_or_value :: "py_exc \<Rightarrow> bool" where
  "file_or_value e \<longleftrightarrow> is_os_error e \<or> is_value_error e"

definition compiled_json :: "(int \<Rightarrow> string) \<Rightarrow> semantic_program \<times> validation_report \<Rightarrow> json" where
  "compiled_json isof = (\<lambda>(p, rep).
     case program_to_dict isof p of
       JObj d \<Rightarrow> JObj (d @ [(''validation'', JObj
         [(''ok'', JBool (vr_errors rep = [])), (''errors'', strs_json (vr_errors rep)),
          (''warnings'', strs_json (vr_warnings rep))])])
     | j \<Rightarrow> j)"

definition cmd_compile_program ::
  "files \<Rightarrow> (json \<Rightarrow> semantic_program result) \<Rightarrow> (int \<Rightarrow> string) \<Rightarrow> int \<Rightarrow> string \<Rightarrow> program_db command" where
  "cmd_compile_program F validate isof now path =
     except_exit (prints_exc file_or_value)
       (show_result (\<lambda>c. printed (compiled_json isof c))
          (obind (lift (load_json F path)) (\<lambda>payload.
           obind (lift (validate payload)) (\<lambda>p. call (tool_compile_program now p)))))"

definition cmd_execute_program ::
  "event_out \<Rightarrow> stamp \<Rightarrow> engine \<Rightarrow> (real \<Rightarrow> real) \<Rightarrow> exec_env \<Rightarrow> (int \<Rightarrow> string) \<Rightarrow> int \<Rightarrow> string
     \<Rightarrow> program_db facade command" where
  "cmd_execute_program K ev E mexp env isof now program_id =
     except_exit (missing_or (''Program not found: '' @ program_id) is_runtime_error)
       (show_result (\<lambda>x. printed (execution_to_dict isof x)) (call (facade_execute_program K ev E mexp env now program_id)))"

definition cmd_program_status :: "(int \<Rightarrow> string) \<Rightarrow> string \<Rightarrow> program_db command" where
  "cmd_program_status isof program_id =
     except_exit (missing_or (''Program not found: '' @ program_id) (\<lambda>_. False))
       (show_result printed (ask (tool_program_status isof program_id)))"

definition cmd_list_programs :: "(int \<Rightarrow> string) \<Rightarrow> int \<Rightarrow> program_db command" where
  "cmd_list_programs isof limit = show_result (\<lambda>ps. printed (JList ps)) (ask (tool_list_programs isof limit))"

definition cmd_execution_status :: "(int \<Rightarrow> string) \<Rightarrow> string \<Rightarrow> program_db command" where
  "cmd_execution_status isof execution_id =
     except_exit (missing_or (''Execution not found: '' @ execution_id) (\<lambda>_. False))
       (show_result printed (ask (tool_execution_status isof execution_id)))"

definition cmd_execution_receipt :: "(int \<Rightarrow> string) \<Rightarrow> string \<Rightarrow> program_db command" where
  "cmd_execution_receipt tz execution_id =
     except_exit (missing_or (''Execution receipt not found: '' @ execution_id) (\<lambda>_. False))
       (show_result printed (ask (tool_execution_receipt tz execution_id)))"

text \<open>Exit status 1 when the receipt is not valid. \<open>env_key\<close> is the key in the environment.\<close>

definition cmd_receipt_verify ::
  "files \<Rightarrow> signing_env \<Rightarrow> (json \<Rightarrow> execution_receipt result) \<Rightarrow> string option \<Rightarrow> string \<Rightarrow> string option
     \<Rightarrow> 's command" where
  "cmd_receipt_verify F sg validate env_key path pem_path =
     except_exit (prints_exc file_or_value)
       (obind (lift (load_json F path)) (\<lambda>receipt.
        obind (lift (case nonempty pem_path of
                       Some p \<Rightarrow> rbind (fl_read F p) (\<lambda>t. Inr (Some t))
                     | None \<Rightarrow> Inr (nonempty env_key))) (\<lambda>pem.
        obind (lift (tool_verify_execution_receipt sg validate receipt pem)) (\<lambda>out.
        obind (say (py_str out)) (\<lambda>_.
        obind (lift (field out ''valid'' JNull)) (\<lambda>v.
        ret (if truthy v then None else Some 1)))))))"

section \<open>Swarms, channels and observability\<close>

definition cmd_swarm_join :: "registry \<Rightarrow> int \<Rightarrow> string \<Rightarrow> string \<Rightarrow> real \<Rightarrow> tool_state command" where
  "cmd_swarm_join R now swarm_id session_id threshold =
     except_exit (prints_exc is_value_error)
       (show_result printed (call (tool_swarm_join R now swarm_id session_id threshold)))"

definition cmd_swarm_cast ::
  "engine \<Rightarrow> (real \<Rightarrow> real) \<Rightarrow> fresh \<Rightarrow> string \<Rightarrow> string \<Rightarrow> real list \<Rightarrow> intent_args \<Rightarrow> real option
     \<Rightarrow> tool_state command" where
  "cmd_swarm_cast E mexp fr swarm_id session_id xs a threshold =
     except_exit (prints_exc (\<lambda>e. is_value_error e \<or> is_key_error e))
       (show_result printed (call (tool_swarm_cast E mexp fr swarm_id session_id xs a threshold)))"

definition cmd_swarm_status :: "string \<Rightarrow> tool_state command" where
  "cmd_swarm_status swarm_id =
     except_exit (missing_or (''Swarm not found: '' @ swarm_id) (\<lambda>_. False))
       (show_result printed (ask (tool_swarm_status swarm_id)))"

definition cmd_gossip_sync :: "files \<Rightarrow> gossip_env \<Rightarrow> (nat \<Rightarrow> string) \<Rightarrow> string \<Rightarrow> gossip_db command" where
  "cmd_gossip_sync F env ids path =
     except_exit (prints_exc file_or_value)
       (show_result printed (obind (lift (load_json F path)) (\<lambda>payload. call (tool_gossip_sync env ids payload))))"

definition cmd_channel :: "(int \<Rightarrow> string) \<Rightarrow> string \<Rightarrow> cast_state command" where
  "cmd_channel isof branch =
     except_exit (missing_or (''Channel not found: '' @ branch) (\<lambda>_. False))
       (show_result printed (ask (tool_channel_status isof branch)))"

definition cmd_sync :: "engine \<Rightarrow> (int \<Rightarrow> string) \<Rightarrow> int \<Rightarrow> string \<Rightarrow> cast_state command" where
  "cmd_sync E isof now branch =
     except_exit (missing_or (''Channel not found: '' @ branch) (\<lambda>_. False))
       (show_result printed (call (tool_sync_channel E isof now branch)))"

definition cmd_events :: "(int \<Rightarrow> string) \<Rightarrow> int \<Rightarrow> string option \<Rightarrow> 's facade command" where
  "cmd_events isof tail_n event_type =
     show_result (\<lambda>rows. Inr (json_indented 0 (JList rows))) (ask (\<lambda>A. Inr (tool_events_tail isof tail_n event_type (fa_bus A))))"

text \<open>The adoption report: as JSON, or as a summary with at most 12 findings.\<close>

definition labelled :: "string \<Rightarrow> json \<Rightarrow> string \<Rightarrow> ('s shell, unit) op" where
  "labelled label r k = say (label @ '' '' @ py_str (case jget r k of None \<Rightarrow> JNull | Some v \<Rightarrow> v))"

definition say_finding :: "json \<Rightarrow> ('s shell, unit) op" where
  "say_finding f =
     obind (lift (field f ''severity'' JNull)) (\<lambda>s.
     obind (lift (field f ''message'' JNull)) (\<lambda>m.
     say (''   - ['' @ py_str s @ ''] '' @ py_str m)))"

definition warn :: "string \<Rightarrow> ('s shell, unit) op" where
  "warn line = modify (\<lambda>S. S\<lparr>sh_err := sh_err S @ [line]\<rparr>)"

definition cmd_bundle_report :: "json result \<Rightarrow> bool \<Rightarrow> 's command" where
  "cmd_bundle_report report as_json =
     obind (lift report) (\<lambda>r.
     if as_json then obind (say (json_indented 0 r)) (\<lambda>_. ret None)
     else if \<not> truthy (case jget r ''telemetry_enabled'' of None \<Rightarrow> JNull | Some v \<Rightarrow> v) then
       obind (warn (''Telemetry is disabled. Set VERMYTH_BUNDLE_TELEMETRY=1 and exercise '' @
                    ''recommend/inspect/invoke paths, then re-run.'')) (\<lambda>_.
       obind (say (json_indented 0 r)) (\<lambda>_. ret None))
     else
       obind (say ''Bundle adoption report (local, approximate ratios)'') (\<lambda>_.
       obind (labelled ''  totals:'' r ''totals_by_event_type'') (\<lambda>_.
       obind (labelled ''  top recommended:'' r ''top_by_recommended'') (\<lambda>_.
       obind (labelled ''  top invoked:'' r ''top_by_invoked'') (\<lambda>_.
       obind (labelled ''  top missed:'' r ''top_by_missed'') (\<lambda>_.
       obind (lift (elements (either (case jget r ''findings'' of None \<Rightarrow> JNull | Some v \<Rightarrow> v) (JList [])))) (\<lambda>fs.
       obind (if fs = [] then say ''  findings: (none)''
              else obind (say ''  findings:'') (\<lambda>_. obind (omap_list say_finding (take 12 fs)) (\<lambda>_. ret ()))) (\<lambda>_.
       obind (say (newline @ ''Full JSON: vermyth arcane-bundle-report --json'')) (\<lambda>_. ret None)))))))))"

end
