(* ===== verification/Spec2Isabelle.thy ===== *)
theory Spec2Isabelle
  imports Cli
begin

text \<open>
  Vermyth: a verification development of the engine, the grimoire, the tools and the servers.

  The program.  Vermyth casts intents: an intent and a set of aspects (or a semantic vector) are
  composed into a sigil (\<open>engine/composition.py\<close>), the sigil is scored against the intent
  (\<open>engine/resonance.py\<close>, \<open>engine/operations/cast.py\<close>, \<open>intent.py\<close>), and the verdict makes a
  cast.  Casts form chains, channels and swarms (\<open>engine/operations/casting.py\<close>, \<open>swarm.py\<close>,
  \<open>drift.py\<close>), accumulate into glyph seeds that crystallise into sigils (\<open>seeds.py\<close>), are linked by
  causal edges (\<open>causal.py\<close>) and judged by policy models (\<open>engine/policy\<close>, \<open>decisions.py\<close>).  The
  grimoire (\<open>grimoire/repositories\<close>) keeps them in SQL tables, the tools (\<open>mcp/tools\<close>) are the
  operations a client calls, and sessions (\<open>protocol/session_codec.py\<close>, \<open>mcp/tools/session.py\<close>)
  carry tool calls in numbered, signed packets.  Named bundles (\<open>arcane\<close>) expand a short reference to a
  full tool call.  Calls arrive over JSON-RPC lines or binary frames (\<open>mcp/server.py\<close>), HTTP
  (\<open>adapters/http.py\<close>) and A2A tasks (\<open>adapters/a2a\<close>), each of which expands the bundle, checks the
  tool scope and the capability token, and runs the handler of the dispatch table.

  The theories, in the order of their imports, all under \<open>src/vermyth\<close>:
    Prelude      exceptions as values (\<open>py_exc\<close>, \<open>'a result\<close>), stateful operations (\<open>op\<close>),
                 ordered dictionaries, JSON values, strings.
    PyFloat      doubles as reals with rounding to nearest even after every operation (\<open>fl\<close>),
                 their laws, and decimal formatting.
    Aspects      \<open>AspectID\<close>, registered aspects, \<open>registry.py\<close>, \<open>engine/keys.py\<close>.
    Vectors      \<open>SemanticVector\<close>, cosine similarity, basis upsampling, divergence reports.
    Digest       SHA-256, HMAC and base64 on bytes; JsonText: the canonical JSON text.
    SessionCodec \<open>protocol/session_codec.py\<close>: proofs, packets, responses, gossip signatures.
    Sessions     \<open>grimoire/repositories/sessions.py\<close> and the session tools, as operations on a state
                 with the session, packet, response, checkpoint and fork tables.
    Schema       the models of \<open>schema/_legacy.py\<close> the engine uses, as records with their validators.
    Composition  \<open>engine/composition.py\<close>: the sigil table, compose and interpolate.
    Resonance    \<open>engine/resonance.py\<close>, \<open>operations/cast.py\<close>, \<open>operations/intent.py\<close>: evaluation.
    Casting      \<open>operations/casting.py\<close>, \<open>swarm.py\<close>, \<open>drift.py\<close>, \<open>seeds.py\<close>.
    HeapQ        \<open>heapq.heappush\<close> and \<open>heapq.heapreplace\<close> of the standard library.
    CastStore    \<open>grimoire/repositories/casts.py\<close>: rows, queries, the semantic search.
    Causal       \<open>operations/causal.py\<close>, the causal repository and \<open>mcp/tools/causal.py\<close>.
    Stores       the channel, seed, crystallized-sigil, divergence and swarm repositories, as
                 instances of one contract (\<open>keyed_store\<close>).
    Policy       scorers, policy models, \<open>operations/decisions.py\<close>, the decision repository and tool.
    Programs     semantic programs: their schema, \<open>operations/program_validation.py\<close> and
                 \<open>operations/programs.py\<close> (compilation in execution order, gates, merges, retries,
                 rollback, receipts), the program and receipt repositories and \<open>mcp/tools/programs.py\<close>.
    CastTools    \<open>mcp/tools/casting/_legacy.py\<close>: the four casting tools over the tables they read and
                 write, geometric packets (\<open>mcp/geometric.py\<close>), the arcane transcript.
    Genesis      the registry, basis-version and genesis repositories, \<open>operations/genesis.py\<close>, the
                 registry and genesis tools, and the restart of \<open>bootstrap.py\<close>.
    GrimoireTools \<open>mcp/tools/query.py\<close>, \<open>seeds.py\<close>, \<open>drift.py\<close>, \<open>swarm.py\<close>: queries, lineages and
                 their drift, channels, thresholds and swarms, with the serialisers of \<open>facade.py\<close>.
    Arcane       \<open>arcane/types.py\<close>, \<open>bundles.py\<close>, \<open>compiler.py\<close>, \<open>invoke.py\<close>, \<open>discovery.py\<close>,
                 \<open>recommend.py\<close> and \<open>mcp/tools/arcane.py\<close>: wards, rituals, templates, the expansion of
                 bundle references, the catalogue and the recommendations.
    Server       \<open>mcp/server.py\<close>, \<open>protocol.py\<close>, \<open>binary_transport.py\<close>, the tool scope of
                 \<open>mcp/tools/facade.py\<close>, \<open>observability.py\<close>: requests, frames, events.
    Projection   \<open>engine/projection_backends.py\<close>: the local, language-model, fallback and embedding
                 backends and their choice.
    Gateway      \<open>adapters/a2a\<close> (tokens, gateway, executor), \<open>adapters/auth.py\<close>, \<open>adapters/http.py\<close>.
    Telemetry    \<open>arcane/bundle_telemetry.py\<close>, \<open>bundle_adoption_report.py\<close>, and the expansion of calls
                 with its recording.
    Receipts     \<open>receipt_signing.py\<close>, the documents of \<open>mcp/tools/programs.py\<close>, the merging of gossip
                 (\<open>grimoire/repositories/swarm.py\<close>).
    Facade       \<open>mcp/tools/facade.py\<close>: the methods that emit events, over the tools and the bus.
    CliFormat    \<open>cli/format.py\<close>: the bar, the text of a cast, the tables.
    Cli          \<open>cli/commands\<close> and \<open>cli/main.py\<close>: the commands over a shell of printed texts, error
                 messages and an exit status; those whose tool emits an event run the facade's method.

  Conventions.  A class is a record with the source's fields and a constructor \<open>mk_...\<close> that applies
  its declared constraints; a pydantic validation error is a \<open>ValueError\<close>.  A frozenset of aspects
  is a list without duplicates in iteration order.  A table is an ordered dictionary from its key to
  its row, with the foreign keys and unique constraints of the migrations as checks.  Fresh ULIDs,
  the clock and the random source are arguments of the operations that use them (\<open>stamp\<close> is an id
  with a time in microseconds).  A method that changes state returns the state also when it raises.
  \<open>sum\<close> adds doubles from the left, as Python up to 3.11 does.  Overflow to infinity and NaN are
  outside the float model; sums and products stay far from them on unit-range data.

  What is a parameter.  The projection backend of an engine (\<open>eg_backend\<close>; the theory Projection
  supplies the repository's own), the exponential of the C library (\<open>mexp\<close>, only required to be
  non-negative where a property needs it), the reading of a file of tuned thresholds, \<open>json.loads\<close> (which
  may raise more than a \<open>JSONDecodeError\<close>) and URL parsing on requests, the event file and the subscribers
  of the bus (whether they raise), \<open>textwrap.fill\<close>, the validation of documents by pydantic where the document is not a record
  of the model, Ed25519, JWT, the completion of prompts and the embedding of texts.  The dispatch tables
  of the servers and of session packets are parameters too, so that their theorems hold for every set
  of tools.

  What the lemmas show.  Sessions: no packet is applied twice, replay, forks and rewinds included;
  proofs bind the header; encoded packets are accepted.  Engine: evaluation is total and consistent,
  a HARD contradiction is never COHERENT nor allowed, chains are linked and stop within their depth
  (\<open>auto_cast\<close> recurses on the list of stamps, one per allowed step).  Storage: what was written
  reads back, up to documented losses; search returns the best matches; the subgraph query is bounded
  reachability, with the queue bounded by the edges met (\<open>bfs_loop\<close> terminates by a measure).
  Policy: the actions are characterised, effects only restrict, the decide tool is atomic.
  Programs: compilation succeeds exactly on acyclic graphs; an execution of typed conditions ends with
  receipts, unless denied warnings or the signing stop it.
  Tools: no sequence of casting calls stores a cast that cannot be read back; a failing call of the
  cast tool stores no cast.  Registry: a restart restores exactly the registry, but not the sigils
  once one was overridden.  Bundles: wards only restrict; an expanded call carries exactly the
  reference its template brings, in general none, and then does not expand again.
  Servers: up to the first line that cannot be read every request line is answered exactly once,
  whatever the tools raise, and so is every frame of a handled type up to a packet that is no object
  (the binary server terminates by the length of its input); the tools change only by
  runs of handlers that the scope allows, gossip and edge frames excepted.  Gateway: when tokens are
  required - they are not by default - tools run only under a verified one; completed tasks are
  answered alike for ever; a POST is answered unless its authorization or its length cannot be read,
  and then nothing has run.  Projection: the local backend fits the engine; the cache of embeddings is invisible.
  Interfaces are locales, interpreted on the model's own operations: the repositories (\<open>keyed_store\<close>),
  the proofs of packets (\<open>proof_provider\<close>), every place where calls reach the tools (\<open>tool_surface\<close>:
  lines, frames, POST requests, tasks, agent invocations) and the projection backends
  (\<open>sized_backend\<close>, \<open>total_backend\<close>), the casting tools as the commands see them (\<open>casting_tool\<close>).
  Telemetry changes no result when missed-bundle detection is off.  Commands: casting ends with the
  exit status the stored report asks for, or with the exception of an event file that cannot be
  written, after the cast was stored; backfilling classifies every pair it can.
  State machines are inductive step relations over the tool calls (\<open>session_step\<close>, \<open>graph_step\<close>,
  \<open>tool_step\<close>, \<open>genesis_step\<close>, \<open>tool_effect\<close>, \<open>embed_run\<close>, \<open>counted\<close>) with invariants by rule induction.

  Not modelled: sockets, streams, threads and their errors (a handler maps a request to its answer),
  argparse and the table of aspects with its symbols (\<open>cli\<close>), the wiring of third-party servers
  (\<open>adapters/a2a/sdk_factory.py\<close>), SQL execution itself (each statement is translated to its effect on
  the tables), the JSON schemas of the tools, the abstract contracts (\<open>contracts\<close>), and the delegating
  methods of the facades (\<open>grimoire/store.py\<close>, \<open>engine/resonance.py\<close>, and those of
  \<open>mcp/tools/facade.py\<close> that emit nothing), whose calls are made directly.
\<close>

end
